(* ===== verification/Hub_Prelude.thy ===== *)
theory Hub_Prelude
  imports Complex_Main "HOL-Library.Word" "HOL-Library.Code_Target_Nat" "HOL-Library.AList"
    "HOL-Library.Sublist" "HOL-Library.Char_ord" "HOL-Library.List_Lexorder" "HOL-Library.Product_Lexorder"
begin

text \<open>
  The prelude of the development: the value types every component shares (identifiers,
  instants, decimal numbers, text), results with an error case, dictionaries that keep
  insertion order, and the operations of Python's \<open>str\<close> type that the modelled code uses.

  Conventions.
  \<^item> A \<open>UUID\<close> is the 128-bit number it is in Python.
  \<^item> An aware \<open>datetime\<close> is its number of microseconds since the epoch in UTC, the
    resolution Python gives it, so comparison and \<open>timedelta\<close> arithmetic are exact.
  \<^item> A \<open>Decimal\<close> or \<open>float\<close> is the rational number it denotes; the components that
    compute with floats say what this leaves out.
  \<^item> Text is a list of characters, each a code point below 256.
  \<^item> A call that may raise returns \<open>'e + 'a\<close>: \<open>Inl\<close> the exception, \<open>Inr\<close> the value.
\<close>

section \<open>Identifiers, instants, numbers\<close>

type_synonym uuid = "128 word"
type_synonym instant = int
type_synonym decimal = rat
type_synonym pyfloat = rat

section \<open>Results\<close>

fun res_bind :: "'e + 'a \<Rightarrow> ('a \<Rightarrow> 'e + 'b) \<Rightarrow> 'e + 'b" where
  "res_bind (Inl e) f = Inl e"
| "res_bind (Inr a) f = f a"

definition require :: "bool \<Rightarrow> 'e \<Rightarrow> 'e + unit" where
  "require b e = (if b then Inr () else Inl e)"

lemma res_bind_Inr_iff [simp]:
  "res_bind r f = Inr b \<longleftrightarrow> (\<exists>a. r = Inr a \<and> f a = Inr b)"
  by (cases r) auto

lemma res_bind_Inl_iff:
  "res_bind r f = Inl e \<longleftrightarrow> r = Inl e \<or> (\<exists>a. r = Inr a \<and> f a = Inl e)"
  by (cases r) auto

lemma require_Inr [simp]: "require b e = Inr u \<longleftrightarrow> b"
  by (simp add: require_def)

lemma require_Inl [simp]: "require b e = Inl e' \<longleftrightarrow> \<not> b \<and> e' = e"
  by (auto simp: require_def)

lemma require_True [simp]: "require True e = Inr ()"
  by (simp add: require_def)

lemma require_False [simp]: "require False e = Inl e"
  by (simp add: require_def)

section \<open>Dictionaries\<close>

text \<open>
  A Python \<open>dict\<close> keeps insertion order and the modelled code iterates over it, so it is
  an association list: \<open>map_of\<close> looks a key up, \<open>AList.update\<close> assigns in place or
  appends, \<open>AList.delete\<close> removes. \<open>dict_ok\<close> is what the type guarantees: no key twice.
\<close>

definition dict_ok :: "('k \<times> 'v) list \<Rightarrow> bool" where
  "dict_ok d \<longleftrightarrow> distinct (map fst d)"

lemma dict_ok_Nil [simp]: "dict_ok []"
  by (simp add: dict_ok_def)

lemma dict_ok_update [simp]: "dict_ok d \<Longrightarrow> dict_ok (AList.update k v d)"
  by (simp add: dict_ok_def distinct_update)

lemma dict_ok_delete [simp]: "dict_ok d \<Longrightarrow> dict_ok (AList.delete k d)"
  by (simp add: dict_ok_def distinct_delete)

lemma dict_ok_filter [simp]: "dict_ok d \<Longrightarrow> dict_ok (filter P d)"
  by (induction d) (auto simp: dict_ok_def)

lemma dict_get_update [simp]:
  "map_of (AList.update k v d) k' = (if k' = k then Some v else map_of d k')"
  by (simp add: update_conv')

lemma dict_get_delete [simp]:
  "map_of (AList.delete k d) k' = (if k' = k then None else map_of d k')"
  by (simp add: delete_conv')

lemma dict_mem_iff: "dict_ok d \<Longrightarrow> (k, v) \<in> set d \<longleftrightarrow> map_of d k = Some v"
  by (simp add: dict_ok_def)

lemma dict_update_mem:
  "dict_ok d \<Longrightarrow> (k', v') \<in> set (AList.update k v d) \<longleftrightarrow>
    (if k' = k then v' = v else (k', v') \<in> set d)"
  by (auto simp: dict_mem_iff)

lemma dict_delete_mem:
  "dict_ok d \<Longrightarrow> (k', v') \<in> set (AList.delete k d) \<longleftrightarrow> k' \<noteq> k \<and> (k', v') \<in> set d"
  by (auto simp: dict_mem_iff)

section \<open>Text\<close>

subsection \<open>Splitting and joining\<close>

fun split_on :: "'a \<Rightarrow> 'a list \<Rightarrow> 'a list list" where
  "split_on c [] = [[]]"
| "split_on c (x # xs) =
     (if x = c then [] # split_on c xs
      else (case split_on c xs of [] \<Rightarrow> [[x]] | p # ps \<Rightarrow> (x # p) # ps))"

fun join_with :: "'a \<Rightarrow> 'a list list \<Rightarrow> 'a list" where
  "join_with c [] = []"
| "join_with c [p] = p"
| "join_with c (p # q # ps) = p @ c # join_with c (q # ps)"

lemma split_on_not_Nil [simp]: "split_on c xs \<noteq> []"
  by (induction xs) (auto split: list.splits)

lemma split_on_no_sep: "p \<in> set (split_on c xs) \<Longrightarrow> c \<notin> set p"
  by (induction xs arbitrary: p) (auto split: list.splits if_splits)

lemma split_on_chars: "p \<in> set (split_on c xs) \<Longrightarrow> set p \<subseteq> set xs"
proof (induction xs arbitrary: p)
  case Nil
  then show ?case by simp
next
  case (Cons x xs)
  show ?case
  proof (cases "x = c")
    case True
    with Cons show ?thesis by auto
  next
    case False
    obtain q qs where q: "split_on c xs = q # qs" by (cases "split_on c xs") auto
    with Cons.IH have "\<forall>r \<in> set (q # qs). set r \<subseteq> set xs" by auto
    with Cons.prems False q show ?thesis by auto
  qed
qed

lemma split_on_append_sep:
  "c \<notin> set p \<Longrightarrow> split_on c (p @ c # xs) = p # split_on c xs"
  by (induction p) auto

lemma split_on_single: "c \<notin> set p \<Longrightarrow> split_on c p = [p]"
  by (induction p) auto

lemma split_on_join:
  "ps \<noteq> [] \<Longrightarrow> (\<forall>p \<in> set ps. c \<notin> set p) \<Longrightarrow> split_on c (join_with c ps) = ps"
  by (induction c ps rule: join_with.induct) (auto simp: split_on_append_sep split_on_single)

lemma join_with_Cons:
  "join_with c (p # ps) = (if ps = [] then p else p @ c # join_with c ps)"
  by (cases ps) auto

lemma join_split [simp]: "join_with c (split_on c xs) = xs"
proof (induction xs)
  case (Cons x xs)
  obtain q qs where "split_on c xs = q # qs" by (cases "split_on c xs") auto
  with Cons.IH show ?case by (cases qs) auto
qed simp

lemma join_append:
  "as \<noteq> [] \<Longrightarrow> bs \<noteq> [] \<Longrightarrow> join_with c (as @ bs) = join_with c as @ c # join_with c bs"
  by (induction as) (auto simp: join_with_Cons)

lemma split_append: "split_on c (q @ c # zs) = split_on c q @ split_on c zs"
  by (induction q) (auto split: list.splits)

lemma set_join_with:
  "set (join_with c ps) \<subseteq> insert c (\<Union>p \<in> set ps. set p)"
  by (induction c ps rule: join_with.induct) auto

subsection \<open>Substrings and padding\<close>

definition starts_with :: "'a list \<Rightarrow> 'a list \<Rightarrow> bool" where
  "starts_with p xs \<longleftrightarrow> take (length p) xs = p"

lemma starts_with_append [simp]: "starts_with p (p @ xs)"
  by (simp add: starts_with_def)

lemma starts_with_iff: "starts_with p xs \<longleftrightarrow> (\<exists>ys. xs = p @ ys)"
  unfolding starts_with_def by (metis append_eq_conv_conj)

fun contains_text :: "'a list \<Rightarrow> 'a list \<Rightarrow> bool" where
  "contains_text p [] \<longleftrightarrow> p = []"
| "contains_text p (x # xs) \<longleftrightarrow> starts_with p (x # xs) \<or> contains_text p xs"

lemma contains_text_iff: "contains_text p xs \<longleftrightarrow> (\<exists>us vs. xs = us @ p @ vs)"
proof (induction xs)
  case Nil
  then show ?case by auto
next
  case (Cons x xs)
  show ?case
  proof
    assume "contains_text p (x # xs)"
    then show "\<exists>us vs. x # xs = us @ p @ vs"
    proof (cases "starts_with p (x # xs)")
      case True
      then show ?thesis by (metis starts_with_iff append_Nil)
    next
      case False
      with \<open>contains_text p (x # xs)\<close> Cons.IH obtain us vs where "xs = us @ p @ vs"
        by auto
      then have "x # xs = (x # us) @ p @ vs" by simp
      then show ?thesis by blast
    qed
  next
    assume "\<exists>us vs. x # xs = us @ p @ vs"
    then obtain us vs where *: "x # xs = us @ p @ vs" by blast
    show "contains_text p (x # xs)"
    proof (cases us)
      case Nil
      with * have "starts_with p (x # xs)" by (simp add: starts_with_iff)
      then show ?thesis by simp
    next
      case (Cons u us')
      with * have "xs = us' @ p @ vs" by simp
      with Cons.IH show ?thesis by auto
    qed
  qed
qed

definition lstrip_chars :: "'a list \<Rightarrow> 'a list \<Rightarrow> 'a list" where
  "lstrip_chars cs xs = dropWhile (\<lambda>x. x \<in> set cs) xs"

definition strip_chars :: "'a list \<Rightarrow> 'a list \<Rightarrow> 'a list" where
  "strip_chars cs xs = rev (lstrip_chars cs (rev (lstrip_chars cs xs)))"

text \<open>
  The characters below 256 that \<open>str.strip()\<close> removes: tab to carriage return, the four
  information separators, space, next line and no-break space.
\<close>

definition py_space :: "char \<Rightarrow> bool" where
  "py_space c \<longleftrightarrow> (let n = (of_char c :: nat) in
     (9 \<le> n \<and> n \<le> 13) \<or> (28 \<le> n \<and> n \<le> 32) \<or> n = 133 \<or> n = 160)"

definition py_strip :: "string \<Rightarrow> string" where
  "py_strip xs = rev (dropWhile py_space (rev (dropWhile py_space xs)))"

definition py_isblank :: "string \<Rightarrow> bool" where
  "py_isblank xs \<longleftrightarrow> py_strip xs = []"

definition control_char :: "char \<Rightarrow> bool" where
  "control_char c \<longleftrightarrow> (let n = (of_char c :: nat) in n < 32 \<or> n = 127)"

text \<open>Bytes of the UTF-8 encoding of a text whose code points are below 256.\<close>

definition utf8_len :: "string \<Rightarrow> nat" where
  "utf8_len xs = sum_list (map (\<lambda>c. if (of_char c :: nat) < 128 then 1 else 2) xs)"

lemma utf8_len_bounds: "length xs \<le> utf8_len xs \<and> utf8_len xs \<le> 2 * length xs"
  by (induction xs) (auto simp: utf8_len_def)

subsection \<open>Character classes of the identifier patterns\<close>

definition char_in :: "string \<Rightarrow> char \<Rightarrow> bool" where
  "char_in cs c \<longleftrightarrow> c \<in> set cs"

definition lower_alnum :: string where
  "lower_alnum = ''abcdefghijklmnopqrstuvwxyz0123456789''"

definition lower_alpha :: string where
  "lower_alpha = ''abcdefghijklmnopqrstuvwxyz''"

definition upper_alpha :: string where
  "upper_alpha = ''ABCDEFGHIJKLMNOPQRSTUVWXYZ''"

definition digits :: string where
  "digits = ''0123456789''"

text \<open>
  The pattern \<open>[H][T]{0,n}\<close>: a first character of class \<open>H\<close>, at most \<open>n\<close> more of class
  \<open>T\<close>. Every identifier pattern of the code has this form.
\<close>

definition ident_match :: "string \<Rightarrow> string \<Rightarrow> nat \<Rightarrow> string \<Rightarrow> bool" where
  "ident_match h t n xs \<longleftrightarrow>
     (case xs of [] \<Rightarrow> False
      | x # rest \<Rightarrow> x \<in> set h \<and> list_all (\<lambda>c. c \<in> set t) rest \<and> length rest \<le> n)"

end
