(* ===== verification/Run_State.thy ===== *)
theory Run_State
  imports Hub_Prelude
begin

text \<open>
  The run status machine of \<open>domain/runs.py\<close>: the task modes, the run statuses, the table
  of allowed transitions and the guarded \<open>transition\<close> function, with the step relation
  the table induces and what can be reached along it.
\<close>

section \<open>Modes and statuses\<close>

datatype task_mode = Auto | Direct | Dispatch | Discuss | Hybrid

datatype run_status =
    Queued | Planning | Waiting_User_Mode | Running | Waiting_Approval | Retrying
  | Paused | Synthesizing | Completed | Failed | Cancelled

definition all_statuses :: "run_status list" where
  "all_statuses = [Queued, Planning, Waiting_User_Mode, Running, Waiting_Approval, Retrying,
     Paused, Synthesizing, Completed, Failed, Cancelled]"

lemma all_statuses_complete [simp]: "s \<in> set all_statuses"
  by (cases s) (simp_all add: all_statuses_def)

section \<open>The transition table\<close>

fun allowed_transitions :: "run_status \<Rightarrow> run_status list" where
  "allowed_transitions Queued = [Planning, Cancelled]"
| "allowed_transitions Planning = [Waiting_User_Mode, Running, Failed, Cancelled]"
| "allowed_transitions Waiting_User_Mode = [Running, Cancelled]"
| "allowed_transitions Running =
     [Waiting_Approval, Retrying, Paused, Synthesizing, Failed, Cancelled]"
| "allowed_transitions Waiting_Approval = [Running, Cancelled, Failed]"
| "allowed_transitions Retrying = [Running, Failed, Cancelled]"
| "allowed_transitions Paused = [Running, Cancelled]"
| "allowed_transitions Synthesizing = [Completed, Failed, Cancelled]"
| "allowed_transitions Completed = []"
| "allowed_transitions Failed = []"
| "allowed_transitions Cancelled = []"

datatype transition_error = Invalid_Transition run_status run_status

definition transition :: "run_status \<Rightarrow> run_status \<Rightarrow> transition_error + run_status" where
  "transition current target =
     (if target \<notin> set (allowed_transitions current)
      then Inl (Invalid_Transition current target) else Inr target)"

definition terminal :: "run_status \<Rightarrow> bool" where
  "terminal s \<longleftrightarrow> s \<in> {Completed, Failed, Cancelled}"

lemma terminal_simps [simp]:
  "terminal Completed" "terminal Failed" "terminal Cancelled"
  "\<not> terminal Queued" "\<not> terminal Planning" "\<not> terminal Waiting_User_Mode"
  "\<not> terminal Running" "\<not> terminal Waiting_Approval" "\<not> terminal Retrying"
  "\<not> terminal Paused" "\<not> terminal Synthesizing"
  by (simp_all add: terminal_def)

lemma transition_Inr_iff [simp]:
  "transition s t = Inr u \<longleftrightarrow> t \<in> set (allowed_transitions s) \<and> u = t"
  by (auto simp: transition_def)

section \<open>The step relation of the table\<close>

inductive status_step :: "run_status \<Rightarrow> run_status \<Rightarrow> bool" where
  step: "transition s t = Inr t \<Longrightarrow> status_step s t"

inductive_simps status_step_iff: "status_step s t"

lemma status_step_allowed: "status_step s t \<longleftrightarrow> t \<in> set (allowed_transitions s)"
  by (simp add: status_step_iff)

lemma terminal_iff_stuck: "terminal s \<longleftrightarrow> \<not> (\<exists>t. status_step s t)"
  by (cases s) (auto simp: status_step_allowed)

text \<open>
  A path of the table from one status to another is the list of the statuses entered.
\<close>

fun status_path :: "run_status \<Rightarrow> run_status list \<Rightarrow> run_status \<Rightarrow> bool" where
  "status_path s [] t \<longleftrightarrow> s = t"
| "status_path s (u # us) t \<longleftrightarrow> status_step s u \<and> status_path u us t"

lemma status_path_terminal: "terminal s \<Longrightarrow> status_path s us t \<Longrightarrow> us = [] \<and> t = s"
  by (cases us) (auto simp: terminal_iff_stuck)

lemma enter_completed:
  "status_path s us Completed \<Longrightarrow> s \<noteq> Completed \<Longrightarrow> s \<noteq> Synthesizing \<Longrightarrow> Synthesizing \<in> set us"
proof (induction us arbitrary: s)
  case Nil
  then show ?case by simp
next
  case (Cons u us)
  then have u: "u \<in> set (allowed_transitions s)" by (simp add: status_step_allowed)
  show ?case
  proof (cases "u = Synthesizing")
    case False
    from u Cons.prems(3) have "u \<noteq> Completed" by (cases s) auto
    with False Cons show ?thesis by auto
  qed simp
qed

lemma enter_synthesizing:
  "status_path s us t \<Longrightarrow> Synthesizing \<in> set us \<Longrightarrow> s \<noteq> Running \<Longrightarrow> Running \<in> set us"
proof (induction us arbitrary: s)
  case Nil
  then show ?case by simp
next
  case (Cons u us)
  then have u: "u \<in> set (allowed_transitions s)" by (simp add: status_step_allowed)
  show ?case
  proof (cases "u = Running")
    case False
    from u Cons.prems(3) have "u \<noteq> Synthesizing" by (cases s) auto
    with False Cons show ?thesis by auto
  qed simp
qed

end
