(* ===== verification/Json_Value.thy ===== *)
theory Json_Value
  imports Hub_Prelude
begin

text \<open>
  JSON values as the code keeps them once validated (\<open>json\<close>), the Python objects that reach
  a validation boundary (\<open>pyobj\<close>), and \<open>json.dumps\<close> with the options the code uses
  (compact separators, \<open>ensure_ascii=False\<close>, sorted keys). The shortest decimal text of a
  float is a parameter of the encoder.
\<close>

datatype json =
    JNull | JBool bool | JInt int | JFloat pyfloat | JStr string
  | JArr "json list" | JObj "(string \<times> json) list"

text \<open>
  \<open>PNonFinite\<close> is a NaN or an infinity; \<open>POther\<close> an object of any type the code does not
  accept. A list and a tuple differ, as \<open>type(item) is list\<close> tells them apart.
\<close>

datatype pyobj =
    PNone | PBool bool | PInt int | PFloat pyfloat | PNonFinite | PStr string
  | PList "pyobj list" | PTuple "pyobj list" | PDict "(pyobj \<times> pyobj) list" | POther

section \<open>Decimal and hexadecimal text\<close>

definition digit_char :: "nat \<Rightarrow> char" where
  "digit_char n = (if n < 10 then char_of (48 + n) else char_of (87 + n))"

fun nat_text :: "nat \<Rightarrow> string" where
  "nat_text n = (if n < 10 then [digit_char n] else nat_text (n div 10) @ [digit_char (n mod 10)])"

declare nat_text.simps [simp del]

definition int_text :: "int \<Rightarrow> string" where
  "int_text i = (if i < 0 then CHR ''-'' # nat_text (nat (- i)) else nat_text (nat i))"

text \<open>The value a digit string denotes; it undoes \<open>nat_text\<close>.\<close>

definition digit_val :: "char \<Rightarrow> nat" where
  "digit_val c = (of_char c :: nat) - 48"

definition nat_value :: "string \<Rightarrow> nat" where
  "nat_value = foldl (\<lambda>acc c. 10 * acc + digit_val c) 0"

lemma of_char_digit: "n < 10 \<Longrightarrow> (of_char (digit_char n) :: nat) = 48 + n"
  by (simp add: digit_char_def)

lemma nat_value_text [simp]: "nat_value (nat_text n) = n"
proof (induction n rule: nat_text.induct)
  case (1 n)
  show ?case
  proof (cases "n < 10")
    case True
    then show ?thesis
      by (simp add: nat_text.simps [of n] nat_value_def digit_val_def of_char_digit)
  next
    case False
    with 1 have "nat_value (nat_text (n div 10)) = n div 10" by simp
    then have "nat_value (nat_text n) = 10 * (n div 10) + digit_val (digit_char (n mod 10))"
      using False by (subst nat_text.simps) (simp add: nat_value_def)
    then show ?thesis by (simp add: digit_val_def of_char_digit)
  qed
qed

lemma nat_text_inject [simp]: "nat_text m = nat_text n \<longleftrightarrow> m = n"
  by (metis nat_value_text)

lemma nat_text_digits: "c \<in> set (nat_text n) \<Longrightarrow> 48 \<le> (of_char c :: nat) \<and> (of_char c :: nat) \<le> 57"
proof (induction n rule: nat_text.induct)
  case (1 n)
  show ?case
  proof (cases "n < 10")
    case True
    with "1.prems" show ?thesis by (simp add: nat_text.simps [of n] of_char_digit)
  next
    case False
    with "1.prems" have "c \<in> set (nat_text (n div 10)) \<or> c = digit_char (n mod 10)"
      by (auto simp: nat_text.simps [of n])
    with False 1 show ?thesis by (auto simp: of_char_digit)
  qed
qed

lemma nat_text_not_Nil [simp]: "nat_text n \<noteq> []"
  by (simp add: nat_text.simps [of n])

text \<open>\<open>str(uuid)\<close>: thirty-two lower-case hexadecimal digits in five groups.\<close>

definition uuid_nibble :: "uuid \<Rightarrow> nat \<Rightarrow> nat" where
  "uuid_nibble u i = (unat u div 16 ^ (31 - i)) mod 16"

definition uuid_hex :: "uuid \<Rightarrow> string" where
  "uuid_hex u = map (\<lambda>i. digit_char (uuid_nibble u i)) [0..<32]"

definition uuid_text :: "uuid \<Rightarrow> string" where
  "uuid_text u = (let h = uuid_hex u in
     take 8 h @ ''-'' @ take 4 (drop 8 h) @ ''-'' @ take 4 (drop 12 h) @ ''-'' @
     take 4 (drop 16 h) @ ''-'' @ drop 20 h)"

lemma length_uuid_hex [simp]: "length (uuid_hex u) = 32"
  by (simp add: uuid_hex_def)

lemma length_uuid_text [simp]: "length (uuid_text u) = 36"
  by (simp add: uuid_text_def Let_def)

lemma digit_char_inject:
  assumes "m < 16" "n < 16" "digit_char m = digit_char n"
  shows "m = n"
proof -
  have *: "(of_char (digit_char k) :: nat) = (if k < 10 then 48 + k else 87 + k)" if "k < 16" for k
    using that by (simp add: digit_char_def)
  from assms(3) have "(of_char (digit_char m) :: nat) = of_char (digit_char n)" by simp
  with * [OF assms(1)] * [OF assms(2)] assms(1,2) show ?thesis
    by (simp split: if_splits)
qed

lemma nibbles_determine:
  fixes m n :: nat
  shows "(\<forall>i < k. (m div 16 ^ i) mod 16 = (n div 16 ^ i) mod 16) \<Longrightarrow> m mod 16 ^ k = n mod 16 ^ k"
proof (induction k)
  case 0
  then show ?case by simp
next
  case (Suc k)
  then have "m mod 16 ^ k = n mod 16 ^ k" and "(m div 16 ^ k) mod 16 = (n div 16 ^ k) mod 16"
    by auto
  moreover have "x mod 16 ^ Suc k = 16 ^ k * ((x div 16 ^ k) mod 16) + x mod 16 ^ k" for x :: nat
    using mod_mult2_eq [of x "16 ^ k" 16] by (simp add: mult.commute)
  ultimately show ?case by presburger
qed

lemma uuid_hex_inject [simp]: "uuid_hex u = uuid_hex v \<longleftrightarrow> u = v"
proof
  assume eq: "uuid_hex u = uuid_hex v"
  have nib: "uuid_nibble u i = uuid_nibble v i" if "i < 32" for i
  proof -
    from eq have "uuid_hex u ! i = uuid_hex v ! i" by simp
    with that have "digit_char (uuid_nibble u i) = digit_char (uuid_nibble v i)"
      by (simp add: uuid_hex_def)
    moreover have "uuid_nibble w i < 16" for w by (simp add: uuid_nibble_def)
    ultimately show ?thesis by (blast intro: digit_char_inject)
  qed
  have "(unat u div 16 ^ i) mod 16 = (unat v div 16 ^ i) mod 16" if "i < 32" for i
    using nib [of "31 - i"] that by (simp add: uuid_nibble_def)
  then have "unat u mod 16 ^ 32 = unat v mod 16 ^ 32" by (intro nibbles_determine) simp
  moreover have "unat w < 16 ^ 32" for w :: uuid
    using unsigned_less [of w] by simp
  ultimately show "u = v" by (simp add: unsigned_word_eqI)
qed simp

lemma uuid_text_inject [simp]: "uuid_text u = uuid_text v \<longleftrightarrow> u = v"
proof
  assume eq: "uuid_text u = uuid_text v"
  let ?g = "\<lambda>h. (take 8 h, take 4 (drop 8 h), take 4 (drop 12 h), take 4 (drop 16 h), drop 20 h)"
  have "?g (uuid_hex u) = ?g (uuid_hex v)"
    using eq by (simp add: uuid_text_def Let_def)
  moreover have "h = take 8 h @ take 4 (drop 8 h) @ take 4 (drop 12 h) @ take 4 (drop 16 h)
      @ drop 20 h" for h :: string
  proof -
    have "drop 8 h = take 4 (drop 8 h) @ drop 12 h"
      using append_take_drop_id [of 4 "drop 8 h"] by simp
    moreover have "drop 12 h = take 4 (drop 12 h) @ drop 16 h"
      using append_take_drop_id [of 4 "drop 12 h"] by simp
    moreover have "drop 16 h = take 4 (drop 16 h) @ drop 20 h"
      using append_take_drop_id [of 4 "drop 16 h"] by simp
    ultimately show ?thesis by (metis append_take_drop_id)
  qed
  ultimately have "uuid_hex u = uuid_hex v" by (metis prod.inject)
  then show "u = v" by simp
qed simp

text \<open>A key built from a tenant and a suffix determines both: the tenant part has fixed length.\<close>

lemma uuid_key_inject:
  "uuid_text t @ c # k = uuid_text t' @ c # k' \<longleftrightarrow> t = t' \<and> k = k'"
  using append_eq_append_conv [of "uuid_text t" "uuid_text t'" "c # k" "c # k'"] by simp

section \<open>The JSON encoder\<close>

definition json_escape_char :: "char \<Rightarrow> string" where
  "json_escape_char c = (let n = (of_char c :: nat) in
     if n = 34 then [CHR 0x5C, CHR 0x22]
     else if n = 92 then [CHR 0x5C, CHR 0x5C]
     else if n = 10 then [CHR 0x5C, CHR ''n'']
     else if n = 13 then [CHR 0x5C, CHR ''r'']
     else if n = 9 then [CHR 0x5C, CHR ''t'']
     else if n = 8 then [CHR 0x5C, CHR ''b'']
     else if n = 12 then [CHR 0x5C, CHR ''f'']
     else if n < 32 then CHR 0x5C # ''u00'' @ [digit_char (n div 16), digit_char (n mod 16)]
     else [c])"

definition json_text :: "string \<Rightarrow> string" where
  "json_text xs = [CHR 0x22] @ concat (map json_escape_char xs) @ [CHR 0x22]"

fun comma_join :: "string list \<Rightarrow> string" where
  "comma_join [] = []"
| "comma_join [x] = x"
| "comma_join (x # y # ys) = x @ '','' @ comma_join (y # ys)"

fun json_dumps :: "(pyfloat \<Rightarrow> string) \<Rightarrow> json \<Rightarrow> string" where
  "json_dumps ft JNull = ''null''"
| "json_dumps ft (JBool b) = (if b then ''true'' else ''false'')"
| "json_dumps ft (JInt i) = int_text i"
| "json_dumps ft (JFloat r) = ft r"
| "json_dumps ft (JStr s) = json_text s"
| "json_dumps ft (JArr js) = ''['' @ comma_join (map (json_dumps ft) js) @ '']''"
| "json_dumps ft (JObj kvs) =
     ''{'' @ comma_join (map snd (sort_key fst
       (map (\<lambda>(k, v). (k, json_text k @ '':'' @ json_dumps ft v)) kvs))) @ ''}''"

section \<open>Objects as dictionaries\<close>

definition json_get :: "(string \<times> json) list \<Rightarrow> string \<Rightarrow> json option" where
  "json_get d k = map_of d k"

end
