(* ===== verification/Capability_Policy.thy ===== *)
theory Capability_Policy
  imports Json_Value
begin

text \<open>
  The capability policy (\<open>capabilities/types.py\<close>, \<open>capabilities/policy.py\<close>): the request a
  runtime makes, the JSON check of its arguments, the normalisation of its resource to a
  relative path, and the rule evaluation, where the most restrictive matching rule wins and
  no matching rule means denial.
\<close>

section \<open>Requests\<close>

datatype role = Super_Admin | Admin | Operator | Viewer

datatype policy_effect = Allow | Require_Approval | Deny

record capability_request =
  cr_tenant :: uuid
  cr_user :: uuid
  cr_agent :: string
  cr_capability :: string
  cr_operation :: string
  cr_resource :: string
  cr_arguments :: "(string \<times> json) list"
  cr_idempotency_key :: string
  cr_run :: uuid

definition printable_unpadded :: "string \<Rightarrow> bool" where
  "printable_unpadded v \<longleftrightarrow> v = py_strip v \<and> \<not> list_ex control_char v"

text \<open>The field constraints of the request model, with the length bounds of its fields.\<close>

definition request_ok :: "capability_request \<Rightarrow> bool" where
  "request_ok r \<longleftrightarrow>
     ident_match lower_alnum (lower_alnum @ ''_-'') 127 (cr_agent r)
   \<and> ident_match lower_alpha (lower_alnum @ ''_-'') 127 (cr_capability r)
   \<and> ident_match lower_alpha (lower_alnum @ ''_-'') 127 (cr_operation r)
   \<and> 1 \<le> length (cr_resource r) \<and> length (cr_resource r) \<le> 512
   \<and> 1 \<le> length (cr_idempotency_key r) \<and> length (cr_idempotency_key r) \<le> 160
   \<and> printable_unpadded (cr_resource r) \<and> printable_unpadded (cr_idempotency_key r)"

text \<open>
  \<open>_validate_json\<close>: rejects non-finite numbers, keys that are not strings, and any other
  type (a tuple among them). A later equal key overwrites the earlier entry, as in Python.
\<close>

datatype json_error = Not_Finite | Key_Not_String | Not_Json

fun validate_json :: "pyobj \<Rightarrow> json_error + json"
and validate_items :: "pyobj list \<Rightarrow> json_error + json list"
and validate_pairs :: "(string \<times> json) list \<Rightarrow> (pyobj \<times> pyobj) list
      \<Rightarrow> json_error + (string \<times> json) list" where
  "validate_json PNone = Inr JNull"
| "validate_json (PBool b) = Inr (JBool b)"
| "validate_json (PInt i) = Inr (JInt i)"
| "validate_json (PStr s) = Inr (JStr s)"
| "validate_json (PFloat r) = Inr (JFloat r)"
| "validate_json PNonFinite = Inl Not_Finite"
| "validate_json (PList xs) = res_bind (validate_items xs) (\<lambda>js. Inr (JArr js))"
| "validate_json (PDict kvs) = res_bind (validate_pairs [] kvs) (\<lambda>d. Inr (JObj d))"
| "validate_json (PTuple xs) = Inl Not_Json"
| "validate_json POther = Inl Not_Json"
| "validate_items [] = Inr []"
| "validate_items (x # xs) =
     res_bind (validate_json x) (\<lambda>j. res_bind (validate_items xs) (\<lambda>js. Inr (j # js)))"
| "validate_pairs acc [] = Inr acc"
| "validate_pairs acc ((k, v) # kvs) =
     (case k of
        PStr s \<Rightarrow> res_bind (validate_json v) (\<lambda>j. validate_pairs (AList.update s j acc) kvs)
      | _ \<Rightarrow> Inl Key_Not_String)"

section \<open>Resource normalisation\<close>

definition slash :: char where "slash = CHR ''/''"
definition backslash :: char where "backslash = CHR 0x5C"
definition nul :: char where "nul = CHR 0x00"

text \<open>The loop over the raw path segments; \<open>parts\<close> is the list built so far.\<close>

fun resolve_segments :: "string list \<Rightarrow> string list \<Rightarrow> string list option" where
  "resolve_segments parts [] = Some parts"
| "resolve_segments parts (raw # rest) =
     (if raw = [] \<or> raw = ''.'' then resolve_segments parts rest
      else if raw = ''..'' then
        (if parts = [] then None else resolve_segments (butlast parts) rest)
      else resolve_segments (parts @ [raw]) rest)"

definition drive_prefix :: "string \<Rightarrow> bool" where
  "drive_prefix c \<longleftrightarrow> 2 \<le> length c \<and> c ! 1 = CHR '':''"

definition normalize_resource :: "string \<Rightarrow> string option" where
  "normalize_resource resource =
     (if starts_with [slash] resource \<or> starts_with [backslash] resource
         \<or> contains_text ''://'' resource then None
      else
        let candidate = map (\<lambda>c. if c = backslash then slash else c) resource in
        if drive_prefix candidate then None
        else case resolve_segments [] (split_on slash candidate) of
               None \<Rightarrow> None
             | Some parts \<Rightarrow>
                 if parts = [] then None
                 else let normalized = join_with slash parts in
                   if starts_with [slash] normalized \<or> nul \<in> set normalized then None
                   else Some normalized)"

definition plain_segment :: "string \<Rightarrow> bool" where
  "plain_segment p \<longleftrightarrow> p \<notin> {[], ''.'', ''..''} \<and> slash \<notin> set p"

lemma resolve_segments_plain:
  assumes "resolve_segments parts raws = Some out"
    and "\<forall>p \<in> set parts. plain_segment p" and "\<forall>r \<in> set raws. slash \<notin> set r"
  shows "\<forall>p \<in> set out. plain_segment p"
  using assms
proof (induction parts raws rule: resolve_segments.induct)
  case (1 parts)
  then show ?case by simp
next
  case (2 parts raw rest)
  have butlast: "\<forall>p \<in> set (butlast parts). plain_segment p"
    using "2.prems"(2) by (auto dest: in_set_butlastD)
  show ?case
  proof (cases "raw \<in> {[], ''.'', ''..''}")
    case True
    with 2 butlast show ?thesis by (auto split: if_splits simp del: insert_iff)
  next
    case False
    with "2.prems" have "plain_segment raw" by (simp add: plain_segment_def)
    with False 2 show ?thesis by simp
  qed
qed

lemma resolve_segments_fixed:
  "\<forall>r \<in> set raws. plain_segment r \<Longrightarrow> resolve_segments parts raws = Some (parts @ raws)"
  by (induction raws arbitrary: parts) (auto simp: plain_segment_def)

lemma resolve_segments_chars:
  assumes "resolve_segments parts raws = Some out"
  shows "set out \<subseteq> set parts \<union> set raws"
  using assms
proof (induction parts raws rule: resolve_segments.induct)
  case (1 parts)
  then show ?case by simp
next
  case (2 parts raw rest)
  have "set (butlast parts) \<subseteq> set parts" by (auto dest: in_set_butlastD)
  then show ?case
  proof (cases "raw \<in> {[], ''.''}")
    case True
    with 2 show ?thesis by auto
  next
    case False
    show ?thesis
    proof (cases "raw = ''..''")
      case True
      with 2 \<open>set (butlast parts) \<subseteq> set parts\<close> show ?thesis by (auto split: if_splits)
    next
      case False': False
      with False 2 show ?thesis by auto
    qed
  qed
qed

text \<open>What a successful normalisation delivers: a nonempty list of plain segments.\<close>

lemma normalize_resource_segments:
  assumes "normalize_resource r = Some n"
  shows "\<forall>p \<in> set (split_on slash n). plain_segment p" and "backslash \<notin> set n"
    and "nul \<notin> set n" and "n \<noteq> []"
proof -
  let ?c = "map (\<lambda>c. if c = backslash then slash else c) r"
  from assms obtain parts where
    parts: "resolve_segments [] (split_on slash ?c) = Some parts" "parts \<noteq> []"
      "n = join_with slash parts" "nul \<notin> set n"
    by (auto simp: normalize_resource_def Let_def split: if_splits option.splits)
  have plain: "\<forall>p \<in> set parts. plain_segment p"
    by (rule resolve_segments_plain [OF parts(1)]) (auto dest: split_on_no_sep)
  then have split: "split_on slash n = parts"
    using parts by (simp add: split_on_join plain_segment_def)
  with plain show "\<forall>p \<in> set (split_on slash n). plain_segment p" by simp
  have "backslash \<notin> set ?c" by (auto simp: slash_def backslash_def)
  moreover have "set p \<subseteq> set ?c" if "p \<in> set parts" for p
  proof -
    from resolve_segments_chars [OF parts(1)] that have "p \<in> set (split_on slash ?c)" by auto
    then show ?thesis by (rule split_on_chars)
  qed
  ultimately have "backslash \<notin> (\<Union>p \<in> set parts. set p)" by blast
  moreover have "backslash \<noteq> slash" by (simp add: slash_def backslash_def)
  ultimately show "backslash \<notin> set n"
    using set_join_with [of slash parts] parts(3) by blast
  show "nul \<notin> set n" by (rule parts(4))
  show "n \<noteq> []"
  proof
    assume "n = []"
    with split have "parts = [[]]" by simp
    with plain show False by (simp add: plain_segment_def)
  qed
qed

lemma contains_scheme_empty_segment:
  assumes "contains_text ''://'' n"
  shows "[] \<in> set (split_on slash n)"
proof -
  from assms obtain us vs where "n = (us @ [CHR '':'']) @ slash # slash # vs"
    by (auto simp: contains_text_iff slash_def)
  moreover have "[] \<in> set (tl (split_on slash (xs @ slash # slash # vs)))" for xs
    by (induction xs) (auto split: list.splits dest: list.set_sel(2) [rotated])
  ultimately show ?thesis by (metis list.set_sel(2) split_on_not_Nil)
qed

text \<open>
  Normalising a normalised resource changes nothing, except that a result whose second
  character is a colon is refused the second time.
\<close>

lemma normalize_resource_again:
  assumes "normalize_resource r = Some n"
  shows "normalize_resource n = (if drive_prefix n then None else Some n)"
proof -
  note n = normalize_resource_segments [OF assms]
  have "map (\<lambda>c. if c = backslash then slash else c) n = n"
    using n(2) by (intro map_idI) auto
  moreover have "\<not> starts_with [slash] n"
  proof
    assume "starts_with [slash] n"
    then obtain ys where "n = slash # ys" by (auto simp: starts_with_iff)
    then have "[] \<in> set (split_on slash n)" by simp
    with n(1) show False by (auto simp: plain_segment_def)
  qed
  moreover have "\<not> starts_with [backslash] n"
    using n(2) by (auto simp: starts_with_iff)
  moreover have "\<not> contains_text ''://'' n"
    using contains_scheme_empty_segment [of n] n(1) by (auto simp: plain_segment_def)
  moreover have "resolve_segments [] (split_on slash n) = Some (split_on slash n)"
    using n(1) by (simp add: resolve_segments_fixed)
  moreover have "join_with slash (split_on slash n) = n"
    by (rule join_split)
  ultimately show ?thesis
    using n(3) by (simp add: normalize_resource_def Let_def)
qed

section \<open>Rules and their evaluation\<close>

record capability_rule =
  ru_tenant :: uuid
  ru_role :: "role option"
  ru_agent :: "string option"
  ru_capability :: string
  ru_operation :: string
  ru_prefix :: string
  ru_effect :: policy_effect

datatype rule_error = Prefix_Invalid

text \<open>The rule constructor stores the normalised prefix or refuses the rule.\<close>

definition mk_rule :: "capability_rule \<Rightarrow> rule_error + capability_rule" where
  "mk_rule r = (case normalize_resource (ru_prefix r) of
      None \<Rightarrow> Inl Prefix_Invalid | Some n \<Rightarrow> Inr (r\<lparr>ru_prefix := n\<rparr>))"

definition rule_matches :: "capability_rule \<Rightarrow> capability_request \<Rightarrow> role \<Rightarrow> string \<Rightarrow> bool" where
  "rule_matches rule request r normalized \<longleftrightarrow>
     ru_tenant rule = cr_tenant request
   \<and> (ru_role rule = None \<or> ru_role rule = Some r)
   \<and> (ru_agent rule = None \<or> ru_agent rule = Some (cr_agent request))
   \<and> ru_capability rule = cr_capability request
   \<and> ru_operation rule = cr_operation request
   \<and> (normalized = ru_prefix rule \<or> starts_with (ru_prefix rule @ [slash]) normalized)"

record policy_decision =
  pd_effect :: policy_effect
  pd_resource :: string
  pd_reason :: string

fun effect_reason :: "policy_effect \<Rightarrow> string" where
  "effect_reason Allow = ''capability allowed''"
| "effect_reason Require_Approval = ''capability requires approval''"
| "effect_reason Deny = ''capability denied''"

definition combine_effects :: "policy_effect list \<Rightarrow> policy_effect" where
  "combine_effects effects =
     (if Deny \<in> set effects then Deny
      else if Require_Approval \<in> set effects then Require_Approval
      else if Allow \<in> set effects then Allow else Deny)"

definition matching_effects ::
  "capability_rule list \<Rightarrow> capability_request \<Rightarrow> role \<Rightarrow> string \<Rightarrow> policy_effect list" where
  "matching_effects rules request r n =
     map ru_effect (filter (\<lambda>rule. rule_matches rule request r n) rules)"

definition evaluate ::
  "capability_rule list \<Rightarrow> capability_request \<Rightarrow> role \<Rightarrow> policy_decision" where
  "evaluate rules request r =
     (case normalize_resource (cr_resource request) of
        None \<Rightarrow> \<lparr>pd_effect = Deny, pd_resource = [], pd_reason = ''resource denied''\<rparr>
      | Some n \<Rightarrow>
          let effect = combine_effects (matching_effects rules request r n) in
          \<lparr>pd_effect = effect, pd_resource = n, pd_reason = effect_reason effect\<rparr>)"

subsection \<open>Restrictiveness\<close>

text \<open>Effects ordered by how much they restrict, so that "the strictest" is a maximum.\<close>

fun effect_rank :: "policy_effect \<Rightarrow> nat" where
  "effect_rank Allow = 0" | "effect_rank Require_Approval = 1" | "effect_rank Deny = 2"

lemma effect_rank_inject [simp]: "effect_rank a = effect_rank b \<longleftrightarrow> a = b"
  by (cases a; cases b) auto

instantiation policy_effect :: linorder
begin

definition less_eq_policy_effect :: "policy_effect \<Rightarrow> policy_effect \<Rightarrow> bool" where
  "less_eq_policy_effect a b \<longleftrightarrow> effect_rank a \<le> effect_rank b"

definition less_policy_effect :: "policy_effect \<Rightarrow> policy_effect \<Rightarrow> bool" where
  "less_policy_effect a b \<longleftrightarrow> effect_rank a < effect_rank b"

instance
  by standard (auto simp: less_eq_policy_effect_def less_policy_effect_def)

end

lemma combine_effects_ge: "e \<in> set es \<Longrightarrow> e \<le> combine_effects es"
  by (cases e) (auto simp: combine_effects_def less_eq_policy_effect_def)

lemma combine_effects_mem: "es \<noteq> [] \<Longrightarrow> combine_effects es \<in> set es"
proof -
  assume "es \<noteq> []"
  then have hd: "hd es \<in> set es" by simp
  show ?thesis by (cases "hd es") (use hd in \<open>simp_all add: combine_effects_def\<close>)
qed

lemma combine_effects_Max:
  "es \<noteq> [] \<Longrightarrow> combine_effects es = Max (set es)"
  by (rule Max_eqI [symmetric]) (auto intro: combine_effects_ge combine_effects_mem)

text \<open>
  On resources whose segments carry no empty part, the textual prefix test is containment of
  path segments: a rule on \<open>docs\<close> covers \<open>docs/a\<close> and never \<open>docs2\<close>.
\<close>

lemma prefix_test_segments:
  "n = p \<or> starts_with (p @ [slash]) n \<longleftrightarrow> prefix (split_on slash p) (split_on slash n)"
proof
  assume "n = p \<or> starts_with (p @ [slash]) n"
  then obtain ys where "n = p \<or> n = p @ slash # ys" by (auto simp: starts_with_iff)
  then show "prefix (split_on slash p) (split_on slash n)" by (auto simp: split_append)
next
  assume "prefix (split_on slash p) (split_on slash n)"
  then obtain ys where ys: "split_on slash n = split_on slash p @ ys" by (auto simp: prefix_def)
  show "n = p \<or> starts_with (p @ [slash]) n"
  proof (cases "ys = []")
    case True
    with ys have "join_with slash (split_on slash n) = join_with slash (split_on slash p)" by simp
    then have "n = p" by (simp only: join_split)
    then show ?thesis ..
  next
    case False
    have "join_with slash (split_on slash n) =
        join_with slash (split_on slash p) @ slash # join_with slash ys"
      unfolding ys by (rule join_append) (simp_all add: False)
    then have "n = p @ slash # join_with slash ys" by (simp only: join_split)
    then show ?thesis by (simp add: starts_with_iff)
  qed
qed

section \<open>What the policy promises\<close>

text \<open>
  The rules that apply to a request, read on path segments: same tenant, capability and
  operation, role and agent unrestricted or equal, and the rule's path above the resource.
\<close>

definition covers :: "capability_rule \<Rightarrow> capability_request \<Rightarrow> role \<Rightarrow> string list \<Rightarrow> bool" where
  "covers rule q r path \<longleftrightarrow>
     ru_tenant rule = cr_tenant q \<and> ru_role rule \<in> {None, Some r}
   \<and> ru_agent rule \<in> {None, Some (cr_agent q)} \<and> ru_capability rule = cr_capability q
   \<and> ru_operation rule = cr_operation q \<and> prefix (split_on slash (ru_prefix rule)) path"

lemma rule_matches_covers:
  "rule_matches rule q r n \<longleftrightarrow> covers rule q r (split_on slash n)"
  unfolding rule_matches_def covers_def prefix_test_segments by auto

lemma set_matching_effects:
  "set (matching_effects rules q r n) =
     ru_effect ` {rule \<in> set rules. covers rule q r (split_on slash n)}"
  by (auto simp: matching_effects_def rule_matches_covers)

text \<open>
  The policy denies what it cannot normalise and what no rule covers; otherwise its verdict
  is the most restrictive effect (deny over approval over allow) among the rules whose path
  segments are an initial part of the resource's, whatever the order of the rules.
\<close>

theorem policy_takes_strictest_cover:
  "pd_effect (evaluate rules q r) =
     (case normalize_resource (cr_resource q) of
        None \<Rightarrow> Deny
      | Some n \<Rightarrow>
          let cov = {rule \<in> set rules. covers rule q r (split_on slash n)} in
          if cov = {} then Deny else Max (ru_effect ` cov))"
proof (cases "normalize_resource (cr_resource q)")
  case None
  then show ?thesis by (simp add: evaluate_def)
next
  case (Some n)
  show ?thesis
  proof (cases "matching_effects rules q r n = []")
    case True
    then have "{rule \<in> set rules. covers rule q r (split_on slash n)} = {}"
      using set_matching_effects [of rules q r n] by simp
    with Some True show ?thesis by (simp add: evaluate_def combine_effects_def Let_def)
  next
    case False
    then have "{rule \<in> set rules. covers rule q r (split_on slash n)} \<noteq> {}"
      using set_matching_effects [of rules q r n] by (metis image_empty set_empty)
    with Some False show ?thesis
      by (auto simp: evaluate_def combine_effects_Max set_matching_effects Let_def)
  qed
qed

text \<open>
  A resource the policy accepts is a nonempty relative path: none of its segments is empty,
  a dot or a double dot, and it holds neither a backslash nor a null character, so no rule can
  be escaped by climbing out of its directory.
\<close>

theorem normalized_resource_is_plain:
  assumes "normalize_resource r = Some n"
  shows "n \<noteq> [] \<and> list_all plain_segment (split_on slash n)
       \<and> backslash \<notin> set n \<and> nul \<notin> set n"
  using normalize_resource_segments [OF assms] by (simp add: list_all_iff)

lemma normalize_example: "normalize_resource ''docs//a/./b/../c'' = Some ''docs/a/c''"
  by code_simp

theorem normalized_resource_is_plain_witness:
  "list_all plain_segment (split_on slash ''docs/a/c'')"
  using normalized_resource_is_plain [OF normalize_example] by simp

text \<open>
  The drive letter test looks at the raw candidate only: a dot segment before the drive
  carries \<open>C:/x\<close> through, although the policy refuses \<open>C:/x\<close> itself. Normalisation is
  therefore not idempotent, and a rule can be stored with a prefix no rule could be given.
\<close>

theorem drive_letter_slips_through:
  "normalize_resource ''./C:/x'' = Some ''C:/x'' \<and> normalize_resource ''C:/x'' = None"
  by code_simp

end
