(* ===== verification/Runtime_Contracts.thy ===== *)
theory Runtime_Contracts
  imports Json_Value Run_State
begin

text \<open>
  The contracts every execution runtime shares (\<open>runtime/contracts.py\<close>): the bounded freezing
  of untrusted JSON, the sensitive-key scan, artifacts, checkpoints, run events with their
  per-kind field rules, and the task context.

  The text predicates are exact for code points below 256: there every text is in normal form
  NFC, the only format character is the soft hyphen, and the control characters are
  \<open>0..31\<close> and \<open>127..159\<close>. \<open>sha\<close> stands for \<open>hashlib.sha256(...).hexdigest()\<close> and \<open>ft\<close> for
  the float texts of the JSON encoder. An exception of a validator is \<open>Inl\<close> its kind and text. An integer
  of any size has a text here; CPython refuses to write one of more than 4300 digits.
\<close>

section \<open>Errors and ordered checks\<close>

datatype contract_error = Value_Error string | Type_Error string

text \<open>A validator body is a sequence of "if bad: raise"; the first bad check raises.\<close>

fun run_checks :: "(bool \<times> 'e) list \<Rightarrow> 'e + unit" where
  "run_checks [] = Inr ()"
| "run_checks ((bad, e) # cs) = (if bad then Inl e else run_checks cs)"

lemma run_checks_ok [simp]: "run_checks cs = Inr u \<longleftrightarrow> (\<forall>c \<in> set cs. \<not> fst c)"
  by (induction cs rule: run_checks.induct) auto

lemma run_checks_append:
  "run_checks (as @ bs) = res_bind (run_checks as) (\<lambda>_. run_checks bs)"
  by (induction as rule: run_checks.induct) auto

section \<open>Freezing untrusted JSON\<close>

definition max_json_depth :: nat where "max_json_depth = 20"
definition max_json_nodes :: nat where "max_json_nodes = 4096"
definition max_json_string :: nat where "max_json_string = 65536"
definition max_json_bytes :: nat where "max_json_bytes = 262144"
definition max_text_bytes :: nat where "max_text_bytes = 65536"

text \<open>
  The inner \<open>visit\<close> of \<open>_freeze_json\<close>; the counter \<open>nodes\<close> is threaded through, as the
  closure's \<open>nonlocal\<close> is. Lists and tuples both freeze to arrays.
\<close>

fun freeze_visit :: "pyobj \<Rightarrow> nat \<Rightarrow> nat \<Rightarrow> contract_error + (json \<times> nat)"
and freeze_items :: "pyobj list \<Rightarrow> nat \<Rightarrow> nat \<Rightarrow> contract_error + (json list \<times> nat)"
and freeze_pairs :: "(string \<times> json) list \<Rightarrow> (pyobj \<times> pyobj) list \<Rightarrow> nat \<Rightarrow> nat
      \<Rightarrow> contract_error + ((string \<times> json) list \<times> nat)" where
  "freeze_visit item depth nodes =
     (let nodes = nodes + 1 in
      if nodes > max_json_nodes \<or> depth > max_json_depth
      then Inl (Value_Error ''JSON value exceeds structural limits'')
      else case item of
        PNone \<Rightarrow> Inr (JNull, nodes)
      | PBool b \<Rightarrow> Inr (JBool b, nodes)
      | PInt i \<Rightarrow> Inr (JInt i, nodes)
      | PNonFinite \<Rightarrow> Inl (Value_Error ''JSON numbers must be finite'')
      | PFloat r \<Rightarrow> Inr (JFloat r, nodes)
      | PStr s \<Rightarrow>
          if utf8_len s > max_json_string
          then Inl (Value_Error ''JSON string exceeds size limit'') else Inr (JStr s, nodes)
      | PDict kvs \<Rightarrow>
          res_bind (freeze_pairs [] kvs depth nodes) (\<lambda>(d, n). Inr (JObj d, n))
      | PList xs \<Rightarrow> res_bind (freeze_items xs depth nodes) (\<lambda>(js, n). Inr (JArr js, n))
      | PTuple xs \<Rightarrow> res_bind (freeze_items xs depth nodes) (\<lambda>(js, n). Inr (JArr js, n))
      | POther \<Rightarrow> Inl (Type_Error ''value is not JSON-compatible''))"
| "freeze_items [] depth nodes = Inr ([], nodes)"
| "freeze_items (x # xs) depth nodes =
     res_bind (freeze_visit x (depth + 1) nodes) (\<lambda>(j, n).
     res_bind (freeze_items xs depth n) (\<lambda>(js, n'). Inr (j # js, n')))"
| "freeze_pairs acc [] depth nodes = Inr (acc, nodes)"
| "freeze_pairs acc ((k, v) # kvs) depth nodes =
     (case k of
        PStr key \<Rightarrow>
          if nodes + 1 > max_json_nodes
          then Inl (Value_Error ''JSON value exceeds structural limits'')
          else if utf8_len key > max_json_string
          then Inl (Value_Error ''JSON string exceeds size limit'')
          else res_bind (freeze_visit v (depth + 1) (nodes + 1)) (\<lambda>(j, n).
               freeze_pairs (AList.update key j acc) kvs depth n)
      | _ \<Rightarrow> Inl (Type_Error ''JSON object keys must be strings''))"

declare freeze_visit.simps [simp del]

definition freeze_json :: "(pyfloat \<Rightarrow> string) \<Rightarrow> pyobj \<Rightarrow> contract_error + json" where
  "freeze_json ft value =
     res_bind (freeze_visit value 0 0) (\<lambda>(frozen, _).
       case frozen of
         JObj d \<Rightarrow>
           if utf8_len (json_dumps ft frozen) > max_json_bytes
           then Inl (Value_Error ''JSON value exceeds serialized size limit'') else Inr frozen
       | _ \<Rightarrow> Inr frozen)"

definition freeze_object ::
  "(pyfloat \<Rightarrow> string) \<Rightarrow> string \<Rightarrow> pyobj \<Rightarrow> contract_error + (string \<times> json) list" where
  "freeze_object ft name value =
     (case value of
        PDict _ \<Rightarrow> res_bind (freeze_json ft value) (\<lambda>frozen.
          case frozen of JObj d \<Rightarrow> Inr d
          | _ \<Rightarrow> Inl (Type_Error (name @ '' must be a JSON object'')))
      | _ \<Rightarrow> Inl (Type_Error (name @ '' must be a JSON object'')))"

text \<open>\<open>_mutable_json\<close>: the frozen value as plain lists and dictionaries again.\<close>

fun mutable_json :: "json \<Rightarrow> pyobj" where
  "mutable_json JNull = PNone"
| "mutable_json (JBool b) = PBool b"
| "mutable_json (JInt i) = PInt i"
| "mutable_json (JFloat r) = PFloat r"
| "mutable_json (JStr s) = PStr s"
| "mutable_json (JArr js) = PList (map mutable_json js)"
| "mutable_json (JObj kvs) = PDict (map (\<lambda>(k, v). (PStr k, mutable_json v)) kvs)"

subsection \<open>Size of a value and what freezing accepts\<close>

fun json_nodes :: "json \<Rightarrow> nat" where
  "json_nodes (JArr js) = Suc (sum_list (map json_nodes js))"
| "json_nodes (JObj kvs) = Suc (sum_list (map (\<lambda>(k, v). Suc (json_nodes v)) kvs))"
| "json_nodes _ = 1"

fun json_depth :: "json \<Rightarrow> nat" where
  "json_depth (JArr js) = (if js = [] then 0 else Suc (Max (set (map json_depth js))))"
| "json_depth (JObj kvs) =
     (if kvs = [] then 0 else Suc (Max (set (map (\<lambda>(k, v). json_depth v) kvs))))"
| "json_depth _ = 0"

text \<open>Strings within bounds and no object with a key twice, at every level.\<close>

fun json_sound :: "json \<Rightarrow> bool" where
  "json_sound (JStr s) \<longleftrightarrow> utf8_len s \<le> max_json_string"
| "json_sound (JArr js) \<longleftrightarrow> (\<forall>j \<in> set js. json_sound j)"
| "json_sound (JObj kvs) \<longleftrightarrow> dict_ok kvs \<and>
     (\<forall>kv \<in> set kvs. utf8_len (fst kv) \<le> max_json_string \<and> json_sound (snd kv))"
| "json_sound _ \<longleftrightarrow> True"

definition pair_nodes :: "(string \<times> json) list \<Rightarrow> nat" where
  "pair_nodes d = sum_list (map (\<lambda>(k, v). Suc (json_nodes v)) d)"

definition pairs_sound :: "nat \<Rightarrow> (string \<times> json) list \<Rightarrow> bool" where
  "pairs_sound depth d \<longleftrightarrow> dict_ok d \<and>
     (\<forall>kv \<in> set d. utf8_len (fst kv) \<le> max_json_string \<and> json_sound (snd kv)
        \<and> Suc depth + json_depth (snd kv) \<le> max_json_depth)"

lemma pair_nodes_update: "pair_nodes (AList.update k j d) \<le> pair_nodes d + Suc (json_nodes j)"
  by (induction d) (auto simp: pair_nodes_def)

lemma pairs_sound_update:
  assumes "pairs_sound depth d" "utf8_len k \<le> max_json_string" "json_sound j"
    "Suc depth + json_depth j \<le> max_json_depth"
  shows "pairs_sound depth (AList.update k j d)"
  using assms by (auto simp: pairs_sound_def dict_update_mem split: if_splits)

lemma json_depth_Arr:
  assumes "depth \<le> m" and "\<forall>j \<in> set js. Suc depth + json_depth j \<le> m"
  shows "depth + json_depth (JArr js) \<le> m"
proof (cases "js = []")
  case False
  then have "Max (set (map json_depth js)) \<in> set (map json_depth js)" by (intro Max_in) auto
  then obtain j where "j \<in> set js" and "Max (set (map json_depth js)) = json_depth j" by auto
  with assms False show ?thesis by auto
qed (use assms in simp)

lemma json_depth_Obj:
  assumes "depth \<le> m" and "\<forall>kv \<in> set kvs. Suc depth + json_depth (snd kv) \<le> m"
  shows "depth + json_depth (JObj kvs) \<le> m"
proof (cases "kvs = []")
  case False
  then have "Max (set (map (\<lambda>(k, v). json_depth v) kvs)) \<in> set (map (\<lambda>(k, v). json_depth v) kvs)"
    by (intro Max_in) auto
  then obtain kv where "kv \<in> set kvs"
      and "Max (set (map (\<lambda>(k, v). json_depth v) kvs)) = json_depth (snd kv)"
    by auto
  with assms False show ?thesis by auto
qed (use assms in simp)

lemma freeze_sound:
  shows "freeze_visit x depth n = Inr (j, n') \<Longrightarrow>
      json_sound j \<and> n + json_nodes j \<le> n' \<and> n' \<le> max_json_nodes
      \<and> depth + json_depth j \<le> max_json_depth"
    and "freeze_items xs depth n = Inr (js, n') \<Longrightarrow> n \<le> max_json_nodes \<Longrightarrow>
      (\<forall>j \<in> set js. json_sound j \<and> Suc depth + json_depth j \<le> max_json_depth)
      \<and> n + sum_list (map json_nodes js) \<le> n' \<and> n' \<le> max_json_nodes"
    and "freeze_pairs acc kvs depth n = Inr (r, n') \<Longrightarrow> n \<le> max_json_nodes \<Longrightarrow>
      pairs_sound depth acc \<Longrightarrow>
      pairs_sound depth r \<and> n + pair_nodes r \<le> n' + pair_nodes acc \<and> n' \<le> max_json_nodes"
proof (induction x depth n and xs depth n and acc kvs depth n arbitrary: j n' and js n' and r n'
    rule: freeze_visit_freeze_items_freeze_pairs.induct)
  case (1 item depth nodes)
  from "1.prems" have lim: "\<not> (nodes + 1 > max_json_nodes \<or> depth > max_json_depth)"
    by (auto simp: freeze_visit.simps Let_def split: if_splits)
  note IH = "1.IH" [OF refl lim]
  show ?case
  proof (cases item)
    case (PDict kvs)
    with "1.prems" lim obtain d where "freeze_pairs [] kvs depth (nodes + 1) = Inr (d, n')" "j = JObj d"
      by (auto simp: freeze_visit.simps)
    with IH(3) [OF PDict] lim PDict show ?thesis
      using json_depth_Obj [of depth max_json_depth d]
      by (auto simp: pairs_sound_def pair_nodes_def)
  next
    case (PList xs)
    with "1.prems" lim obtain js where "freeze_items xs depth (nodes + 1) = Inr (js, n')" "j = JArr js"
      by (auto simp: freeze_visit.simps)
    with IH(1) [OF PList] lim PList show ?thesis
      using json_depth_Arr [of depth max_json_depth js] by auto
  next
    case (PTuple xs)
    with "1.prems" lim obtain js where "freeze_items xs depth (nodes + 1) = Inr (js, n')" "j = JArr js"
      by (auto simp: freeze_visit.simps)
    with IH(2) [OF PTuple] lim PTuple show ?thesis
      using json_depth_Arr [of depth max_json_depth js] by auto
  qed (use "1.prems" lim in \<open>auto simp: freeze_visit.simps split: if_splits\<close>)
next
  case (2 depth nodes)
  then show ?case by simp
next
  case (3 x xs depth nodes)
  from "3.prems" obtain j n1 js' where
    j: "freeze_visit x (depth + 1) nodes = Inr (j, n1)"
    and js': "freeze_items xs depth n1 = Inr (js', n')" and js: "js = j # js'"
    by auto
  have 1: "json_sound j \<and> nodes + json_nodes j \<le> n1 \<and> n1 \<le> max_json_nodes
      \<and> Suc depth + json_depth j \<le> max_json_depth"
    using "3.IH"(1) [OF j] by simp
  then have "(\<forall>j \<in> set js'. json_sound j \<and> Suc depth + json_depth j \<le> max_json_depth)
      \<and> n1 + sum_list (map json_nodes js') \<le> n' \<and> n' \<le> max_json_nodes"
    using "3.IH"(2) [OF js'] by simp
  with 1 js show ?case by auto
next
  case (4 acc depth nodes)
  then show ?case by simp
next
  case (5 acc k v kvs depth nodes)
  from "5.prems"(1) obtain key where k: "k = PStr key" by (auto split: pyobj.splits)
  from "5.prems"(1) k have lim: "\<not> nodes + 1 > max_json_nodes" "\<not> utf8_len key > max_json_string"
    by (auto split: if_splits)
  from "5.prems"(1) k lim obtain j n1 where
    j: "freeze_visit v (depth + 1) (nodes + 1) = Inr (j, n1)"
    and r: "freeze_pairs (AList.update key j acc) kvs depth n1 = Inr (r, n')"
    by auto
  have 1: "json_sound j \<and> nodes + 1 + json_nodes j \<le> n1 \<and> n1 \<le> max_json_nodes
      \<and> Suc depth + json_depth j \<le> max_json_depth"
    using "5.IH"(1) [OF k lim j] by simp
  have "pairs_sound depth (AList.update key j acc)"
    using "5.prems"(3) 1 lim(2) by (intro pairs_sound_update) auto
  with "5.IH"(2) [OF k lim r] 1 have "pairs_sound depth r
      \<and> n1 + pair_nodes r \<le> n' + pair_nodes (AList.update key j acc) \<and> n' \<le> max_json_nodes"
    by simp
  with 1 pair_nodes_update [of key j acc] show ?case by auto
qed

lemma freeze_items_mutable:
  assumes "\<forall>j \<in> set js. \<forall>depth n. json_sound j \<longrightarrow> n + json_nodes j \<le> max_json_nodes \<longrightarrow>
      depth + json_depth j \<le> max_json_depth \<longrightarrow>
      freeze_visit (mutable_json j) depth n = Inr (j, n + json_nodes j)"
    and "\<forall>j \<in> set js. json_sound j \<and> Suc depth + json_depth j \<le> max_json_depth"
    and "n + sum_list (map json_nodes js) \<le> max_json_nodes"
  shows "freeze_items (map mutable_json js) depth n = Inr (js, n + sum_list (map json_nodes js))"
  using assms by (induction js arbitrary: n) (auto simp: add.assoc)

lemma update_fresh: "k \<notin> fst ` set d \<Longrightarrow> AList.update k v d = d @ [(k, v)]"
  by (induction d) auto

lemma freeze_pairs_mutable:
  assumes "\<forall>kv \<in> set kvs. \<forall>depth n. json_sound (snd kv) \<longrightarrow>
      n + json_nodes (snd kv) \<le> max_json_nodes \<longrightarrow>
      depth + json_depth (snd kv) \<le> max_json_depth \<longrightarrow>
      freeze_visit (mutable_json (snd kv)) depth n = Inr (snd kv, n + json_nodes (snd kv))"
    and "\<forall>kv \<in> set kvs. utf8_len (fst kv) \<le> max_json_string \<and> json_sound (snd kv)
      \<and> Suc depth + json_depth (snd kv) \<le> max_json_depth"
    and "dict_ok (acc @ kvs)" and "n + pair_nodes kvs \<le> max_json_nodes"
  shows "freeze_pairs acc (map (\<lambda>(k, v). (PStr k, mutable_json v)) kvs) depth n =
      Inr (acc @ kvs, n + pair_nodes kvs)"
  using assms
proof (induction kvs arbitrary: acc n)
  case Nil
  then show ?case by (simp add: pair_nodes_def)
next
  case (Cons kv kvs)
  obtain k v where kv: "kv = (k, v)" by (cases kv)
  have fresh: "k \<notin> fst ` set acc" using Cons.prems(3) kv by (auto simp: dict_ok_def)
  have n: "n + Suc (json_nodes v) + pair_nodes kvs \<le> max_json_nodes"
    using Cons.prems(4) kv by (simp add: pair_nodes_def)
  have "freeze_visit (mutable_json v) (Suc depth) (Suc n) = Inr (v, n + Suc (json_nodes v))"
    using Cons.prems(1,2) n kv by auto
  moreover have "freeze_pairs (acc @ [(k, v)]) (map (\<lambda>(k, v). (PStr k, mutable_json v)) kvs) depth
      (n + Suc (json_nodes v)) = Inr ((acc @ [(k, v)]) @ kvs, n + Suc (json_nodes v) + pair_nodes kvs)"
    using Cons.prems kv n by (intro Cons.IH) auto
  ultimately show ?case
    using Cons.prems(2) n kv fresh by (auto simp: update_fresh pair_nodes_def)
qed

lemma freeze_visit_mutable:
  "json_sound j \<Longrightarrow> n + json_nodes j \<le> max_json_nodes \<Longrightarrow> depth + json_depth j \<le> max_json_depth
    \<Longrightarrow> freeze_visit (mutable_json j) depth n = Inr (j, n + json_nodes j)"
proof (induction j arbitrary: depth n)
  case (JArr js)
  have "\<forall>j \<in> set js. Suc depth + json_depth j \<le> max_json_depth"
  proof
    fix j assume "j \<in> set js"
    then have "json_depth j \<le> Max (set (map json_depth js))" by (intro Max_ge) auto
    with JArr.prems(3) \<open>j \<in> set js\<close> show "Suc depth + json_depth j \<le> max_json_depth"
      by (cases js) auto
  qed
  with JArr have "freeze_items (map mutable_json js) depth (n + 1)
      = Inr (js, n + 1 + sum_list (map json_nodes js))"
    by (intro freeze_items_mutable) auto
  with JArr.prems show ?case by (simp add: freeze_visit.simps)
next
  case (JObj kvs)
  have "\<forall>kv \<in> set kvs. Suc depth + json_depth (snd kv) \<le> max_json_depth"
  proof
    fix kv assume "kv \<in> set kvs"
    then have "json_depth (snd kv) \<le> Max (set (map (\<lambda>(k, v). json_depth v) kvs))"
      by (intro Max_ge) (auto simp: case_prod_beta)
    with JObj.prems(3) \<open>kv \<in> set kvs\<close> show "Suc depth + json_depth (snd kv) \<le> max_json_depth"
      by (cases kvs) auto
  qed
  with JObj have "freeze_pairs [] (map (\<lambda>(k, v). (PStr k, mutable_json v)) kvs) depth (n + 1)
      = Inr ([] @ kvs, n + 1 + pair_nodes kvs)"
    by (intro freeze_pairs_mutable) (auto simp: pair_nodes_def snds.simps)
  with JObj.prems show ?case by (simp add: freeze_visit.simps pair_nodes_def)
qed (auto simp: freeze_visit.simps)

lemma freeze_json_Inr:
  "freeze_json ft x = Inr j \<longleftrightarrow> (\<exists>n. freeze_visit x 0 0 = Inr (j, n)) \<and>
     ((\<exists>d. j = JObj d) \<longrightarrow> utf8_len (json_dumps ft j) \<le> max_json_bytes)"
proof (cases "freeze_visit x 0 0")
  case (Inr p)
  obtain a n where p: "p = (a, n)" by (cases p)
  show ?thesis using Inr p by (cases a) (auto simp: freeze_json_def)
qed (simp add: freeze_json_def)

lemma freeze_json_again:
  assumes "freeze_json ft x = Inr j"
  shows "freeze_json ft (mutable_json j) = Inr j"
proof -
  from assms obtain n' where v: "freeze_visit x 0 0 = Inr (j, n')"
    by (auto simp: freeze_json_Inr)
  have "freeze_visit (mutable_json j) 0 0 = Inr (j, 0 + json_nodes j)"
    using freeze_sound(1) [OF v] by (intro freeze_visit_mutable) auto
  with assms show ?thesis by (auto simp: freeze_json_Inr)
qed

section \<open>Preflight of a payload\<close>

text \<open>
  \<open>_preflight_payload\<close> counts nodes and estimates bytes before anything is encoded; only exact
  lists and dictionaries pass. The state is the pair of its two \<open>nonlocal\<close> counters. Its test
  for an object inside itself has no counterpart: a \<open>pyobj\<close> is a finite tree.
\<close>

definition int_bits_exceed :: "int \<Rightarrow> bool" where
  "int_bits_exceed i \<longleftrightarrow> \<bar>i\<bar> \<ge> 2 ^ 4096"

fun preflight :: "pyobj \<Rightarrow> nat \<Rightarrow> nat \<times> nat \<Rightarrow> contract_error + (nat \<times> nat)"
and preflight_items :: "pyobj list \<Rightarrow> nat \<Rightarrow> nat \<times> nat \<Rightarrow> contract_error + (nat \<times> nat)"
and preflight_pairs :: "(pyobj \<times> pyobj) list \<Rightarrow> nat \<Rightarrow> nat \<times> nat \<Rightarrow> contract_error + (nat \<times> nat)"
where
  "preflight item depth (nodes, bytes) =
     (let nodes = nodes + 1 in
      if nodes > max_json_nodes \<or> depth > max_json_depth
      then Inl (Value_Error ''payload exceeds structural limits'')
      else case item of
        PNone \<Rightarrow> Inr (nodes, bytes + 5)
      | PBool b \<Rightarrow> Inr (nodes, bytes + 5)
      | PInt i \<Rightarrow>
          if int_bits_exceed i then Inl (Value_Error ''payload integer exceeds size limit'')
          else Inr (nodes, bytes + max 1 (length (int_text i)))
      | PNonFinite \<Rightarrow> Inl (Value_Error ''payload numbers must be finite'')
      | PFloat r \<Rightarrow> Inr (nodes, bytes + 32)
      | PStr s \<Rightarrow>
          if utf8_len s > max_json_string
          then Inl (Value_Error ''payload string exceeds size limit'')
          else Inr (nodes, bytes + utf8_len s + 2)
      | PDict kvs \<Rightarrow>
          if length kvs > max_json_nodes
          then Inl (Value_Error ''payload container exceeds width limit'')
          else res_bind (preflight_pairs kvs depth (nodes, bytes + 2)) (\<lambda>(n, b).
            if b > max_json_bytes
            then Inl (Value_Error ''payload exceeds estimated size limit'') else Inr (n, b))
      | PList xs \<Rightarrow>
          if length xs > max_json_nodes
          then Inl (Value_Error ''payload container exceeds width limit'')
          else res_bind (preflight_items xs depth (nodes, bytes + 2)) (\<lambda>(n, b).
            if b > max_json_bytes
            then Inl (Value_Error ''payload exceeds estimated size limit'') else Inr (n, b))
      | PTuple _ \<Rightarrow> Inl (Type_Error ''payload must contain exact JSON types'')
      | POther \<Rightarrow> Inl (Type_Error ''payload must contain exact JSON types''))"
| "preflight_items [] depth st = Inr st"
| "preflight_items (x # xs) depth st =
     res_bind (preflight x (depth + 1) st) (preflight_items xs depth)"
| "preflight_pairs [] depth st = Inr st"
| "preflight_pairs ((k, v) # kvs) depth st =
     (case k of
        PStr s \<Rightarrow>
          res_bind (preflight k (depth + 1) st) (\<lambda>st1.
          res_bind (preflight v (depth + 1) st1) (preflight_pairs kvs depth))
      | _ \<Rightarrow> Inl (Type_Error ''payload keys must be strings''))"

declare preflight.simps [simp del]

section \<open>Sensitive keys\<close>

definition sensitive_keys :: "string list" where
  "sensitive_keys =
     [''api_key'', ''apikey'', ''secret'', ''secret_ref'', ''password'', ''token'',
      ''authorization'', ''raw_prompt'', ''prompt'', ''hidden_reasoning'', ''reasoning'',
      ''chain_of_thought'', ''cot'']"

definition sensitive_endings :: "string list" where
  "sensitive_endings =
     [''_api_key'', ''_secret'', ''_password'', ''_access_token'', ''_refresh_token'']"

text \<open>
  \<open>str.casefold\<close> as far as the substitution after it can see: ASCII capitals become small, the
  sharp s becomes \<open>ss\<close>; every other character of a folded text that is not in \<open>[a-z0-9]\<close> is
  replaced, whatever it was.
\<close>

definition lower_ascii :: "char \<Rightarrow> char" where
  "lower_ascii c = (let n = (of_char c :: nat) in if 65 \<le> n \<and> n \<le> 90 then char_of (n + 32) else c)"

definition casefold :: "string \<Rightarrow> string" where
  "casefold xs = concat (map (\<lambda>c. if c = CHR 0xDF then ''ss'' else [lower_ascii c]) xs)"

text \<open>\<open>re.sub("[^a-z0-9]+", "_", s)\<close>: each maximal run of other characters becomes one underscore.\<close>

fun squash_other :: "bool \<Rightarrow> string \<Rightarrow> string" where
  "squash_other in_run [] = []"
| "squash_other in_run (c # cs) =
     (if c \<in> set lower_alnum then c # squash_other False cs
      else if in_run then squash_other True cs else CHR ''_'' # squash_other True cs)"

definition normalized_key :: "string \<Rightarrow> string" where
  "normalized_key key = strip_chars ''_'' (squash_other False (casefold key))"

definition ends_with :: "string \<Rightarrow> string \<Rightarrow> bool" where
  "ends_with suf xs \<longleftrightarrow> starts_with (rev suf) (rev xs)"

definition sensitive_key :: "string \<Rightarrow> bool" where
  "sensitive_key key \<longleftrightarrow>
     (let n = normalized_key key in
      n \<in> set sensitive_keys \<or> list_ex (\<lambda>e. ends_with e n) sensitive_endings)"

fun contains_sensitive_key :: "json \<Rightarrow> bool" where
  "contains_sensitive_key (JArr js) = list_ex contains_sensitive_key js"
| "contains_sensitive_key (JObj kvs) =
     list_ex (\<lambda>(k, v). sensitive_key k \<or> contains_sensitive_key v) kvs"
| "contains_sensitive_key _ = False"

section \<open>Free text and identifiers\<close>

definition unsafe_control :: "char \<Rightarrow> bool" where
  "unsafe_control c \<longleftrightarrow> (let n = (of_char c :: nat) in
     n = 173 \<or> ((n \<le> 31 \<or> (127 \<le> n \<and> n \<le> 159)) \<and> n \<noteq> 10 \<and> n \<noteq> 9))"

definition safe_free_text :: "string \<Rightarrow> nat \<Rightarrow> string \<Rightarrow> contract_error + string" where
  "safe_free_text name max_bytes value =
     (if py_isblank value \<or> utf8_len value > max_bytes
      then Inl (Value_Error (name @ '' must be nonblank and bounded''))
      else if list_ex unsafe_control value
      then Inl (Value_Error (name @ '' contains unsafe control characters''))
      else Inr value)"

definition safe_id :: "string \<Rightarrow> bool" where
  "safe_id = ident_match lower_alnum (lower_alnum @ ''_.-'') 127"

definition safe_identifier :: "string \<Rightarrow> string \<Rightarrow> contract_error + string" where
  "safe_identifier name value =
     (if \<not> safe_id value then Inl (Value_Error (name @ '' must be a safe identifier''))
      else Inr value)"

section \<open>What the contracts promise of stored JSON\<close>

text \<open>
  C1. Whatever Python object the contract layer accepts, the frozen value is within the bounds
  of depth, nodes and string sizes and holds no key twice; and thawing it and freezing it again
  returns it unchanged, so a value that was stored once is accepted when it is read back.
\<close>

theorem frozen_json_is_bounded_and_stable:
  assumes "freeze_json ft x = Inr j"
  shows "json_sound j \<and> json_depth j \<le> 20 \<and> json_nodes j \<le> 4096
       \<and> freeze_json ft (mutable_json j) = Inr j"
proof -
  from assms obtain n where "freeze_visit x 0 0 = Inr (j, n)" by (auto simp: freeze_json_Inr)
  from freeze_sound(1) [OF this] show ?thesis
    using freeze_json_again [OF assms]
    by (auto simp: max_json_depth_def max_json_nodes_def)
qed

lemma freeze_example:
  "freeze_json (\<lambda>_. ''0.5'') (PDict [(PStr ''k'', PList [PInt 1, PNone]), (PStr ''k'', PTuple [])])
   = Inr (JObj [(''k'', JArr [])])"
  by code_simp

theorem frozen_json_is_bounded_and_stable_witness:
  "freeze_json (\<lambda>_. ''0.5'') (mutable_json (JObj [(''k'', JArr [])])) = Inr (JObj [(''k'', JArr [])])"
  using frozen_json_is_bounded_and_stable [OF freeze_example] by simp

end
