(* ===== verification/Run_Events.thy ===== *)
theory Run_Events
  imports Runtime_Contracts
begin

text \<open>
  Artifacts, checkpoints, run events and the task context of \<open>runtime/contracts.py\<close>. The
  long imperative event validator is modelled check by check and shown to accept exactly the
  events of a table that gives every kind its required and its allowed fields.

  The models revalidate nested instances (\<open>revalidate_instances="always"\<close>). The artifacts and the
  checkpoint of an event are values their own constructors returned, on which validation has nothing to
  refuse or change (\<open>artifact_digest_is_checked\<close>, \<open>checkpoint_built_again\<close>), so the event's checks are its own only.
\<close>

section \<open>Provenance and artifacts\<close>

record provenance =
  gp_logical_model :: string
  gp_deployment :: string
  gp_provider :: string
  gp_provider_model :: string

definition provenance_checks :: "provenance \<Rightarrow> (bool \<times> contract_error) list" where
  "provenance_checks p =
     [(\<not> safe_id (gp_logical_model p), Value_Error ''provenance must be a safe identifier''),
      (\<not> safe_id (gp_deployment p), Value_Error ''provenance must be a safe identifier''),
      (\<not> safe_id (gp_provider p), Value_Error ''provenance must be a safe identifier''),
      (gp_provider_model p = [] \<or> length (gp_provider_model p) > 512,
         Value_Error ''provider model length''),
      (gp_provider_model p \<noteq> py_strip (gp_provider_model p)
         \<or> list_ex control_char (gp_provider_model p),
         Value_Error ''provider model must be unpadded printable text''),
      (hd (split_on CHR ''/'' (gp_provider_model p)) \<noteq> gp_provider p,
         Value_Error ''provider provenance is inconsistent'')]"

definition provenance_payload :: "provenance \<Rightarrow> json" where
  "provenance_payload p = JObj
     [(''logical_model'', JStr (gp_logical_model p)), (''deployment_id'', JStr (gp_deployment p)),
      (''provider_id'', JStr (gp_provider p)), (''provider_model'', JStr (gp_provider_model p))]"

record artifact =
  ar_id :: uuid
  ar_version :: int
  ar_type :: string
  ar_producer :: string
  ar_content :: "(string \<times> json) list"
  ar_sources :: "uuid list"
  ar_sha :: string
  ar_provenance :: "provenance option"

text \<open>The envelope whose canonical encoding is hashed: everything but the id.\<close>

definition artifact_envelope :: "artifact \<Rightarrow> json" where
  "artifact_envelope a = JObj
     [(''type'', JStr (ar_type a)), (''producer'', JStr (ar_producer a)),
      (''version'', JInt (ar_version a)), (''content'', JObj (ar_content a)),
      (''source_ids'', JArr (map (\<lambda>u. JStr (uuid_text u)) (ar_sources a))),
      (''provenance'', case ar_provenance a of None \<Rightarrow> JNull | Some p \<Rightarrow> provenance_payload p)]"

definition content_digest ::
  "(string \<Rightarrow> string) \<Rightarrow> (pyfloat \<Rightarrow> string) \<Rightarrow> artifact \<Rightarrow> string" where
  "content_digest sha ft a = sha (json_dumps ft (artifact_envelope a))"

text \<open>
  The field validators and then \<open>content_invariants\<close>, in the order they run. The constructor
  takes an unset hash and stores the computed one; a hash that was given has to agree.
\<close>

definition artifact_checks ::
  "(string \<Rightarrow> string) \<Rightarrow> (pyfloat \<Rightarrow> string) \<Rightarrow> artifact \<Rightarrow> (bool \<times> contract_error) list" where
  "artifact_checks sha ft a =
     [(\<not> safe_id (ar_type a), Value_Error ''artifact identifier must be a safe identifier''),
      (\<not> safe_id (ar_producer a), Value_Error ''artifact identifier must be a safe identifier''),
      (ar_version a < 1 \<or> ar_version a > 2 ^ 31 - 1, Value_Error ''artifact version range''),
      (length (ar_sources a) > 64, Value_Error ''source_ids length''),
      (\<not> distinct (ar_sources a), Value_Error ''source_ids must be unique''),
      (freeze_json ft (mutable_json (JObj (ar_content a))) \<noteq> Inr (JObj (ar_content a)),
         Value_Error ''artifact content exceeds limits''),
      (ar_id a \<in> set (ar_sources a), Value_Error ''artifact cannot list itself as a source''),
      (contains_sensitive_key (JObj (ar_content a)),
         Value_Error ''artifact content contains hidden reasoning or sensitive state''),
      (ar_type a = ''text'' \<and>
         (case json_get (ar_content a) ''text'' of
            Some (JStr t) \<Rightarrow> (case safe_free_text ''artifact text'' max_text_bytes t of
                Inl _ \<Rightarrow> True | Inr _ \<Rightarrow> False)
          | _ \<Rightarrow> True), Value_Error ''text artifacts require text content''),
      (ar_sha a \<noteq> [] \<and> ar_sha a \<noteq> content_digest sha ft a,
         Value_Error ''artifact content hash does not match content'')]"

definition mk_artifact ::
  "(string \<Rightarrow> string) \<Rightarrow> (pyfloat \<Rightarrow> string) \<Rightarrow> artifact \<Rightarrow> contract_error + artifact" where
  "mk_artifact sha ft a =
     res_bind (run_checks (artifact_checks sha ft a)) (\<lambda>_. Inr (a\<lparr>ar_sha := content_digest sha ft a\<rparr>))"

definition artifact_payload :: "artifact \<Rightarrow> json" where
  "artifact_payload a = JObj
     [(''id'', JStr (uuid_text (ar_id a))), (''version'', JInt (ar_version a)),
      (''type'', JStr (ar_type a)), (''producer'', JStr (ar_producer a)),
      (''content'', JObj (ar_content a)),
      (''source_ids'', JArr (map (\<lambda>u. JStr (uuid_text u)) (ar_sources a))),
      (''content_sha256'', JStr (ar_sha a)),
      (''provenance'', case ar_provenance a of None \<Rightarrow> JNull | Some p \<Rightarrow> provenance_payload p)]"

section \<open>Checkpoints\<close>

record checkpoint =
  ck_id :: uuid
  ck_runtime_type :: string
  ck_runtime_version :: string
  ck_run :: uuid
  ck_tenant :: uuid
  ck_mode :: task_mode
  ck_state :: "(string \<times> json) list"
  ck_sha :: string

text \<open>\<open>^[0-9]+(\.[0-9]+){0,2}$\<close>: one to three dotted groups of digits.\<close>

definition version_text_ok :: "string \<Rightarrow> bool" where
  "version_text_ok v \<longleftrightarrow> (let gs = split_on CHR ''.'' v in
     length gs \<le> 3 \<and> list_all (\<lambda>g. g \<noteq> [] \<and> list_all (\<lambda>c. c \<in> set digits) g) gs)"

fun mode_text :: "task_mode \<Rightarrow> string" where
  "mode_text Auto = ''auto''" | "mode_text Direct = ''direct''"
| "mode_text Dispatch = ''dispatch''" | "mode_text Discuss = ''discuss''"
| "mode_text Hybrid = ''hybrid''"

definition state_digest ::
  "(string \<Rightarrow> string) \<Rightarrow> (pyfloat \<Rightarrow> string) \<Rightarrow> checkpoint \<Rightarrow> string" where
  "state_digest sha ft c = sha (json_dumps ft (JObj (ck_state c)))"

definition checkpoint_payload :: "checkpoint \<Rightarrow> json" where
  "checkpoint_payload c = JObj
     [(''id'', JStr (uuid_text (ck_id c))), (''runtime_type'', JStr (ck_runtime_type c)),
      (''runtime_version'', JStr (ck_runtime_version c)), (''run_id'', JStr (uuid_text (ck_run c))),
      (''tenant_id'', JStr (uuid_text (ck_tenant c))), (''mode'', JStr (mode_text (ck_mode c))),
      (''state'', JObj (ck_state c)), (''state_sha256'', JStr (ck_sha c))]"

definition checkpoint_checks ::
  "(string \<Rightarrow> string) \<Rightarrow> (pyfloat \<Rightarrow> string) \<Rightarrow> checkpoint \<Rightarrow> (bool \<times> contract_error) list" where
  "checkpoint_checks sha ft c =
     [(\<not> safe_id (ck_runtime_type c), Value_Error ''runtime type must be a safe identifier''),
      (\<not> version_text_ok (ck_runtime_version c), Value_Error ''runtime version is invalid''),
      (ck_mode c = Auto, Value_Error ''checkpoint mode must be executable''),
      (freeze_json ft (mutable_json (JObj (ck_state c))) \<noteq> Inr (JObj (ck_state c)),
         Value_Error ''checkpoint state exceeds limits''),
      (contains_sensitive_key (JObj (ck_state c)),
         Value_Error ''checkpoint state contains sensitive data''),
      (ck_sha c \<noteq> [] \<and> ck_sha c \<noteq> state_digest sha ft c,
         Value_Error ''checkpoint state hash does not match state''),
      (case preflight (mutable_json (checkpoint_payload (c\<lparr>ck_sha := state_digest sha ft c\<rparr>))) 0 (0, 0)
         of Inl _ \<Rightarrow> True | Inr _ \<Rightarrow> False, Value_Error ''checkpoint payload exceeds limits'')]"

definition mk_checkpoint ::
  "(string \<Rightarrow> string) \<Rightarrow> (pyfloat \<Rightarrow> string) \<Rightarrow> checkpoint \<Rightarrow> contract_error + checkpoint" where
  "mk_checkpoint sha ft c =
     res_bind (run_checks (checkpoint_checks sha ft c)) (\<lambda>_. Inr (c\<lparr>ck_sha := state_digest sha ft c\<rparr>))"

section \<open>Run events\<close>

datatype event_kind =
    Model_Started | Artifact_Created | Checkpoint_Saved | Runtime_Completed | Runtime_Failed
  | Runtime_Cancelled | Step_Started | Step_Completed | Step_Failed | Step_Retrying
  | Review_Completed | Discussion_Started | Message_Created | Tool_Started | Tool_Completed
  | Tool_Failed | Approval_Requested | Approval_Resolved | Cost_Recorded

fun kind_text :: "event_kind \<Rightarrow> string" where
  "kind_text Model_Started = ''model.started''"
| "kind_text Artifact_Created = ''artifact.created''"
| "kind_text Checkpoint_Saved = ''checkpoint.saved''"
| "kind_text Runtime_Completed = ''runtime.completed''"
| "kind_text Runtime_Failed = ''runtime.failed''"
| "kind_text Runtime_Cancelled = ''runtime.cancelled''"
| "kind_text Step_Started = ''step.started''"
| "kind_text Step_Completed = ''step.completed''"
| "kind_text Step_Failed = ''step.failed''"
| "kind_text Step_Retrying = ''step.retrying''"
| "kind_text Review_Completed = ''review.completed''"
| "kind_text Discussion_Started = ''discussion.started''"
| "kind_text Message_Created = ''message.created''"
| "kind_text Tool_Started = ''tool.started''"
| "kind_text Tool_Completed = ''tool.completed''"
| "kind_text Tool_Failed = ''tool.failed''"
| "kind_text Approval_Requested = ''approval.requested''"
| "kind_text Approval_Resolved = ''approval.resolved''"
| "kind_text Cost_Recorded = ''cost.recorded''"

text \<open>An event's kind is one of the enumeration or an extension name, kept as text.\<close>

datatype kind = Known event_kind | Extension string

datatype resolution = Approved | Rejected

record run_event =
  ev_kind :: kind
  ev_sequence :: int
  ev_run :: uuid
  ev_artifact :: "artifact option"
  ev_checkpoint :: "checkpoint option"
  ev_reason :: "string option"
  ev_inputs :: "artifact list"
  ev_step :: "string option"
  ev_actor :: "string option"
  ev_message :: "string option"
  ev_payload :: "(string \<times> json) list"
  ev_session :: "string option"
  ev_participants :: "string list"
  ev_tool_call :: "string option"
  ev_tool_name :: "string option"
  ev_approval :: "string option"
  ev_action :: "string option"
  ev_decision :: "resolution option"
  ev_provider :: "string option"
  ev_cost :: "decimal option"
  ev_currency :: "string option"

subsection \<open>The validator, check by check\<close>

text \<open>The checks that concern one kind or a group of kinds, down to \<open>cost.recorded\<close>.\<close>

definition kind_checks :: "run_event \<Rightarrow> (bool \<times> string) list" where
  "kind_checks e = (let k = ev_kind e in
     [(contains_sensitive_key (JObj (ev_payload e)), ''event payload contains sensitive data''),
      (k = Known Artifact_Created \<and>
         (ev_artifact e = None \<or> ev_checkpoint e \<noteq> None \<or> ev_reason e \<noteq> None),
       ''artifact.created requires only an artifact''),
      (k = Known Checkpoint_Saved \<and>
         (ev_checkpoint e = None \<or> ev_artifact e \<noteq> None \<or> ev_reason e \<noteq> None),
       ''checkpoint.saved requires only a checkpoint''),
      (k = Known Checkpoint_Saved \<and> map_option ck_run (ev_checkpoint e) \<noteq> Some (ev_run e),
       ''checkpoint event run_id mismatch''),
      (k = Known Runtime_Failed \<and>
         (ev_reason e = None \<or> ev_artifact e \<noteq> None \<or> ev_checkpoint e \<noteq> None),
       ''runtime.failed requires only a reason''),
      (k \<in> {Known Model_Started, Known Runtime_Cancelled} \<and>
         (ev_artifact e \<noteq> None \<or> ev_checkpoint e \<noteq> None),
       ''event kind forbids artifact and checkpoint''),
      (k = Known Model_Started \<and> (ev_reason e \<noteq> None \<or> ev_inputs e \<noteq> []),
       ''model.started forbids reason and inputs''),
      (k = Known Runtime_Completed \<and> (ev_artifact e \<noteq> None \<or> ev_checkpoint e \<noteq> None),
       ''runtime.completed forbids artifact and checkpoint''),
      (k \<in> {Known Artifact_Created, Known Checkpoint_Saved, Known Runtime_Failed}
         \<and> ev_inputs e \<noteq> [], ''event kind forbids inputs''),
      (k \<in> {Known Step_Started, Known Step_Completed, Known Step_Failed, Known Step_Retrying}
         \<and> (ev_step e = None \<or> ev_actor e = None), ''step events require step_id and actor''),
      (k \<in> {Known Step_Failed, Known Tool_Failed} \<and> ev_reason e = None,
       ''failed events require a reason''),
      (k = Known Message_Created \<and> (ev_actor e = None \<or> ev_message e = None),
       ''message.created requires actor and message''),
      (k = Known Review_Completed \<and>
         (ev_actor e = None \<or> ev_inputs e = [] \<or>
          json_get (ev_payload e) ''verdict'' \<notin>
            {Some (JStr ''approve''), Some (JStr ''revise''), Some (JStr ''reject'')}),
       ''review.completed requires actor, inputs, and verdict''),
      (k = Known Discussion_Started \<and>
         (ev_actor e = None \<or> ev_session e = None
          \<or> \<not> (2 \<le> length (ev_participants e) \<and> length (ev_participants e) \<le> 8)
          \<or> ev_actor e \<notin> Some ` set (ev_participants e)),
       ''discussion.started requires actor, session, and participants''),
      (k \<in> {Known Tool_Started, Known Tool_Completed, Known Tool_Failed} \<and>
         (ev_actor e = None \<or> ev_tool_call e = None \<or> ev_tool_name e = None),
       ''tool events require actor, call id, and tool name''),
      (k = Known Tool_Completed \<and> ev_artifact e = None \<and> ev_payload e = [],
       ''tool.completed requires an artifact or result payload''),
      (k = Known Approval_Requested \<and>
         (ev_approval e = None \<or> ev_actor e = None \<or> ev_action e = None \<or> ev_reason e = None
          \<or> ev_decision e \<noteq> None), ''approval.requested fields are inconsistent''),
      (k = Known Approval_Resolved \<and>
         (ev_approval e = None \<or> ev_actor e = None \<or> ev_decision e = None \<or> ev_action e \<noteq> None
          \<or> ev_reason e \<noteq> None), ''approval.resolved fields are inconsistent''),
      (k = Known Cost_Recorded \<and>
         (ev_actor e = None \<or> ev_provider e = None \<or> ev_cost e = None
          \<or> ev_currency e \<noteq> Some ''USD''), ''cost.recorded fields are inconsistent'')])"

datatype event_field =
    F_artifact | F_checkpoint | F_reason | F_inputs | F_step_id | F_actor | F_message | F_payload
  | F_session_id | F_participants | F_tool_call_id | F_tool_name | F_approval_id | F_action
  | F_decision | F_provider_id | F_cost_usd | F_currency

text \<open>The loop that collects the names of the fields an event carries.\<close>

definition present :: "run_event \<Rightarrow> event_field list" where
  "present e = map fst (filter snd
     [(F_artifact, ev_artifact e \<noteq> None), (F_checkpoint, ev_checkpoint e \<noteq> None),
      (F_reason, ev_reason e \<noteq> None), (F_inputs, ev_inputs e \<noteq> []),
      (F_step_id, ev_step e \<noteq> None), (F_actor, ev_actor e \<noteq> None),
      (F_message, ev_message e \<noteq> None), (F_payload, ev_payload e \<noteq> []),
      (F_session_id, ev_session e \<noteq> None), (F_participants, ev_participants e \<noteq> []),
      (F_tool_call_id, ev_tool_call e \<noteq> None), (F_tool_name, ev_tool_name e \<noteq> None),
      (F_approval_id, ev_approval e \<noteq> None), (F_action, ev_action e \<noteq> None),
      (F_decision, ev_decision e \<noteq> None), (F_provider_id, ev_provider e \<noteq> None),
      (F_cost_usd, ev_cost e \<noteq> None), (F_currency, ev_currency e \<noteq> None)])"

definition specialized_present :: "run_event \<Rightarrow> bool" where
  "specialized_present e \<longleftrightarrow>
     ev_session e \<noteq> None \<or> ev_participants e \<noteq> [] \<or> ev_tool_call e \<noteq> None
   \<or> ev_tool_name e \<noteq> None \<or> ev_approval e \<noteq> None \<or> ev_action e \<noteq> None
   \<or> ev_decision e \<noteq> None \<or> ev_provider e \<noteq> None \<or> ev_cost e \<noteq> None \<or> ev_currency e \<noteq> None"

fun allowed_by_kind :: "event_kind \<Rightarrow> event_field list option" where
  "allowed_by_kind Step_Started = Some [F_step_id, F_actor, F_payload, F_inputs]"
| "allowed_by_kind Step_Completed = Some [F_step_id, F_actor, F_payload, F_inputs]"
| "allowed_by_kind Step_Failed = Some [F_step_id, F_actor, F_reason, F_payload]"
| "allowed_by_kind Step_Retrying = Some [F_step_id, F_actor, F_reason, F_payload]"
| "allowed_by_kind Review_Completed = Some [F_actor, F_inputs, F_payload]"
| "allowed_by_kind Discussion_Started =
     Some [F_actor, F_session_id, F_participants, F_inputs, F_payload]"
| "allowed_by_kind Message_Created =
     Some [F_actor, F_session_id, F_message, F_inputs, F_payload]"
| "allowed_by_kind Tool_Started = Some [F_actor, F_tool_call_id, F_tool_name, F_payload]"
| "allowed_by_kind Tool_Completed =
     Some [F_actor, F_tool_call_id, F_tool_name, F_artifact, F_payload]"
| "allowed_by_kind Tool_Failed =
     Some [F_actor, F_tool_call_id, F_tool_name, F_reason, F_payload]"
| "allowed_by_kind Approval_Requested =
     Some [F_actor, F_approval_id, F_action, F_reason, F_payload]"
| "allowed_by_kind Approval_Resolved = Some [F_actor, F_approval_id, F_decision, F_payload]"
| "allowed_by_kind Cost_Recorded =
     Some [F_actor, F_provider_id, F_cost_usd, F_currency, F_payload]"
| "allowed_by_kind _ = None"

fun direct_allowed_by_kind :: "event_kind \<Rightarrow> event_field list option" where
  "direct_allowed_by_kind Model_Started = Some [F_actor, F_message, F_payload]"
| "direct_allowed_by_kind Artifact_Created = Some [F_artifact, F_actor, F_message, F_payload]"
| "direct_allowed_by_kind Checkpoint_Saved = Some [F_checkpoint]"
| "direct_allowed_by_kind Runtime_Completed =
     Some [F_actor, F_message, F_payload, F_inputs, F_reason]"
| "direct_allowed_by_kind Runtime_Failed = Some [F_reason, F_payload]"
| "direct_allowed_by_kind Runtime_Cancelled = Some []"
| "direct_allowed_by_kind _ = None"

definition outside :: "run_event \<Rightarrow> event_field list option \<Rightarrow> bool" where
  "outside e allowed \<longleftrightarrow>
     (case allowed of None \<Rightarrow> False | Some fs \<Rightarrow> list_ex (\<lambda>f. f \<notin> set fs) (present e))"

text \<open>The checks from the table of allowed fields to the end of the validator.\<close>

definition field_checks :: "run_event \<Rightarrow> (bool \<times> string) list" where
  "field_checks e = (let k = ev_kind e in
     [(case k of Known kn \<Rightarrow> outside e (allowed_by_kind kn) | Extension _ \<Rightarrow> False,
       ''event carries fields unrelated to its kind''),
      (case k of Known kn \<Rightarrow> outside e (direct_allowed_by_kind kn) | Extension _ \<Rightarrow> False,
       ''direct runtime event carries fields unrelated to its kind''),
      (ev_artifact e \<noteq> None \<and> k \<notin> {Known Artifact_Created, Known Tool_Completed},
       ''only artifact.created may carry an artifact''),
      (ev_checkpoint e \<noteq> None \<and> k \<noteq> Known Checkpoint_Saved,
       ''only checkpoint.saved may carry a checkpoint''),
      (ev_message e \<noteq> None \<and>
         k \<notin> {Known Message_Created, Known Model_Started, Known Artifact_Created,
              Known Runtime_Completed}, ''only message.created may carry a message''),
      ((case k of Extension x \<Rightarrow> True | Known _ \<Rightarrow> False) \<and>
         (ev_payload e = [] \<or> ev_artifact e \<noteq> None \<or> ev_checkpoint e \<noteq> None \<or> ev_step e \<noteq> None
          \<or> ev_actor e \<noteq> None \<or> ev_message e \<noteq> None \<or> ev_inputs e \<noteq> [] \<or> ev_reason e \<noteq> None
          \<or> specialized_present e),
       ''extension events require payload and forbid direct objects'')])"

definition event_invariants :: "run_event \<Rightarrow> string + unit" where
  "event_invariants e = run_checks (kind_checks e @ field_checks e)"

subsection \<open>The table the validator implements\<close>

text \<open>Per kind the fields an event needs and the fields it may have.\<close>

fun required_fields :: "kind \<Rightarrow> event_field list" where
  "required_fields (Known Artifact_Created) = [F_artifact]"
| "required_fields (Known Checkpoint_Saved) = [F_checkpoint]"
| "required_fields (Known Runtime_Failed) = [F_reason]"
| "required_fields (Known Step_Started) = [F_step_id, F_actor]"
| "required_fields (Known Step_Completed) = [F_step_id, F_actor]"
| "required_fields (Known Step_Failed) = [F_step_id, F_actor, F_reason]"
| "required_fields (Known Step_Retrying) = [F_step_id, F_actor]"
| "required_fields (Known Review_Completed) = [F_actor, F_inputs]"
| "required_fields (Known Discussion_Started) = [F_actor, F_session_id, F_participants]"
| "required_fields (Known Message_Created) = [F_actor, F_message]"
| "required_fields (Known Tool_Started) = [F_actor, F_tool_call_id, F_tool_name]"
| "required_fields (Known Tool_Completed) = [F_actor, F_tool_call_id, F_tool_name]"
| "required_fields (Known Tool_Failed) = [F_actor, F_tool_call_id, F_tool_name, F_reason]"
| "required_fields (Known Approval_Requested) = [F_actor, F_approval_id, F_action, F_reason]"
| "required_fields (Known Approval_Resolved) = [F_actor, F_approval_id, F_decision]"
| "required_fields (Known Cost_Recorded) = [F_actor, F_provider_id, F_cost_usd, F_currency]"
| "required_fields (Known _) = []"
| "required_fields (Extension _) = [F_payload]"

fun optional_fields :: "kind \<Rightarrow> event_field list" where
  "optional_fields (Known Model_Started) = [F_actor, F_message, F_payload]"
| "optional_fields (Known Artifact_Created) = [F_actor, F_message, F_payload]"
| "optional_fields (Known Runtime_Completed) = [F_actor, F_message, F_payload, F_inputs, F_reason]"
| "optional_fields (Known Step_Started) = [F_payload, F_inputs]"
| "optional_fields (Known Step_Completed) = [F_payload, F_inputs]"
| "optional_fields (Known Step_Retrying) = [F_reason, F_payload]"
| "optional_fields (Known Discussion_Started) = [F_inputs, F_payload]"
| "optional_fields (Known Message_Created) = [F_session_id, F_inputs, F_payload]"
| "optional_fields (Known Tool_Completed) = [F_artifact, F_payload]"
| "optional_fields (Known Checkpoint_Saved) = []"
| "optional_fields (Known Runtime_Cancelled) = []"
| "optional_fields (Known _) = [F_payload]"
| "optional_fields (Extension _) = []"

text \<open>What a kind demands of the values of its fields, beyond their presence.\<close>

fun kind_values_ok :: "kind \<Rightarrow> run_event \<Rightarrow> bool" where
  "kind_values_ok (Known Checkpoint_Saved) e \<longleftrightarrow>
     map_option ck_run (ev_checkpoint e) = Some (ev_run e)"
| "kind_values_ok (Known Review_Completed) e \<longleftrightarrow>
     json_get (ev_payload e) ''verdict'' \<in>
       {Some (JStr ''approve''), Some (JStr ''revise''), Some (JStr ''reject'')}"
| "kind_values_ok (Known Discussion_Started) e \<longleftrightarrow>
     2 \<le> length (ev_participants e) \<and> length (ev_participants e) \<le> 8
     \<and> ev_actor e \<in> Some ` set (ev_participants e)"
| "kind_values_ok (Known Tool_Completed) e \<longleftrightarrow> ev_artifact e \<noteq> None \<or> ev_payload e \<noteq> []"
| "kind_values_ok (Known Cost_Recorded) e \<longleftrightarrow> ev_currency e = Some ''USD''"
| "kind_values_ok _ e \<longleftrightarrow> True"

definition event_shape_ok :: "run_event \<Rightarrow> bool" where
  "event_shape_ok e \<longleftrightarrow>
     \<not> contains_sensitive_key (JObj (ev_payload e))
   \<and> set (required_fields (ev_kind e)) \<subseteq> set (present e)
   \<and> set (present e) \<subseteq> set (required_fields (ev_kind e) @ optional_fields (ev_kind e))
   \<and> kind_values_ok (ev_kind e) e"

subsection \<open>The validator accepts the table\<close>

lemma set_filter_fst: "f \<in> set (map fst (filter snd xs)) \<longleftrightarrow> (f, True) \<in> set xs"
  by force

lemma present_iff:
  "F_artifact \<in> set (present e) \<longleftrightarrow> ev_artifact e \<noteq> None"
  "F_checkpoint \<in> set (present e) \<longleftrightarrow> ev_checkpoint e \<noteq> None"
  "F_reason \<in> set (present e) \<longleftrightarrow> ev_reason e \<noteq> None"
  "F_inputs \<in> set (present e) \<longleftrightarrow> ev_inputs e \<noteq> []"
  "F_step_id \<in> set (present e) \<longleftrightarrow> ev_step e \<noteq> None"
  "F_actor \<in> set (present e) \<longleftrightarrow> ev_actor e \<noteq> None"
  "F_message \<in> set (present e) \<longleftrightarrow> ev_message e \<noteq> None"
  "F_payload \<in> set (present e) \<longleftrightarrow> ev_payload e \<noteq> []"
  "F_session_id \<in> set (present e) \<longleftrightarrow> ev_session e \<noteq> None"
  "F_participants \<in> set (present e) \<longleftrightarrow> ev_participants e \<noteq> []"
  "F_tool_call_id \<in> set (present e) \<longleftrightarrow> ev_tool_call e \<noteq> None"
  "F_tool_name \<in> set (present e) \<longleftrightarrow> ev_tool_name e \<noteq> None"
  "F_approval_id \<in> set (present e) \<longleftrightarrow> ev_approval e \<noteq> None"
  "F_action \<in> set (present e) \<longleftrightarrow> ev_action e \<noteq> None"
  "F_decision \<in> set (present e) \<longleftrightarrow> ev_decision e \<noteq> None"
  "F_provider_id \<in> set (present e) \<longleftrightarrow> ev_provider e \<noteq> None"
  "F_cost_usd \<in> set (present e) \<longleftrightarrow> ev_cost e \<noteq> None"
  "F_currency \<in> set (present e) \<longleftrightarrow> ev_currency e \<noteq> None"
  unfolding present_def set_filter_fst by simp_all

lemma all_fields: "(\<forall>f. P f) \<longleftrightarrow> P F_artifact \<and> P F_checkpoint \<and> P F_reason \<and> P F_inputs \<and> P F_step_id
  \<and> P F_actor \<and> P F_message \<and> P F_payload \<and> P F_session_id \<and> P F_participants \<and> P F_tool_call_id
  \<and> P F_tool_name \<and> P F_approval_id \<and> P F_action \<and> P F_decision \<and> P F_provider_id \<and> P F_cost_usd
  \<and> P F_currency"
  (is "?L \<longleftrightarrow> ?R")
proof (intro iffI allI)
  fix f assume ?R then show "P f" by (cases f) blast+
qed blast

lemma present_subset: "set (present e) \<subseteq> A \<longleftrightarrow>
    (ev_artifact e \<noteq> None \<longrightarrow> F_artifact \<in> A) \<and> (ev_checkpoint e \<noteq> None \<longrightarrow> F_checkpoint \<in> A)
  \<and> (ev_reason e \<noteq> None \<longrightarrow> F_reason \<in> A) \<and> (ev_inputs e \<noteq> [] \<longrightarrow> F_inputs \<in> A)
  \<and> (ev_step e \<noteq> None \<longrightarrow> F_step_id \<in> A) \<and> (ev_actor e \<noteq> None \<longrightarrow> F_actor \<in> A)
  \<and> (ev_message e \<noteq> None \<longrightarrow> F_message \<in> A) \<and> (ev_payload e \<noteq> [] \<longrightarrow> F_payload \<in> A)
  \<and> (ev_session e \<noteq> None \<longrightarrow> F_session_id \<in> A) \<and> (ev_participants e \<noteq> [] \<longrightarrow> F_participants \<in> A)
  \<and> (ev_tool_call e \<noteq> None \<longrightarrow> F_tool_call_id \<in> A) \<and> (ev_tool_name e \<noteq> None \<longrightarrow> F_tool_name \<in> A)
  \<and> (ev_approval e \<noteq> None \<longrightarrow> F_approval_id \<in> A) \<and> (ev_action e \<noteq> None \<longrightarrow> F_action \<in> A)
  \<and> (ev_decision e \<noteq> None \<longrightarrow> F_decision \<in> A) \<and> (ev_provider e \<noteq> None \<longrightarrow> F_provider_id \<in> A)
  \<and> (ev_cost e \<noteq> None \<longrightarrow> F_cost_usd \<in> A) \<and> (ev_currency e \<noteq> None \<longrightarrow> F_currency \<in> A)"
  unfolding subset_eq Ball_def all_fields present_iff by (rule refl)

lemma present_Nil: "present e = [] \<longleftrightarrow> set (present e) \<subseteq> {}"
  by simp

lemmas present_empty = present_Nil [unfolded present_subset, simplified]

lemma outside_Some: "\<not> outside e (Some fs) \<longleftrightarrow> set (present e) \<subseteq> set fs"
  by (auto simp: outside_def list_ex_iff)
lemma outside_None: "\<not> outside e None" by (simp add: outside_def)

lemma event_checks_ok: "event_invariants e = Inr () \<longleftrightarrow>
   (\<forall>c \<in> set (kind_checks e). \<not> fst c) \<and> (\<forall>c \<in> set (field_checks e). \<not> fst c)"
  by (auto simp: event_invariants_def)

lemma event_invariants_iff_shape: "event_invariants e = Inr () \<longleftrightarrow> event_shape_ok e"
proof (cases "ev_kind e")
  case (Known k)
  then show ?thesis
    unfolding event_checks_ok kind_checks_def field_checks_def event_shape_ok_def Let_def
    by (cases k) (simp_all add: outside_Some outside_None present_subset present_empty present_iff, auto)
next
  case (Extension x)
  then show ?thesis
    unfolding event_checks_ok kind_checks_def field_checks_def event_shape_ok_def Let_def
    by (simp add: outside_Some outside_None present_subset present_iff specialized_present_def) auto
qed

subsection \<open>Field constraints, the constructor and the payload\<close>

text \<open>
  The grammar of an extension name: two identifiers joined by a dot. A name of the enumeration
  never stays an extension.
\<close>

definition namespaced :: "string \<Rightarrow> bool" where
  "namespaced x \<longleftrightarrow> (case split_on CHR ''.'' x of
     [a, b] \<Rightarrow> ident_match lower_alpha (lower_alnum @ ''_'') 31 a
             \<and> ident_match lower_alpha (lower_alnum @ ''_'') 31 b
   | _ \<Rightarrow> False)"

definition all_event_kinds :: "event_kind list" where
  "all_event_kinds =
     [Model_Started, Artifact_Created, Checkpoint_Saved, Runtime_Completed, Runtime_Failed,
      Runtime_Cancelled, Step_Started, Step_Completed, Step_Failed, Step_Retrying,
      Review_Completed, Discussion_Started, Message_Created, Tool_Started, Tool_Completed,
      Tool_Failed, Approval_Requested, Approval_Resolved, Cost_Recorded]"

definition parse_kind :: "string \<Rightarrow> contract_error + kind" where
  "parse_kind x =
     (if \<not> namespaced x
      then Inl (Value_Error ''event kind must be a safe namespaced identifier'')
      else case find (\<lambda>k. kind_text k = x) all_event_kinds of
        Some k \<Rightarrow> Inr (Known k) | None \<Rightarrow> Inr (Extension x))"

fun kind_name :: "kind \<Rightarrow> string" where
  "kind_name (Known k) = kind_text k"
| "kind_name (Extension x) = x"

lemma in_all_event_kinds [simp]: "k \<in> set all_event_kinds"
  by (cases k) (simp_all add: all_event_kinds_def)

lemma kind_texts_namespaced: "list_all (\<lambda>k. namespaced (kind_text k)) all_event_kinds"
  by code_simp

lemma kind_text_namespaced: "namespaced (kind_text k)"
  using kind_texts_namespaced by (simp add: list_all_iff)

lemma kind_text_find: "find (\<lambda>k'. kind_text k' = kind_text k) all_event_kinds = Some k"
  by (cases k) (simp_all add: all_event_kinds_def)

lemma parse_kind_known: "parse_kind (kind_text k) = Inr (Known k)"
  by (simp add: parse_kind_def kind_text_namespaced kind_text_find)

lemma kind_text_inject [simp]: "kind_text k = kind_text k' \<longleftrightarrow> k = k'"
  using parse_kind_known by (metis kind.inject(1) sum.inject(2))

lemma parse_kind_name:
  assumes "parse_kind x = Inr k"
  shows "kind_name k = x"
  using assms by (auto simp: parse_kind_def find_Some_iff split: if_splits option.splits)

definition optional_ok :: "('a \<Rightarrow> bool) \<Rightarrow> 'a option \<Rightarrow> bool" where
  "optional_ok P v \<longleftrightarrow> (case v of None \<Rightarrow> True | Some x \<Rightarrow> P x)"

definition text_ok :: "nat \<Rightarrow> string \<Rightarrow> bool" where
  "text_ok max_bytes t \<longleftrightarrow>
     (case safe_free_text ''text'' max_bytes t of Inl _ \<Rightarrow> False | Inr _ \<Rightarrow> True)"

text \<open>A cost is at most a million with at most six decimal places.\<close>

definition cost_ok :: "decimal \<Rightarrow> bool" where
  "cost_ok c \<longleftrightarrow> 0 \<le> c \<and> c \<le> 1000000 \<and> snd (quotient_of (c * 1000000)) = 1"

definition event_field_checks ::
  "(pyfloat \<Rightarrow> string) \<Rightarrow> run_event \<Rightarrow> (bool \<times> string) list" where
  "event_field_checks ft e =
     [(parse_kind (kind_name (ev_kind e)) \<noteq> Inr (ev_kind e), ''kind''),
      (ev_sequence e < 1 \<or> ev_sequence e > 2 ^ 63 - 1, ''sequence''),
      (\<not> optional_ok (\<lambda>r. text_ok 512 r \<and> length r \<le> 512) (ev_reason e), ''reason''),
      (length (ev_inputs e) > 64, ''inputs''),
      (\<not> list_all (optional_ok safe_id)
         [ev_step e, ev_actor e, ev_session e, ev_tool_call e, ev_tool_name e, ev_approval e,
          ev_action e, ev_provider e], ''event identifier must be a safe identifier''),
      (\<not> optional_ok (text_ok 65536) (ev_message e), ''message''),
      (freeze_object ft ''event payload'' (mutable_json (JObj (ev_payload e))) \<noteq> Inr (ev_payload e), ''payload''),
      (\<not> list_all safe_id (ev_participants e) \<or> \<not> distinct (ev_participants e)
         \<or> length (ev_participants e) > 8, ''participants''),
      (\<not> optional_ok cost_ok (ev_cost e), ''cost_usd must be a bounded decimal''),
      (\<not> optional_ok (\<lambda>c. c = ''USD'') (ev_currency e), ''currency'')]"

definition mk_event :: "(pyfloat \<Rightarrow> string) \<Rightarrow> run_event \<Rightarrow> string + run_event" where
  "mk_event ft e =
     res_bind (run_checks (event_field_checks ft e)) (\<lambda>_.
     res_bind (event_invariants e) (\<lambda>_. Inr e))"

text \<open>\<open>str\<close> of a normalised decimal with at most six places.\<close>

fun strip_zeros :: "nat \<Rightarrow> int \<Rightarrow> nat \<times> int" where
  "strip_zeros coef ex =
     (if coef = 0 \<or> coef mod 10 \<noteq> 0 then (coef, ex) else strip_zeros (coef div 10) (ex + 1))"

declare strip_zeros.simps [simp del]

definition decimal_text :: "decimal \<Rightarrow> string" where
  "decimal_text c =
     (if c = 0 then ''0''
      else let (coef, ex) = strip_zeros (nat \<lfloor>c * 1000000\<rfloor>) (-6);
               ds = nat_text coef; left = int (length ds) + ex in
        if ex > 0
        then take 1 ds @ (if length ds > 1 then CHR ''.'' # drop 1 ds else [])
             @ ''E+'' @ int_text (left - 1)
        else if left \<le> 0 then ''0.'' @ replicate (nat (- left)) CHR ''0'' @ ds
        else take (nat left) ds
             @ (if nat left < length ds then CHR ''.'' # drop (nat left) ds else []))"

fun resolution_text :: "resolution \<Rightarrow> string" where
  "resolution_text Approved = ''approved''"
| "resolution_text Rejected = ''rejected''"

definition json_opt :: "('a \<Rightarrow> json) \<Rightarrow> 'a option \<Rightarrow> json" where
  "json_opt f v = (case v of None \<Rightarrow> JNull | Some x \<Rightarrow> f x)"

definition event_payload :: "run_event \<Rightarrow> (string \<times> json) list" where
  "event_payload e =
     [(''kind'', JStr (kind_name (ev_kind e))), (''sequence'', JInt (ev_sequence e)),
      (''run_id'', JStr (uuid_text (ev_run e))),
      (''artifact'', json_opt artifact_payload (ev_artifact e)),
      (''checkpoint'', json_opt checkpoint_payload (ev_checkpoint e)),
      (''reason'', json_opt JStr (ev_reason e)),
      (''inputs'', JArr (map artifact_payload (ev_inputs e))),
      (''step_id'', json_opt JStr (ev_step e)), (''actor'', json_opt JStr (ev_actor e)),
      (''message'', json_opt JStr (ev_message e)), (''payload'', JObj (ev_payload e)),
      (''session_id'', json_opt JStr (ev_session e)),
      (''participants'', JArr (map JStr (ev_participants e))),
      (''tool_call_id'', json_opt JStr (ev_tool_call e)),
      (''tool_name'', json_opt JStr (ev_tool_name e)),
      (''approval_id'', json_opt JStr (ev_approval e)), (''action'', json_opt JStr (ev_action e)),
      (''decision'', json_opt (\<lambda>d. JStr (resolution_text d)) (ev_decision e)),
      (''provider_id'', json_opt JStr (ev_provider e)),
      (''cost_usd'', json_opt (\<lambda>c. JStr (decimal_text c)) (ev_cost e)),
      (''currency'', json_opt JStr (ev_currency e))]"

section \<open>The task context\<close>

record task_context =
  tc_run :: uuid
  tc_tenant :: uuid
  tc_mode :: task_mode
  tc_request :: string
  tc_artifacts :: "artifact list"
  tc_checkpoint :: "checkpoint option"
  tc_decision :: "(string \<times> json) list"
  tc_timeout :: pyfloat
  tc_tokens :: int

definition context_checks :: "(pyfloat \<Rightarrow> string) \<Rightarrow> task_context \<Rightarrow> (bool \<times> string) list" where
  "context_checks ft c =
     [(tc_mode c = Auto, ''task mode must be executable''),
      (\<not> text_ok 65536 (tc_request c), ''request''),
      (length (tc_artifacts c) > 64, ''artifacts''),
      (freeze_object ft ''routing decision'' (mutable_json (JObj (tc_decision c))) \<noteq> Inr (tc_decision c),
       ''routing decision''),
      (tc_timeout c \<le> 0 \<or> tc_timeout c > 3600, ''timeout_seconds''),
      (tc_tokens c < 1 \<or> tc_tokens c > 10000000, ''token_budget''),
      (\<not> distinct (map ar_id (tc_artifacts c)), ''task artifacts must be unique''),
      (\<not> optional_ok (\<lambda>k. ck_run k = tc_run c \<and> ck_tenant k = tc_tenant c
                          \<and> ck_mode k = tc_mode c) (tc_checkpoint c),
       ''checkpoint run, tenant, or mode does not match task context'')]"

definition mk_context :: "(pyfloat \<Rightarrow> string) \<Rightarrow> task_context \<Rightarrow> string + task_context" where
  "mk_context ft c = res_bind (run_checks (context_checks ft c)) (\<lambda>_. Inr c)"

definition context_payload :: "task_context \<Rightarrow> (string \<times> json) list" where
  "context_payload c =
     [(''run_id'', JStr (uuid_text (tc_run c))), (''tenant_id'', JStr (uuid_text (tc_tenant c))),
      (''mode'', JStr (mode_text (tc_mode c))), (''request'', JStr (tc_request c)),
      (''artifacts'', JArr (map artifact_payload (tc_artifacts c))),
      (''routing_decision'', JObj (tc_decision c)),
      (''checkpoint'', json_opt checkpoint_payload (tc_checkpoint c)),
      (''timeout_seconds'', JFloat (tc_timeout c)), (''token_budget'', JInt (tc_tokens c))]"

lemma mk_event_Inr:
  "mk_event ft e = Inr e' \<longleftrightarrow> e' = e \<and> (\<forall>c \<in> set (event_field_checks ft e). \<not> fst c)
     \<and> event_shape_ok e"
  by (auto simp: mk_event_def res_bind_Inr_iff event_invariants_iff_shape)

section \<open>What the event contract promises\<close>

text \<open>
  C2. The event constructor returns exactly the event it was given, and only when every field is
  within its own bounds and the event fits its kind's row of the table: it carries each required
  field, nothing but required and allowed fields, and values the kind admits.
\<close>

theorem event_contract_is_the_table:
  "mk_event ft e = Inr e' \<longleftrightarrow>
     e' = e \<and> run_checks (event_field_checks ft e) = Inr () \<and> event_shape_ok e"
  by (auto simp: mk_event_Inr)

text \<open>
  Reading a kind's name back gives the kind: a name of the enumeration is never kept as an
  extension, and every accepted name is the name of the kind it is read as.
\<close>

theorem kind_names_round_trip:
  "parse_kind (kind_text k) = Inr (Known k) \<and> (parse_kind x \<noteq> Inr (Extension (kind_text k)))
   \<and> (case parse_kind x of Inl _ \<Rightarrow> \<not> namespaced x | Inr kd \<Rightarrow> kind_name kd = x)"
proof -
  have "parse_kind x \<noteq> Inr (Extension (kind_text k))"
    using parse_kind_name [of x "Extension (kind_text k)"] parse_kind_known [of k] by auto
  then show ?thesis
    using parse_kind_known [of k] parse_kind_name [of x]
    by (auto simp: parse_kind_def split: sum.splits option.splits if_splits)
qed

text \<open>
  An artifact the constructor returns carries the digest of its own content: building it
  again from what was stored succeeds and changes nothing, while the same content under any
  other nonempty digest is refused.
\<close>

theorem artifact_digest_is_checked:
  assumes "mk_artifact sha ft a = Inr b"
  shows "ar_sha b = content_digest sha ft b \<and> mk_artifact sha ft b = Inr b
       \<and> (d \<notin> {[], ar_sha b} \<longrightarrow> (\<exists>e. mk_artifact sha ft (b\<lparr>ar_sha := d\<rparr>) = Inl e))"
proof -
  let ?c = "content_digest sha ft a"
  have env: "content_digest sha ft (a\<lparr>ar_sha := x\<rparr>) = ?c" for x
    by (simp add: content_digest_def artifact_envelope_def)
  from assms have b: "b = a\<lparr>ar_sha := ?c\<rparr>"
    and ok: "\<forall>c \<in> set (artifact_checks sha ft a). \<not> fst c"
    by (auto simp: mk_artifact_def res_bind_Inr_iff)
  have "\<forall>c \<in> set (artifact_checks sha ft b). \<not> fst c"
    using ok by (simp add: artifact_checks_def b env)
  moreover have "\<exists>e. mk_artifact sha ft (b\<lparr>ar_sha := d\<rparr>) = Inl e" if "d \<notin> {[], ar_sha b}"
  proof -
    have "\<exists>c \<in> set (artifact_checks sha ft (b\<lparr>ar_sha := d\<rparr>)). fst c"
      using that by (simp add: artifact_checks_def b env)
    then have "run_checks (artifact_checks sha ft (b\<lparr>ar_sha := d\<rparr>)) \<noteq> Inr ()" by auto
    then show ?thesis
      by (cases "run_checks (artifact_checks sha ft (b\<lparr>ar_sha := d\<rparr>))")
        (simp_all add: mk_artifact_def)
  qed
  ultimately show ?thesis by (simp add: b env mk_artifact_def)
qed

text \<open>So is a checkpoint: building it again changes nothing.\<close>

lemma checkpoint_built_again:
  assumes "mk_checkpoint sha ft a = Inr b"
  shows "mk_checkpoint sha ft b = Inr b"
proof -
  let ?c = "state_digest sha ft a"
  have env: "state_digest sha ft (a\<lparr>ck_sha := x\<rparr>) = ?c" for x by (simp add: state_digest_def)
  from assms have b: "b = a\<lparr>ck_sha := ?c\<rparr>" and ok: "\<forall>c \<in> set (checkpoint_checks sha ft a). \<not> fst c"
    by (auto simp: mk_checkpoint_def res_bind_Inr_iff)
  have "\<forall>c \<in> set (checkpoint_checks sha ft b). \<not> fst c" using ok by (simp add: checkpoint_checks_def b env)
  then show ?thesis by (simp add: b env mk_checkpoint_def)
qed

definition sample_artifact :: artifact where
  "sample_artifact = \<lparr>ar_id = 1, ar_version = 1, ar_type = ''text'', ar_producer = ''main'',
     ar_content = [(''text'', JStr ''hello'')], ar_sources = [2], ar_sha = [], ar_provenance = None\<rparr>"

lemma sample_artifact_built:
  "mk_artifact (\<lambda>t. rev t) (\<lambda>_. ''0.5'') sample_artifact =
     Inr (sample_artifact\<lparr>ar_sha := content_digest (\<lambda>t. rev t) (\<lambda>_. ''0.5'') sample_artifact\<rparr>)"
proof -
  have "list_all (\<lambda>c. \<not> fst c) (artifact_checks (\<lambda>t. rev t) (\<lambda>_. ''0.5'') sample_artifact)"
    by code_simp
  then show ?thesis by (simp add: mk_artifact_def list_all_iff)
qed

theorem artifact_digest_is_checked_witness:
  "let b = sample_artifact\<lparr>ar_sha := content_digest (\<lambda>t. rev t) (\<lambda>_. ''0.5'') sample_artifact\<rparr> in
   mk_artifact (\<lambda>t. rev t) (\<lambda>_. ''0.5'') b = Inr b"
  unfolding Let_def
  using artifact_digest_is_checked [OF sample_artifact_built, THEN conjunct2, THEN conjunct1] .

end
