(* ===== verification/Run_Store.thy ===== *)
theory Run_Store
  imports Run_Events
begin

text \<open>
  The durable run store of \<open>runs/repository.py\<close> over the tables of \<open>db/models.py\<close>. The database
  is a record of tables; every repository method is one transaction, a function from the
  database to an error or to the new database and the value the method returns. An error leaves
  the database as it was, which is what the rollback of the session does.

  Identifiers drawn by \<open>uuid4\<close> and the transaction's \<open>now()\<close> are arguments. The unique and
  primary keys of the tables, the check on the mode column, the column widths and the cascading
  foreign keys are part of the model, since the code relies on them.
\<close>

section \<open>Tables\<close>

record run_row =
  rr_id :: uuid
  rr_tenant :: uuid
  rr_actor :: "uuid option"
  rr_request :: string
  rr_mode :: "task_mode option"
  rr_status :: run_status
  rr_key :: "string option"
  rr_decision :: "(string \<times> json) list option"
  rr_version :: int
  rr_created :: instant

record event_row =
  er_tenant :: uuid
  er_run :: uuid
  er_seq :: int
  er_kind :: string
  er_payload :: "(string \<times> json) list"

record step_row =
  sr_tenant :: uuid
  sr_run :: uuid
  sr_step :: string
  sr_actor :: string
  sr_payload :: "(string \<times> json) list"
  sr_created :: instant

record artifact_row =
  fr_tenant :: uuid
  fr_run :: uuid
  fr_id :: uuid
  fr_type :: string
  fr_producer :: string
  fr_sha :: string
  fr_payload :: json
  fr_created :: instant

record checkpoint_row =
  kr_tenant :: uuid
  kr_run :: uuid
  kr_id :: uuid
  kr_seq :: int
  kr_checkpoint :: checkpoint

record approval_row =
  pr_tenant :: uuid
  pr_run :: uuid
  pr_approval :: string
  pr_action :: string
  pr_status :: string
  pr_payload :: "(string \<times> json) list"

record usage_row =
  ur_tenant :: uuid
  ur_run :: uuid
  ur_seq :: int
  ur_provider :: string
  ur_cost :: decimal

record outbox_row =
  or_id :: uuid
  or_tenant :: uuid
  or_run :: uuid
  or_key :: string
  or_delivered :: bool
  or_created :: instant

record run_db =
  db_runs :: "run_row list"
  db_events :: "event_row list"
  db_steps :: "step_row list"
  db_artifacts :: "artifact_row list"
  db_checkpoints :: "checkpoint_row list"
  db_approvals :: "approval_row list"
  db_usage :: "usage_row list"
  db_outbox :: "outbox_row list"

definition empty_db :: run_db where
  "empty_db = \<lparr>db_runs = [], db_events = [], db_steps = [], db_artifacts = [],
     db_checkpoints = [], db_approvals = [], db_usage = [], db_outbox = []\<rparr>"

text \<open>
  The errors: those of the repository, the two the database raises (a violated unique, primary,
  foreign key or check constraint; a value too wide for its column) and the limit check.
\<close>

datatype run_error =
    Run_Not_Found | Run_Conflict string | Run_Already_Active
  | Integrity_Error | Data_Error | Limit_Error

record run_record =
  rc_id :: uuid
  rc_tenant :: uuid
  rc_actor :: "uuid option"
  rc_request :: string
  rc_mode :: "task_mode option"
  rc_status :: run_status
  rc_version :: int
  rc_created :: instant
  rc_decision :: "(string \<times> json) list option"

definition to_record :: "run_row \<Rightarrow> run_record" where
  "to_record r = \<lparr>rc_id = rr_id r, rc_tenant = rr_tenant r, rc_actor = rr_actor r,
     rc_request = rr_request r, rc_mode = rr_mode r, rc_status = rr_status r,
     rc_version = rr_version r, rc_created = rr_created r, rc_decision = rr_decision r\<rparr>"

section \<open>Access to the tables\<close>

definition run_select :: "uuid \<Rightarrow> uuid \<Rightarrow> run_db \<Rightarrow> run_row option" where
  "run_select tenant i db =
     find (\<lambda>r. rr_tenant r = tenant \<and> rr_id r = i) (db_runs db)"

definition get_for_update :: "uuid \<Rightarrow> run_db \<Rightarrow> run_error + run_row" where
  "get_for_update i db =
     (case find (\<lambda>r. rr_id r = i) (db_runs db) of
        None \<Rightarrow> Inl Run_Not_Found | Some r \<Rightarrow> Inr r)"

text \<open>What the columns of a run row admit: never the automatic mode, bounded key and version.\<close>

definition run_columns_ok :: "run_row \<Rightarrow> bool" where
  "run_columns_ok r \<longleftrightarrow> optional_ok (\<lambda>k. length k \<le> 128) (rr_key r) \<and> rr_version r < 2 ^ 31"

definition insert_run :: "run_row \<Rightarrow> run_db \<Rightarrow> run_error + run_db" where
  "insert_run row db =
     (if \<not> run_columns_ok row then Inl Data_Error
      else if rr_mode row = Some Auto \<or> list_ex (\<lambda>r. rr_id r = rr_id row) (db_runs db)
        \<or> rr_key row \<noteq> None \<and>
          list_ex (\<lambda>r. rr_tenant r = rr_tenant row \<and> rr_key r = rr_key row) (db_runs db)
      then Inl Integrity_Error
      else Inr (db\<lparr>db_runs := db_runs db @ [row]\<rparr>))"

definition replace_run :: "run_row \<Rightarrow> run_row list \<Rightarrow> run_row list" where
  "replace_run row rs = map (\<lambda>r. if rr_id r = rr_id row then row else r) rs"

definition flush_run :: "run_row \<Rightarrow> run_db \<Rightarrow> run_error + run_db" where
  "flush_run row db =
     (if \<not> run_columns_ok row then Inl Data_Error
      else if rr_mode row = Some Auto then Inl Integrity_Error
      else Inr (db\<lparr>db_runs := replace_run row (db_runs db)\<rparr>))"

definition insert_outbox :: "outbox_row \<Rightarrow> run_db \<Rightarrow> run_error + run_db" where
  "insert_outbox row db =
     (if length (or_key row) > 128 then Inl Data_Error
      else if list_ex (\<lambda>o'. or_id o' = or_id row \<or> or_key o' = or_key row) (db_outbox db)
        \<or> \<not> list_ex (\<lambda>r. rr_id r = or_run row) (db_runs db)
      then Inl Integrity_Error
      else Inr (db\<lparr>db_outbox := db_outbox db @ [row]\<rparr>))"

definition new_outbox :: "uuid \<Rightarrow> uuid \<Rightarrow> uuid \<Rightarrow> string \<Rightarrow> instant \<Rightarrow> outbox_row" where
  "new_outbox oid tenant i key now =
     \<lparr>or_id = oid, or_tenant = tenant, or_run = i, or_key = key, or_delivered = False,
      or_created = now\<rparr>"

text \<open>\<open>{**a, **b}\<close>: the entries of the second dictionary win.\<close>

definition dict_merge :: "('k \<times> 'v) list \<Rightarrow> ('k \<times> 'v) list \<Rightarrow> ('k \<times> 'v) list" where
  "dict_merge a b = foldl (\<lambda>d (k, v). AList.update k v d) a b"

lemma dict_get_merge: "distinct (map fst b) \<Longrightarrow>
    map_of (dict_merge a b) k = (case map_of b k of None \<Rightarrow> map_of a k | Some v \<Rightarrow> Some v)"
proof (induction b arbitrary: a)
  case (Cons kv b)
  obtain k' v where kv: "kv = (k', v)" by (cases kv)
  have "map_of b k' = None" using Cons.prems by (simp add: kv map_of_eq_None_iff)
  moreover have "map_of (dict_merge a (kv # b)) k = map_of (dict_merge (AList.update k' v a) b) k"
    by (simp add: dict_merge_def kv)
  ultimately show ?case
    using Cons.IH [of "AList.update k' v a"] Cons.prems
    by (auto simp: kv update_conv' split: option.splits)
qed (simp add: dict_merge_def)

definition decision_of :: "run_row \<Rightarrow> (string \<times> json) list" where
  "decision_of r = (case rr_decision r of None \<Rightarrow> [] | Some d \<Rightarrow> d)"

text \<open>
  The common shape of the updating methods: lock the row of the tenant's run, let the method
  decide, write the row with the next version, then add the outbox entry it asked for.
\<close>

datatype row_change = Keep | Write run_row "string option"

definition bump :: "run_row \<Rightarrow> run_row" where
  "bump r = r\<lparr>rr_version := rr_version r + 1\<rparr>"

definition change_run ::
  "uuid \<Rightarrow> uuid \<Rightarrow> instant \<Rightarrow> uuid \<Rightarrow> (run_row \<Rightarrow> run_error + row_change) \<Rightarrow> run_db
     \<Rightarrow> run_error + (run_db \<times> run_record)" where
  "change_run tenant i now oid f db =
     (case run_select tenant i db of
        None \<Rightarrow> Inl Run_Not_Found
      | Some row \<Rightarrow> res_bind (f row) (\<lambda>ch. case ch of
            Keep \<Rightarrow> Inr (db, to_record row)
          | Write row1 key \<Rightarrow>
              let row2 = bump row1 in
              res_bind (flush_run row2 db) (\<lambda>db1.
              res_bind (case key of None \<Rightarrow> Inr db1
                  | Some k \<Rightarrow> insert_outbox (new_outbox oid tenant i k now) db1) (\<lambda>db2.
              Inr (db2, to_record row2)))))"

definition run_key :: "uuid \<Rightarrow> uuid \<Rightarrow> string \<Rightarrow> int \<Rightarrow> string" where
  "run_key tenant i what version =
     uuid_text tenant @ '':'' @ uuid_text i @ '':'' @ what @ '':'' @ int_text version"

section \<open>Creation, lookup and deletion\<close>

definition create_run ::
  "uuid \<Rightarrow> uuid \<Rightarrow> string \<Rightarrow> task_mode option \<Rightarrow> run_status \<Rightarrow> string option
     \<Rightarrow> (string \<times> json) list option \<Rightarrow> bool \<Rightarrow> uuid \<Rightarrow> uuid \<Rightarrow> instant \<Rightarrow> run_db
     \<Rightarrow> run_error + (run_db \<times> run_record)" where
  "create_run tenant actor request m status key decision enqueue new_id oid now db =
     (let existing = (case key of None \<Rightarrow> None
          | Some k \<Rightarrow> find (\<lambda>r. rr_tenant r = tenant \<and> rr_key r = Some k) (db_runs db)) in
      case existing of
        Some row \<Rightarrow> Inr (db, to_record row)
      | None \<Rightarrow>
          let row = \<lparr>rr_id = new_id, rr_tenant = tenant, rr_actor = Some actor,
                rr_request = request, rr_mode = m, rr_status = status, rr_key = key,
                rr_decision = decision, rr_version = 1, rr_created = now\<rparr>;
              outbox_key = uuid_text tenant @ '':'' @
                (case key of None \<Rightarrow> uuid_text new_id
                 | Some k \<Rightarrow> if k = [] then uuid_text new_id else k) in
          res_bind (insert_run row db) (\<lambda>db1.
          res_bind (if enqueue then insert_outbox (new_outbox oid tenant new_id outbox_key now) db1
                    else Inr db1) (\<lambda>db2.
          Inr (db2, to_record row))))"

definition get_run :: "uuid \<Rightarrow> uuid \<Rightarrow> run_db \<Rightarrow> run_error + run_record" where
  "get_run tenant i db =
     (case run_select tenant i db of None \<Rightarrow> Inl Run_Not_Found | Some r \<Rightarrow> Inr (to_record r))"

text \<open>Deleting a run row removes, by cascade, every row of the other tables that names it.\<close>

definition drop_rows :: "(uuid \<Rightarrow> uuid \<Rightarrow> bool) \<Rightarrow> run_db \<Rightarrow> run_db" where
  "drop_rows P db = db\<lparr>
     db_outbox := filter (\<lambda>x. \<not> P (or_tenant x) (or_run x)) (db_outbox db),
     db_approvals := filter (\<lambda>x. \<not> P (pr_tenant x) (pr_run x)) (db_approvals db),
     db_usage := filter (\<lambda>x. \<not> P (ur_tenant x) (ur_run x)) (db_usage db),
     db_checkpoints := filter (\<lambda>x. \<not> P (kr_tenant x) (kr_run x)) (db_checkpoints db),
     db_artifacts := filter (\<lambda>x. \<not> P (fr_tenant x) (fr_run x)) (db_artifacts db),
     db_steps := filter (\<lambda>x. \<not> P (sr_tenant x) (sr_run x)) (db_steps db),
     db_events := filter (\<lambda>x. \<not> P (er_tenant x) (er_run x)) (db_events db)\<rparr>"

definition delete_run :: "uuid \<Rightarrow> uuid \<Rightarrow> run_db \<Rightarrow> run_error + (run_db \<times> unit)" where
  "delete_run tenant i db =
     (case run_select tenant i db of
        None \<Rightarrow> Inl Run_Not_Found
      | Some row \<Rightarrow>
          if rr_status row \<notin> {Completed, Failed, Cancelled}
          then Inl (Run_Conflict ''run must be completed, failed, or cancelled before deletion'')
          else
            let db1 = drop_rows (\<lambda>t r. t = tenant \<and> r = i) db;
                db2 = drop_rows (\<lambda>t r. r = i) db1 in
            Inr (db2\<lparr>db_runs := filter (\<lambda>r. \<not> (rr_tenant r = tenant \<and> rr_id r = i)) (db_runs db2)\<rparr>,
                 ()))"

section \<open>Status changes\<close>

definition status_row ::
  "run_status \<Rightarrow> task_mode option \<Rightarrow> run_row \<Rightarrow> run_error + row_change" where
  "status_row status m row =
     Inr (Write (row\<lparr>rr_status := status,
         rr_mode := (case m of None \<Rightarrow> rr_mode row | Some x \<Rightarrow> Some x)\<rparr>) None)"

definition update_status ::
  "uuid \<Rightarrow> uuid \<Rightarrow> run_status \<Rightarrow> task_mode option \<Rightarrow> run_db \<Rightarrow> run_error + (run_db \<times> run_record)" where
  "update_status tenant i status m db =
     change_run tenant i 0 0 (status_row status m) db"

definition choose_mode_row ::
  "uuid \<Rightarrow> uuid \<Rightarrow> task_mode \<Rightarrow> string \<Rightarrow> int \<Rightarrow> string option \<Rightarrow> run_row \<Rightarrow> run_error + row_change" where
  "choose_mode_row tenant i m token version note row =
     (let d = decision_of row in
       if rr_status row \<noteq> Waiting_User_Mode
       then Inl (Run_Conflict ''run is not waiting for a mode choice'')
       else if json_get d ''decision_token'' \<noteq> Some (JStr token)
       then Inl (Run_Conflict ''mode choice token is invalid'')
       else if rr_version row \<noteq> version then Inl (Run_Conflict ''run version is stale'')
       else Inr (Write (row\<lparr>rr_mode := Some m, rr_status := Queued,
              rr_decision := Some (dict_merge d
                ((''selected_mode'', JStr (mode_text m)) #
                 (case note of None \<Rightarrow> []
                  | Some n \<Rightarrow> if n = [] then [] else [(''operator_note'', JStr n)])))\<rparr>)
              (Some (run_key tenant i ''choose-mode'' version))))"

definition choose_mode_and_enqueue ::
  "uuid \<Rightarrow> uuid \<Rightarrow> task_mode \<Rightarrow> string \<Rightarrow> int \<Rightarrow> string option \<Rightarrow> uuid \<Rightarrow> instant \<Rightarrow> run_db
     \<Rightarrow> run_error + (run_db \<times> run_record)" where
  "choose_mode_and_enqueue tenant i m token version note oid now db =
     change_run tenant i now oid (choose_mode_row tenant i m token version note) db"

definition safe_model_id :: "string \<Rightarrow> bool" where
  "safe_model_id m \<longleftrightarrow> (case m of [] \<Rightarrow> False
     | c # cs \<Rightarrow> c \<in> set lower_alnum \<and> list_all (\<lambda>x. x \<in> set (lower_alnum @ ''_-'')) cs)"

definition safe_temporary_agent_model :: "(string \<times> json) list \<Rightarrow> run_error + string" where
  "safe_temporary_agent_model proposal =
     (let candidate = (\<lambda>key. case json_get proposal key of
          Some (JStr v) \<Rightarrow> if safe_model_id v then Some v else None | _ \<Rightarrow> None) in
      case candidate ''model'' of Some v \<Rightarrow> Inr v
      | None \<Rightarrow> (case candidate ''recommended_model'' of Some v \<Rightarrow> Inr v
          | None \<Rightarrow> Inl (Run_Conflict ''temporary agent proposal has no safe model'')))"

fun json_strings :: "json list \<Rightarrow> string list" where
  "json_strings [] = []"
| "json_strings (JStr s # js) = s # json_strings js"
| "json_strings (_ # js) = json_strings js"

definition temporary_agent_guard :: "string \<Rightarrow> string \<Rightarrow> int \<Rightarrow> run_row \<Rightarrow> run_error + unit" where
  "temporary_agent_guard token_error token version row =
     run_checks
       [(rr_status row \<noteq> Waiting_Approval,
         Run_Conflict ''run is not waiting for temporary agent approval''),
        (json_get (decision_of row) ''approval_kind'' \<noteq> Some (JStr ''temporary_agent_creation''),
         Run_Conflict ''run is waiting for a different approval''),
        (json_get (decision_of row) ''decision_token'' \<noteq> Some (JStr token),
         Run_Conflict token_error),
        (rr_version row \<noteq> version, Run_Conflict ''run version is stale'')]"

definition approve_agent_row ::
  "uuid \<Rightarrow> uuid \<Rightarrow> string \<Rightarrow> int \<Rightarrow> run_row \<Rightarrow> run_error + row_change" where
  "approve_agent_row tenant i token version row =
     res_bind (temporary_agent_guard ''temporary agent approval token is invalid'' token version row)
         (\<lambda>_.
       let d = decision_of row in
       case json_get d ''temporary_agent_proposal'' of
         Some (JObj proposal) \<Rightarrow>
           (case json_get proposal ''id'' of
              Some (JStr pid) \<Rightarrow>
                res_bind (safe_temporary_agent_model proposal) (\<lambda>selected_model.
                  let proposal' = AList.update ''model'' (JStr selected_model) proposal;
                      ids = (case json_get d ''selected_agent_ids'' of
                          Some (JArr js) \<Rightarrow> json_strings js | _ \<Rightarrow> []);
                      ids' = (if pid \<in> set ids then ids else ids @ [pid]) in
                  Inr (Write (row\<lparr>rr_status := Queued,
                    rr_decision := Some (dict_merge d
                      [(''selected_agent_ids'', JArr (map JStr ids')),
                       (''temporary_agents'', JArr [JObj proposal']),
                       (''temporary_agent_approved'', JBool True)])\<rparr>)
                    (Some (run_key tenant i ''temporary-agent'' version))))
            | _ \<Rightarrow> Inl (Run_Conflict ''temporary agent proposal is invalid''))
       | _ \<Rightarrow> Inl (Run_Conflict ''temporary agent proposal is invalid''))"

definition approve_temporary_agent_and_enqueue ::
  "uuid \<Rightarrow> uuid \<Rightarrow> string \<Rightarrow> int \<Rightarrow> uuid \<Rightarrow> instant \<Rightarrow> run_db
     \<Rightarrow> run_error + (run_db \<times> run_record)" where
  "approve_temporary_agent_and_enqueue tenant i token version oid now db =
     change_run tenant i now oid (approve_agent_row tenant i token version) db"

definition revise_agent_row ::
  "uuid \<Rightarrow> uuid \<Rightarrow> string \<Rightarrow> int \<Rightarrow> string \<Rightarrow> run_row \<Rightarrow> run_error + row_change" where
  "revise_agent_row tenant i token version feedback row =
     res_bind (temporary_agent_guard ''temporary agent revision token is invalid'' token version row)
         (\<lambda>_. Inr (Write (row\<lparr>
           rr_request := rr_request row @ [CHR 0x0A, CHR 0x0A]
             @ ''User feedback for temporary agent proposal: '' @ feedback,
           rr_status := Queued,
           rr_decision := Some (dict_merge (decision_of row)
             [(''temporary_agent_rejected'', JBool True),
              (''temporary_agent_feedback'', JStr feedback),
              (''temporary_agents'', JArr []),
              (''workflow_adjustment_policy'', JStr ''ask_before_apply'')])\<rparr>)
           (Some (run_key tenant i ''temporary-agent-revision'' version))))"

definition revise_temporary_agent_and_enqueue ::
  "uuid \<Rightarrow> uuid \<Rightarrow> string \<Rightarrow> int \<Rightarrow> string \<Rightarrow> uuid \<Rightarrow> instant \<Rightarrow> run_db
     \<Rightarrow> run_error + (run_db \<times> run_record)" where
  "revise_temporary_agent_and_enqueue tenant i token version feedback oid now db =
     change_run tenant i now oid (revise_agent_row tenant i token version feedback) db"

definition enqueue_row ::
  "uuid \<Rightarrow> uuid \<Rightarrow> run_status \<Rightarrow> run_status \<Rightarrow> string \<Rightarrow> run_row \<Rightarrow> run_error + row_change" where
  "enqueue_row tenant i from_status to_status what row =
     (if rr_status row \<noteq> from_status then Inl (Run_Conflict ''run state conflict'')
       else Inr (Write (row\<lparr>rr_status := to_status\<rparr>)
              (Some (run_key tenant i what (rr_version row + 1)))))"

definition enqueue_existing_run ::
  "uuid \<Rightarrow> uuid \<Rightarrow> run_status \<Rightarrow> run_status \<Rightarrow> string \<Rightarrow> uuid \<Rightarrow> instant \<Rightarrow> run_db
     \<Rightarrow> run_error + (run_db \<times> run_record)" where
  "enqueue_existing_run tenant i from_status to_status what oid now db =
     change_run tenant i now oid (enqueue_row tenant i from_status to_status what) db"

definition control_row ::
  "run_status \<Rightarrow> run_row \<Rightarrow> run_error + row_change" where
  "control_row status row =
     (if rr_status row \<in> {Completed, Failed, Cancelled}
       then Inl (Run_Conflict ''terminal run state is immutable'')
       else if status = Paused \<and> rr_status row \<notin> {Queued, Running}
       then Inl (Run_Conflict ''run cannot be paused from its current state'')
       else if status = Cancelled \<and> rr_status row = Cancelled
       then Inl (Run_Conflict ''run state conflict'')
       else Inr (Write (row\<lparr>rr_status := status\<rparr>) None))"

definition update_control_status ::
  "uuid \<Rightarrow> uuid \<Rightarrow> run_status \<Rightarrow> run_db \<Rightarrow> run_error + (run_db \<times> run_record)" where
  "update_control_status tenant i status db =
     change_run tenant i 0 0 (control_row status) db"

definition begin_approval_row ::
  "string \<Rightarrow> string \<Rightarrow> run_row \<Rightarrow> run_error + row_change" where
  "begin_approval_row approval fingerprint row =
     (let d = decision_of row in
       if rr_status row = Waiting_Approval
          \<and> json_get d ''approval_id'' = Some (JStr approval)
          \<and> json_get d ''approval_fingerprint'' = Some (JStr fingerprint)
       then Inr Keep
       else if rr_status row \<noteq> Running then Inl (Run_Conflict ''run is not running'')
       else Inr (Write (row\<lparr>rr_status := Waiting_Approval,
              rr_decision := Some (dict_merge d [(''approval_id'', JStr approval),
                (''approval_fingerprint'', JStr fingerprint)])\<rparr>) None))"

definition begin_capability_approval ::
  "uuid \<Rightarrow> uuid \<Rightarrow> string \<Rightarrow> string \<Rightarrow> run_db \<Rightarrow> run_error + (run_db \<times> run_record)" where
  "begin_capability_approval tenant i approval fingerprint db =
     change_run tenant i 0 0 (begin_approval_row approval fingerprint) db"

definition resolve_approval_row ::
  "run_status \<Rightarrow> string \<Rightarrow> string \<Rightarrow> run_row \<Rightarrow> run_error + row_change" where
  "resolve_approval_row status approval fingerprint row =
     (let d = decision_of row in
        if rr_status row \<noteq> Waiting_Approval
        then Inl (Run_Conflict ''run is not waiting for approval'')
        else if json_get d ''approval_id'' \<noteq> Some (JStr approval)
          \<or> json_get d ''approval_fingerprint'' \<noteq> Some (JStr fingerprint)
        then Inl (Run_Conflict ''run is waiting for a different approval'')
        else Inr (Write (row\<lparr>rr_status := status,
               rr_decision := Some (filter
                 (\<lambda>kv. fst kv \<notin> {''approval_id'', ''approval_fingerprint''}) d)\<rparr>) None))"

definition resolve_capability_approval ::
  "uuid \<Rightarrow> uuid \<Rightarrow> run_status \<Rightarrow> string \<Rightarrow> string \<Rightarrow> run_db \<Rightarrow> run_error + (run_db \<times> run_record)" where
  "resolve_capability_approval tenant i status approval fingerprint db =
     (if status \<notin> {Running, Cancelled}
      then Inl (Run_Conflict ''approval resolution status is invalid'')
      else change_run tenant i 0 0 (resolve_approval_row status approval fingerprint) db)"

section \<open>Events\<close>

text \<open>
  Persisting an event inserts its row unless the run already has one at that sequence, then
  hands the event to the projections its kind calls for. \<open>diag\<close> stands for the classification
  of a failure reason in \<open>runtime/failure_reason.py\<close>.
\<close>

definition event_with_failure_diagnostic ::
  "(string \<Rightarrow> (string \<times> json) list) \<Rightarrow> run_event \<Rightarrow> run_event" where
  "event_with_failure_diagnostic diag e =
     (if ev_kind e \<notin> {Known Runtime_Failed, Known Step_Failed, Known Tool_Failed} then e
      else case ev_reason e of
        None \<Rightarrow> e
      | Some reason \<Rightarrow>
          if reason = [] then e
          else if json_get (ev_payload e) ''error_code'' = None
          then e\<lparr>ev_payload := dict_merge (diag reason) (ev_payload e)\<rparr> else e)"

definition insert_event :: "uuid \<Rightarrow> uuid \<Rightarrow> run_event \<Rightarrow> run_db \<Rightarrow> run_error + run_db" where
  "insert_event tenant i e db =
     (if length (kind_name (ev_kind e)) > 64 then Inl Data_Error
      else if list_ex (\<lambda>x. er_run x = i \<and> er_seq x = ev_sequence e) (db_events db) then Inr db
      else if \<not> list_ex (\<lambda>r. rr_id r = i) (db_runs db) then Inl Integrity_Error
      else Inr (db\<lparr>db_events := db_events db @
        [\<lparr>er_tenant = tenant, er_run = i, er_seq = ev_sequence e,
          er_kind = kind_name (ev_kind e), er_payload = event_payload e\<rparr>]\<rparr>))"

definition persist_step :: "uuid \<Rightarrow> uuid \<Rightarrow> string \<Rightarrow> run_event \<Rightarrow> instant \<Rightarrow> run_db \<Rightarrow> run_db" where
  "persist_step tenant i step e now db =
     (if list_ex (\<lambda>x. sr_run x = i \<and> sr_step x = step) (db_steps db) then db
      else db\<lparr>db_steps := db_steps db @
        [\<lparr>sr_tenant = tenant, sr_run = i, sr_step = step,
          sr_actor = (case ev_actor e of None \<Rightarrow> ''runtime''
                      | Some a \<Rightarrow> if a = [] then ''runtime'' else a),
          sr_payload = event_payload e, sr_created = now\<rparr>]\<rparr>)"

definition persist_artifact :: "uuid \<Rightarrow> uuid \<Rightarrow> artifact \<Rightarrow> instant \<Rightarrow> run_db \<Rightarrow> run_db" where
  "persist_artifact tenant i a now db =
     (if list_ex (\<lambda>x. fr_id x = ar_id a \<or> fr_run x = i \<and> fr_sha x = ar_sha a) (db_artifacts db)
      then db
      else db\<lparr>db_artifacts := db_artifacts db @
        [\<lparr>fr_tenant = tenant, fr_run = i, fr_id = ar_id a, fr_type = ar_type a,
          fr_producer = ar_producer a, fr_sha = ar_sha a, fr_payload = artifact_payload a,
          fr_created = now\<rparr>]\<rparr>)"

definition persist_checkpoint ::
  "uuid \<Rightarrow> uuid \<Rightarrow> int \<Rightarrow> checkpoint \<Rightarrow> run_db \<Rightarrow> run_error + run_db" where
  "persist_checkpoint tenant i sequence c db =
     (if length (ck_runtime_version c) > 32 then Inl Data_Error
      else if list_ex (\<lambda>x. kr_run x = i \<and> kr_seq x = sequence) (db_checkpoints db) then Inr db
      else if list_ex (\<lambda>x. kr_id x = ck_id c) (db_checkpoints db) then Inl Integrity_Error
      else Inr (db\<lparr>db_checkpoints := db_checkpoints db @
        [\<lparr>kr_tenant = tenant, kr_run = i, kr_id = ck_id c, kr_seq = sequence,
          kr_checkpoint = c\<rparr>]\<rparr>))"

definition approval_status :: "run_event \<Rightarrow> string" where
  "approval_status e =
     (if ev_kind e = Known Approval_Requested then ''pending''
      else case ev_decision e of None \<Rightarrow> ''None'' | Some d \<Rightarrow> resolution_text d)"

definition persist_approval :: "uuid \<Rightarrow> uuid \<Rightarrow> string \<Rightarrow> run_event \<Rightarrow> run_db \<Rightarrow> run_db" where
  "persist_approval tenant i approval e db =
     (if list_ex (\<lambda>x. pr_run x = i \<and> pr_approval x = approval) (db_approvals db)
      then db\<lparr>db_approvals := map (\<lambda>x. if pr_run x = i \<and> pr_approval x = approval
             then x\<lparr>pr_status := approval_status e, pr_payload := event_payload e\<rparr> else x)
             (db_approvals db)\<rparr>
      else db\<lparr>db_approvals := db_approvals db @
        [\<lparr>pr_tenant = tenant, pr_run = i, pr_approval = approval,
          pr_action = (case ev_action e of None \<Rightarrow> ''resolved'' | Some a \<Rightarrow> a),
          pr_status = approval_status e, pr_payload = event_payload e\<rparr>]\<rparr>)"

definition persist_usage :: "uuid \<Rightarrow> uuid \<Rightarrow> int \<Rightarrow> string \<Rightarrow> decimal \<Rightarrow> run_db \<Rightarrow> run_db" where
  "persist_usage tenant i sequence provider cost db =
     (if list_ex (\<lambda>x. ur_run x = i \<and> ur_seq x = sequence) (db_usage db) then db
      else db\<lparr>db_usage := db_usage db @
        [\<lparr>ur_tenant = tenant, ur_run = i, ur_seq = sequence, ur_provider = provider,
          ur_cost = cost\<rparr>]\<rparr>)"

text \<open>
  The assertions in the projections hold for every event the contract admits: an approval event
  names its approval, a cost event its provider and cost.
\<close>

definition persist_event ::
  "(string \<Rightarrow> (string \<times> json) list) \<Rightarrow> uuid \<Rightarrow> uuid \<Rightarrow> run_event \<Rightarrow> instant \<Rightarrow> run_db
     \<Rightarrow> run_error + run_db" where
  "persist_event diag tenant i event now db =
     (let e = event_with_failure_diagnostic diag event in
      res_bind (insert_event tenant i e db) (\<lambda>db1.
      let db2 = (case ev_step e of
            Some s \<Rightarrow> if ev_kind e = Known Step_Completed then persist_step tenant i s e now db1 else db1
          | None \<Rightarrow> db1);
          db3 = (case ev_artifact e of Some a \<Rightarrow> persist_artifact tenant i a now db2 | None \<Rightarrow> db2) in
      res_bind (case ev_checkpoint e of
          Some c \<Rightarrow> persist_checkpoint tenant i (ev_sequence e) c db3 | None \<Rightarrow> Inr db3) (\<lambda>db4.
      let db5 = (case ev_approval e of
            Some a \<Rightarrow> if ev_kind e \<in> {Known Approval_Requested, Known Approval_Resolved}
                      then persist_approval tenant i a e db4 else db4
          | None \<Rightarrow> db4) in
      Inr (case (ev_provider e, ev_cost e) of
            (Some p, Some c) \<Rightarrow> if ev_kind e = Known Cost_Recorded
                      then persist_usage tenant i (ev_sequence e) p c db5 else db5
          | _ \<Rightarrow> db5))))"

definition run_sequences :: "uuid \<Rightarrow> run_db \<Rightarrow> int list" where
  "run_sequences i db = map er_seq (filter (\<lambda>x. er_run x = i) (db_events db))"

definition max_or_zero :: "int list \<Rightarrow> int" where
  "max_or_zero xs = (if xs = [] then 0 else Max (set xs))"

definition next_event_sequence :: "uuid \<Rightarrow> run_db \<Rightarrow> int" where
  "next_event_sequence i db = max_or_zero (run_sequences i db) + 1"

definition latest_checkpoint :: "uuid \<Rightarrow> uuid \<Rightarrow> run_db \<Rightarrow> checkpoint option" where
  "latest_checkpoint tenant i db =
     (case sort_key (\<lambda>x. - kr_seq x)
        (filter (\<lambda>x. kr_tenant x = tenant \<and> kr_run x = i) (db_checkpoints db)) of
        [] \<Rightarrow> None | x # _ \<Rightarrow> Some (kr_checkpoint x))"

section \<open>Failing a run and claiming it\<close>

definition blank_event :: "kind \<Rightarrow> int \<Rightarrow> uuid \<Rightarrow> run_event" where
  "blank_event k sequence i = \<lparr>ev_kind = k, ev_sequence = sequence, ev_run = i, ev_artifact = None,
     ev_checkpoint = None, ev_reason = None, ev_inputs = [], ev_step = None, ev_actor = None,
     ev_message = None, ev_payload = [], ev_session = None, ev_participants = [],
     ev_tool_call = None, ev_tool_name = None, ev_approval = None, ev_action = None,
     ev_decision = None, ev_provider = None, ev_cost = None, ev_currency = None\<rparr>"

datatype fail_error = Store_Error run_error | Event_Error string

text \<open>The event of the failure is built by the contract, which may refuse the reason.\<close>

definition fail_run ::
  "(pyfloat \<Rightarrow> string) \<Rightarrow> (string \<Rightarrow> (string \<times> json) list) \<Rightarrow> uuid \<Rightarrow> string
     \<Rightarrow> (string \<times> json) list option \<Rightarrow> instant \<Rightarrow> run_db \<Rightarrow> fail_error + (run_db \<times> run_record)" where
  "fail_run ft diag i reason diagnostics now db =
     (case get_for_update i db of
        Inl e \<Rightarrow> Inl (Store_Error e)
      | Inr row \<Rightarrow>
          if rr_status row \<in> {Completed, Failed, Cancelled} then Inr (db, to_record row)
          else case mk_event ft ((blank_event (Known Runtime_Failed) (next_event_sequence i db) i)
                 \<lparr>ev_reason := Some reason,
                  ev_payload := (case diagnostics of None \<Rightarrow> [] | Some d \<Rightarrow> d)\<rparr>) of
            Inl m \<Rightarrow> Inl (Event_Error m)
          | Inr event \<Rightarrow>
              let row2 = bump (row\<lparr>rr_status := Failed\<rparr>) in
              (case res_bind (persist_event diag (rr_tenant row) i event now db) (flush_run row2) of
                 Inl e \<Rightarrow> Inl (Store_Error e)
               | Inr db2 \<Rightarrow> Inr (db2, to_record row2)))"

text \<open>What a claim returns: the run to execute with its checkpoint, or a record that settles it.\<close>

datatype claim = Claimed run_row "checkpoint option" | Settled run_record

definition claim_for_execution :: "uuid \<Rightarrow> bool \<Rightarrow> run_db \<Rightarrow> run_error + (run_db \<times> claim)" where
  "claim_for_execution i allow_running_recovery db =
     res_bind (get_for_update i db) (\<lambda>row.
       if rr_status row \<in> {Completed, Failed, Cancelled} then Inr (db, Settled (to_record row))
       else if rr_mode row = None then Inr (db, Settled (to_record row))
       else if rr_status row = Running \<and> \<not> allow_running_recovery then Inl Run_Already_Active
       else if rr_status row \<notin> {Queued, Retrying, Running}
       then Inl (Run_Conflict ''run cannot be executed from its current state'')
       else
         let row1 = bump (row\<lparr>rr_status := Running\<rparr>);
             checkpoint = latest_checkpoint (rr_tenant row) i db;
             checkpoint_sequence =
               max_or_zero (map kr_seq (filter (\<lambda>x. kr_run x = i) (db_checkpoints db)));
             sequences = run_sequences i db in
         if allow_running_recovery \<and> rr_status row = Running
            \<and> sequences \<noteq> [] \<and> Max (set sequences) > checkpoint_sequence
         then let row2 = bump (row1\<lparr>rr_status := Failed\<rparr>) in
              res_bind (flush_run row1 db) (\<lambda>db1.
              res_bind (flush_run row2 db1) (\<lambda>db2. Inr (db2, Settled (to_record row2))))
         else res_bind (flush_run row1 db) (\<lambda>db1. Inr (db1, Claimed row1 checkpoint)))"

section \<open>The outbox\<close>

record pending_outbox =
  po_id :: uuid
  po_run :: uuid
  po_key :: string

definition pending_outbox_entries :: "nat \<Rightarrow> run_db \<Rightarrow> pending_outbox list" where
  "pending_outbox_entries limit db =
     map (\<lambda>x. \<lparr>po_id = or_id x, po_run = or_run x, po_key = or_key x\<rparr>)
       (take limit (sort_key (\<lambda>x. (or_created x, or_id x))
         (filter (\<lambda>x. \<not> or_delivered x) (db_outbox db))))"

text \<open>
  \<open>deliver\<close> is the callback that hands the run to the queue: it may raise, and then the row
  stays undelivered. \<open>locked\<close> says whether another transaction holds the row
  (\<open>skip_locked\<close>). The list is what was handed over.
\<close>

definition deliver_outbox ::
  "(uuid \<Rightarrow> string \<Rightarrow> bool) \<Rightarrow> bool \<Rightarrow> uuid \<Rightarrow> run_db
     \<Rightarrow> (uuid \<times> string) + (run_db \<times> bool \<times> (uuid \<times> string) list)" where
  "deliver_outbox deliver locked oid db =
     (case (if locked then None else find (\<lambda>x. or_id x = oid) (db_outbox db)) of
        None \<Rightarrow> Inr (db, False, [])
      | Some x \<Rightarrow>
          if or_delivered x then Inr (db, False, [])
          else if \<not> deliver (or_run x) (or_key x) then Inl (or_run x, or_key x)
          else Inr (db\<lparr>db_outbox := map (\<lambda>y. if or_id y = oid then y\<lparr>or_delivered := True\<rparr> else y)
                 (db_outbox db)\<rparr>, True, [(or_run x, or_key x)]))"

section \<open>Queries\<close>

definition newest_first :: "run_row list \<Rightarrow> run_row list" where
  "newest_first rows = rev (sort_key (\<lambda>r. (rr_created r, rr_id r)) rows)"

text \<open>\<open>->>\<close>: the text of a JSON value; \<open>txt\<close> renders the values that are not strings.\<close>

definition json_astext :: "(json \<Rightarrow> string) \<Rightarrow> json \<Rightarrow> string option" where
  "json_astext txt j = (case j of JNull \<Rightarrow> None | JStr s \<Rightarrow> Some s | _ \<Rightarrow> Some (txt j))"

definition in_conversation :: "(json \<Rightarrow> string) \<Rightarrow> string \<Rightarrow> run_row \<Rightarrow> bool" where
  "in_conversation txt conversation r \<longleftrightarrow>
     (case rr_decision r of None \<Rightarrow> False
      | Some d \<Rightarrow> (case json_get d ''conversation_id'' of None \<Rightarrow> False
          | Some j \<Rightarrow> json_astext txt j = Some conversation))"

definition latest_waiting_choice_for_conversation ::
  "(json \<Rightarrow> string) \<Rightarrow> uuid \<Rightarrow> uuid \<Rightarrow> string \<Rightarrow> run_db \<Rightarrow> run_record option" where
  "latest_waiting_choice_for_conversation txt tenant actor conversation db =
     (case newest_first (filter (\<lambda>r. rr_tenant r = tenant \<and> rr_actor r = Some actor
          \<and> rr_status r = Waiting_User_Mode \<and> in_conversation txt conversation r) (db_runs db)) of
        [] \<Rightarrow> None | r # _ \<Rightarrow> Some (to_record r))"

definition latest_resolved_mode_for_conversation ::
  "(json \<Rightarrow> string) \<Rightarrow> uuid \<Rightarrow> uuid \<Rightarrow> string \<Rightarrow> run_db \<Rightarrow> task_mode option" where
  "latest_resolved_mode_for_conversation txt tenant actor conversation db =
     (case newest_first (filter (\<lambda>r. rr_tenant r = tenant \<and> rr_actor r = Some actor
          \<and> rr_mode r \<noteq> None \<and> in_conversation txt conversation r
          \<and> rr_status r \<noteq> Waiting_User_Mode) (db_runs db)) of
        [] \<Rightarrow> None
      | r # _ \<Rightarrow> (if rr_mode r = Some Auto then None else rr_mode r))"

definition list_recent :: "uuid \<Rightarrow> int \<Rightarrow> run_db \<Rightarrow> run_error + run_record list" where
  "list_recent tenant limit db =
     (if \<not> (1 \<le> limit \<and> limit \<le> 500) then Inl Limit_Error
      else Inr (map to_record (take (nat limit)
        (newest_first (filter (\<lambda>r. rr_tenant r = tenant) (db_runs db))))))"

definition completed_step_ids :: "uuid \<Rightarrow> uuid \<Rightarrow> run_db \<Rightarrow> string list" where
  "completed_step_ids tenant i db =
     map sr_step (sort_key (\<lambda>x. (sr_created x, sr_step x))
       (filter (\<lambda>x. sr_tenant x = tenant \<and> sr_run x = i) (db_steps db)))"

definition run_artifacts :: "uuid \<Rightarrow> uuid \<Rightarrow> run_db \<Rightarrow> artifact_row list" where
  "run_artifacts tenant i db =
     sort_key (\<lambda>x. (fr_created x, fr_id x))
       (filter (\<lambda>x. fr_tenant x = tenant \<and> fr_run x = i) (db_artifacts db))"

definition artifact_ids :: "uuid \<Rightarrow> uuid \<Rightarrow> run_db \<Rightarrow> uuid list" where
  "artifact_ids tenant i db = map fr_id (run_artifacts tenant i db)"

definition usage_cost :: "uuid \<Rightarrow> uuid \<Rightarrow> run_db \<Rightarrow> decimal" where
  "usage_cost tenant i db =
     sum_list (map ur_cost (filter (\<lambda>x. ur_tenant x = tenant \<and> ur_run x = i) (db_usage db)))"

subsection \<open>What leaves the store\<close>

definition sensitive_public_keys :: "string list" where
  "sensitive_public_keys =
     [''api_key'', ''authorization'', ''secret'', ''secret_ref'', ''storage_key'',
      ''credential_ref'', ''hidden_reasoning'', ''chain_of_thought'']"

definition is_public_key :: "string \<Rightarrow> bool" where
  "is_public_key key \<longleftrightarrow>
     (let lowered = map lower_ascii key in
      \<not> list_ex (\<lambda>s. contains_text s lowered) sensitive_public_keys)"

fun sanitize_public_json :: "json \<Rightarrow> json" where
  "sanitize_public_json (JObj kvs) =
     JObj (map (\<lambda>(k, v). (k, sanitize_public_json v)) (filter (\<lambda>(k, v). is_public_key k) kvs))"
| "sanitize_public_json (JArr js) = JArr (map sanitize_public_json js)"
| "sanitize_public_json j = j"

definition public_payload :: "(string \<times> json) list \<Rightarrow> (string \<times> json) list" where
  "public_payload payload =
     map (\<lambda>(k, v). (k, sanitize_public_json v)) (filter (\<lambda>(k, v). is_public_key k) payload)"

definition assert_run :: "uuid \<Rightarrow> uuid \<Rightarrow> run_db \<Rightarrow> run_error + unit" where
  "assert_run tenant i db =
     (if run_select tenant i db = None then Inl Run_Not_Found else Inr ())"

definition run_events_of :: "uuid \<Rightarrow> uuid \<Rightarrow> run_db \<Rightarrow> event_row list" where
  "run_events_of tenant i db =
     sort_key er_seq (filter (\<lambda>x. er_tenant x = tenant \<and> er_run x = i) (db_events db))"

definition raw_events :: "uuid \<Rightarrow> uuid \<Rightarrow> run_db \<Rightarrow> run_error + (string \<times> json) list list" where
  "raw_events tenant i db =
     res_bind (assert_run tenant i db) (\<lambda>_. Inr (map er_payload (run_events_of tenant i db)))"

definition public_events :: "uuid \<Rightarrow> uuid \<Rightarrow> run_db \<Rightarrow> run_error + (string \<times> json) list list" where
  "public_events tenant i db =
     res_bind (assert_run tenant i db) (\<lambda>_.
       Inr (map (\<lambda>x. public_payload (er_payload x)) (run_events_of tenant i db)))"

definition json_fields :: "json \<Rightarrow> (string \<times> json) list" where
  "json_fields j = (case j of JObj kvs \<Rightarrow> kvs | _ \<Rightarrow> [])"

definition raw_artifacts :: "uuid \<Rightarrow> uuid \<Rightarrow> run_db \<Rightarrow> run_error + (string \<times> json) list list" where
  "raw_artifacts tenant i db =
     res_bind (assert_run tenant i db) (\<lambda>_.
       Inr (map (\<lambda>x. json_fields (fr_payload x)) (run_artifacts tenant i db)))"

definition public_artifacts :: "uuid \<Rightarrow> uuid \<Rightarrow> run_db \<Rightarrow> (string \<times> json) list list" where
  "public_artifacts tenant i db =
     map (\<lambda>x. public_payload (json_fields (fr_payload x))) (run_artifacts tenant i db)"

record conversation_item =
  cx_run :: uuid
  cx_request :: string
  cx_artifacts :: "(string \<times> json) list list"

text \<open>
  The last runs of a conversation up to the given one, oldest first; when the limit cuts the
  first run of the conversation off, it takes the place of the oldest one kept.
\<close>

definition conversation_rows :: "run_row list \<Rightarrow> nat \<Rightarrow> run_row list" where
  "conversation_rows candidates limit =
     (let ordered = rev (take limit (newest_first candidates)) in
      if limit > 1 \<and> length ordered \<ge> limit then
        (case sort_key (\<lambda>r. (rr_created r, rr_id r)) candidates of
           [] \<Rightarrow> ordered
         | origin # _ \<Rightarrow>
             if list_all (\<lambda>r. rr_id r \<noteq> rr_id origin) ordered
             then origin # drop (length ordered - (limit - 1)) ordered else ordered)
      else ordered)"

definition conversation_context ::
  "(json \<Rightarrow> string) \<Rightarrow> uuid \<Rightarrow> string \<Rightarrow> uuid \<Rightarrow> nat \<Rightarrow> run_db
     \<Rightarrow> run_error + conversation_item list" where
  "conversation_context txt tenant conversation before limit db =
     (case run_select tenant before db of
        None \<Rightarrow> Inl Run_Not_Found
      | Some current \<Rightarrow>
          let candidates = filter (\<lambda>r. rr_tenant r = tenant \<and> rr_id r \<noteq> before
                \<and> in_conversation txt conversation r \<and> rr_created r \<le> rr_created current) (db_runs db) in
          Inr (map (\<lambda>r. \<lparr>cx_run = rr_id r, cx_request = rr_request r,
                 cx_artifacts = public_artifacts tenant (rr_id r) db\<rparr>)
               (conversation_rows candidates limit)))"

end
