(* ===== verification/Run_Invariant.thy ===== *)
theory Run_Invariant
  imports Run_Store
begin

text \<open>
  The integrity of the run store. The invariant collects what the tables' keys and foreign keys
  promise together with what only the code ensures: every row belongs to the tenant of its run.
  An interface for the row part of an updating method gives, once for all methods, that the
  transaction keeps the invariant, touches one run only and moves its version up by one.
\<close>

section \<open>Tables with a key and an owner\<close>

definition table_ok :: "('r \<Rightarrow> 'k) \<Rightarrow> ('r \<Rightarrow> 'o) \<Rightarrow> 'o set \<Rightarrow> 'r list \<Rightarrow> bool" where
  "table_ok key owner S rows \<longleftrightarrow> distinct (map key rows) \<and> owner ` set rows \<subseteq> S"

lemma table_ok_Nil [simp]: "table_ok key owner S []"
  by (simp add: table_ok_def)

lemma table_ok_snoc:
  "table_ok key owner S (rows @ [x]) \<longleftrightarrow>
     table_ok key owner S rows \<and> key x \<notin> key ` set rows \<and> owner x \<in> S"
  by (auto simp: table_ok_def)

lemma table_ok_mono: "table_ok key owner S rows \<Longrightarrow> S \<subseteq> S' \<Longrightarrow> table_ok key owner S' rows"
  by (auto simp: table_ok_def)

lemma table_ok_filter:
  "table_ok key owner S rows \<Longrightarrow> (\<And>x. x \<in> set rows \<Longrightarrow> P x \<Longrightarrow> owner x \<in> S \<Longrightarrow> owner x \<in> S')
     \<Longrightarrow> table_ok key owner S' (filter P rows)"
  by (auto simp: table_ok_def distinct_map intro: inj_on_subset)

lemma table_ok_map:
  "table_ok key owner S rows \<Longrightarrow> (\<And>x. key (g x) = key x) \<Longrightarrow> (\<And>x. owner (g x) = owner x)
     \<Longrightarrow> table_ok key owner S (map g rows)"
  by (simp add: table_ok_def comp_def image_image)

section \<open>The invariant\<close>

definition run_owner :: "run_row \<Rightarrow> uuid \<times> uuid" where
  "run_owner r = (rr_tenant r, rr_id r)"

definition owners :: "run_db \<Rightarrow> (uuid \<times> uuid) set" where
  "owners db = run_owner ` set (db_runs db)"

definition run_row_ok :: "run_row \<Rightarrow> bool" where
  "run_row_ok r \<longleftrightarrow> run_columns_ok r \<and> rr_mode r \<noteq> Some Auto \<and> 1 \<le> rr_version r"

definition keyed :: "run_row list \<Rightarrow> run_row list" where
  "keyed = filter (\<lambda>r. rr_key r \<noteq> None)"

definition runs_ok :: "run_row list \<Rightarrow> bool" where
  "runs_ok rs \<longleftrightarrow> distinct (map rr_id rs)
     \<and> distinct (map (\<lambda>r. (rr_tenant r, rr_key r)) (keyed rs)) \<and> (\<forall>r \<in> set rs. run_row_ok r)"

definition rows_ok :: "(uuid \<times> uuid) set \<Rightarrow> run_db \<Rightarrow> bool" where
  "rows_ok S db \<longleftrightarrow>
     table_ok (\<lambda>x. (er_run x, er_seq x)) (\<lambda>x. (er_tenant x, er_run x)) S (db_events db)
   \<and> table_ok (\<lambda>x. (sr_run x, sr_step x)) (\<lambda>x. (sr_tenant x, sr_run x)) S (db_steps db)
   \<and> table_ok fr_id (\<lambda>x. (fr_tenant x, fr_run x)) S (db_artifacts db)
   \<and> table_ok (\<lambda>x. (fr_run x, fr_sha x)) (\<lambda>x. (fr_tenant x, fr_run x)) S (db_artifacts db)
   \<and> table_ok kr_id (\<lambda>x. (kr_tenant x, kr_run x)) S (db_checkpoints db)
   \<and> table_ok (\<lambda>x. (kr_run x, kr_seq x)) (\<lambda>x. (kr_tenant x, kr_run x)) S (db_checkpoints db)
   \<and> table_ok (\<lambda>x. (pr_run x, pr_approval x)) (\<lambda>x. (pr_tenant x, pr_run x)) S (db_approvals db)
   \<and> table_ok (\<lambda>x. (ur_run x, ur_seq x)) (\<lambda>x. (ur_tenant x, ur_run x)) S (db_usage db)
   \<and> table_ok or_id (\<lambda>x. (or_tenant x, or_run x)) S (db_outbox db)
   \<and> table_ok or_key (\<lambda>x. (or_tenant x, or_run x)) S (db_outbox db)"

definition db_ok :: "run_db \<Rightarrow> bool" where
  "db_ok db \<longleftrightarrow> runs_ok (db_runs db) \<and> rows_ok (owners db) db"

lemma db_ok_empty: "db_ok empty_db"
  by (simp add: db_ok_def runs_ok_def keyed_def rows_ok_def empty_db_def)

lemma rows_ok_runs [simp]: "rows_ok S (db\<lparr>db_runs := rs\<rparr>) \<longleftrightarrow> rows_ok S db"
  by (simp add: rows_ok_def)

lemma rows_ok_mono: "rows_ok S db \<Longrightarrow> S \<subseteq> S' \<Longrightarrow> rows_ok S' db"
  by (auto simp: rows_ok_def intro: table_ok_mono)

lemma owners_other [simp]:
  "owners (db\<lparr>db_events := a\<rparr>) = owners db" "owners (db\<lparr>db_steps := b\<rparr>) = owners db"
  "owners (db\<lparr>db_artifacts := c\<rparr>) = owners db" "owners (db\<lparr>db_checkpoints := d\<rparr>) = owners db"
  "owners (db\<lparr>db_approvals := e\<rparr>) = owners db" "owners (db\<lparr>db_usage := f\<rparr>) = owners db"
  "owners (db\<lparr>db_outbox := g\<rparr>) = owners db"
  by (simp_all add: owners_def)

section \<open>Finding and replacing rows\<close>

lemma run_select_Some:
  "run_select t i db = Some r \<Longrightarrow> r \<in> set (db_runs db) \<and> rr_tenant r = t \<and> rr_id r = i"
  by (auto simp: run_select_def find_Some_iff)

lemma run_select_None: "run_select t i db = None \<longleftrightarrow> (t, i) \<notin> owners db"
proof -
  have "run_select t i db = None \<longleftrightarrow> (\<forall>r \<in> set (db_runs db). run_owner r \<noteq> (t, i))"
    unfolding run_select_def find_None_iff run_owner_def prod.inject by blast
  also have "\<dots> \<longleftrightarrow> (t, i) \<notin> owners db"
    unfolding owners_def image_iff by (metis (no_types))
  finally show ?thesis .
qed

lemma runs_ok_unique:
  "runs_ok rs \<Longrightarrow> r \<in> set rs \<Longrightarrow> r' \<in> set rs \<Longrightarrow> rr_id r = rr_id r' \<Longrightarrow> r = r'"
  by (auto simp: runs_ok_def distinct_map dest: inj_onD)

lemma find_unique:
  assumes "x \<in> set xs" and "P x" and "\<And>y. y \<in> set xs \<Longrightarrow> P y \<Longrightarrow> y = x"
  shows "find P xs = Some x"
proof (cases "find P xs")
  case None
  with assms(1,2) show ?thesis unfolding find_None_iff by blast
next
  case (Some y)
  then have "y \<in> set xs \<and> P y" unfolding find_Some_iff by (metis nth_mem)
  with assms(3) Some show ?thesis by blast
qed

lemma run_select_mem:
  assumes "db_ok db"
  shows "run_select t i db = Some r \<longleftrightarrow> r \<in> set (db_runs db) \<and> rr_tenant r = t \<and> rr_id r = i"
proof
  assume r: "r \<in> set (db_runs db) \<and> rr_tenant r = t \<and> rr_id r = i"
  show "run_select t i db = Some r"
    unfolding run_select_def
    by (rule find_unique) (use r assms runs_ok_unique in \<open>auto simp: db_ok_def\<close>)
qed (rule run_select_Some)

lemma get_for_update_mem:
  assumes "db_ok db"
  shows "get_for_update i db = Inr r \<longleftrightarrow> r \<in> set (db_runs db) \<and> rr_id r = i"
proof
  assume r: "r \<in> set (db_runs db) \<and> rr_id r = i"
  have "find (\<lambda>r. rr_id r = i) (db_runs db) = Some r"
    by (rule find_unique) (use r assms runs_ok_unique in \<open>auto simp: db_ok_def\<close>)
  then show "get_for_update i db = Inr r" by (simp add: get_for_update_def)
qed (auto simp: get_for_update_def find_Some_iff split: option.splits)

text \<open>Rows that agree on what identifies a run.\<close>

definition same_identity :: "run_row \<Rightarrow> run_row \<Rightarrow> bool" where
  "same_identity r r' \<longleftrightarrow> rr_id r = rr_id r' \<and> rr_tenant r = rr_tenant r' \<and> rr_key r = rr_key r'"

lemma replace_run_ids [simp]: "map rr_id (replace_run row rs) = map rr_id rs"
  by (simp add: replace_run_def)

lemma replace_run_identity:
  assumes "runs_ok rs" and "r \<in> set rs" and "same_identity r row"
  shows "map (\<lambda>r. (rr_tenant r, rr_id r, rr_key r)) (replace_run row rs)
       = map (\<lambda>r. (rr_tenant r, rr_id r, rr_key r)) rs"
proof -
  have "r' = r" if "r' \<in> set rs" "rr_id r' = rr_id row" for r'
    using runs_ok_unique [OF assms(1) that(1) assms(2)] that(2) assms(3)
    by (simp add: same_identity_def)
  with assms(3) show ?thesis by (auto simp: replace_run_def same_identity_def)
qed

lemma keyed_identity:
  "map (\<lambda>r. (rr_tenant r, rr_id r, rr_key r)) rs = map (\<lambda>r. (rr_tenant r, rr_id r, rr_key r)) rs'
   \<Longrightarrow> map (\<lambda>r. (rr_tenant r, rr_key r)) (keyed rs) = map (\<lambda>r. (rr_tenant r, rr_key r)) (keyed rs')"
  unfolding keyed_def
proof (induction rs arbitrary: rs')
  case (Cons r rs)
  then show ?case by (cases rs') auto
qed simp

lemma replace_run_owner:
  assumes "runs_ok rs" and "r \<in> set rs" and "same_identity r row"
  shows "run_owner ` set (replace_run row rs) = run_owner ` set rs"
proof -
  have eq: "map run_owner rs' =
      map (\<lambda>(t, i, k). (t, i)) (map (\<lambda>r. (rr_tenant r, rr_id r, rr_key r)) rs')" for rs'
    by (simp add: run_owner_def)
  have "map run_owner (replace_run row rs) = map run_owner rs"
    unfolding eq replace_run_identity [OF assms] by (rule refl)
  from arg_cong [OF this, of set] show ?thesis by simp
qed

lemma replace_run_ok:
  assumes "runs_ok rs" and "r \<in> set rs" and "same_identity r row" and "run_row_ok row"
  shows "runs_ok (replace_run row rs)"
  using assms keyed_identity [OF replace_run_identity [OF assms(1-3)]]
  by (auto simp: runs_ok_def) (auto simp: replace_run_def)

lemma flush_run_ok:
  assumes "db_ok db" and "r \<in> set (db_runs db)" and "same_identity r row" and "1 \<le> rr_version row"
    and "flush_run row db = Inr db'"
  shows "db_ok db'" and "owners db' = owners db" and "db' = db\<lparr>db_runs := replace_run row (db_runs db)\<rparr>"
proof -
  from assms(5) have row: "run_columns_ok row" "rr_mode row \<noteq> Some Auto"
    and db': "db' = db\<lparr>db_runs := replace_run row (db_runs db)\<rparr>"
    by (auto simp: flush_run_def split: if_splits)
  show "db' = db\<lparr>db_runs := replace_run row (db_runs db)\<rparr>" by (rule db')
  have runs: "runs_ok (db_runs db)" using assms(1) by (simp add: db_ok_def)
  from replace_run_owner [OF this assms(2,3)] show own: "owners db' = owners db"
    by (simp add: db' owners_def)
  from replace_run_ok [OF runs assms(2,3)] row assms(4) have "runs_ok (db_runs db')"
    by (simp add: db' run_row_ok_def)
  with own assms(1) show "db_ok db'" by (simp add: db_ok_def) (simp add: db')
qed

lemma insert_outbox_ok:
  assumes "db_ok db" and "insert_outbox x db = Inr db'" and "(or_tenant x, or_run x) \<in> owners db"
  shows "db_ok db'" and "db' = db\<lparr>db_outbox := db_outbox db @ [x]\<rparr>"
proof -
  from assms(2) show db': "db' = db\<lparr>db_outbox := db_outbox db @ [x]\<rparr>"
    by (auto simp: insert_outbox_def split: if_splits)
  from assms(2) have "or_id x \<notin> or_id ` set (db_outbox db)" "or_key x \<notin> or_key ` set (db_outbox db)"
    by (auto simp: insert_outbox_def list_ex_iff image_iff split: if_splits)
  with assms(1,3) show "db_ok db'"
    by (simp add: db' db_ok_def rows_ok_def table_ok_snoc)
qed

section \<open>The interface of the updating methods\<close>

text \<open>
  The row part of a method gets the locked row and answers with an error, with the row unchanged,
  or with a new row; all it has to promise is that the new row is still the same run at the same
  version. The transaction around it does the rest.
\<close>

locale row_method =
  fixes f :: "run_row \<Rightarrow> run_error + row_change"
  assumes keeps_identity: "f row = Inr (Write row1 key) \<Longrightarrow>
    same_identity row row1 \<and> rr_version row1 = rr_version row"
begin

lemma change_run_cases:
  assumes "change_run t i now oid f db = Inr (db', rec)"
  obtains (Keep) row where "run_select t i db = Some row" "f row = Inr Keep" "db' = db"
      "rec = to_record row"
    | (Write) row row1 key db1 where "run_select t i db = Some row" "f row = Inr (Write row1 key)"
      "flush_run (bump row1) db = Inr db1" "rec = to_record (bump row1)"
      "case key of None \<Rightarrow> db' = db1
         | Some k \<Rightarrow> insert_outbox (new_outbox oid t i k now) db1 = Inr db'"
  using assms
proof (cases "run_select t i db")
  case (Some row)
  with assms obtain ch where ch: "f row = Inr ch"
    by (cases "f row") (auto simp: change_run_def)
  show ?thesis
  proof (cases ch)
    case Keep
    with assms Some ch have "db' = db" "rec = to_record row" by (simp_all add: change_run_def)
    with that(1) [OF Some] ch Keep show ?thesis by blast
  next
    case (Write row1 key)
    have run: "change_run t i now oid f db =
        res_bind (flush_run (bump row1) db) (\<lambda>db1.
        res_bind (case key of None \<Rightarrow> Inr db1
            | Some k \<Rightarrow> insert_outbox (new_outbox oid t i k now) db1) (\<lambda>db2.
        Inr (db2, to_record (bump row1))))"
      by (simp add: change_run_def Some ch Write Let_def)
    obtain db1 where db1: "flush_run (bump row1) db = Inr db1"
      using assms unfolding run by (cases "flush_run (bump row1) db") simp_all
    have "rec = to_record (bump row1)" and "case key of None \<Rightarrow> db' = db1
        | Some k \<Rightarrow> insert_outbox (new_outbox oid t i k now) db1 = Inr db'"
      using assms unfolding run db1 by (cases key; force simp: res_bind_Inr_iff)+
    then show ?thesis using that(2) [OF Some _ db1] ch Write by blast
  qed
qed (use assms in \<open>simp add: change_run_def\<close>)

lemma change_run_ok:
  assumes "db_ok db" and "change_run t i now oid f db = Inr (db', rec)"
  shows "db_ok db' \<and> owners db' = owners db"
  using assms(2)
proof (cases rule: change_run_cases)
  case (Write row row1 key db1)
  note row = run_select_Some [OF Write(1)]
  note same = keeps_identity [OF Write(2)]
  have "same_identity row (bump row1)" using same by (simp add: same_identity_def bump_def)
  moreover have "1 \<le> rr_version (bump row1)"
    using row assms(1) same by (force simp: bump_def db_ok_def runs_ok_def run_row_ok_def)
  ultimately have db1: "db_ok db1" "owners db1 = owners db"
    using flush_run_ok [OF assms(1) _ _ _ Write(3)] row by blast+
  show ?thesis
  proof (cases key)
    case None
    with Write(5) db1 show ?thesis by simp
  next
    case (Some k)
    have "(t, i) \<in> owners db1" using row db1(2) by (auto simp: owners_def run_owner_def)
    with insert_outbox_ok [OF db1(1), of "new_outbox oid t i k now" db'] Write(5) Some db1(2)
    show ?thesis by (simp add: new_outbox_def)
  qed
qed (use assms in simp)

text \<open>The run of the call: its row is the one returned, and its version goes up with each write.\<close>

lemma change_run_row:
  assumes "db_ok db" and "change_run t i now oid f db = Inr (db', rec)"
  obtains row row' where "run_select t i db = Some row" "run_select t i db' = Some row'"
    "rec = to_record row'"
    "f row = Inr Keep \<and> row' = row
     \<or> (\<exists>row1 key. f row = Inr (Write row1 key) \<and> row' = bump row1)"
  using assms(2)
proof (cases rule: change_run_cases)
  case (Write row row1 key db1)
  note row = run_select_Some [OF Write(1)]
  note same = keeps_identity [OF Write(2)]
  have "db_runs db1 = replace_run (bump row1) (db_runs db)"
    using Write(3) by (auto simp: flush_run_def split: if_splits)
  moreover have "db_runs db' = db_runs db1"
    using Write(5) by (cases key) (auto simp: insert_outbox_def split: if_splits)
  ultimately have "bump row1 \<in> set (db_runs db')"
    using row same by (force simp: replace_run_def bump_def same_identity_def)
  moreover have "rr_tenant (bump row1) = t \<and> rr_id (bump row1) = i"
    using row same by (simp add: bump_def same_identity_def)
  ultimately have "run_select t i db' = Some (bump row1)"
    using run_select_mem change_run_ok [OF assms] by blast
  with Write that show ?thesis by blast
qed (use that in auto)

text \<open>Every other run, and all rows but the new outbox entry, stay as they are.\<close>

lemma change_run_others:
  assumes "db_ok db" and "change_run t i now oid f db = Inr (db', rec)" and "j \<noteq> i"
  shows "run_select t' j db' = run_select t' j db"
  using assms(2)
proof (cases rule: change_run_cases)
  case (Write row row1 key db1)
  have "rr_id (bump row1) = i"
    using run_select_Some [OF Write(1)] keeps_identity [OF Write(2)]
    by (simp add: bump_def same_identity_def)
  moreover have "db_runs db' = db_runs db1"
    using Write(5) by (cases key) (auto simp: insert_outbox_def split: if_splits)
  moreover have "db_runs db1 = replace_run (bump row1) (db_runs db)"
    using Write(3) by (auto simp: flush_run_def split: if_splits)
  moreover have "find (\<lambda>r. rr_tenant r = t' \<and> rr_id r = j) (replace_run (bump row1) rs)
      = find (\<lambda>r. rr_tenant r = t' \<and> rr_id r = j) rs" if "rr_id (bump row1) = i" for rs
    using that assms(3) by (induction rs) (auto simp: replace_run_def)
  ultimately show ?thesis by (simp add: run_select_def)
qed simp

end

section \<open>The methods keep to the interface\<close>

lemmas row_method_defs = same_identity_def status_row_def choose_mode_row_def approve_agent_row_def
  revise_agent_row_def enqueue_row_def control_row_def begin_approval_row_def
  resolve_approval_row_def Let_def

interpretation status: row_method "status_row s m" for s m
  by unfold_locales (auto simp: row_method_defs)

interpretation choose_mode: row_method "choose_mode_row t i m token version remark"
  for t i m token version remark
  by unfold_locales (auto simp: row_method_defs split: if_splits)

interpretation approve_agent: row_method "approve_agent_row t i token version"
  for t i token version
  by unfold_locales (auto simp: row_method_defs res_bind_Inr_iff
    split: if_splits option.splits json.splits)

interpretation revise_agent: row_method "revise_agent_row t i token version feedback"
  for t i token version feedback
  by unfold_locales (auto simp: row_method_defs res_bind_Inr_iff)

interpretation enqueue: row_method "enqueue_row t i from_status to_status what"
  for t i from_status to_status what
  by unfold_locales (auto simp: row_method_defs split: if_splits)

interpretation control: row_method "control_row s" for s
  by unfold_locales (auto simp: row_method_defs split: if_splits)

interpretation begin_approval: row_method "begin_approval_row approval fingerprint"
  for approval fingerprint
  by unfold_locales (auto simp: row_method_defs split: if_splits)

interpretation resolve_approval: row_method "resolve_approval_row s approval fingerprint"
  for s approval fingerprint
  by unfold_locales (auto simp: row_method_defs split: if_splits)

section \<open>Creation and deletion\<close>

lemma insert_run_ok:
  assumes "db_ok db" and "insert_run row db = Inr db'" and "rr_version row = 1"
  shows "db_ok db'" and "owners db' = insert (run_owner row) (owners db)"
    and "db' = db\<lparr>db_runs := db_runs db @ [row]\<rparr>" and "rr_id row \<notin> rr_id ` set (db_runs db)"
proof -
  from assms(2) show db': "db' = db\<lparr>db_runs := db_runs db @ [row]\<rparr>"
    by (auto simp: insert_run_def split: if_splits)
  from assms(2) show id: "rr_id row \<notin> rr_id ` set (db_runs db)"
    by (auto simp: insert_run_def list_ex_iff image_iff split: if_splits)
  show own: "owners db' = insert (run_owner row) (owners db)" by (simp add: db' owners_def)
  have "rr_key row \<noteq> None \<Longrightarrow>
      (rr_tenant row, rr_key row) \<notin> (\<lambda>r. (rr_tenant r, rr_key r)) ` set (keyed (db_runs db))"
    using assms(2) by (auto simp: insert_run_def list_ex_iff keyed_def split: if_splits)
  moreover have "run_columns_ok row" "rr_mode row \<noteq> Some Auto"
    using assms(2) by (auto simp: insert_run_def split: if_splits)
  ultimately have "runs_ok (db_runs db')"
    using assms(1,3) id by (auto simp: db' db_ok_def runs_ok_def keyed_def run_row_ok_def)
  moreover have "rows_ok (owners db') db"
    using assms(1) by (auto simp: db_ok_def own intro: rows_ok_mono)
  ultimately show "db_ok db'" by (simp add: db_ok_def) (simp add: db')
qed

lemma create_run_ok:
  assumes "db_ok db"
    and "create_run t actor q m s key d enqueue new_id oid now db = Inr (db', rec)"
  shows "db_ok db'"
proof (cases "case key of None \<Rightarrow> None
    | Some k \<Rightarrow> find (\<lambda>r. rr_tenant r = t \<and> rr_key r = Some k) (db_runs db)")
  case None
  define row where "row = \<lparr>rr_id = new_id, rr_tenant = t, rr_actor = Some actor,
    rr_request = q, rr_mode = m, rr_status = s, rr_key = key, rr_decision = d, rr_version = 1,
    rr_created = now\<rparr>"
  define okey where "okey = uuid_text t @ '':'' @ (case key of None \<Rightarrow> uuid_text new_id
    | Some k \<Rightarrow> if k = [] then uuid_text new_id else k)"
  have run: "create_run t actor q m s key d enqueue new_id oid now db =
      res_bind (insert_run row db) (\<lambda>db1.
      res_bind (if enqueue then insert_outbox (new_outbox oid t new_id okey now) db1 else Inr db1)
        (\<lambda>db2. Inr (db2, to_record row)))"
    unfolding create_run_def None row_def okey_def Let_def by simp
  from assms(2) obtain db1 where row: "insert_run row db = Inr db1" "rr_version row = 1"
      "rr_id row = new_id" "rr_tenant row = t"
    and out: "(if enqueue then insert_outbox (new_outbox oid t new_id okey now) db1 else Inr db1)
        = Inr db'"
    unfolding run by (auto simp: res_bind_Inr_iff row_def)
  note db1 = insert_run_ok [OF assms(1) row(1,2)]
  show ?thesis
  proof (cases enqueue)
    case True
    have "(t, new_id) \<in> owners db1" using db1(2) row(3,4) by (simp add: run_owner_def)
    with insert_outbox_ok(1) [OF db1(1), of "new_outbox oid t new_id okey now" db'] True out
    show ?thesis by (simp add: new_outbox_def)
  qed (use db1 out in simp)
qed (use assms in \<open>auto simp: create_run_def Let_def\<close>)

lemma rows_ok_drop:
  assumes "rows_ok S db" and "\<And>t i. (t, i) \<in> S \<Longrightarrow> \<not> P t i \<Longrightarrow> (t, i) \<in> S'"
  shows "rows_ok S' (drop_rows P db)"
  using assms by (auto simp: rows_ok_def drop_rows_def intro: table_ok_filter)

lemma drop_rows_runs [simp]: "db_runs (drop_rows P db) = db_runs db"
  by (simp add: drop_rows_def)

lemma runs_ok_filter: "runs_ok rs \<Longrightarrow> runs_ok (filter P rs)"
  by (auto simp: runs_ok_def keyed_def distinct_map filter_filter conj_commute
      intro: inj_on_subset)

lemma delete_run_ok:
  assumes "db_ok db" and "delete_run t i db = Inr (db', u)"
  shows "db_ok db'" and "owners db' = owners db - {(t, i)}"
proof -
  from assms(2) obtain row where row: "run_select t i db = Some row"
    and db': "db' = (drop_rows (\<lambda>t r. r = i) (drop_rows (\<lambda>t' r. t' = t \<and> r = i) db))
      \<lparr>db_runs := filter (\<lambda>r. \<not> (rr_tenant r = t \<and> rr_id r = i)) (db_runs db)\<rparr>"
    by (auto simp: delete_run_def Let_def split: option.splits if_splits)
  show own: "owners db' = owners db - {(t, i)}"
    by (auto simp: db' owners_def run_owner_def)
  have "rows_ok (owners db) (drop_rows (\<lambda>t' r. t' = t \<and> r = i) db)"
    using assms(1) by (intro rows_ok_drop [where S = "owners db"]) (auto simp: db_ok_def)
  then have "rows_ok (owners db') (drop_rows (\<lambda>t r. r = i) (drop_rows (\<lambda>t' r. t' = t \<and> r = i) db))"
    unfolding own by (rule rows_ok_drop) auto
  moreover have "runs_ok (db_runs db')"
    using assms(1) by (simp add: db' db_ok_def runs_ok_filter)
  ultimately show "db_ok db'" by (simp add: db_ok_def) (simp add: db')
qed

section \<open>Events\<close>

text \<open>A row whose key is free by the test of the insert is new in the table.\<close>

lemma fresh_key:
  "\<not> list_ex (\<lambda>x. f x = a \<and> g x = b) rows \<Longrightarrow> (a, b) \<notin> (\<lambda>x. (f x, g x)) ` set rows"
  "\<not> list_ex (\<lambda>x. f x = a) rows \<Longrightarrow> a \<notin> f ` set rows"
  "\<not> list_ex (\<lambda>x. f x = a \<or> h x = c \<and> g x = b) rows \<Longrightarrow>
     a \<notin> f ` set rows \<and> (c, b) \<notin> (\<lambda>x. (h x, g x)) ` set rows"
  by (auto simp: list_ex_iff)

lemmas row_added = db_ok_def rows_ok_def table_ok_snoc

lemma insert_event_ok:
  assumes "db_ok db" and "(t, i) \<in> owners db" and "insert_event t i e db = Inr db'"
  shows "db_ok db' \<and> owners db' = owners db \<and> db_runs db' = db_runs db"
proof (cases "list_ex (\<lambda>x. er_run x = i \<and> er_seq x = ev_sequence e) (db_events db)")
  case False
  with assms(3) have "db' = db\<lparr>db_events := db_events db @
      [\<lparr>er_tenant = t, er_run = i, er_seq = ev_sequence e, er_kind = kind_name (ev_kind e),
        er_payload = event_payload e\<rparr>]\<rparr>"
    by (simp add: insert_event_def split: if_splits)
  with assms(1,2) fresh_key(1) [OF False] show ?thesis by (simp add: row_added)
qed (use assms in \<open>auto simp: insert_event_def split: if_splits\<close>)

lemma persist_step_ok:
  assumes "db_ok db" and "(t, i) \<in> owners db"
  shows "db_ok (persist_step t i s e now db)"
proof (cases "list_ex (\<lambda>x. sr_run x = i \<and> sr_step x = s) (db_steps db)")
  case False
  with assms fresh_key(1) [OF False] show ?thesis by (simp add: persist_step_def row_added)
qed (use assms in \<open>simp add: persist_step_def\<close>)

lemma persist_artifact_ok:
  assumes "db_ok db" and "(t, i) \<in> owners db"
  shows "db_ok (persist_artifact t i a now db)"
proof (cases "list_ex (\<lambda>x. fr_id x = ar_id a \<or> fr_run x = i \<and> fr_sha x = ar_sha a) (db_artifacts db)")
  case False
  with assms fresh_key(3) [OF False] show ?thesis by (simp add: persist_artifact_def row_added)
qed (use assms in \<open>simp add: persist_artifact_def\<close>)

lemma persist_checkpoint_ok:
  assumes "db_ok db" and "(t, i) \<in> owners db" and "persist_checkpoint t i n c db = Inr db'"
  shows "db_ok db'"
proof (cases "list_ex (\<lambda>x. kr_run x = i \<and> kr_seq x = n) (db_checkpoints db)")
  case False
  with assms(3) have new: "\<not> list_ex (\<lambda>x. kr_id x = ck_id c) (db_checkpoints db)"
    and db': "db' = db\<lparr>db_checkpoints := db_checkpoints db @
      [\<lparr>kr_tenant = t, kr_run = i, kr_id = ck_id c, kr_seq = n, kr_checkpoint = c\<rparr>]\<rparr>"
    by (auto simp: persist_checkpoint_def split: if_splits)
  from assms(1,2) fresh_key(1) [OF False] fresh_key(2) [OF new] show ?thesis
    by (simp add: db' row_added)
qed (use assms in \<open>auto simp: persist_checkpoint_def split: if_splits\<close>)

lemma persist_approval_ok:
  assumes "db_ok db" and "(t, i) \<in> owners db"
  shows "db_ok (persist_approval t i a e db)"
proof (cases "list_ex (\<lambda>x. pr_run x = i \<and> pr_approval x = a) (db_approvals db)")
  case True
  have "table_ok (\<lambda>x. (pr_run x, pr_approval x)) (\<lambda>x. (pr_tenant x, pr_run x)) (owners db)
      (map (\<lambda>x. if pr_run x = i \<and> pr_approval x = a
        then x\<lparr>pr_status := approval_status e, pr_payload := event_payload e\<rparr> else x) (db_approvals db))"
    using assms(1) by (intro table_ok_map) (simp_all add: db_ok_def rows_ok_def)
  with assms True show ?thesis by (simp add: persist_approval_def db_ok_def rows_ok_def)
next
  case False
  with assms fresh_key(1) [OF False] show ?thesis by (simp add: persist_approval_def row_added)
qed

lemma persist_usage_ok:
  assumes "db_ok db" and "(t, i) \<in> owners db"
  shows "db_ok (persist_usage t i n p c db)"
proof (cases "list_ex (\<lambda>x. ur_run x = i \<and> ur_seq x = n) (db_usage db)")
  case False
  with assms fresh_key(1) [OF False] show ?thesis by (simp add: persist_usage_def row_added)
qed (use assms in \<open>simp add: persist_usage_def\<close>)

lemma persist_runs [simp]:
  "db_runs (persist_step t i s e now db) = db_runs db"
  "db_runs (persist_artifact t i a now db) = db_runs db"
  "db_runs (persist_approval t i ap e db) = db_runs db"
  "db_runs (persist_usage t i n p c db) = db_runs db"
  by (simp_all add: persist_step_def persist_artifact_def persist_approval_def persist_usage_def)

lemma persist_events [simp]:
  "db_events (persist_step t i s e now db) = db_events db"
  "db_events (persist_artifact t i a now db) = db_events db"
  "db_events (persist_approval t i ap e db) = db_events db"
  "db_events (persist_usage t i n p c db) = db_events db"
  by (simp_all add: persist_step_def persist_artifact_def persist_approval_def persist_usage_def)

lemma persist_checkpoint_same:
  "persist_checkpoint t i n c db = Inr db' \<Longrightarrow> db_runs db' = db_runs db \<and> db_events db' = db_events db"
  by (auto simp: persist_checkpoint_def split: if_splits)

lemma owners_runs: "db_runs db = db_runs db' \<Longrightarrow> owners db = owners db'"
  by (simp add: owners_def)

text \<open>The stages of \<open>persist_event\<close>.\<close>

lemma persist_event_stages:
  assumes "persist_event diag t i ev now db = Inr db'"
  obtains e db1 db2 db3 db4 db5 where
    "e = event_with_failure_diagnostic diag ev"
    "insert_event t i e db = Inr db1"
    "db2 = db1 \<or> (\<exists>s. db2 = persist_step t i s e now db1)"
    "db3 = db2 \<or> (\<exists>a. db3 = persist_artifact t i a now db2)"
    "db4 = db3 \<or> (\<exists>c. persist_checkpoint t i (ev_sequence e) c db3 = Inr db4)"
    "db5 = db4 \<or> (\<exists>a. db5 = persist_approval t i a e db4)"
    "db' = db5 \<or> (\<exists>p c. db' = persist_usage t i (ev_sequence e) p c db5)"
proof -
  let ?e = "event_with_failure_diagnostic diag ev"
  from assms obtain db1 where db1: "insert_event t i ?e db = Inr db1"
    by (auto simp: persist_event_def Let_def res_bind_Inr_iff)
  define db2 where "db2 = (case ev_step ?e of
            Some s \<Rightarrow> if ev_kind ?e = Known Step_Completed then persist_step t i s ?e now db1 else db1
          | None \<Rightarrow> db1)"
  define db3 where
    "db3 = (case ev_artifact ?e of Some a \<Rightarrow> persist_artifact t i a now db2 | None \<Rightarrow> db2)"
  from assms obtain db4 where db4: "(case ev_checkpoint ?e of
          Some c \<Rightarrow> persist_checkpoint t i (ev_sequence ?e) c db3 | None \<Rightarrow> Inr db3) = Inr db4"
    unfolding persist_event_def Let_def db1 res_bind.simps db2_def [symmetric] db3_def [symmetric]
    by (auto simp: res_bind_Inr_iff)
  define db5 where "db5 = (case ev_approval ?e of
            Some a \<Rightarrow> if ev_kind ?e \<in> {Known Approval_Requested, Known Approval_Resolved}
                      then persist_approval t i a ?e db4 else db4
          | None \<Rightarrow> db4)"
  have "db' = (case (ev_provider ?e, ev_cost ?e) of
            (Some p, Some c) \<Rightarrow> if ev_kind ?e = Known Cost_Recorded
                      then persist_usage t i (ev_sequence ?e) p c db5 else db5
          | _ \<Rightarrow> db5)"
    using assms db4 unfolding persist_event_def Let_def db1 res_bind.simps
      db2_def [symmetric] db3_def [symmetric] db5_def by simp
  then have last: "db' = db5 \<or> (\<exists>p c. db' = persist_usage t i (ev_sequence ?e) p c db5)"
    by (simp split: option.splits) (metis option.exhaust)
  have "db2 = db1 \<or> (\<exists>s. db2 = persist_step t i s ?e now db1)"
    by (auto simp: db2_def split: option.splits)
  moreover have "db3 = db2 \<or> (\<exists>a. db3 = persist_artifact t i a now db2)"
    by (auto simp: db3_def split: option.splits)
  moreover have "db4 = db3 \<or> (\<exists>c. persist_checkpoint t i (ev_sequence ?e) c db3 = Inr db4)"
    using db4 by (auto split: option.splits)
  moreover have "db5 = db4 \<or> (\<exists>a. db5 = persist_approval t i a ?e db4)"
    by (auto simp: db5_def split: option.splits)
  ultimately show ?thesis using last by (rule that [OF refl db1])
qed

lemma persist_event_ok:
  assumes "db_ok db" and "(t, i) \<in> owners db" and "persist_event diag t i ev now db = Inr db'"
  shows "db_ok db' \<and> owners db' = owners db \<and> db_runs db' = db_runs db"
  using assms(3)
proof (rule persist_event_stages)
  fix e db1 db2 db3 db4 db5
  assume st: "insert_event t i e db = Inr db1"
    "db2 = db1 \<or> (\<exists>s. db2 = persist_step t i s e now db1)"
    "db3 = db2 \<or> (\<exists>a. db3 = persist_artifact t i a now db2)"
    "db4 = db3 \<or> (\<exists>c. persist_checkpoint t i (ev_sequence e) c db3 = Inr db4)"
    "db5 = db4 \<or> (\<exists>a. db5 = persist_approval t i a e db4)"
    "db' = db5 \<or> (\<exists>p c. db' = persist_usage t i (ev_sequence e) p c db5)"
  from insert_event_ok [OF assms(1,2) st(1)] assms(2)
  have 1: "db_ok db1 \<and> (t, i) \<in> owners db1 \<and> db_runs db1 = db_runs db" by simp
  with st(2) have 2: "db_ok db2 \<and> (t, i) \<in> owners db2 \<and> db_runs db2 = db_runs db"
    by (auto simp: persist_step_ok owners_def)
  with st(3) have 3: "db_ok db3 \<and> (t, i) \<in> owners db3 \<and> db_runs db3 = db_runs db"
    by (auto simp: persist_artifact_ok owners_def)
  with st(4) have 4: "db_ok db4 \<and> (t, i) \<in> owners db4 \<and> db_runs db4 = db_runs db"
    using persist_checkpoint_same persist_checkpoint_ok by (metis owners_runs)
  with st(5) have 5: "db_ok db5 \<and> (t, i) \<in> owners db5 \<and> db_runs db5 = db_runs db"
    by (auto simp: persist_approval_ok owners_def)
  with st(6) have "db_ok db' \<and> db_runs db' = db_runs db"
    by (auto simp: persist_usage_ok)
  then show ?thesis by (simp add: owners_def)
qed

end
