(* ===== verification/Run_Observer.thy ===== *)
theory Run_Observer
  imports Run_Invariant
begin

text \<open>
  The observer of a run, \<open>runs/observer.py\<close>: a monitor counts the events of the runtime's stream and
  decides, at most once for each trigger, on a notice for the scheduler; after the stream \<open>execute\<close>
  of \<open>runs/service.py\<close> stores the notices as events of the run in one transaction of their own.

  The case folding that precedes the search for a marker is the one of \<open>Runtime_Contracts\<close>; the
  markers are ASCII without \<open>ss\<close>, so what folding does to other letters cannot make or hide one.
\<close>

section \<open>The monitor\<close>

record observer_policy =
  op_messages :: int
  op_artifacts :: int
  op_failures :: int

text \<open>The constructor's check and the defaults.\<close>

definition mk_observer_policy :: "observer_policy \<Rightarrow> contract_error + observer_policy" where
  "mk_observer_policy p =
     (if op_messages p \<le> 0 \<or> op_artifacts p \<le> 0 \<or> op_failures p \<le> 0
      then Inl (Value_Error ''must be a positive integer'') else Inr p)"

definition default_observer_policy :: observer_policy where
  "default_observer_policy = \<lparr>op_messages = 32, op_artifacts = 12, op_failures = 2\<rparr>"

record monitor =
  mo_events :: int
  mo_failures :: int
  mo_retries :: int
  mo_messages :: int
  mo_artifacts :: int
  mo_emitted :: "string list"

definition new_monitor :: monitor where
  "new_monitor = \<lparr>mo_events = 0, mo_failures = 0, mo_retries = 0, mo_messages = 0, mo_artifacts = 0,
     mo_emitted = []\<rparr>"

text \<open>The counters of a decision are those of the monitor at that time.\<close>

record observer_decision =
  od_trigger :: string
  od_action :: string
  od_severity :: string
  od_source_kind :: string
  od_source_sequence :: int
  od_counters :: monitor
  od_actor :: "string option"

definition capacity_markers :: "string list" where
  "capacity_markers =
     [''model capacity unavailable'', ''model capacity queue timeout'', ''model capacity queue is full'',
      ''model capacity backend failed'', ''model capacity backend unavailable'', ''capacity unavailable'',
      ''status_code=429'', ''http 429'']"

definition empty_response_markers :: "string list" where
  "empty_response_markers =
     [''model response text is empty'', ''model response is empty'', ''empty model response'']"

text \<open>\<open>isinstance(value, str | int)\<close> holds of truth values too, whose \<open>str\<close> is a word.\<close>

definition failure_part :: "json option \<Rightarrow> string list" where
  "failure_part v = (case v of Some (JStr t) \<Rightarrow> [t] | Some (JInt n) \<Rightarrow> [int_text n]
     | Some (JBool b) \<Rightarrow> [if b then ''True'' else ''False''] | _ \<Rightarrow> [])"

definition event_failure_text :: "run_event \<Rightarrow> string" where
  "event_failure_text e = casefold (join_with CHR '' ''
     ((case ev_reason e of Some r \<Rightarrow> if r = [] then [] else [r] | None \<Rightarrow> [])
      @ concat (map (\<lambda>k. failure_part (json_get (ev_payload e) k))
          [''error'', ''error_type'', ''status'', ''status_code'', ''failure'', ''stage''])))"

definition contains_marker :: "string \<Rightarrow> string list \<Rightarrow> bool" where
  "contains_marker t markers \<longleftrightarrow> list_ex (\<lambda>m. contains_text m t) markers"

definition emit :: "string \<Rightarrow> string \<Rightarrow> string \<Rightarrow> run_event \<Rightarrow> monitor \<Rightarrow> monitor \<times> observer_decision option" where
  "emit trigger action severity e m =
     (if trigger \<in> set (mo_emitted m) then (m, None)
      else let m' = m\<lparr>mo_emitted := trigger # mo_emitted m\<rparr> in
        (m', Some \<lparr>od_trigger = trigger, od_action = action, od_severity = severity,
           od_source_kind = kind_name (ev_kind e), od_source_sequence = ev_sequence e, od_counters = m',
           od_actor = ev_actor e\<rparr>))"

definition observe :: "observer_policy \<Rightarrow> run_event \<Rightarrow> monitor \<Rightarrow> monitor \<times> observer_decision option" where
  "observe p e m0 =
     (if ev_kind e = Extension ''observer.notice'' then (m0, None)
      else
        let m1 = m0\<lparr>mo_events := mo_events m0 + 1\<rparr>;
            m2 = (if ev_kind e = Known Message_Created then m1\<lparr>mo_messages := mo_messages m1 + 1\<rparr>
                  else if ev_kind e = Known Artifact_Created then m1\<lparr>mo_artifacts := mo_artifacts m1 + 1\<rparr>
                  else if ev_kind e = Known Step_Retrying then m1\<lparr>mo_retries := mo_retries m1 + 1\<rparr> else m1) in
        if ev_kind e \<in> {Known Runtime_Failed, Known Step_Failed, Known Tool_Failed} then
          let m3 = m2\<lparr>mo_failures := mo_failures m2 + 1\<rparr>; t = event_failure_text e in
          if contains_marker t capacity_markers
          then emit ''model_capacity_pressure'' ''reschedule_or_reassign_model'' ''warning'' e m3
          else if contains_marker t empty_response_markers
          then emit ''empty_model_response'' ''retry_fallback_or_reassign_model'' ''warning'' e m3
          else if op_failures p \<le> mo_failures m3
          then emit ''repeated_failure'' ''pause_and_request_scheduler_review'' ''warning'' e m3
          else emit ''runtime_failure'' ''preserve_partial_outputs'' ''info'' e m3
        else if ev_kind e = Known Step_Retrying then emit ''step_retrying'' ''watch_retry_budget'' ''info'' e m2
        else if op_messages p \<le> mo_messages m2 \<or> op_artifacts p \<le> mo_artifacts m2
        then emit ''context_compaction_recommended'' ''compact_context_before_next_model_call'' ''info'' e m2
        else (m2, None))"

text \<open>The decisions over the events \<open>execute\<close> stored, in their order.\<close>

fun observe_events :: "observer_policy \<Rightarrow> monitor \<Rightarrow> run_event list \<Rightarrow> observer_decision list" where
  "observe_events p m [] = []"
| "observe_events p m (e # es) = (case observe p e m of (m', d) \<Rightarrow>
     (case d of None \<Rightarrow> [] | Some x \<Rightarrow> [x]) @ observe_events p m' es)"

section \<open>The notices of a run\<close>

definition notice_payload :: "observer_decision \<Rightarrow> (string \<times> json) list" where
  "notice_payload d =
     [(''schema_version'', JInt 1), (''trigger'', JStr (od_trigger d)), (''action'', JStr (od_action d)),
      (''severity'', JStr (od_severity d)), (''source_kind'', JStr (od_source_kind d)),
      (''source_sequence'', JInt (od_source_sequence d)), (''event_count'', JInt (mo_events (od_counters d))),
      (''failure_events'', JInt (mo_failures (od_counters d))), (''retry_events'', JInt (mo_retries (od_counters d))),
      (''message_events'', JInt (mo_messages (od_counters d))),
      (''artifact_events'', JInt (mo_artifacts (od_counters d)))]
     @ (case od_actor d of None \<Rightarrow> [] | Some a \<Rightarrow> [(''actor'', JStr a)])"

text \<open>\<open>to_event\<close>: the constructor of the event may still refuse, as any other.\<close>

definition to_event :: "(pyfloat \<Rightarrow> string) \<Rightarrow> uuid \<Rightarrow> int \<Rightarrow> observer_decision \<Rightarrow> string + run_event" where
  "to_event ft i sequence d =
     mk_event ft ((blank_event (Extension ''observer.notice'') sequence i)\<lparr>ev_payload := notice_payload d\<rparr>)"

fun persist_notices ::
  "(pyfloat \<Rightarrow> string) \<Rightarrow> (string \<Rightarrow> (string \<times> json) list) \<Rightarrow> uuid \<Rightarrow> uuid \<Rightarrow> int \<Rightarrow> observer_decision list
     \<Rightarrow> instant \<Rightarrow> run_db \<Rightarrow> fail_error + run_db" where
  "persist_notices ft diag tenant i sequence [] now db = Inr db"
| "persist_notices ft diag tenant i sequence (d # ds) now db =
     (case to_event ft i sequence d of
        Inl m \<Rightarrow> Inl (Event_Error m)
      | Inr e \<Rightarrow> (case persist_event diag tenant i e now db of
            Inl err \<Rightarrow> Inl (Store_Error err)
          | Inr db1 \<Rightarrow> persist_notices ft diag tenant i (sequence + 1) ds now db1))"

text \<open>The transaction after the stream; without a decision there is none.\<close>

definition observer_transaction ::
  "(pyfloat \<Rightarrow> string) \<Rightarrow> (string \<Rightarrow> (string \<times> json) list) \<Rightarrow> uuid \<Rightarrow> uuid \<Rightarrow> observer_decision list
     \<Rightarrow> instant \<Rightarrow> run_db \<Rightarrow> fail_error + (run_db \<times> unit)" where
  "observer_transaction ft diag tenant i ds now db =
     res_bind (persist_notices ft diag tenant i (next_event_sequence i db) ds now db) (\<lambda>db'. Inr (db', ()))"

section \<open>What the observer guarantees\<close>

definition all_triggers :: "string set" where
  "all_triggers = {''model_capacity_pressure'', ''empty_model_response'', ''repeated_failure'', ''runtime_failure'',
     ''step_retrying'', ''context_compaction_recommended''}"

lemma emit_once:
  assumes "emit tr a s e m = (m', d)" and "tr \<in> all_triggers"
  shows "case d of None \<Rightarrow> mo_emitted m' = mo_emitted m
    | Some x \<Rightarrow> od_trigger x \<in> all_triggers \<and> od_trigger x \<notin> set (mo_emitted m)
        \<and> mo_emitted m' = od_trigger x # mo_emitted m"
  using assms by (auto simp: emit_def Let_def split: if_splits)

lemma observe_once:
  assumes "observe p e m = (m', d)"
  shows "case d of None \<Rightarrow> mo_emitted m' = mo_emitted m
    | Some x \<Rightarrow> od_trigger x \<in> all_triggers \<and> od_trigger x \<notin> set (mo_emitted m)
        \<and> mo_emitted m' = od_trigger x # mo_emitted m"
  using assms unfolding observe_def Let_def
  by (cases d) (auto split: if_splits dest!: emit_once simp: all_triggers_def)

text \<open>A monitor raises each trigger at most once, so a stream of any length leads to six notices at most.\<close>

lemma observed_triggers:
  "distinct (map od_trigger (observe_events p m es))
   \<and> set (map od_trigger (observe_events p m es)) \<subseteq> all_triggers - set (mo_emitted m)"
proof (induction es arbitrary: m)
  case (Cons e es)
  obtain m' d where "observe p e m = (m', d)" by (cases "observe p e m")
  with Cons.IH [of m'] observe_once [OF this] show ?case by (cases d) auto
qed simp

lemma few_notices: "length (observe_events p m es) \<le> 6"
proof -
  have "card (set (map od_trigger (observe_events p m es))) \<le> card all_triggers"
    using observed_triggers [of p m es] by (intro card_mono) (auto simp: all_triggers_def)
  moreover have "card all_triggers = 6" by (simp add: all_triggers_def)
  moreover have "card (set (map od_trigger (observe_events p m es))) = length (map od_trigger (observe_events p m es))"
    using observed_triggers by (intro distinct_card) blast
  ultimately show ?thesis by simp
qed

lemma persist_notices_ok:
  assumes "persist_notices ft diag t i n ds now db = Inr db'" and "db_ok db" and "(t, i) \<in> owners db"
  shows "db_ok db' \<and> owners db' = owners db \<and> db_runs db' = db_runs db"
  using assms
proof (induction ds arbitrary: n db)
  case (Cons d ds)
  from Cons.prems(1) obtain e db1 where 1: "persist_event diag t i e now db = Inr db1"
    and 2: "persist_notices ft diag t i (n + 1) ds now db1 = Inr db'"
    by (auto split: sum.splits)
  from persist_event_ok [OF Cons.prems(2,3) 1] Cons.IH [OF 2] Cons.prems(3) show ?case by simp
qed simp

lemma observer_transaction_ok:
  assumes "observer_transaction ft diag t i ds now db = Inr (db', u)" and "db_ok db" and "(t, i) \<in> owners db"
  shows "db_ok db'" and "db_runs db' = db_runs db"
  using assms persist_notices_ok by (auto simp: observer_transaction_def res_bind_Inr_iff)

end
