(* ===== verification/Run_Execution.thy ===== *)
theory Run_Execution
  imports Run_Observer
begin

text \<open>
  The service methods of \<open>runs/service.py\<close> that drive the store: the control methods, the
  publication of the outbox, and the transactions of \<open>execute\<close>, one per event of the runtime's
  stream and one for the notices of the observer after it. All transactions together are the steps of a state machine on the database, and what
  they keep is proved of every reachable database.
\<close>

section \<open>Control methods\<close>

definition pause :: "uuid \<Rightarrow> uuid \<Rightarrow> run_db \<Rightarrow> run_error + (run_db \<times> run_record)" where
  "pause tenant i db = update_control_status tenant i Paused db"

definition resume :: "uuid \<Rightarrow> uuid \<Rightarrow> uuid \<Rightarrow> instant \<Rightarrow> run_db \<Rightarrow> run_error + (run_db \<times> run_record)" where
  "resume tenant i oid now db = enqueue_existing_run tenant i Paused Queued ''resume'' oid now db"

definition cancel :: "uuid \<Rightarrow> uuid \<Rightarrow> run_db \<Rightarrow> run_error + (run_db \<times> run_record)" where
  "cancel tenant i db = update_control_status tenant i Cancelled db"

definition choose_mode ::
  "uuid \<Rightarrow> uuid \<Rightarrow> task_mode \<Rightarrow> string \<Rightarrow> int \<Rightarrow> string option \<Rightarrow> uuid \<Rightarrow> instant \<Rightarrow> run_db
     \<Rightarrow> run_error + (run_db \<times> run_record)" where
  "choose_mode tenant i m token version operator_note oid now db =
     (let cleaned = (case operator_note of None \<Rightarrow> None
          | Some n \<Rightarrow> if n = [] then None else Some (py_strip n)) in
      choose_mode_and_enqueue tenant i m token version
        (case cleaned of None \<Rightarrow> None | Some n \<Rightarrow> if n = [] then None else Some (take 2000 n))
        oid now db)"

definition choose_latest_mode_for_conversation ::
  "(json \<Rightarrow> string) \<Rightarrow> uuid \<Rightarrow> uuid \<Rightarrow> string \<Rightarrow> task_mode \<Rightarrow> string option \<Rightarrow> uuid \<Rightarrow> instant
     \<Rightarrow> run_db \<Rightarrow> run_error + (run_db \<times> run_record) option" where
  "choose_latest_mode_for_conversation txt tenant actor conversation m operator_note oid now db =
     (case latest_waiting_choice_for_conversation txt tenant actor conversation db of
        None \<Rightarrow> Inr None
      | Some record \<Rightarrow>
          (case json_get (case rc_decision record of None \<Rightarrow> [] | Some d \<Rightarrow> d) ''decision_token'' of
             Some (JStr token) \<Rightarrow>
               if token = [] then Inr None
               else res_bind (choose_mode tenant (rc_id record) m token (rc_version record)
                      operator_note oid now db) (\<lambda>r. Inr (Some r))
           | _ \<Rightarrow> Inr None))"

definition revise_temporary_agent ::
  "uuid \<Rightarrow> uuid \<Rightarrow> string \<Rightarrow> int \<Rightarrow> string \<Rightarrow> uuid \<Rightarrow> instant \<Rightarrow> run_db
     \<Rightarrow> (string + run_error) + (run_db \<times> run_record)" where
  "revise_temporary_agent tenant i token version feedback oid now db =
     (let cleaned = py_strip feedback in
      if cleaned = [] then Inl (Inl ''temporary agent feedback must not be blank'')
      else case revise_temporary_agent_and_enqueue tenant i token version (take 2000 cleaned) oid now db of
        Inl e \<Rightarrow> Inl (Inr e) | Inr r \<Rightarrow> Inr r)"

text \<open>
  Publication walks over the entries that were pending when it started; an entry that cannot be
  handed over ends the walk with its exception.
\<close>

fun publish_entries ::
  "(uuid \<Rightarrow> string \<Rightarrow> bool) \<Rightarrow> pending_outbox list \<Rightarrow> run_db \<times> nat \<times> (uuid \<times> string) list
     \<Rightarrow> bool \<times> run_db \<times> nat \<times> (uuid \<times> string) list" where
  "publish_entries enqueue [] (db, n, sent) = (True, db, n, sent)"
| "publish_entries enqueue (x # xs) (db, n, sent) =
     (case deliver_outbox enqueue False (po_id x) db of
        Inl _ \<Rightarrow> (False, db, n, sent)
      | Inr (db', ok, out) \<Rightarrow>
          publish_entries enqueue xs (db', if ok then n + 1 else n, sent @ out))"

definition publish_pending ::
  "(uuid \<Rightarrow> string \<Rightarrow> bool) \<Rightarrow> nat \<Rightarrow> run_db \<Rightarrow> bool \<times> run_db \<times> nat \<times> (uuid \<times> string) list" where
  "publish_pending enqueue limit db =
     publish_entries enqueue (pending_outbox_entries limit db) (db, 0, [])"

section \<open>Executing a run\<close>

text \<open>
  The transaction for one event: stop when the run was cancelled or paused meanwhile, else store
  the event and, once a terminal event was seen, the terminal status. The variable \<open>terminal\<close>
  of the loop is threaded through; \<open>Stop\<close> is the \<open>break\<close>.
\<close>

datatype loop_next = Stop run_status | Go run_status

definition terminal_of :: "kind \<Rightarrow> run_status \<Rightarrow> run_status" where
  "terminal_of k current =
     (if k = Known Runtime_Completed then Completed
      else if k = Known Runtime_Cancelled then Cancelled
      else if k = Known Runtime_Failed then Failed else current)"

definition event_transaction ::
  "(string \<Rightarrow> (string \<times> json) list) \<Rightarrow> uuid \<Rightarrow> uuid \<Rightarrow> run_status \<Rightarrow> run_event \<Rightarrow> instant \<Rightarrow> run_db
     \<Rightarrow> run_error + (run_db \<times> loop_next)" where
  "event_transaction diag tenant i term event now db =
     res_bind (get_for_update i db) (\<lambda>locked.
       if rr_status locked = Cancelled then Inr (db, Stop Cancelled)
       else if rr_status locked = Paused then Inr (db, Stop Paused)
       else res_bind (persist_event diag tenant i event now db) (\<lambda>db1.
         let term' = terminal_of (ev_kind event) term in
         if term' = Running then Inr (db1, Go term')
         else res_bind (flush_run (bump (locked\<lparr>rr_status := term'\<rparr>)) db1) (\<lambda>db2.
              Inr (db2, Go term'))))"

text \<open>After the stream: a run that no terminal event ended is completed.\<close>

definition finish_run :: "uuid \<Rightarrow> uuid \<Rightarrow> run_status \<Rightarrow> run_db \<Rightarrow> run_error + (run_db \<times> run_status)" where
  "finish_run tenant i term db =
     (if term = Running
      then res_bind (update_status tenant i Completed None db) (\<lambda>(db', _). Inr (db', Completed))
      else Inr (db, term))"

text \<open>
  The stream with what other workers commit between its transactions: each item is a function on
  the database (interference), then an event. A failing transaction leaves to \<open>fail_run\<close>.
\<close>

fun run_stream ::
  "(string \<Rightarrow> (string \<times> json) list) \<Rightarrow> uuid \<Rightarrow> uuid \<Rightarrow> run_status
     \<Rightarrow> ((run_db \<Rightarrow> run_db) \<times> run_event \<times> instant) list \<Rightarrow> run_db \<Rightarrow> run_error + (run_db \<times> run_status)" where
  "run_stream diag tenant i term [] db = Inr (db, term)"
| "run_stream diag tenant i term ((others, event, now) # items) db =
     res_bind (event_transaction diag tenant i term event now (others db)) (\<lambda>(db', nxt).
       case nxt of Stop s \<Rightarrow> Inr (db', s) | Go s \<Rightarrow> run_stream diag tenant i s items db')"

section \<open>The store as a state machine\<close>

datatype store_op =
    Op_Create uuid uuid string "task_mode option" run_status "string option"
      "(string \<times> json) list option" bool uuid uuid instant
  | Op_Delete uuid uuid
  | Op_Update_Status uuid uuid run_status "task_mode option"
  | Op_Choose_Mode uuid uuid task_mode string int "string option" uuid instant
  | Op_Approve_Agent uuid uuid string int uuid instant
  | Op_Revise_Agent uuid uuid string int string uuid instant
  | Op_Enqueue uuid uuid run_status run_status string uuid instant
  | Op_Control uuid uuid run_status
  | Op_Begin_Approval uuid uuid string string
  | Op_Resolve_Approval uuid uuid run_status string string
  | Op_Claim uuid bool
  | Op_Fail uuid string "(string \<times> json) list option" instant
  | Op_Deliver "uuid \<Rightarrow> string \<Rightarrow> bool" bool uuid
  | Op_Event uuid run_status run_event instant
  | Op_Observe uuid "observer_decision list" instant

text \<open>The state after a transaction: the committed one, or the old one when it raised.\<close>

definition committed :: "run_db \<Rightarrow> 'e + (run_db \<times> 'a) \<Rightarrow> run_db" where
  "committed db r = (case r of Inl _ \<Rightarrow> db | Inr (db', _) \<Rightarrow> db')"

text \<open>
  The parameters the source gets from elsewhere: the text of a float and the diagnostic of a
  failure reason.
\<close>

fun exec_op ::
  "(pyfloat \<Rightarrow> string) \<Rightarrow> (string \<Rightarrow> (string \<times> json) list) \<Rightarrow> store_op \<Rightarrow> run_db \<Rightarrow> run_db" where
  "exec_op ft diag (Op_Create t a q m s k d enq i oid now) db =
     committed db (create_run t a q m s k d enq i oid now db)"
| "exec_op ft diag (Op_Delete t i) db = committed db (delete_run t i db)"
| "exec_op ft diag (Op_Update_Status t i s m) db = committed db (update_status t i s m db)"
| "exec_op ft diag (Op_Choose_Mode t i m tok v n oid now) db =
     committed db (choose_mode_and_enqueue t i m tok v n oid now db)"
| "exec_op ft diag (Op_Approve_Agent t i tok v oid now) db =
     committed db (approve_temporary_agent_and_enqueue t i tok v oid now db)"
| "exec_op ft diag (Op_Revise_Agent t i tok v fb oid now) db =
     committed db (revise_temporary_agent_and_enqueue t i tok v fb oid now db)"
| "exec_op ft diag (Op_Enqueue t i s s' what oid now) db =
     committed db (enqueue_existing_run t i s s' what oid now db)"
| "exec_op ft diag (Op_Control t i s) db = committed db (update_control_status t i s db)"
| "exec_op ft diag (Op_Begin_Approval t i a f) db = committed db (begin_capability_approval t i a f db)"
| "exec_op ft diag (Op_Resolve_Approval t i s a f) db =
     committed db (resolve_capability_approval t i s a f db)"
| "exec_op ft diag (Op_Claim i rcv) db = committed db (claim_for_execution i rcv db)"
| "exec_op ft diag (Op_Fail i why d now) db = committed db (fail_run ft diag i why d now db)"
| "exec_op ft diag (Op_Deliver f l oid) db = committed db (deliver_outbox f l oid db)"
| "exec_op ft diag (Op_Event i s e now) db = (case get_for_update i db of
       Inl _ \<Rightarrow> db
     | Inr row \<Rightarrow> committed db (event_transaction diag (rr_tenant row) i s e now db))"
| "exec_op ft diag (Op_Observe i ds now) db = (case get_for_update i db of
       Inl _ \<Rightarrow> db
     | Inr row \<Rightarrow> committed db (observer_transaction ft diag (rr_tenant row) i ds now db))"

text \<open>
  An event transaction and the one of the observer name the tenant of the run they execute:
  \<open>execute\<close> takes it from the row it claimed, and no method changes the tenant of a row. When the run
  was deleted meanwhile, the row lock of the one and the foreign key of the other end them with an
  error.
\<close>

inductive store_step ::
  "(pyfloat \<Rightarrow> string) \<Rightarrow> (string \<Rightarrow> (string \<times> json) list) \<Rightarrow> run_db \<Rightarrow> run_db \<Rightarrow> bool"
  for ft diag where
  step: "store_step ft diag db (exec_op ft diag op db)"

inductive_cases store_stepE: "store_step ft diag db db'"

inductive reachable ::
  "(pyfloat \<Rightarrow> string) \<Rightarrow> (string \<Rightarrow> (string \<times> json) list) \<Rightarrow> run_db \<Rightarrow> run_db \<Rightarrow> bool"
  for ft diag db where
  reach_refl: "reachable ft diag db db"
| reach_step: "reachable ft diag db db' \<Longrightarrow> store_step ft diag db' db'' \<Longrightarrow> reachable ft diag db db''"

subsection \<open>Every step keeps the invariant\<close>

lemma committed_cases: "(\<And>db' x. r = Inr (db', x) \<Longrightarrow> P db') \<Longrightarrow> P db \<Longrightarrow> P (committed db r)"
  by (auto simp: committed_def split: sum.splits)

lemma flush_same_run:
  assumes "db_ok db" and "row \<in> set (db_runs db)" and "flush_run (bump (row\<lparr>rr_status := s\<rparr>)) db = Inr db'"
  shows "db_ok db'" and "owners db' = owners db"
    and "db_runs db' = replace_run (bump (row\<lparr>rr_status := s\<rparr>)) (db_runs db)"
proof -
  have "1 \<le> rr_version row" using assms by (auto simp: db_ok_def runs_ok_def run_row_ok_def)
  then have "1 \<le> rr_version (bump (row\<lparr>rr_status := s\<rparr>))" by (simp add: bump_def)
  moreover have "same_identity row (bump (row\<lparr>rr_status := s\<rparr>))"
    by (simp add: same_identity_def bump_def)
  ultimately show "db_ok db'" and "owners db' = owners db"
    and "db_runs db' = replace_run (bump (row\<lparr>rr_status := s\<rparr>)) (db_runs db)"
    using flush_run_ok [OF assms(1,2) _ _ assms(3)] by simp_all
qed

lemma fail_run_ok:
  assumes "db_ok db" and "fail_run ft diag i why d now db = Inr (db', rec)"
  shows "db_ok db'"
proof -
  obtain row where row: "get_for_update i db = Inr row"
    using assms(2) by (auto simp: fail_run_def split: sum.splits)
  with get_for_update_mem [OF assms(1)] have mem: "row \<in> set (db_runs db)" "rr_id row = i" by auto
  then have own: "(rr_tenant row, i) \<in> owners db" by (auto simp: owners_def run_owner_def)
  show ?thesis
  proof (cases "rr_status row \<in> {Completed, Failed, Cancelled}")
    case True
    with assms row show ?thesis by (auto simp: fail_run_def)
  next
    case False
    with assms(2) row obtain ev db1 where 1: "persist_event diag (rr_tenant row) i ev now db = Inr db1"
      and 2: "flush_run (bump (row\<lparr>rr_status := Failed\<rparr>)) db1 = Inr db'"
      by (auto simp: fail_run_def Let_def res_bind_Inr_iff split: sum.splits)
    from persist_event_ok [OF assms(1) own 1] mem have "db_ok db1" "row \<in> set (db_runs db1)" by auto
    from flush_same_run(1) [OF this 2] show ?thesis .
  qed
qed

lemma claim_ok:
  assumes "db_ok db" and "claim_for_execution i rcv db = Inr (db', c)"
  shows "db_ok db'"
proof -
  obtain row where row: "get_for_update i db = Inr row"
    using assms(2) by (auto simp: claim_for_execution_def res_bind_Inr_iff)
  with get_for_update_mem [OF assms(1)] have mem: "row \<in> set (db_runs db)" by auto
  show ?thesis
  proof (cases "flush_run (bump (row\<lparr>rr_status := Running\<rparr>)) db")
    case (Inl e)
    with assms row show ?thesis
      by (auto simp: claim_for_execution_def Let_def split: if_splits)
  next
    case (Inr db1)
    note one = flush_same_run [OF assms(1) mem Inr]
    let ?row1 = "bump (row\<lparr>rr_status := Running\<rparr>)"
    have "db_ok db'" if "flush_run (bump (?row1\<lparr>rr_status := Failed\<rparr>)) db1 = Inr db'"
    proof (rule flush_same_run(1) [OF one(1) _ that])
      show "?row1 \<in> set (db_runs db1)"
        using mem by (force simp: one(3) replace_run_def bump_def)
    qed
    with assms row Inr one(1) show ?thesis
      by (auto simp: claim_for_execution_def Let_def res_bind_Inr_iff split: if_splits)
  qed
qed

lemma deliver_ok:
  assumes "db_ok db" and "deliver_outbox f l oid db = Inr (db', x)"
  shows "db_ok db'" and "db_runs db' = db_runs db"
proof -
  let ?g = "\<lambda>y. if or_id y = oid then y\<lparr>or_delivered := True\<rparr> else y"
  from assms(2) have db': "db' = db \<or> db' = db\<lparr>db_outbox := map ?g (db_outbox db)\<rparr>"
    by (auto simp: deliver_outbox_def split: option.splits if_splits)
  then show "db_runs db' = db_runs db" by auto
  have "table_ok or_id (\<lambda>x. (or_tenant x, or_run x)) S (map ?g xs)"
    if "table_ok or_id (\<lambda>x. (or_tenant x, or_run x)) S xs" for S xs
    by (rule table_ok_map [OF that]) auto
  moreover have "table_ok or_key (\<lambda>x. (or_tenant x, or_run x)) S (map ?g xs)"
    if "table_ok or_key (\<lambda>x. (or_tenant x, or_run x)) S xs" for S xs
    by (rule table_ok_map [OF that]) auto
  ultimately show "db_ok db'" using db' assms(1) by (auto simp: db_ok_def rows_ok_def)
qed

lemma event_transaction_ok:
  assumes "db_ok db" and "(t, i) \<in> owners db" and "event_transaction diag t i s e now db = Inr (db', x)"
  shows "db_ok db'"
proof -
  obtain row where row: "get_for_update i db = Inr row"
    using assms(3) by (auto simp: event_transaction_def res_bind_Inr_iff)
  with get_for_update_mem [OF assms(1)] have mem: "row \<in> set (db_runs db)" by auto
  have "db_ok db'" if "persist_event diag t i e now db = Inr db1"
    and "db' = db1 \<or> flush_run (bump (row\<lparr>rr_status := terminal_of (ev_kind e) s\<rparr>)) db1 = Inr db'" for db1
  proof -
    note one = persist_event_ok [OF assms(1,2) that(1)]
    then have "row \<in> set (db_runs db1)" using mem by simp
    with one that(2) show ?thesis using flush_same_run(1) [of db1 row] by blast
  qed
  with assms(1,3) row show ?thesis
    by (auto simp: event_transaction_def Let_def res_bind_Inr_iff split: if_splits)
qed

lemmas change_ops = update_status_def choose_mode_and_enqueue_def
  approve_temporary_agent_and_enqueue_def revise_temporary_agent_and_enqueue_def
  enqueue_existing_run_def update_control_status_def begin_capability_approval_def
  resolve_capability_approval_def

lemma update_ops_ok:
  assumes "db_ok db"
  shows "update_status t i s m db = Inr (db', r) \<Longrightarrow> db_ok db'"
    and "choose_mode_and_enqueue t i md tok v n oid now db = Inr (db', r) \<Longrightarrow> db_ok db'"
    and "approve_temporary_agent_and_enqueue t i tok v oid now db = Inr (db', r) \<Longrightarrow> db_ok db'"
    and "revise_temporary_agent_and_enqueue t i tok v fb oid now db = Inr (db', r) \<Longrightarrow> db_ok db'"
    and "enqueue_existing_run t i s s' what oid now db = Inr (db', r) \<Longrightarrow> db_ok db'"
    and "update_control_status t i s db = Inr (db', r) \<Longrightarrow> db_ok db'"
    and "begin_capability_approval t i a f db = Inr (db', r) \<Longrightarrow> db_ok db'"
    and "resolve_capability_approval t i s a f db = Inr (db', r) \<Longrightarrow> db_ok db'"
  using status.change_run_ok [OF assms] choose_mode.change_run_ok [OF assms]
    approve_agent.change_run_ok [OF assms] revise_agent.change_run_ok [OF assms]
    enqueue.change_run_ok [OF assms] control.change_run_ok [OF assms]
    begin_approval.change_run_ok [OF assms] resolve_approval.change_run_ok [OF assms]
  by (simp_all add: change_ops split: if_splits)

lemma exec_op_db_ok:
  assumes "db_ok db"
  shows "db_ok (exec_op ft diag op db)"
proof (cases op)
  case (Op_Event i s e now)
  show ?thesis
  proof (cases "get_for_update i db")
    case (Inr row)
    with get_for_update_mem [OF assms] have "(rr_tenant row, i) \<in> owners db"
      by (auto simp: owners_def run_owner_def)
    from event_transaction_ok [OF assms this] show ?thesis
      unfolding Op_Event exec_op.simps Inr sum.case
      by (rule committed_cases [where P = db_ok, OF _ assms])
  qed (simp add: Op_Event assms)
next
  case (Op_Observe i ds now)
  show ?thesis
  proof (cases "get_for_update i db")
    case (Inr row)
    with get_for_update_mem [OF assms] have "(rr_tenant row, i) \<in> owners db"
      by (auto simp: owners_def run_owner_def)
    from observer_transaction_ok(1) [OF _ assms this] show ?thesis
      unfolding Op_Observe exec_op.simps Inr sum.case
      by (rule committed_cases [where P = db_ok, OF _ assms])
  qed (simp add: Op_Observe assms)
qed (simp only: exec_op.simps,
      (rule committed_cases [where P = db_ok, OF _ assms],
       erule create_run_ok [OF assms] delete_run_ok [OF assms] update_ops_ok [OF assms]
        claim_ok [OF assms] fail_run_ok [OF assms] deliver_ok(1) [OF assms]))+

lemma reachable_db_ok: "reachable ft diag db db' \<Longrightarrow> db_ok db \<Longrightarrow> db_ok db'"
  by (induction rule: reachable.induct) (auto elim!: store_stepE intro: exec_op_db_ok)

subsection \<open>What a step does to one run\<close>

lemma get_for_update_Inl: "(\<exists>e. get_for_update i db = Inl e) \<longleftrightarrow> i \<notin> rr_id ` set (db_runs db)"
proof -
  have "(\<exists>e. get_for_update i db = Inl e) \<longleftrightarrow> find (\<lambda>r. rr_id r = i) (db_runs db) = None"
    by (simp add: get_for_update_def split: option.splits)
  also have "\<dots> \<longleftrightarrow> i \<notin> rr_id ` set (db_runs db)"
    unfolding find_None_iff by auto
  finally show ?thesis .
qed

context row_method
begin

lemma change_run_effect:
  assumes "db_ok db" and "get_for_update i db = Inr row" and "change_run t j now oid f db = Inr (db', rec)"
  shows "\<exists>row'. get_for_update i db' = Inr row' \<and>
    (row' = row \<or> i = j \<and> t = rr_tenant row \<and>
       (\<exists>row1 key. f row = Inr (Write row1 key) \<and> row' = bump row1))"
proof (cases "i = j")
  case True
  from change_run_row [OF assms(1,3)] obtain r r' where r: "run_select t j db = Some r"
      "run_select t j db' = Some r'"
      "r' = r \<or> (\<exists>row1 key. f r = Inr (Write row1 key) \<and> r' = bump row1)"
    by metis
  have ok: "db_ok db'" using change_run_ok [OF assms(1,3)] by simp
  have "get_for_update i db = Inr r"
    using run_select_Some [OF r(1)] True unfolding get_for_update_mem [OF assms(1)] by simp
  then have "r = row" using assms(2) by simp
  moreover have "get_for_update i db' = Inr r'"
    using run_select_Some [OF r(2)] True unfolding get_for_update_mem [OF ok] by simp
  ultimately show ?thesis using r(3) run_select_Some [OF r(1)] True by blast
next
  case False
  have ok: "db_ok db'" using change_run_ok [OF assms(1,3)] by simp
  have "run_select (rr_tenant row) i db = Some row"
    using assms(2) unfolding get_for_update_mem [OF assms(1)] run_select_mem [OF assms(1)] by simp
  then have "run_select (rr_tenant row) i db' = Some row"
    using change_run_others [OF assms(1,3) False] by simp
  then have "get_for_update i db' = Inr row"
    unfolding get_for_update_mem [OF ok] run_select_mem [OF ok] by simp
  then show ?thesis by blast
qed

end

end
