(* ===== verification/Run_Guarantees.thy ===== *)
theory Run_Guarantees
  imports Run_Execution
begin

text \<open>
  What the store guarantees of one run over all the transactions that can hit it: its version
  counts its writes, a terminal run is immutable for every guarded operation, a mode choice and a
  claim succeed once, creation and event storage are idempotent, and what leaves the store
  carries no sensitive key. The last section shows where \<open>execute\<close> escapes these rules.
\<close>

section \<open>The effect of one transaction on one run\<close>

definition evolves :: "run_row \<Rightarrow> run_row \<Rightarrow> bool" where
  "evolves r r' \<longleftrightarrow> same_identity r r' \<and> (r' = r \<or> rr_version r < rr_version r')"

lemma evolves_refl [simp]: "evolves r r"
  by (simp add: evolves_def same_identity_def)

lemma evolves_trans: "evolves a b \<Longrightarrow> evolves b c \<Longrightarrow> evolves a c"
  by (auto simp: evolves_def same_identity_def)

lemma terminal_set: "terminal s \<longleftrightarrow> s \<in> {Completed, Failed, Cancelled}"
  by (cases s) (simp_all add: terminal_def)

lemma get_same_runs: "db_runs db' = db_runs db \<Longrightarrow> get_for_update i db' = get_for_update i db"
  by (simp add: get_for_update_def)

lemma get_flush:
  assumes "db_ok db" and "get_for_update j db = Inr row" and "get_for_update i db = Inr r"
    and "flush_run (bump (row\<lparr>rr_status := s\<rparr>)) db = Inr db'"
  shows "get_for_update i db' = Inr (if i = j then bump (row\<lparr>rr_status := s\<rparr>) else r)"
proof -
  let ?new = "bump (row\<lparr>rr_status := s\<rparr>)"
  have row: "row \<in> set (db_runs db)" "rr_id row = j"
    using assms(2) unfolding get_for_update_mem [OF assms(1)] by simp_all
  have r: "r \<in> set (db_runs db)" "rr_id r = i"
    using assms(3) unfolding get_for_update_mem [OF assms(1)] by simp_all
  note fl = flush_same_run [OF assms(1) row(1) assms(4)]
  have id: "rr_id ?new = j" using row by (simp add: bump_def)
  have "(if i = j then ?new else r) \<in> set (db_runs db')"
    using row r id by (force simp: fl(3) replace_run_def)
  then show ?thesis unfolding get_for_update_mem [OF fl(1)] using id r by simp
qed

lemma evolves_status: "evolves row (bump (row\<lparr>rr_status := s\<rparr>))"
  by (simp add: evolves_def same_identity_def bump_def)

context row_method
begin

lemma change_run_evolves:
  assumes "db_ok db" and "get_for_update i db = Inr row"
  shows "\<exists>row'. get_for_update i (committed db (change_run t j now oid f db)) = Inr row'
    \<and> evolves row row'"
proof (cases "change_run t j now oid f db")
  case (Inr p)
  obtain db' rec where p: "p = (db', rec)" by (cases p)
  from change_run_effect [OF assms Inr [unfolded p]] obtain row' where
    row': "get_for_update i db' = Inr row'"
      "row' = row \<or> (\<exists>row1 key. f row = Inr (Write row1 key) \<and> row' = bump row1)"
    by blast
  then have "evolves row row'"
    using keeps_identity by (auto simp: evolves_def bump_def same_identity_def)
  with row' show ?thesis by (simp add: committed_def Inr p)
qed (simp add: committed_def assms)

text \<open>A method that refuses the rows of a kind leaves a run of that kind alone.\<close>

lemma change_run_refused:
  assumes "db_ok db" and "get_for_update i db = Inr row" and "\<And>row1 key. f row \<noteq> Inr (Write row1 key)"
  shows "get_for_update i (committed db (change_run t j now oid f db)) = Inr row"
proof (cases "change_run t j now oid f db")
  case (Inr p)
  obtain db' rec where p: "p = (db', rec)" by (cases p)
  from change_run_effect [OF assms(1,2) Inr [unfolded p]] assms(3)
  have "get_for_update i db' = Inr row" by blast
  then show ?thesis by (simp add: committed_def Inr p)
qed (simp add: committed_def assms)

end

lemma create_run_get:
  assumes "db_ok db" and "get_for_update i db = Inr row"
  shows "get_for_update i (committed db (create_run t a q m s k d enq j oid now db)) = Inr row"
proof (rule committed_cases)
  fix db' x assume run: "create_run t a q m s k d enq j oid now db = Inr (db', x)"
  have "db_runs db' = db_runs db \<or> (\<exists>new. db_runs db' = db_runs db @ [new])"
    using run
    by (fastforce simp: create_run_def Let_def res_bind_Inr_iff insert_run_def insert_outbox_def
        split: option.splits if_splits)
  moreover have "row \<in> set (db_runs db) \<and> rr_id row = i"
    using assms unfolding get_for_update_mem [OF assms(1)] by simp
  moreover have "db_ok db'" by (rule create_run_ok [OF assms(1) run])
  ultimately show "get_for_update i db' = Inr row"
    by (auto simp: get_for_update_mem)
qed (rule assms(2))

lemma delete_run_get:
  assumes "db_ok db" and "get_for_update i db = Inr row" and "delete_run t j db = Inr (db', u)"
  shows "if i = j then terminal (rr_status row) else get_for_update i db' = Inr row"
proof -
  obtain r where r: "run_select t j db = Some r" "rr_status r \<in> {Completed, Failed, Cancelled}"
    and runs: "db_runs db' = filter (\<lambda>r. \<not> (rr_tenant r = t \<and> rr_id r = j)) (db_runs db)"
    using assms(3) by (auto simp: delete_run_def Let_def split: option.splits if_splits)
  have row: "row \<in> set (db_runs db)" "rr_id row = i"
    using assms(2) unfolding get_for_update_mem [OF assms(1)] by simp_all
  show ?thesis
  proof (cases "i = j")
    case True
    have "r = row"
      using run_select_Some [OF r(1)] row True assms(1) runs_ok_unique by (auto simp: db_ok_def)
    with r(2) True show ?thesis by (simp add: terminal_set)
  next
    case False
    have "db_ok db'" by (rule delete_run_ok(1) [OF assms(1,3)])
    with False row show ?thesis by (simp add: get_for_update_mem runs)
  qed
qed

lemma claim_get:
  assumes "db_ok db" and "get_for_update i db = Inr row"
  shows "\<exists>row'. get_for_update i (committed db (claim_for_execution j rcv db)) = Inr row'
    \<and> evolves row row' \<and> (terminal (rr_status row) \<longrightarrow> row' = row)"
proof (rule committed_cases)
  fix db' x assume run: "claim_for_execution j rcv db = Inr (db', x)"
  then obtain r where r: "get_for_update j db = Inr r"
    by (auto simp: claim_for_execution_def res_bind_Inr_iff)
  show "\<exists>row'. get_for_update i db' = Inr row' \<and> evolves row row'
      \<and> (terminal (rr_status row) \<longrightarrow> row' = row)"
  proof (cases "db' = db")
    case False
    then have nt: "\<not> terminal (rr_status r)"
      using run r by (auto simp: claim_for_execution_def terminal_set split: if_splits)
    let ?r1 = "bump (r\<lparr>rr_status := Running\<rparr>)" and ?r2 = "bump (bump (r\<lparr>rr_status := Running\<rparr>)\<lparr>rr_status := Failed\<rparr>)"
    obtain db1 where db1: "flush_run ?r1 db = Inr db1"
      and more: "db' = db1 \<or> flush_run ?r2 db1 = Inr db'"
      using run r False
      by (auto simp: claim_for_execution_def Let_def res_bind_Inr_iff split: if_splits)
    note g1 = get_flush [OF assms(1) r _ db1]
    have ok1: "db_ok db1"
      using flush_same_run(1) [OF assms(1) _ db1] r unfolding get_for_update_mem [OF assms(1)] by simp
    have g2: "get_for_update i db' = Inr (if i = j then ?r2 else row)" if "flush_run ?r2 db1 = Inr db'"
      using get_flush [OF ok1 g1 [OF r] g1 [OF assms(2)], of Failed db'] that by simp
    have "r = row" if "i = j" using r assms(2) that by simp
    moreover have "evolves r ?r1" "evolves r ?r2"
      using evolves_status evolves_trans by blast+
    ultimately show ?thesis
      using more g1 [OF assms(2)] g2 nt by (cases "i = j") auto
  qed (use assms in simp)
qed (use assms in simp)

lemma fail_run_get:
  assumes "db_ok db" and "get_for_update i db = Inr row"
  shows "\<exists>row'. get_for_update i (committed db (fail_run ft diag j why d now db)) = Inr row'
    \<and> evolves row row' \<and> (terminal (rr_status row) \<longrightarrow> row' = row)"
proof (rule committed_cases)
  fix db' x assume run: "fail_run ft diag j why d now db = Inr (db', x)"
  then obtain r where r: "get_for_update j db = Inr r"
    by (auto simp: fail_run_def split: sum.splits)
  show "\<exists>row'. get_for_update i db' = Inr row' \<and> evolves row row'
      \<and> (terminal (rr_status row) \<longrightarrow> row' = row)"
  proof (cases "terminal (rr_status r)")
    case True
    with run r have "db' = db" by (simp add: fail_run_def terminal_set)
    with assms show ?thesis by simp
  next
    case False
    with run r obtain ev db1 where 1: "persist_event diag (rr_tenant r) j ev now db = Inr db1"
      and 2: "flush_run (bump (r\<lparr>rr_status := Failed\<rparr>)) db1 = Inr db'"
      by (auto simp: fail_run_def terminal_set Let_def res_bind_Inr_iff split: sum.splits)
    have own: "(rr_tenant r, j) \<in> owners db"
      using r unfolding get_for_update_mem [OF assms(1)] by (auto simp: owners_def run_owner_def)
    note one = persist_event_ok [OF assms(1) own 1]
    have "get_for_update i db' = Inr (if i = j then bump (r\<lparr>rr_status := Failed\<rparr>) else row)"
      using get_flush [of db1 j r i row Failed db'] 2 one r assms(2) get_same_runs by metis
    moreover have "r = row" if "i = j" using r assms(2) that by simp
    ultimately show ?thesis using False evolves_status by (cases "i = j") auto
  qed
qed (use assms in simp)

lemma event_get:
  assumes "db_ok db" and "get_for_update i db = Inr row"
    and "get_for_update j db = Inr r" and "event_transaction diag (rr_tenant r) j s e now db = Inr (db', x)"
  shows "\<exists>row'. get_for_update i db' = Inr row' \<and> evolves row row' \<and> (i \<noteq> j \<longrightarrow> row' = row)
    \<and> (rr_status row \<in> {Cancelled, Paused} \<longrightarrow> row' = row)"
proof (cases "rr_status r \<in> {Cancelled, Paused}")
  case True
  with assms(3,4) have "db' = db" by (auto simp: event_transaction_def split: if_splits)
  with assms(2) show ?thesis by simp
next
  case False
  let ?t = "terminal_of (ev_kind e) s"
  from False assms(3,4) obtain db1 where 1: "persist_event diag (rr_tenant r) j e now db = Inr db1"
    and 2: "db' = db1 \<or> flush_run (bump (r\<lparr>rr_status := ?t\<rparr>)) db1 = Inr db'"
    by (auto simp: event_transaction_def Let_def res_bind_Inr_iff split: if_splits)
  have own: "(rr_tenant r, j) \<in> owners db"
    using assms(3) unfolding get_for_update_mem [OF assms(1)] by (auto simp: owners_def run_owner_def)
  note one = persist_event_ok [OF assms(1) own 1]
  have g1: "get_for_update i db1 = Inr row" "get_for_update j db1 = Inr r"
    using one assms(2,3) get_same_runs by metis+
  have g2: "get_for_update i db' = Inr (if i = j then bump (r\<lparr>rr_status := ?t\<rparr>) else row)"
    if "flush_run (bump (r\<lparr>rr_status := ?t\<rparr>)) db1 = Inr db'"
    using get_flush [OF _ g1(2) g1(1) that] one by simp
  have "r = row" if "i = j" using assms(2,3) that by simp
  then show ?thesis
    using False g1 g2 2 evolves_status by (cases "i = j") auto
qed

section \<open>The effect of any transaction\<close>

text \<open>
  The operations that look at the status before they write. The two others are the unconditional
  status update and the event transaction, which looks only for a cancelled or paused run; a
  re-enqueue is guarded when the status it starts from is not terminal, as in every call.
\<close>

definition guarded :: "store_op \<Rightarrow> bool" where
  "guarded op \<longleftrightarrow> (case op of Op_Update_Status _ _ _ _ \<Rightarrow> False | Op_Event _ _ _ _ \<Rightarrow> False
     | Op_Enqueue _ _ from_status _ _ _ _ \<Rightarrow> \<not> terminal from_status | _ \<Rightarrow> True)"

lemma refusals:
  assumes "terminal (rr_status row)"
  shows "choose_mode_row t i m tok v n row \<noteq> Inr (Write r k)"
    and "approve_agent_row t i tok v row \<noteq> Inr (Write r k)"
    and "revise_agent_row t i tok v fb row \<noteq> Inr (Write r k)"
    and "\<not> terminal s \<Longrightarrow> enqueue_row t i s s' what row \<noteq> Inr (Write r k)"
    and "control_row s row \<noteq> Inr (Write r k)"
    and "begin_approval_row a f row \<noteq> Inr (Write r k)"
    and "resolve_approval_row s a f row \<noteq> Inr (Write r k)"
  using assms
  by (auto simp: row_method_defs temporary_agent_guard_def terminal_set res_bind_Inr_iff
      split: if_splits)

definition run_after :: "uuid \<Rightarrow> run_row \<Rightarrow> bool \<Rightarrow> run_db \<Rightarrow> bool" where
  "run_after i row fixed db \<longleftrightarrow>
     (\<exists>row'. get_for_update i db = Inr row' \<and> evolves row row' \<and> (fixed \<longrightarrow> row' = row))"

context row_method
begin

lemma change_run_after:
  assumes "db_ok db" and "get_for_update i db = Inr row"
    and "fixed \<Longrightarrow> (\<And>row1 key. f row \<noteq> Inr (Write row1 key))"
  shows "run_after i row fixed (committed db (change_run t j now oid f db))"
proof (cases fixed)
  case True
  with change_run_refused [OF assms(1,2)] assms(3) show ?thesis by (simp add: run_after_def)
next
  case False
  with change_run_evolves [OF assms(1,2)] show ?thesis by (simp add: run_after_def)
qed

end

lemma exec_op_run:
  assumes "db_ok db" and "get_for_update i db = Inr row" and "\<nexists>t. op = Op_Delete t i"
  shows "run_after i row (terminal (rr_status row) \<and> guarded op) (exec_op ft diag op db)"
proof (cases op)
  case (Op_Create t a q m s k d enq j oid now)
  then show ?thesis using create_run_get [OF assms(1,2)] by (simp add: run_after_def)
next
  case (Op_Delete t j)
  have "get_for_update i (committed db (delete_run t j db)) = Inr row"
    by (rule committed_cases) (use delete_run_get [OF assms(1,2)] assms(2,3) Op_Delete in \<open>force split: if_splits\<close>)+
  then show ?thesis by (simp add: run_after_def Op_Delete)
next
  case (Op_Update_Status t j s m)
  show ?thesis unfolding Op_Update_Status exec_op.simps update_status_def
    by (rule status.change_run_after [OF assms(1,2)]) (simp add: guarded_def)
next
  case (Op_Choose_Mode t j m tok v n oid now)
  show ?thesis unfolding Op_Choose_Mode exec_op.simps choose_mode_and_enqueue_def
    by (rule choose_mode.change_run_after [OF assms(1,2)]) (simp add: refusals)
next
  case (Op_Approve_Agent t j tok v oid now)
  show ?thesis unfolding Op_Approve_Agent exec_op.simps approve_temporary_agent_and_enqueue_def
    by (rule approve_agent.change_run_after [OF assms(1,2)]) (simp add: refusals)
next
  case (Op_Revise_Agent t j tok v fb oid now)
  show ?thesis unfolding Op_Revise_Agent exec_op.simps revise_temporary_agent_and_enqueue_def
    by (rule revise_agent.change_run_after [OF assms(1,2)]) (simp add: refusals)
next
  case (Op_Enqueue t j s s' what oid now)
  show ?thesis unfolding Op_Enqueue exec_op.simps enqueue_existing_run_def
    by (rule enqueue.change_run_after [OF assms(1,2)]) (simp add: refusals guarded_def)
next
  case (Op_Control t j s)
  show ?thesis unfolding Op_Control exec_op.simps update_control_status_def
    by (rule control.change_run_after [OF assms(1,2)]) (simp add: refusals)
next
  case (Op_Begin_Approval t j a f)
  show ?thesis unfolding Op_Begin_Approval exec_op.simps begin_capability_approval_def
    by (rule begin_approval.change_run_after [OF assms(1,2)]) (simp add: refusals)
next
  case (Op_Resolve_Approval t j s a f)
  have "run_after i row (terminal (rr_status row) \<and> guarded op)
      (committed db (change_run t j 0 0 (resolve_approval_row s a f) db))"
    by (rule resolve_approval.change_run_after [OF assms(1,2)]) (simp add: refusals)
  moreover have "run_after i row b db" for b using assms(2) by (simp add: run_after_def)
  ultimately show ?thesis
    unfolding Op_Resolve_Approval exec_op.simps resolve_capability_approval_def
    by (simp add: committed_def)
next
  case (Op_Claim j rcv)
  then show ?thesis using claim_get [OF assms(1,2)] by (auto simp: run_after_def)
next
  case (Op_Fail j why d now)
  then show ?thesis using fail_run_get [OF assms(1,2)] by (force simp: run_after_def)
next
  case (Op_Deliver f l oid)
  have "get_for_update i (committed db (deliver_outbox f l oid db)) = Inr row"
    by (rule committed_cases) (use deliver_ok(2) [OF assms(1)] assms(2) get_same_runs in metis)+
  then show ?thesis by (simp add: Op_Deliver run_after_def)
next
  case (Op_Event j s e now)
  show ?thesis
  proof (cases "get_for_update j db")
    case (Inl err)
    then show ?thesis using assms(2) by (simp add: Op_Event run_after_def guarded_def)
  next
    case (Inr r)
    have "run_after i row False (committed db (event_transaction diag (rr_tenant r) j s e now db))"
      by (rule committed_cases)
        (use event_get [OF assms(1,2) Inr] assms(2) in \<open>force simp: run_after_def\<close>)+
    then show ?thesis by (simp add: Op_Event Inr guarded_def)
  qed
next
  case (Op_Observe j ds now)
  show ?thesis
  proof (cases "get_for_update j db")
    case (Inl err)
    then show ?thesis using assms(2) by (simp add: Op_Observe run_after_def)
  next
    case (Inr r)
    have own: "(rr_tenant r, j) \<in> owners db"
      using Inr unfolding get_for_update_mem [OF assms(1)] by (auto simp: owners_def run_owner_def)
    have "get_for_update i (committed db (observer_transaction ft diag (rr_tenant r) j ds now db)) = Inr row"
      by (rule committed_cases)
        (use observer_transaction_ok(2) [OF _ assms(1) own] assms(2) get_same_runs in metis)+
    then show ?thesis by (simp add: Op_Observe Inr run_after_def)
  qed
qed

section \<open>Guarantees over every history\<close>

text \<open>
  C3. Every database the transactions can produce is sound: run identifiers and idempotency keys
  are unique per tenant, no run is stored in the automatic mode, versions are positive and within
  the column, every key of every table holds one row, and each event, step, artifact, checkpoint,
  approval, usage and outbox row belongs to an existing run of its own tenant.
\<close>

theorem reachable_store_is_sound:
  assumes "reachable ft diag empty_db db"
  shows "db_ok db"
  using assms by (rule reachable_db_ok) (rule db_ok_empty)

definition sample_create :: store_op where
  "sample_create = Op_Create 7 8 ''hi'' None Waiting_User_Mode (Some ''k'')
     (Some [(''decision_token'', JStr ''tok'')]) False 1 2 0"

theorem reachable_store_is_sound_witness:
  "db_ok (exec_op (\<lambda>_. []) (\<lambda>_. []) sample_create empty_db)"
  by (rule reachable_store_is_sound [OF reach_step [OF reach_refl step]])

text \<open>
  C4. One transaction changes a run in one of two ways. Either the run survives as the same run,
  unchanged or with a strictly larger version, and unchanged when it was terminal and the
  operation is a guarded one; or the operation deleted it, which it can only do to a terminal run.
\<close>

theorem one_transaction_on_one_run:
  assumes "db_ok db" and "get_for_update i db = Inr row"
  shows "case get_for_update i (exec_op ft diag op db) of
      Inl _ \<Rightarrow> (\<exists>t. op = Op_Delete t i) \<and> terminal (rr_status row)
    | Inr row' \<Rightarrow> same_identity row row' \<and> (row' = row \<or> rr_version row < rr_version row')
        \<and> (terminal (rr_status row) \<and> guarded op \<longrightarrow> row' = row)"
proof (cases "\<exists>t. op = Op_Delete t i")
  case False
  from exec_op_run [OF assms False, of ft diag] show ?thesis
    by (auto simp: run_after_def evolves_def)
next
  case True
  then obtain t where op: "op = Op_Delete t i" by blast
  show ?thesis
  proof (cases "delete_run t i db")
    case (Inl e)
    with assms show ?thesis by (simp add: op committed_def same_identity_def)
  next
    case (Inr p)
    obtain db' u where p: "p = (db', u)" by (cases p)
    have run: "delete_run t i db = Inr (db', u)" using Inr p by simp
    have "terminal (rr_status row)" using delete_run_get [OF assms run] by simp
    moreover have "i \<notin> rr_id ` set (db_runs db')"
    proof -
      obtain r where r: "run_select t i db = Some r"
        and runs: "db_runs db' = filter (\<lambda>r. \<not> (rr_tenant r = t \<and> rr_id r = i)) (db_runs db)"
        using run by (auto simp: delete_run_def Let_def split: option.splits if_splits)
      note r' = run_select_Some [OF r]
      have "runs_ok (db_runs db)" using assms(1) by (simp add: db_ok_def)
      then have "x = r" if "x \<in> set (db_runs db)" "rr_id x = i" for x
        using runs_ok_unique r' that by metis
      with r' show ?thesis by (auto simp: runs)
    qed
    then obtain e where "get_for_update i db' = Inl e" unfolding get_for_update_Inl [symmetric] ..
    ultimately show ?thesis by (simp add: op committed_def run)
  qed
qed

definition sample_db :: run_db where
  "sample_db = exec_op (\<lambda>_. []) (\<lambda>_. []) sample_create empty_db"

definition sample_row :: run_row where
  "sample_row = \<lparr>rr_id = 1, rr_tenant = 7, rr_actor = Some 8, rr_request = ''hi'', rr_mode = None,
     rr_status = Waiting_User_Mode, rr_key = Some ''k'',
     rr_decision = Some [(''decision_token'', JStr ''tok'')], rr_version = 1, rr_created = 0\<rparr>"

lemma sample_runs: "db_runs sample_db = [sample_row]"
  by (simp add: sample_db_def sample_create_def sample_row_def create_run_def insert_run_def
      empty_db_def run_columns_ok_def optional_ok_def committed_def Let_def)

lemma sample_outbox: "db_outbox sample_db = []"
  by (simp add: sample_db_def sample_create_def create_run_def insert_run_def
      empty_db_def run_columns_ok_def optional_ok_def committed_def Let_def)

lemma sample_get: "get_for_update 1 sample_db = Inr sample_row"
  by (simp add: get_for_update_def sample_runs) (simp add: sample_row_def)

lemma sample_ok: "db_ok sample_db"
  unfolding sample_db_def by (intro exec_op_db_ok db_ok_empty)

theorem one_transaction_on_one_run_witness:
  "\<exists>row'. get_for_update 1 (exec_op (\<lambda>_. []) (\<lambda>_. []) (Op_Control 7 1 Cancelled) sample_db) = Inr row'
     \<and> same_identity sample_row row'"
  using one_transaction_on_one_run [OF sample_ok sample_get, where op = "Op_Control 7 1 Cancelled"
    and ft = "\<lambda>_. []" and diag = "\<lambda>_. []"]
  by (simp split: sum.splits)

section \<open>Tenants\<close>

definition op_tenant :: "store_op \<Rightarrow> uuid option" where
  "op_tenant op = (case op of
      Op_Create t _ _ _ _ _ _ _ _ _ _ \<Rightarrow> Some t | Op_Delete t _ \<Rightarrow> Some t
    | Op_Update_Status t _ _ _ \<Rightarrow> Some t | Op_Choose_Mode t _ _ _ _ _ _ _ \<Rightarrow> Some t
    | Op_Approve_Agent t _ _ _ _ _ \<Rightarrow> Some t | Op_Revise_Agent t _ _ _ _ _ _ \<Rightarrow> Some t
    | Op_Enqueue t _ _ _ _ _ _ \<Rightarrow> Some t | Op_Control t _ _ \<Rightarrow> Some t
    | Op_Begin_Approval t _ _ _ \<Rightarrow> Some t | Op_Resolve_Approval t _ _ _ _ \<Rightarrow> Some t
    | _ \<Rightarrow> None)"

context row_method
begin

lemma change_run_tenant:
  assumes "db_ok db" and "get_for_update i db = Inr row" and "rr_tenant row \<noteq> t"
  shows "get_for_update i (committed db (change_run t j now oid f db)) = Inr row"
proof (cases "change_run t j now oid f db")
  case (Inr p)
  obtain db' rec where p: "p = (db', rec)" by (cases p)
  from change_run_effect [OF assms(1,2) Inr [unfolded p]] assms(3) show ?thesis
    by (auto simp: committed_def Inr p)
qed (simp add: committed_def assms)

end

lemma delete_run_tenant:
  assumes "db_ok db" and "get_for_update i db = Inr row" and "rr_tenant row \<noteq> t"
  shows "get_for_update i (committed db (delete_run t j db)) = Inr row"
proof (cases "i = j")
  case True
  have row: "row \<in> set (db_runs db) \<and> rr_id row = i"
    using assms(2) unfolding get_for_update_mem [OF assms(1)] .
  have "run_select t j db = None"
  proof (cases "run_select t j db")
    case (Some r)
    note r = run_select_Some [OF Some]
    have "r = row" using runs_ok_unique [of "db_runs db" r row] r row True assms(1)
      by (simp add: db_ok_def)
    with r assms(3) show ?thesis by simp
  qed
  with assms show ?thesis by (simp add: delete_run_def committed_def)
next
  case False
  show ?thesis
    by (rule committed_cases) (use delete_run_get [OF assms(1,2)] False assms(2) in \<open>force split: if_splits\<close>)+
qed

lemma resolve_tenant:
  assumes "db_ok db" and "get_for_update i db = Inr row" and "rr_tenant row \<noteq> t"
  shows "get_for_update i (committed db (resolve_capability_approval t j s a f db)) = Inr row"
  using resolve_approval.change_run_tenant [OF assms] assms(2)
  by (simp add: resolve_capability_approval_def committed_def)

text \<open>
  C5. A method called for one tenant never changes a run of another tenant, even when it is
  given that run's identifier: the row is the same before and after.
\<close>

theorem tenants_are_isolated:
  assumes "db_ok db" and "get_for_update i db = Inr row"
    and "op_tenant op = Some t" and "rr_tenant row \<noteq> t"
  shows "get_for_update i (exec_op ft diag op db) = Inr row"
  using assms(3,4) create_run_get [OF assms(1,2)] delete_run_tenant [OF assms(1,2)]
    status.change_run_tenant [OF assms(1,2)] choose_mode.change_run_tenant [OF assms(1,2)]
    approve_agent.change_run_tenant [OF assms(1,2)] revise_agent.change_run_tenant [OF assms(1,2)]
    enqueue.change_run_tenant [OF assms(1,2)] control.change_run_tenant [OF assms(1,2)]
    begin_approval.change_run_tenant [OF assms(1,2)] resolve_tenant [OF assms(1,2)]
  by (cases op) (simp_all add: op_tenant_def update_status_def choose_mode_and_enqueue_def
      approve_temporary_agent_and_enqueue_def revise_temporary_agent_and_enqueue_def
      enqueue_existing_run_def update_control_status_def begin_capability_approval_def)

theorem tenants_are_isolated_witness:
  "get_for_update 1 (exec_op (\<lambda>_. []) (\<lambda>_. []) (Op_Control 6 1 Cancelled) sample_db) = Inr sample_row"
  by (rule tenants_are_isolated [OF sample_ok sample_get, where t = 6])
    (simp_all add: op_tenant_def sample_row_def)

section \<open>Mode choices\<close>

text \<open>A history in which the run is not deleted only moves its version up.\<close>

lemma history_run:
  assumes "db_ok db" and "get_for_update i db = Inr row" and "\<forall>op \<in> set ops. \<nexists>t. op = Op_Delete t i"
  shows "db_ok (fold (exec_op ft diag) ops db)
    \<and> (\<exists>row'. get_for_update i (fold (exec_op ft diag) ops db) = Inr row' \<and> evolves row row')"
  using assms
proof (induction ops arbitrary: db row)
  case (Cons op ops)
  from Cons.prems(3) have op: "\<nexists>t. op = Op_Delete t i" by simp
  from exec_op_run [OF Cons.prems(1,2) op, of ft diag] obtain r where
    r: "get_for_update i (exec_op ft diag op db) = Inr r" "evolves row r"
    by (auto simp: run_after_def)
  from Cons.IH [OF exec_op_db_ok [OF Cons.prems(1)] r(1)] Cons.prems(3) r(2) show ?case
    by (auto intro: evolves_trans)
qed auto

lemma choose_mode_result:
  assumes "db_ok db" and "choose_mode_and_enqueue t i m tok v n oid now db = Inr (db1, r)"
  obtains row where "get_for_update i db1 = Inr row" "r = to_record row" "rr_version row = v + 1"
    "rr_status row = Queued" "rr_mode row = Some m" "db_ok db1"
    "db_outbox db1 = db_outbox db @ [new_outbox oid t i (run_key t i ''choose-mode'' v) now]"
proof -
  note run = assms(2) [unfolded choose_mode_and_enqueue_def]
  have ok: "db_ok db1" using choose_mode.change_run_ok [OF assms(1) run] by simp
  have row: "\<exists>row. get_for_update i db1 = Inr row \<and> r = to_record row \<and> rr_version row = v + 1
      \<and> rr_status row = Queued \<and> rr_mode row = Some m"
  proof (rule choose_mode.change_run_row [OF assms(1) run])
    fix row row'
    assume *: "run_select t i db = Some row" "run_select t i db1 = Some row'" "r = to_record row'"
      "choose_mode_row t i m tok v n row = Inr Keep \<and> row' = row
       \<or> (\<exists>row1 key. choose_mode_row t i m tok v n row = Inr (Write row1 key) \<and> row' = bump row1)"
    have "get_for_update i db1 = Inr row'"
      using run_select_Some [OF *(2)] by (simp add: get_for_update_mem [OF ok])
    with *(3,4) show ?thesis
      by (auto simp: choose_mode_row_def bump_def Let_def split: if_splits)
  qed
  have "db_outbox db1 = db_outbox db @ [new_outbox oid t i (run_key t i ''choose-mode'' v) now]"
    using run
  proof (cases rule: choose_mode.change_run_cases)
    case (Write row row1 key dbm)
    then have "key = Some (run_key t i ''choose-mode'' v)"
      by (auto simp: choose_mode_row_def Let_def split: if_splits)
    with Write show ?thesis
      by (auto simp: insert_outbox_def flush_run_def split: if_splits)
  qed (auto simp: choose_mode_row_def Let_def split: if_splits)
  with row ok that show ?thesis by blast
qed

text \<open>
  C6. A successful mode choice queues the run in the chosen mode at the next version and adds
  exactly one outbox entry for it. After that, whatever happens to the store short of deleting the
  run, no choice for the same version can succeed again, with any mode and any token.
\<close>

theorem mode_is_chosen_once:
  assumes "db_ok db" and "choose_mode_and_enqueue t i m tok v n oid now db = Inr (db1, r)"
    and "\<forall>op \<in> set ops. \<nexists>t'. op = Op_Delete t' i"
  shows "rc_status r = Queued \<and> rc_mode r = Some m \<and> rc_version r = v + 1
    \<and> db_outbox db1 = db_outbox db @ [new_outbox oid t i (run_key t i ''choose-mode'' v) now]
    \<and> (\<exists>e. choose_mode_and_enqueue t' i m' tok' v n' oid' now' (fold (exec_op ft diag) ops db1) = Inl e)"
proof -
  let ?db2 = "fold (exec_op ft diag) ops db1"
  from choose_mode_result [OF assms(1,2)] obtain row where
    row: "get_for_update i db1 = Inr row" "r = to_record row" "rr_version row = v + 1"
      "rr_status row = Queued" "rr_mode row = Some m" "db_ok db1"
      "db_outbox db1 = db_outbox db @ [new_outbox oid t i (run_key t i ''choose-mode'' v) now]" .
  from history_run [OF row(6,1) assms(3), of ft diag] obtain row2 where
    row2: "db_ok ?db2" "get_for_update i ?db2 = Inr row2" "evolves row row2" by blast
  then have later: "rr_version row2 \<noteq> v" using row(3) by (auto simp: evolves_def)
  have "\<exists>e. choose_mode_and_enqueue t' i m' tok' v n' oid' now' ?db2 = Inl e"
  proof (cases "choose_mode_and_enqueue t' i m' tok' v n' oid' now' ?db2")
    case (Inr p)
    obtain db3 r3 where "p = (db3, r3)" by (cases p)
    with Inr have "change_run t' i now' oid' (choose_mode_row t' i m' tok' v n') ?db2 = Inr (db3, r3)"
      by (simp add: choose_mode_and_enqueue_def)
    then show ?thesis
    proof (cases rule: choose_mode.change_run_cases)
      case (Keep x)
      then show ?thesis by (auto simp: choose_mode_row_def Let_def split: if_splits)
    next
      case (Write x row1 key dbm)
      have "get_for_update i ?db2 = Inr x"
        using run_select_Some [OF Write(1)] by (simp add: get_for_update_mem [OF row2(1)])
      with row2(2) later Write(2) show ?thesis
        by (auto simp: choose_mode_row_def Let_def split: if_splits)
    qed
  qed simp
  with row show ?thesis by (simp add: to_record_def)
qed

lemma sample_choice:
  "\<exists>db1 r. choose_mode_and_enqueue 7 1 Direct ''tok'' 1 None 5 0 sample_db = Inr (db1, r)"
  by (simp add: choose_mode_and_enqueue_def change_run_def run_select_def sample_runs sample_outbox
      sample_row_def choose_mode_row_def decision_of_def json_get_def flush_run_def
      run_columns_ok_def optional_ok_def bump_def insert_outbox_def new_outbox_def run_key_def
      replace_run_def Let_def int_text_def nat_text.simps)

theorem mode_is_chosen_once_witness:
  "\<exists>db1 r e. choose_mode_and_enqueue 7 1 Direct ''tok'' 1 None 5 0 sample_db = Inr (db1, r)
     \<and> choose_mode_and_enqueue 7 1 Hybrid ''tok'' 1 None 6 0 db1 = Inl e"
proof -
  from sample_choice obtain db1 r where
    c: "choose_mode_and_enqueue 7 1 Direct ''tok'' 1 None 5 0 sample_db = Inr (db1, r)" by blast
  from mode_is_chosen_once [OF sample_ok c, where ops = "[]"] show ?thesis
    using c by fastforce
qed

section \<open>Claims\<close>

lemma flush_refl_get:
  assumes "db_ok db" and "get_for_update i db = Inr row"
    and "flush_run (bump (row\<lparr>rr_status := s\<rparr>)) db = Inr db'"
  shows "get_for_update i db' = Inr (bump (row\<lparr>rr_status := s\<rparr>))"
  using get_flush [OF assms(1,2,2,3)] by simp

text \<open>
  A worker that claims a run finds it queued or retrying (or, in recovery, running), marks it
  running at the next version and gets its last checkpoint; until its status changes again every
  other worker that asks without recovery is told that the run is active.
\<close>

theorem claim_is_exclusive:
  assumes "db_ok db" and "claim_for_execution i rcv db = Inr (db1, Claimed row c)"
  shows "rr_status row = Running \<and> rr_mode row \<noteq> None \<and> get_for_update i db1 = Inr row
    \<and> c = latest_checkpoint (rr_tenant row) i db
    \<and> (\<exists>old. get_for_update i db = Inr old \<and> rr_version row = rr_version old + 1
         \<and> rr_status old \<in> {Queued, Retrying} \<union> (if rcv then {Running} else {}))
    \<and> claim_for_execution i False db1 = Inl Run_Already_Active"
proof -
  from assms(2) obtain old where old: "get_for_update i db = Inr old"
    by (auto simp: claim_for_execution_def res_bind_Inr_iff)
  let ?new = "bump (old\<lparr>rr_status := Running\<rparr>)"
  from assms(2) old have st: "rr_status old \<in> {Queued, Retrying, Running}" "rr_mode old \<noteq> None"
      "\<not> (rr_status old = Running \<and> \<not> rcv)"
    and row: "row = ?new" "c = latest_checkpoint (rr_tenant old) i db"
    and fl: "flush_run ?new db = Inr db1"
    by (auto simp: claim_for_execution_def Let_def res_bind_Inr_iff split: if_splits)
  have g: "get_for_update i db1 = Inr ?new" by (rule flush_refl_get [OF assms(1) old fl])
  then have "claim_for_execution i False db1 = Inl Run_Already_Active"
    using st(2) by (simp add: claim_for_execution_def bump_def)
  with old st row g show ?thesis by (auto simp: bump_def)
qed

definition queued_db :: run_db where
  "queued_db = sample_db\<lparr>db_runs := [sample_row\<lparr>rr_mode := Some Direct, rr_status := Queued\<rparr>]\<rparr>"

lemma queued_ok: "db_ok queued_db"
proof -
  have "flush_run (sample_row\<lparr>rr_mode := Some Direct, rr_status := Queued\<rparr>) sample_db = Inr queued_db"
    by (simp add: flush_run_def queued_db_def sample_runs replace_run_def sample_row_def
        run_columns_ok_def optional_ok_def)
  then show ?thesis
    by (rule flush_run_ok(1) [OF sample_ok, where r = sample_row, rotated 3])
      (simp_all add: sample_runs same_identity_def sample_row_def)
qed

lemma sample_claim:
  "\<exists>db1 row. claim_for_execution 1 False queued_db = Inr (db1, Claimed row None)"
  by (simp add: claim_for_execution_def get_for_update_def queued_db_def sample_row_def
      flush_run_def bump_def run_columns_ok_def optional_ok_def latest_checkpoint_def Let_def
      sample_db_def sample_create_def create_run_def insert_run_def committed_def empty_db_def)

theorem claim_is_exclusive_witness:
  "\<exists>db1 row. claim_for_execution 1 False queued_db = Inr (db1, Claimed row None)
     \<and> claim_for_execution 1 False db1 = Inl Run_Already_Active"
  using sample_claim claim_is_exclusive [OF queued_ok] by blast

text \<open>
  Recovery resumes a running run only when no event was stored after its last checkpoint;
  otherwise events would be repeated, so it settles the run as failed instead of executing it.
\<close>

theorem recovery_fails_unsaved_runs:
  assumes "db_ok db" and "get_for_update i db = Inr row" and "rr_status row = Running"
    and "rr_mode row \<noteq> None" and "rr_version row + 2 < 2 ^ 31"
  shows "let unsaved = (\<exists>n \<in> set (run_sequences i db).
             max_or_zero (map kr_seq (filter (\<lambda>x. kr_run x = i) (db_checkpoints db))) < n) in
    \<exists>db1 out. claim_for_execution i True db = Inr (db1, out)
      \<and> (case out of Settled r \<Rightarrow> unsaved \<and> rc_status r = Failed \<and> rc_version r = rr_version row + 2
           | Claimed r c \<Rightarrow> \<not> unsaved \<and> rr_status r = Running)"
proof -
  let ?last = "max_or_zero (map kr_seq (filter (\<lambda>x. kr_run x = i) (db_checkpoints db)))"
  let ?r1 = "bump (row\<lparr>rr_status := Running\<rparr>)" and ?r2 = "bump (bump (row\<lparr>rr_status := Running\<rparr>)\<lparr>rr_status := Failed\<rparr>)"
  have "row \<in> set (db_runs db)" using assms(2) unfolding get_for_update_mem [OF assms(1)] by simp
  then have cols: "run_columns_ok row" "rr_mode row \<noteq> Some Auto"
    using assms(1) by (auto simp: db_ok_def runs_ok_def run_row_ok_def)
  have "run_columns_ok ?r1" "run_columns_ok ?r2"
    using cols assms(5) by (simp_all add: run_columns_ok_def bump_def)
  then obtain db1 db2 where fl: "flush_run ?r1 db = Inr db1" "flush_run ?r2 db1 = Inr db2"
    using cols by (simp add: flush_run_def bump_def)
  have unsaved: "(\<exists>n \<in> set (run_sequences i db). ?last < n) \<longleftrightarrow>
      run_sequences i db \<noteq> [] \<and> ?last < Max (set (run_sequences i db))"
    by (cases "run_sequences i db = []") (auto simp: Max_gr_iff)
  show ?thesis
    unfolding Let_def unsaved
    using assms(2-4) fl
    by (auto simp: claim_for_execution_def Let_def to_record_def bump_def)
qed

definition running_db :: run_db where
  "running_db = queued_db\<lparr>db_runs := [sample_row\<lparr>rr_mode := Some Direct, rr_status := Running\<rparr>]\<rparr>"

lemma running_get:
  "get_for_update 1 running_db = Inr (sample_row\<lparr>rr_mode := Some Direct, rr_status := Running\<rparr>)"
  by (simp add: get_for_update_def running_db_def sample_row_def)

lemma running_ok: "db_ok running_db"
proof -
  have "flush_run (sample_row\<lparr>rr_mode := Some Direct, rr_status := Running\<rparr>) queued_db = Inr running_db"
    by (simp add: flush_run_def running_db_def queued_db_def replace_run_def sample_row_def
        run_columns_ok_def optional_ok_def)
  then show ?thesis
    by (rule flush_run_ok(1) [OF queued_ok,
          where r = "sample_row\<lparr>rr_mode := Some Direct, rr_status := Queued\<rparr>", rotated 3])
      (simp_all add: queued_db_def same_identity_def sample_row_def)
qed

theorem recovery_fails_unsaved_runs_witness:
  "\<exists>db1 out. claim_for_execution 1 True running_db = Inr (db1, out)"
  using recovery_fails_unsaved_runs [OF running_ok running_get]
  by (auto simp: Let_def sample_row_def)

section \<open>Idempotent creation\<close>

lemma find_last: "find P xs = None \<Longrightarrow> P x \<Longrightarrow> find P (xs @ [x]) = Some x"
  by (induction xs) (auto split: if_splits)

lemma created_found:
  assumes "create_run t a q m s (Some k) d enq i oid now db = Inr (db1, r)"
  shows "\<exists>row. find (\<lambda>x. rr_tenant x = t \<and> rr_key x = Some k) (db_runs db1) = Some row \<and> r = to_record row"
proof (cases "find (\<lambda>x. rr_tenant x = t \<and> rr_key x = Some k) (db_runs db)")
  case (Some row)
  with assms show ?thesis by (auto simp: create_run_def Let_def)
next
  case None
  define row where "row = \<lparr>rr_id = i, rr_tenant = t, rr_actor = Some a, rr_request = q,
    rr_mode = m, rr_status = s, rr_key = Some k, rr_decision = d, rr_version = 1, rr_created = now\<rparr>"
  from assms None have "db_runs db1 = db_runs db @ [row] \<and> r = to_record row"
    by (auto simp: create_run_def Let_def res_bind_Inr_iff insert_run_def insert_outbox_def
        row_def split: if_splits)
  moreover have "find (\<lambda>x. rr_tenant x = t \<and> rr_key x = Some k) (db_runs db @ [row]) = Some row"
    by (rule find_last [OF None]) (simp add: row_def)
  ultimately show ?thesis by simp
qed

lemma create_again:
  assumes "create_run t a q m s (Some k) d enq i oid now db = Inr (db1, r)"
  shows "create_run t a' q' m' s' (Some k) d' enq' i' oid' now' db1 = Inr (db1, r)"
  using created_found [OF assms] by (auto simp: create_run_def Let_def)

text \<open>
  Creating a run under an idempotency key is idempotent: whatever the second request says,
  under the same tenant and key it gets the record of the first and changes nothing, so a retried
  request neither starts a second run nor a second execution.
\<close>

theorem creation_is_idempotent:
  assumes "create_run t a q m s (Some k) d enq i oid now db = Inr (db1, r)"
  shows "create_run t a' q' m' s' (Some k) d' enq' i' oid' now' db1 = Inr (db1, r)"
  by (rule create_again [OF assms])

lemma sample_created: "\<exists>r. create_run 7 8 ''hi'' None Waiting_User_Mode (Some ''k'')
    (Some [(''decision_token'', JStr ''tok'')]) False 1 2 0 empty_db = Inr (sample_db, r)"
  by (simp add: sample_db_def sample_create_def committed_def create_run_def insert_run_def
      empty_db_def run_columns_ok_def optional_ok_def Let_def)

theorem creation_is_idempotent_witness:
  "\<exists>r. create_run 7 9 ''other'' (Some Direct) Queued (Some ''k'') None True 3 4 1 sample_db
     = Inr (sample_db, r)"
proof -
  from sample_created obtain r where "create_run 7 8 ''hi'' None Waiting_User_Mode (Some ''k'')
    (Some [(''decision_token'', JStr ''tok'')]) False 1 2 0 empty_db = Inr (sample_db, r)" ..
  from creation_is_idempotent [OF this] show ?thesis by blast
qed

section \<open>Stored events\<close>

lemma persist_event_table:
  assumes "persist_event diag t i ev now db = Inr db'"
  shows "db_events db' = db_events db @
    (if list_ex (\<lambda>x. er_run x = i \<and> er_seq x = ev_sequence ev) (db_events db) then []
     else let e = event_with_failure_diagnostic diag ev in
       [\<lparr>er_tenant = t, er_run = i, er_seq = ev_sequence ev, er_kind = kind_name (ev_kind ev),
         er_payload = event_payload e\<rparr>])"
  using assms
proof (rule persist_event_stages)
  fix e db1 db2 db3 db4 db5
  assume st: "e = event_with_failure_diagnostic diag ev" "insert_event t i e db = Inr db1"
    "db2 = db1 \<or> (\<exists>s. db2 = persist_step t i s e now db1)"
    "db3 = db2 \<or> (\<exists>a. db3 = persist_artifact t i a now db2)"
    "db4 = db3 \<or> (\<exists>c. persist_checkpoint t i (ev_sequence e) c db3 = Inr db4)"
    "db5 = db4 \<or> (\<exists>a. db5 = persist_approval t i a e db4)"
    "db' = db5 \<or> (\<exists>p c. db' = persist_usage t i (ev_sequence e) p c db5)"
  have same: "ev_sequence e = ev_sequence ev" "ev_kind e = ev_kind ev"
    by (auto simp: st(1) event_with_failure_diagnostic_def split: option.splits)
  have "db_events db' = db_events db1"
    using st(3-) persist_checkpoint_same by auto
  with st(1,2) same show ?thesis
    by (auto simp: insert_event_def Let_def split: if_splits)
qed

lemma next_sequence_greater: "n \<in> set (run_sequences i db) \<Longrightarrow> n < next_event_sequence i db"
proof -
  assume n: "n \<in> set (run_sequences i db)"
  then have "run_sequences i db \<noteq> []" by auto
  moreover have "n \<le> Max (set (run_sequences i db))" using n by (intro Max_ge) simp_all
  ultimately show ?thesis by (simp add: next_event_sequence_def max_or_zero_def)
qed

text \<open>
  The first event a run stores under a sequence number stays: storing an event appends at
  most one row, at its own sequence, and none when that sequence is taken; storing any event
  under the same sequence afterwards leaves the event table as it is. The next sequence number
  offered is larger than every stored one.
\<close>

theorem first_event_wins:
  assumes "persist_event diag t i ev now db = Inr db1"
    and "persist_event diag t' i ev' now' db1 = Inr db2" and "ev_sequence ev' = ev_sequence ev"
  shows "db_events db2 = db_events db1 \<and> ev_sequence ev \<in> set (run_sequences i db1)
    \<and> (\<exists>new. db_events db1 = db_events db @ new \<and> length new \<le> 1
         \<and> (new = [] \<longleftrightarrow> ev_sequence ev \<in> set (run_sequences i db)))
    \<and> (\<forall>n \<in> set (run_sequences i db1). n < next_event_sequence i db1)"
proof -
  note one = persist_event_table [OF assms(1)]
  have taken: "list_ex (\<lambda>x. er_run x = i \<and> er_seq x = ev_sequence ev) (db_events db1)"
    unfolding one by (auto simp: Let_def)
  then have "db_events db2 = db_events db1"
    using persist_event_table [OF assms(2)] assms(3) by simp
  moreover have "ev_sequence ev \<in> set (run_sequences i db1)"
    using taken by (force simp: run_sequences_def list_ex_iff)
  moreover have "list_ex (\<lambda>x. er_run x = i \<and> er_seq x = ev_sequence ev) (db_events db)
      \<longleftrightarrow> ev_sequence ev \<in> set (run_sequences i db)"
    by (force simp: run_sequences_def list_ex_iff)
  ultimately show ?thesis
    using one next_sequence_greater by (auto simp: Let_def)
qed

definition sample_event :: run_event where
  "sample_event = blank_event (Known Runtime_Cancelled) 1 1"

definition sample_event_db :: run_db where
  "sample_event_db = sample_db\<lparr>db_events := [\<lparr>er_tenant = 7, er_run = 1, er_seq = 1,
     er_kind = ''runtime.cancelled'', er_payload = event_payload sample_event\<rparr>]\<rparr>"

lemma sample_event_fields:
  "event_with_failure_diagnostic (\<lambda>_. []) sample_event = sample_event"
  "ev_step sample_event = None" "ev_artifact sample_event = None"
  "ev_checkpoint sample_event = None" "ev_approval sample_event = None"
  "ev_provider sample_event = None" "ev_kind sample_event = Known Runtime_Cancelled"
  "ev_sequence sample_event = 1"
  by (simp_all add: event_with_failure_diagnostic_def sample_event_def blank_event_def)

lemma sample_persist:
  "persist_event (\<lambda>_. []) 7 1 sample_event 0 sample_db = Inr sample_event_db"
  "persist_event (\<lambda>_. []) 7 1 sample_event 3 sample_event_db = Inr sample_event_db"
proof -
  have "db_events sample_db = []"
    by (simp add: sample_db_def sample_create_def create_run_def insert_run_def
        empty_db_def run_columns_ok_def optional_ok_def committed_def Let_def)
  then show "persist_event (\<lambda>_. []) 7 1 sample_event 0 sample_db = Inr sample_event_db"
    by (simp add: persist_event_def sample_event_fields insert_event_def sample_runs
        sample_event_db_def) (simp add: sample_row_def)
  show "persist_event (\<lambda>_. []) 7 1 sample_event 3 sample_event_db = Inr sample_event_db"
    by (simp add: persist_event_def sample_event_fields insert_event_def sample_event_db_def)
qed

theorem first_event_wins_witness:
  "\<exists>db1. persist_event (\<lambda>_. []) 7 1 sample_event 0 sample_db = Inr db1
     \<and> (\<forall>n \<in> set (run_sequences 1 db1). n < next_event_sequence 1 db1)"
  using first_event_wins [OF sample_persist] sample_persist(1) by blast

section \<open>The outbox\<close>

text \<open>The entries up to the first one the queue refuses, and the table with those marked.\<close>

definition accepted :: "(uuid \<Rightarrow> string \<Rightarrow> bool) \<Rightarrow> pending_outbox list \<Rightarrow> pending_outbox list" where
  "accepted enqueue = takeWhile (\<lambda>p. enqueue (po_run p) (po_key p))"

definition marked :: "uuid set \<Rightarrow> outbox_row list \<Rightarrow> outbox_row list" where
  "marked ids = map (\<lambda>x. if or_id x \<in> ids then x\<lparr>or_delivered := True\<rparr> else x)"

lemma marked_ids [simp]: "map or_id (marked ids xs) = map or_id xs"
  by (simp add: marked_def)

lemma marked_marked: "marked ids (marked ids' xs) = marked (ids \<union> ids') xs"
  by (auto simp: marked_def)

lemma marked_empty [simp]: "marked {} xs = xs"
  by (simp add: marked_def)

lemma find_or_id:
  assumes "distinct (map or_id xs)" and "x \<in> set xs"
  shows "find (\<lambda>y. or_id y = or_id x) xs = Some x"
  by (rule find_unique) (use assms in \<open>auto simp: distinct_map dest: inj_onD\<close>)

definition entry_of :: "outbox_row \<Rightarrow> pending_outbox" where
  "entry_of x = \<lparr>po_id = or_id x, po_run = or_run x, po_key = or_key x\<rparr>"

lemma entry_of_sel [simp]:
  "po_id (entry_of x) = or_id x" "po_run (entry_of x) = or_run x" "po_key (entry_of x) = or_key x"
  by (simp_all add: entry_of_def)

lemma publish_entries_result:
  assumes "distinct (map or_id (db_outbox db))" and "distinct (map or_id xs)"
    and "\<forall>x \<in> set xs. x \<in> set (db_outbox db) \<and> \<not> or_delivered x"
  shows "publish_entries enqueue (map entry_of xs) (db, n, sent) =
    (let ys = takeWhile (\<lambda>x. enqueue (or_run x) (or_key x)) xs in
     (length ys = length xs, db\<lparr>db_outbox := marked (or_id ` set ys) (db_outbox db)\<rparr>,
      n + length ys, sent @ map (\<lambda>x. (or_run x, or_key x)) ys))"
  using assms
proof (induction xs arbitrary: db n sent)
  case Nil
  then show ?case by (simp add: Let_def)
next
  case (Cons x xs)
  have find: "find (\<lambda>y. or_id y = or_id x) (db_outbox db) = Some x"
    using Cons.prems by (intro find_or_id) simp_all
  have fresh: "\<not> or_delivered x" using Cons.prems(3) by simp
  show ?case
  proof (cases "enqueue (or_run x) (or_key x)")
    case True
    define db' where "db' = db\<lparr>db_outbox := marked {or_id x} (db_outbox db)\<rparr>"
    have step: "deliver_outbox enqueue False (or_id x) db = Inr (db', True, [(or_run x, or_key x)])"
      using find fresh True by (simp add: deliver_outbox_def db'_def marked_def)
    have "\<forall>y \<in> set xs. y \<in> set (db_outbox db') \<and> \<not> or_delivered y"
    proof
      fix y assume y: "y \<in> set xs"
      with Cons.prems(2,3) have "or_id y \<noteq> or_id x" "y \<in> set (db_outbox db)" "\<not> or_delivered y"
        by (auto simp: image_iff)
      then show "y \<in> set (db_outbox db') \<and> \<not> or_delivered y"
        by (auto simp: db'_def marked_def image_iff)
    qed
    moreover have "distinct (map or_id (db_outbox db'))"
      using Cons.prems(1) by (simp add: db'_def)
    ultimately show ?thesis
      using Cons.IH [of db' "n + 1" "sent @ [(or_run x, or_key x)]"] Cons.prems(2) step True
      by (simp add: Let_def db'_def marked_marked Un_commute)
  next
    case False
    with find fresh show ?thesis by (simp add: deliver_outbox_def Let_def)
  qed
qed

definition pending_rows :: "nat \<Rightarrow> run_db \<Rightarrow> outbox_row list" where
  "pending_rows limit db = take limit (sort_key (\<lambda>x. (or_created x, or_id x))
     (filter (\<lambda>x. \<not> or_delivered x) (db_outbox db)))"

lemma pending_entries_rows: "pending_outbox_entries limit db = map entry_of (pending_rows limit db)"
  by (simp add: pending_outbox_entries_def pending_rows_def entry_of_def [abs_def])

lemma pending_rows_ok:
  assumes "db_ok db"
  shows "distinct (map or_id (db_outbox db))" "distinct (map or_id (pending_rows limit db))"
    "\<forall>x \<in> set (pending_rows limit db). x \<in> set (db_outbox db) \<and> \<not> or_delivered x"
proof -
  show dist: "distinct (map or_id (db_outbox db))"
    using assms by (simp add: db_ok_def rows_ok_def table_ok_def)
  let ?s = "sort_key (\<lambda>x. (or_created x, or_id x)) (filter (\<lambda>x. \<not> or_delivered x) (db_outbox db))"
  have "distinct (map or_id ?s)"
    using dist by (auto simp: distinct_map intro: inj_on_subset)
  then have "distinct (take limit (map or_id ?s))" by (rule distinct_take)
  then show "distinct (map or_id (pending_rows limit db))"
    by (simp add: pending_rows_def take_map)
  show "\<forall>x \<in> set (pending_rows limit db). x \<in> set (db_outbox db) \<and> \<not> or_delivered x"
    by (auto simp: pending_rows_def dest: in_set_takeD)
qed

lemma marked_not_pending:
  assumes "p \<in> set (pending_outbox_entries limit (db\<lparr>db_outbox := marked S (db_outbox db)\<rparr>))"
  shows "po_id p \<notin> S"
proof -
  from assms obtain x where "x \<in> set (marked S (db_outbox db))" "\<not> or_delivered x" "po_id p = or_id x"
    by (auto simp: pending_entries_rows pending_rows_def dest!: in_set_takeD)
  then show ?thesis by (auto simp: marked_def split: if_splits)
qed

text \<open>
  C7. A publication hands over the pending entries in order of creation, each exactly once, up
  to the first the queue refuses; exactly those are marked delivered, nothing else changes, and no
  later publication offers one of them again.
\<close>

theorem outbox_is_handed_over_once:
  assumes "db_ok db"
  shows "let ps = pending_outbox_entries limit db; done' = accepted enqueue ps;
      db' = db\<lparr>db_outbox := marked (po_id ` set done') (db_outbox db)\<rparr> in
    publish_pending enqueue limit db =
      (length done' = length ps, db', length done', map (\<lambda>p. (po_run p, po_key p)) done')
    \<and> distinct (map po_id done')
    \<and> po_id ` set (pending_outbox_entries limit' db') \<inter> po_id ` set done' = {}"
proof -
  let ?xs = "pending_rows limit db"
  let ?ys = "takeWhile (\<lambda>x. enqueue (or_run x) (or_key x)) ?xs"
  have acc: "accepted enqueue (map entry_of ?xs) = map entry_of ?ys"
    by (simp add: accepted_def takeWhile_map comp_def)
  have ids: "po_id ` set (map entry_of ?ys) = or_id ` set ?ys" by (force simp: image_image)
  have dist: "distinct (map or_id ?ys)"
    using pending_rows_ok(2) [OF assms, of limit]
    by (auto simp: distinct_map intro: inj_on_subset dest: set_takeWhileD)
  have "po_id ` set (pending_outbox_entries limit'
      (db\<lparr>db_outbox := marked (or_id ` set ?ys) (db_outbox db)\<rparr>)) \<inter> or_id ` set ?ys = {}"
    using marked_not_pending [where S = "or_id ` set ?ys"] by blast
  then show ?thesis
    using publish_entries_result [OF pending_rows_ok [OF assms], where n = 0 and sent = "[]"] dist
    by (simp add: Let_def acc ids publish_pending_def pending_entries_rows comp_def image_image)
qed

theorem outbox_is_handed_over_once_witness:
  "\<exists>db'. publish_pending (\<lambda>_ _. True) 5 sample_db = (True, db', 0, [])"
  using outbox_is_handed_over_once [OF sample_ok, where limit = 5 and enqueue = "\<lambda>_ _. True"]
  by (simp add: Let_def pending_outbox_entries_def sample_outbox accepted_def)

section \<open>What leaves the store\<close>

text \<open>Every key, at every depth, is public.\<close>

fun all_public :: "json \<Rightarrow> bool" where
  "all_public (JObj kvs) \<longleftrightarrow> (\<forall>(k, v) \<in> set kvs. is_public_key k \<and> all_public v)"
| "all_public (JArr js) \<longleftrightarrow> (\<forall>j \<in> set js. all_public j)"
| "all_public _ \<longleftrightarrow> True"

lemma sanitize_all_public: "all_public (sanitize_public_json j)"
proof (induction j)
  case (JObj kvs)
  then show ?case by (force simp: snds.simps)
qed auto

text \<open>
  All that a value contains, in the order it is written: every node with the keys and indices on the way to
  it. A container stands for itself without what is in it.
\<close>

datatype path_step = At_Key string | At_Index nat

fun json_content :: "json \<Rightarrow> (path_step list \<times> json) list" where
  "json_content (JObj kvs) = ([], JObj [])
     # concat (map (\<lambda>(k, v). map (\<lambda>(p, x). (At_Key k # p, x)) (json_content v)) kvs)"
| "json_content (JArr js) = ([], JArr [])
     # concat (map (\<lambda>(i, c). map (\<lambda>(p, x). (At_Index i # p, x)) c) (enumerate 0 (map json_content js)))"
| "json_content j = [([], j)]"

definition open_path :: "path_step list \<Rightarrow> bool" where
  "open_path p \<longleftrightarrow> (\<forall>k. At_Key k \<in> set p \<longrightarrow> is_public_key k)"

lemma open_path_simps [simp]:
  "open_path []" "open_path (At_Index i # p) = open_path p"
  "open_path (At_Key k # p) \<longleftrightarrow> is_public_key k \<and> open_path p"
  by (auto simp: open_path_def)

lemma filter_open_key:
  "filter (\<lambda>(p, _). open_path p) (map (\<lambda>(p, x). (At_Key k # p, x)) c)
     = (if is_public_key k then map (\<lambda>(p, x). (At_Key k # p, x)) (filter (\<lambda>(p, _). open_path p) c) else [])"
  by (induction c) auto

lemma filter_open_index:
  "filter (\<lambda>(p, _). open_path p) (map (\<lambda>(p, x). (At_Index i # p, x)) c)
     = map (\<lambda>(p, x). (At_Index i # p, x)) (filter (\<lambda>(p, _). open_path p) c)"
  by (induction c) auto

lemma filter_open_items:
  "filter (\<lambda>(p, _). open_path p) (concat (map (\<lambda>(i, c). map (\<lambda>(p, x). (At_Index i # p, x)) c) (enumerate n cs)))
     = concat (map (\<lambda>(i, c). map (\<lambda>(p, x). (At_Index i # p, x)) c)
         (enumerate n (map (filter (\<lambda>(p, _). open_path p)) cs)))"
  by (induction cs arbitrary: n) (simp_all add: filter_open_index)

lemma filter_open_pairs:
  "\<forall>(k, v) \<in> set kvs. h v = filter (\<lambda>(p, _). open_path p) (g v) \<Longrightarrow>
     concat (map (\<lambda>(k, v). map (\<lambda>(p, x). (At_Key k # p, x)) (h v)) (filter (\<lambda>(k, v). is_public_key k) kvs))
     = filter (\<lambda>(p, _). open_path p) (concat (map (\<lambda>(k, v). map (\<lambda>(p, x). (At_Key k # p, x)) (g v)) kvs))"
  by (induction kvs) (auto simp: filter_open_key)

lemma sanitized_content: "json_content (sanitize_public_json j) = filter (\<lambda>(p, _). open_path p) (json_content j)"
proof (induction j)
  case (JArr js)
  have eq: "map (\<lambda>x. json_content (sanitize_public_json x)) js = map (\<lambda>x. filter (\<lambda>(p, _). open_path p) (json_content x)) js"
    using JArr by simp
  show ?case by (simp add: filter_open_items comp_def eq del: map_eq_conv)
next
  case (JObj kvs)
  have "\<forall>(k, v) \<in> set kvs. json_content (sanitize_public_json v) = filter (\<lambda>(p, _). open_path p) (json_content v)"
    using JObj by (force simp: snds.simps)
  from filter_open_pairs [OF this] show ?case by (simp add: comp_def case_prod_unfold)
qed auto

lemma public_payload_sanitize: "JObj (public_payload p) = sanitize_public_json (JObj p)"
  by (simp add: public_payload_def)

lemma public_payload_content: "json_content (JObj (public_payload p)) = filter (\<lambda>(p, _). open_path p) (json_content (JObj p))"
  unfolding public_payload_sanitize by (rule sanitized_content)

lemma public_payload_all_public: "all_public (JObj (public_payload p))"
  unfolding public_payload_sanitize by (rule sanitize_all_public)

lemma handed_over:
  "list_all (\<lambda>p. all_public (JObj p)) (map (\<lambda>x. public_payload (f x)) xs)"
  "map (\<lambda>p. json_content (JObj p)) (map (\<lambda>x. public_payload (f x)) xs)
     = map (\<lambda>x. filter (\<lambda>(p, _). open_path p) (json_content (JObj (f x)))) xs"
   unfolding list_all_iff set_map map_map comp_def public_payload_content
  by (rule ballI, erule imageE) (simp_all only: public_payload_all_public)

text \<open>
  C8. The events and the artifacts handed to a client contain exactly what is stored, node by node in the
  stored order, except the nodes under a key that names a secret or hidden reasoning; so no such key is left
  at any depth, and nothing else is taken out or changed. A tenant asking for the events of a run it does not
  own gets none.
\<close>

theorem public_output_is_sanitized:
  "(case public_events t i db of
      Inl e \<Rightarrow> e = Run_Not_Found \<and> (t, i) \<notin> owners db
    | Inr ps \<Rightarrow> (t, i) \<in> owners db \<and> list_all (\<lambda>p. all_public (JObj p)) ps
        \<and> map (\<lambda>p. json_content (JObj p)) ps
          = map (\<lambda>x. filter (\<lambda>(p, _). open_path p) (json_content (JObj (er_payload x)))) (run_events_of t i db))
   \<and> list_all (\<lambda>p. all_public (JObj p)) (public_artifacts t i db)
   \<and> map (\<lambda>p. json_content (JObj p)) (public_artifacts t i db)
     = map (\<lambda>x. filter (\<lambda>(p, _). open_path p) (json_content (JObj (json_fields (fr_payload x))))) (run_artifacts t i db)"
proof -
  have "public_events t i db = (if (t, i) \<in> owners db
      then Inr (map (\<lambda>x. public_payload (er_payload x)) (run_events_of t i db)) else Inl Run_Not_Found)"
    using run_select_None [of t i db] by (auto simp: public_events_def assert_run_def)
  then show ?thesis
    using handed_over [of er_payload "run_events_of t i db"]
      handed_over [of "\<lambda>x. json_fields (fr_payload x)" "run_artifacts t i db", folded public_artifacts_def]
    by (simp del: all_public.simps(1) json_content.simps(1) map_eq_conv map_map)
qed

section \<open>Where the code escapes its rules\<close>

text \<open>
  C9. \<open>execute\<close> completes a run whose stream ended without a terminal event by an unconditional
  status update: a run that was cancelled after its last event, and was terminal, becomes
  completed.
\<close>

theorem cancelled_run_is_completed:
  assumes "db_ok db" and "get_for_update i db = Inr row" and "rr_status row = Cancelled"
    and "rr_version row + 1 < 2 ^ 31"
  shows "\<exists>db'. finish_run (rr_tenant row) i Running db = Inr (db', Completed)
    \<and> get_for_update i db' = Inr (bump (row\<lparr>rr_status := Completed\<rparr>))"
proof -
  have row: "row \<in> set (db_runs db)" "rr_id row = i"
    using assms(2) unfolding get_for_update_mem [OF assms(1)] by simp_all
  then have cols: "run_columns_ok row" "rr_mode row \<noteq> Some Auto"
    using assms(1) by (auto simp: db_ok_def runs_ok_def run_row_ok_def)
  let ?new = "bump (row\<lparr>rr_status := Completed\<rparr>)"
  from cols assms(4) obtain db' where fl: "flush_run ?new db = Inr db'"
    by (simp add: flush_run_def run_columns_ok_def bump_def)
  have "run_select (rr_tenant row) i db = Some row"
    using row by (simp add: run_select_mem [OF assms(1)])
  with fl have "update_status (rr_tenant row) i Completed None db = Inr (db', to_record ?new)"
    by (simp add: update_status_def change_run_def status_row_def Let_def)
  then show ?thesis
    using flush_refl_get [OF assms(1,2) fl] by (simp add: finish_run_def)
qed

definition cancelled_db :: run_db where
  "cancelled_db = committed running_db (cancel 7 1 running_db)"

lemma cancelled_get: "get_for_update 1 cancelled_db =
    Inr (sample_row\<lparr>rr_mode := Some Direct, rr_status := Cancelled, rr_version := 2\<rparr>)"
  by (simp add: cancelled_db_def cancel_def update_control_status_def change_run_def control_row_def
      run_select_def running_db_def sample_row_def flush_run_def bump_def run_columns_ok_def
      optional_ok_def replace_run_def Let_def committed_def get_for_update_def)

lemma cancelled_ok: "db_ok cancelled_db"
  using exec_op_db_ok [OF running_ok, of undefined undefined "Op_Control 7 1 Cancelled"]
  by (simp add: cancelled_db_def cancel_def)

theorem cancelled_run_is_completed_witness:
  "\<exists>db' row. finish_run 7 1 Running cancelled_db = Inr (db', Completed)
     \<and> get_for_update 1 db' = Inr row \<and> rr_status row = Completed"
  using cancelled_run_is_completed [OF cancelled_ok cancelled_get]
  by (auto simp: sample_row_def bump_def)

text \<open>
  The outbox key of a submission is the tenant, a colon and the client's idempotency key, in
  a column of 128 characters: a key of 92 to 128 characters, which the column of the runs table
  admits, makes every submission that queues a run fail.
\<close>

theorem long_idempotency_keys_fail:
  assumes "91 < length k" and "find (\<lambda>r. rr_tenant r = t \<and> rr_key r = Some k) (db_runs db) = None"
  shows "\<exists>e. create_run t a q m s (Some k) d True i oid now db = Inl e"
proof -
  let ?row = "\<lparr>rr_id = i, rr_tenant = t, rr_actor = Some a, rr_request = q, rr_mode = m,
    rr_status = s, rr_key = Some k, rr_decision = d, rr_version = 1, rr_created = now\<rparr>"
  have "k \<noteq> []" using assms(1) by auto
  with assms show ?thesis
    by (cases "insert_run ?row db")
      (simp_all add: create_run_def Let_def insert_outbox_def new_outbox_def)
qed

theorem long_idempotency_keys_fail_witness:
  "create_run 7 8 ''hi'' None Queued (Some (replicate 92 CHR ''k'')) None True 3 4 0 empty_db
     = Inl Data_Error
   \<and> (\<exists>e. create_run 7 8 ''hi'' None Queued (Some (replicate 92 CHR ''k'')) None True 3 4 0 empty_db
        = Inl e)"
proof
  show "create_run 7 8 ''hi'' None Queued (Some (replicate 92 CHR ''k'')) None True 3 4 0 empty_db
      = Inl Data_Error"
    by (simp add: create_run_def Let_def insert_run_def insert_outbox_def new_outbox_def empty_db_def
        run_columns_ok_def optional_ok_def)
  show "\<exists>e. create_run 7 8 ''hi'' None Queued (Some (replicate 92 CHR ''k'')) None True 3 4 0 empty_db
      = Inl e"
    by (rule long_idempotency_keys_fail) (simp_all add: empty_db_def)
qed

text \<open>
  The contract admits extension kinds of up to 65 characters (two names of 32 and a dot),
  the event table 64: an event of a 65 character kind is accepted, and cannot be stored.
\<close>

definition longest_kind :: string where
  "longest_kind = replicate 32 CHR ''a'' @ ''.'' @ replicate 32 CHR ''a''"

theorem longest_extension_kind_cannot_be_stored:
  "parse_kind longest_kind = Inr (Extension longest_kind)
   \<and> persist_event diag t i ((blank_event (Extension longest_kind) n i)
        \<lparr>ev_payload := [(''x'', JNull)]\<rparr>) now db = Inl Data_Error"
proof -
  have split: "split_on CHR ''.'' longest_kind = [replicate 32 CHR ''a'', replicate 32 CHR ''a'']"
    by code_simp
  have "ident_match lower_alpha (lower_alnum @ ''_'') 31 (replicate 32 CHR ''a'')" by code_simp
  then have ns: "namespaced longest_kind" by (simp add: namespaced_def split)
  have len: "length longest_kind = 65" by (simp add: longest_kind_def)
  have "length (kind_text k) < 65" for k by (cases k) simp_all
  then have "kind_text k \<noteq> longest_kind" for k using len by (metis less_irrefl)
  then have "find (\<lambda>k. kind_text k = longest_kind) all_event_kinds = None"
    by (simp add: find_None_iff)
  with ns have "parse_kind longest_kind = Inr (Extension longest_kind)"
    by (simp add: parse_kind_def)
  with len show ?thesis
    by (simp add: persist_event_def Let_def event_with_failure_diagnostic_def blank_event_def
        insert_event_def)
qed

end
