(* ===== verification/Approval_Service.thy ===== *)
theory Approval_Service
  imports Capability_Policy Run_Guarantees
begin

text \<open>
  The approval service of \<open>capabilities/approvals.py\<close> and the gateway of
  \<open>capabilities/gateway.py\<close>. The service keeps its records in the in-memory store (a dictionary)
  and moves the run through the repository it is bound to; that repository is an interface with
  two operations, which the run store provides.

  A method returns the states of both stores next to its result, since several of them change
  the state and then raise. Its lock makes each method one step. Clock readings are arguments.
\<close>

section \<open>Records and the in-memory store\<close>

datatype approval_state = Is_Pending | Is_Approved | Is_Rejected | Is_Expired

record approval_record =
  ap_id :: string
  ap_fingerprint :: string
  ap_tenant :: uuid
  ap_user :: uuid
  ap_run :: uuid
  ap_expires :: instant
  ap_status :: approval_state

type_synonym approval_store = "(string \<times> approval_record) list"

definition store_put :: "approval_record \<Rightarrow> approval_store \<Rightarrow> approval_store" where
  "store_put r st = AList.update (ap_id r) r st"

definition store_get :: "string \<Rightarrow> approval_store \<Rightarrow> approval_record option" where
  "store_get i st = map_of st i"

definition get_pending_by_fingerprint :: "string \<Rightarrow> approval_store \<Rightarrow> approval_record option" where
  "get_pending_by_fingerprint fp st =
     find (\<lambda>r. ap_status r = Is_Pending \<and> ap_fingerprint r = fp) (map snd st)"

definition list_pending :: "approval_store \<Rightarrow> approval_record list" where
  "list_pending st = filter (\<lambda>r. ap_status r = Is_Pending) (map snd st)"

section \<open>The fingerprint of a request\<close>

definition fingerprint_payload :: "capability_request \<Rightarrow> json" where
  "fingerprint_payload q = JObj
     [(''tenant_id'', JStr (uuid_text (cr_tenant q))), (''user_id'', JStr (uuid_text (cr_user q))),
      (''run_id'', JStr (uuid_text (cr_run q))), (''agent_id'', JStr (cr_agent q)),
      (''capability'', JStr (cr_capability q)), (''operation'', JStr (cr_operation q)),
      (''resource'', json_opt JStr (normalize_resource (cr_resource q))),
      (''arguments'', JObj (cr_arguments q)), (''idempotency_key'', JStr (cr_idempotency_key q))]"

definition fingerprint_request ::
  "(string \<Rightarrow> string) \<Rightarrow> (pyfloat \<Rightarrow> string) \<Rightarrow> capability_request \<Rightarrow> string" where
  "fingerprint_request sha ft q = sha (json_dumps ft (fingerprint_payload q))"

section \<open>The service\<close>

datatype approval_error = Approval_Mismatch | Approval_Expired | Approval_Rejected | Run_Failure run_error

text \<open>
  The two operations the service and the gateway use of the run repository, and what a service
  without a bound repository does instead.
\<close>

type_synonym 's begin_op = "uuid \<Rightarrow> uuid \<Rightarrow> string \<Rightarrow> string \<Rightarrow> 's \<Rightarrow> run_error + 's"
type_synonym 's resolve_op = "uuid \<Rightarrow> uuid \<Rightarrow> run_status \<Rightarrow> string \<Rightarrow> string \<Rightarrow> 's \<Rightarrow> run_error + 's"

definition unbound :: "'s resolve_op" where
  "unbound t i status a f s = Inr s"

definition resolve_record ::
  "'s resolve_op \<Rightarrow> run_status \<Rightarrow> approval_record \<Rightarrow> 's \<Rightarrow> run_error + 's" where
  "resolve_record resolve status r = resolve (ap_tenant r) (ap_run r) status (ap_id r) (ap_fingerprint r)"

text \<open>Resolve the run, then replace the record: the order of every closing method.\<close>

definition close_record ::
  "'s resolve_op \<Rightarrow> run_status \<Rightarrow> approval_state \<Rightarrow> approval_record \<Rightarrow> approval_store \<times> 's
     \<Rightarrow> run_error + (approval_store \<times> 's)" where
  "close_record resolve status closing r = (\<lambda>(st, s).
     res_bind (resolve_record resolve status r s) (\<lambda>s'.
       Inr (store_put (r\<lparr>ap_status := closing\<rparr>) st, s')))"

definition create_unlocked ::
  "string \<Rightarrow> string \<Rightarrow> capability_request \<Rightarrow> instant \<Rightarrow> int \<Rightarrow> approval_store
     \<Rightarrow> approval_store \<times> approval_record" where
  "create_unlocked new_id fp q now expires_in st =
     (case get_pending_by_fingerprint fp st of
        Some r \<Rightarrow> (st, r)
      | None \<Rightarrow>
          let r = \<lparr>ap_id = new_id, ap_fingerprint = fp, ap_tenant = cr_tenant q, ap_user = cr_user q,
                ap_run = cr_run q, ap_expires = now + expires_in, ap_status = Is_Pending\<rparr> in
          (store_put r st, r))"

definition start_waiting ::
  "(approval_record \<Rightarrow> 's \<Rightarrow> run_error + 's) \<Rightarrow> string \<Rightarrow> string \<Rightarrow> capability_request \<Rightarrow> instant
     \<Rightarrow> int \<Rightarrow> approval_store \<times> 's
     \<Rightarrow> (approval_store \<times> 's) \<times> (approval_error + approval_record)" where
  "start_waiting begin_wait new_id fp q now expires_in = (\<lambda>(st, s).
     let (st', r) = create_unlocked new_id fp q now expires_in st in
     case begin_wait r s of
       Inl e \<Rightarrow> ((st', s), Inl (Run_Failure e))
     | Inr s' \<Rightarrow> ((st', s'), Inr r))"

definition matching_record ::
  "'s resolve_op \<Rightarrow> string \<Rightarrow> string \<Rightarrow> uuid \<Rightarrow> instant \<Rightarrow> approval_store \<times> 's
     \<Rightarrow> (approval_store \<times> 's) \<times> (approval_error + approval_record)" where
  "matching_record resolve aid fp actor now = (\<lambda>(st, s).
     case store_get aid st of
       None \<Rightarrow> ((st, s), Inl Approval_Mismatch)
     | Some r \<Rightarrow>
         if ap_status r \<noteq> Is_Pending then ((st, s), Inl Approval_Mismatch)
         else if actor \<noteq> ap_user r \<or> fp \<noteq> ap_fingerprint r then ((st, s), Inl Approval_Mismatch)
         else if now \<ge> ap_expires r then
           (case close_record resolve Cancelled Is_Expired r (st, s) of
              Inl e \<Rightarrow> ((st, s), Inl (Run_Failure e))
            | Inr w \<Rightarrow> (w, Inl Approval_Expired))
         else ((st, s), Inr r))"

definition approve ::
  "'s resolve_op \<Rightarrow> string \<Rightarrow> string \<Rightarrow> uuid \<Rightarrow> instant \<Rightarrow> approval_store \<times> 's
     \<Rightarrow> (approval_store \<times> 's) \<times> (approval_error + approval_record)" where
  "approve resolve aid fp actor now w =
     (case matching_record resolve aid fp actor now w of
        (w1, Inl e) \<Rightarrow> (w1, Inl e)
      | (w1, Inr r) \<Rightarrow>
          (case close_record resolve Running Is_Approved r w1 of
             Inl e \<Rightarrow> (w1, Inl (Run_Failure e))
           | Inr w2 \<Rightarrow> (w2, Inr (r\<lparr>ap_status := Is_Approved\<rparr>))))"

definition reject ::
  "'s resolve_op \<Rightarrow> string \<Rightarrow> uuid \<Rightarrow> instant \<Rightarrow> approval_store \<times> 's
     \<Rightarrow> (approval_store \<times> 's) \<times> approval_error" where
  "reject resolve aid actor now = (\<lambda>(st, s).
     case store_get aid st of
       None \<Rightarrow> ((st, s), Approval_Mismatch)
     | Some r \<Rightarrow>
         if ap_status r \<noteq> Is_Pending then ((st, s), Approval_Mismatch)
         else if actor \<noteq> ap_user r then ((st, s), Approval_Mismatch)
         else let late = now \<ge> ap_expires r in
           (case close_record resolve Cancelled (if late then Is_Expired else Is_Rejected) r (st, s) of
              Inl e \<Rightarrow> ((st, s), Run_Failure e)
            | Inr w \<Rightarrow> (w, if late then Approval_Expired else Approval_Rejected)))"

text \<open>
  The loop over the records that were pending when it started; \<open>clock k\<close> is the reading for the
  k-th of them. An exception ends the loop.
\<close>

fun expire_loop ::
  "'s resolve_op \<Rightarrow> (nat \<Rightarrow> instant) \<Rightarrow> nat \<Rightarrow> approval_record list \<Rightarrow> approval_store \<times> 's \<Rightarrow> nat
     \<Rightarrow> (approval_store \<times> 's) \<times> (run_error + nat)" where
  "expire_loop resolve clock k [] w n = (w, Inr n)"
| "expire_loop resolve clock k (r # rs) w n =
     (if clock k < ap_expires r then expire_loop resolve clock (k + 1) rs w n
      else case close_record resolve Cancelled Is_Expired r w of
             Inl e \<Rightarrow> (w, Inl e)
           | Inr w' \<Rightarrow> expire_loop resolve clock (k + 1) rs w' (n + 1))"

definition expire_due ::
  "'s resolve_op \<Rightarrow> (nat \<Rightarrow> instant) \<Rightarrow> approval_store \<times> 's
     \<Rightarrow> (approval_store \<times> 's) \<times> (run_error + nat)" where
  "expire_due resolve clock w = expire_loop resolve clock 0 (list_pending (fst w)) w 0"

section \<open>The gateway\<close>

datatype capability_status = Status_Allowed | Status_Waiting | Status_Denied

record capability_result =
  cres_status :: capability_status
  cres_run :: uuid
  cres_approval :: "string option"
  cres_reason :: "string option"

definition invoke ::
  "'s begin_op \<Rightarrow> (capability_request \<Rightarrow> string) \<Rightarrow> capability_rule list \<Rightarrow> capability_request \<Rightarrow> role
     \<Rightarrow> string \<Rightarrow> instant \<Rightarrow> int \<Rightarrow> approval_store \<times> 's
     \<Rightarrow> (approval_store \<times> 's) \<times> (approval_error + capability_result)" where
  "invoke begin_op fingerprint rules q r new_id now expires_in w =
     (case pd_effect (evaluate rules q r) of
        Deny \<Rightarrow> (w, Inr \<lparr>cres_status = Status_Denied, cres_run = cr_run q, cres_approval = None,
                   cres_reason = Some ''capability denied''\<rparr>)
      | Allow \<Rightarrow> (w, Inr \<lparr>cres_status = Status_Allowed, cres_run = cr_run q, cres_approval = None,
                   cres_reason = None\<rparr>)
      | Require_Approval \<Rightarrow>
          (case start_waiting (\<lambda>a. begin_op (cr_tenant q) (cr_run q) (ap_id a) (ap_fingerprint a))
                  new_id (fingerprint q) q now expires_in w of
             (w', Inl e) \<Rightarrow> (w', Inl e)
           | (w', Inr a) \<Rightarrow> (w', Inr \<lparr>cres_status = Status_Waiting, cres_run = cr_run q,
                cres_approval = Some (ap_id a),
                cres_reason = Some ''capability requires approval''\<rparr>)))"

section \<open>The in-memory store\<close>

definition approvals_ok :: "approval_store \<Rightarrow> bool" where
  "approvals_ok st \<longleftrightarrow> distinct (map fst st) \<and> (\<forall>(k, r) \<in> set st. ap_id r = k)"

lemma store_put_ok: "approvals_ok st \<Longrightarrow> approvals_ok (store_put r st)"
proof -
  assume ok: "approvals_ok st"
  have "ap_id r' = k" if "(k, r') \<in> set (AList.update (ap_id r) r st)" for k r'
  proof -
    have "map_of (AList.update (ap_id r) r st) k = Some r'"
      using ok by (intro map_of_is_SomeI [OF _ that] distinct_update) (simp add: approvals_ok_def)
    then show ?thesis
      using ok by (auto simp: update_conv' approvals_ok_def split: if_splits dest: map_of_SomeD)
  qed
  with ok show ?thesis by (auto simp: store_put_def approvals_ok_def distinct_update)
qed

lemma store_get_put [simp]:
  "store_get k (store_put r st) = (if k = ap_id r then Some r else store_get k st)"
  by (simp add: store_get_def store_put_def update_conv')

lemma store_get_id: "approvals_ok st \<Longrightarrow> store_get k st = Some r \<Longrightarrow> ap_id r = k"
  by (auto simp: store_get_def approvals_ok_def dest!: map_of_SomeD)

lemma store_get_mem: "approvals_ok st \<Longrightarrow> r \<in> set (map snd st) \<longleftrightarrow> store_get (ap_id r) st = Some r"
  by (force simp: store_get_def approvals_ok_def map_of_eq_Some_iff)

lemma pending_fingerprint_Some:
  assumes "approvals_ok st" and "get_pending_by_fingerprint fp st = Some r"
  shows "store_get (ap_id r) st = Some r \<and> ap_status r = Is_Pending \<and> ap_fingerprint r = fp"
proof -
  from assms(2) have "r \<in> set (map snd st) \<and> ap_status r = Is_Pending \<and> ap_fingerprint r = fp"
    unfolding get_pending_by_fingerprint_def find_Some_iff by (metis nth_mem)
  with store_get_mem [OF assms(1)] show ?thesis by blast
qed

section \<open>The repository interface\<close>

text \<open>
  What the service relies on: \<open>begin\<close> makes the run wait on the approval it names; \<open>resolve\<close>
  succeeds only for a run that waits on exactly that approval, and afterwards it waits on none;
  both leave the other runs' waiting as it was.
\<close>

locale approval_repository =
  fixes inv :: "'s \<Rightarrow> bool"
    and waits :: "'s \<Rightarrow> uuid \<Rightarrow> uuid \<Rightarrow> string \<Rightarrow> string \<Rightarrow> bool"
    and begin_op :: "'s begin_op"
    and resolve :: "'s resolve_op"
  assumes begin_waits: "inv s \<Longrightarrow> begin_op t i a f s = Inr s' \<Longrightarrow> inv s' \<and> waits s' t i a f"
    and begin_others: "inv s \<Longrightarrow> begin_op t i a f s = Inr s' \<Longrightarrow> j \<noteq> i \<Longrightarrow> waits s' u j b g = waits s u j b g"
    and resolve_waited: "inv s \<Longrightarrow> resolve t i st a f s = Inr s' \<Longrightarrow>
      inv s' \<and> waits s t i a f \<and> \<not> waits s' t i b g"
    and resolve_others: "inv s \<Longrightarrow> resolve t i st a f s = Inr s' \<Longrightarrow> j \<noteq> i \<Longrightarrow>
      waits s' u j b g = waits s u j b g"
begin

definition waits_on :: "'s \<Rightarrow> approval_record \<Rightarrow> bool" where
  "waits_on s r \<longleftrightarrow> waits s (ap_tenant r) (ap_run r) (ap_id r) (ap_fingerprint r)"

lemma close_record_Inr:
  assumes "inv s" and "close_record resolve status closing r (st, s) = Inr (st', s')"
  shows "inv s' \<and> waits_on s r \<and> \<not> waits_on s' r \<and> st' = store_put (r\<lparr>ap_status := closing\<rparr>) st"
  using assms resolve_waited [OF assms(1)]
  by (auto simp: close_record_def resolve_record_def waits_on_def res_bind_Inr_iff)

lemma matching_record_Inr:
  assumes "matching_record resolve aid fp actor now (st, s) = (w, Inr r)"
  shows "w = (st, s) \<and> store_get aid st = Some r \<and> ap_status r = Is_Pending \<and> ap_user r = actor
    \<and> ap_fingerprint r = fp \<and> now < ap_expires r"
  using assms by (auto simp: matching_record_def split: option.splits if_splits sum.splits)

lemma approve_granted:
  assumes "approvals_ok st" and "inv s"
    and "approve resolve aid fp actor now (st, s) = ((st', s'), Inr r')"
  obtains r where "store_get aid st = Some r" "ap_id r = aid" "ap_status r = Is_Pending"
    "ap_user r = actor" "ap_fingerprint r = fp" "now < ap_expires r" "waits_on s r"
    "\<not> waits_on s' r" "inv s'" "r' = r\<lparr>ap_status := Is_Approved\<rparr>" "st' = store_put r' st"
proof -
  from assms(3) obtain r where m: "matching_record resolve aid fp actor now (st, s) = ((st, s), Inr r)"
    and c: "close_record resolve Running Is_Approved r (st, s) = Inr (st', s')"
    and r': "r' = r\<lparr>ap_status := Is_Approved\<rparr>"
    by (auto simp: approve_def split: prod.splits sum.splits dest: matching_record_Inr)
  from matching_record_Inr [OF m] close_record_Inr [OF assms(2) c] r'
    store_get_id [OF assms(1), of aid r] that show ?thesis by blast
qed

lemma start_waiting_begun:
  assumes "approvals_ok st" and "inv s"
    and "start_waiting (\<lambda>a. begin_op t i (ap_id a) (ap_fingerprint a)) new_id fp q now ttl (st, s)
      = ((st', s'), Inr r)"
  shows "inv s' \<and> waits s' t i (ap_id r) fp \<and> approvals_ok st' \<and> store_get (ap_id r) st' = Some r
    \<and> ap_status r = Is_Pending \<and> ap_fingerprint r = fp"
proof -
  from assms(3) have c: "create_unlocked new_id fp q now ttl st = (st', r)"
    and b: "begin_op t i (ap_id r) (ap_fingerprint r) s = Inr s'"
    by (auto simp: start_waiting_def Let_def split: prod.splits sum.splits)
  have "store_get (ap_id r) st' = Some r \<and> ap_status r = Is_Pending \<and> ap_fingerprint r = fp
      \<and> approvals_ok st'"
    using c assms(1) pending_fingerprint_Some [OF assms(1)]
    by (auto simp: create_unlocked_def Let_def store_put_ok split: option.splits)
  with begin_waits [OF assms(2) b] show ?thesis by auto
qed

end

section \<open>The run store provides the interface\<close>

definition store_begin :: "run_db begin_op" where
  "store_begin t i a f db = res_bind (begin_capability_approval t i a f db) (\<lambda>(db', _). Inr db')"

definition store_resolve :: "run_db resolve_op" where
  "store_resolve t i status a f db =
     res_bind (resolve_capability_approval t i status a f db) (\<lambda>(db', _). Inr db')"

text \<open>A run waits on an approval when its status and the two entries of its decision say so.\<close>

definition row_waits :: "run_row \<Rightarrow> string \<Rightarrow> string \<Rightarrow> bool" where
  "row_waits r a f \<longleftrightarrow> rr_status r = Waiting_Approval
     \<and> json_get (decision_of r) ''approval_id'' = Some (JStr a)
     \<and> json_get (decision_of r) ''approval_fingerprint'' = Some (JStr f)"

definition store_waits :: "run_db \<Rightarrow> uuid \<Rightarrow> uuid \<Rightarrow> string \<Rightarrow> string \<Rightarrow> bool" where
  "store_waits db t i a f \<longleftrightarrow>
     (case run_select t i db of None \<Rightarrow> False | Some r \<Rightarrow> row_waits r a f)"

lemma begin_approval_row_waits:
  "begin_approval_row a f row = Inr (Write row1 k) \<Longrightarrow> row_waits (bump row1) a f"
  "begin_approval_row a f row = Inr Keep \<Longrightarrow> row_waits row a f"
  by (auto simp: begin_approval_row_def row_waits_def Let_def bump_def decision_of_def json_get_def
      dict_get_merge split: if_splits)

interpretation run_approvals: approval_repository db_ok store_waits store_begin store_resolve
proof
  fix s t i a f s'
  assume ok: "db_ok s" and run: "store_begin t i a f s = Inr s'"
  then obtain r where *: "change_run t i 0 0 (begin_approval_row a f) s = Inr (s', r)"
    by (auto simp: store_begin_def begin_capability_approval_def res_bind_Inr_iff)
  have "store_waits s' t i a f"
    by (rule begin_approval.change_run_row [OF ok *])
      (auto simp: store_waits_def begin_approval_row_waits)
  then show "db_ok s' \<and> store_waits s' t i a f"
    using begin_approval.change_run_ok [OF ok *] by simp
  fix j u b g assume "j \<noteq> i"
  then show "store_waits s' u j b g = store_waits s u j b g"
    using begin_approval.change_run_others [OF ok *] by (simp add: store_waits_def)
next
  fix s t i st a f s' b g
  assume ok: "db_ok s" and run: "store_resolve t i st a f s = Inr s'"
  then obtain r where *: "change_run t i 0 0 (resolve_approval_row st a f) s = Inr (s', r)"
    and st: "st \<in> {Running, Cancelled}"
    by (auto simp: store_resolve_def resolve_capability_approval_def res_bind_Inr_iff split: if_splits)
  have "store_waits s t i a f \<and> \<not> store_waits s' t i b g"
    by (rule resolve_approval.change_run_row [OF ok *])
      (use st in \<open>auto simp: store_waits_def row_waits_def resolve_approval_row_def Let_def bump_def
        split: if_splits\<close>)
  then show "db_ok s' \<and> store_waits s t i a f \<and> \<not> store_waits s' t i b g"
    using resolve_approval.change_run_ok [OF ok *] by simp
  fix j u assume "j \<noteq> i"
  then show "store_waits s' u j b g = store_waits s u j b g"
    using resolve_approval.change_run_others [OF ok *] by (simp add: store_waits_def)
qed

section \<open>Histories of the service\<close>

text \<open>
  The methods as steps, together with whatever other components do to the run store in between.
\<close>

datatype 's service_op =
    S_Approve string string uuid instant
  | S_Reject string uuid instant
  | S_Expire "nat \<Rightarrow> instant"
  | S_Create string string capability_request instant int
  | S_Invoke "capability_rule list" capability_request role string instant int
  | S_Other "'s \<Rightarrow> 's"

fun exec_service ::
  "'s begin_op \<Rightarrow> 's resolve_op \<Rightarrow> (capability_request \<Rightarrow> string) \<Rightarrow> 's service_op
     \<Rightarrow> approval_store \<times> 's \<Rightarrow> approval_store \<times> 's" where
  "exec_service bop res fpr (S_Approve aid fp actor now) w = fst (approve res aid fp actor now w)"
| "exec_service bop res fpr (S_Reject aid actor now) w = fst (reject res aid actor now w)"
| "exec_service bop res fpr (S_Expire clock) w = fst (expire_due res clock w)"
| "exec_service bop res fpr (S_Create new_id fp q now ttl) w =
     (fst (create_unlocked new_id fp q now ttl (fst w)), snd w)"
| "exec_service bop res fpr (S_Invoke rules q r new_id now ttl) w =
     fst (invoke bop fpr rules q r new_id now ttl w)"
| "exec_service bop res fpr (S_Other g) w = (fst w, g (snd w))"

text \<open>The identifiers \<open>uuid4\<close> draws for new approvals.\<close>

fun drawn_ids :: "'s service_op \<Rightarrow> string set" where
  "drawn_ids (S_Create new_id fp q now ttl) = {new_id}"
| "drawn_ids (S_Invoke rules q r new_id now ttl) = {new_id}"
| "drawn_ids _ = {}"

definition settled :: "approval_record \<Rightarrow> approval_store \<Rightarrow> bool" where
  "settled r st \<longleftrightarrow> store_get (ap_id r) st = Some r \<and> ap_status r \<noteq> Is_Pending"

lemma settled_other:
  assumes "settled r st" and "ap_status r' = Is_Pending" and "store_get (ap_id r') st = Some r'"
  shows "ap_id r' \<noteq> ap_id r"
  using assms unfolding settled_def by (metis option.inject)

lemma close_record_settled:
  assumes "close_record res status closing r' (st, s) = Inr (st', s')"
    and "ap_status r' = Is_Pending" and "store_get (ap_id r') st = Some r' \<or> ap_id r' \<noteq> ap_id r"
    and "settled r st"
  shows "settled r st'"
proof -
  from assms(1) have "st' = store_put (r'\<lparr>ap_status := closing\<rparr>) st"
    by (auto simp: close_record_def res_bind_Inr_iff)
  moreover have "ap_id r' \<noteq> ap_id r" using settled_other [OF assms(4,2)] assms(3) by blast
  ultimately show ?thesis using assms(4) by (simp add: settled_def)
qed

lemma create_settled:
  "settled r st \<Longrightarrow> new_id \<noteq> ap_id r \<Longrightarrow> settled r (fst (create_unlocked new_id fp q now ttl st))"
  by (auto simp: create_unlocked_def settled_def Let_def split: option.splits)

lemma create_ok: "approvals_ok st \<Longrightarrow> approvals_ok (fst (create_unlocked new_id fp q now ttl st))"
  by (auto simp: create_unlocked_def Let_def store_put_ok split: option.splits)

lemma close_record_ok:
  "close_record res status closing r (st, s) = Inr (st', s') \<Longrightarrow> approvals_ok st \<Longrightarrow> approvals_ok st'"
  by (auto simp: close_record_def res_bind_Inr_iff store_put_ok)

lemma expire_loop_settled:
  assumes "settled r (fst w)" and "approvals_ok (fst w)"
    and "\<forall>r' \<in> set rs. ap_status r' = Is_Pending \<and> ap_id r' \<noteq> ap_id r"
  shows "settled r (fst (fst (expire_loop res clock k rs w n)))
    \<and> approvals_ok (fst (fst (expire_loop res clock k rs w n)))"
  using assms
proof (induction rs arbitrary: k w n)
  case (Cons r' rs)
  obtain st s where w: "w = (st, s)" by (cases w)
  show ?case
  proof (cases "close_record res Cancelled Is_Expired r' w")
    case (Inl e)
    then show ?thesis using Cons by (auto simp: w)
  next
    case (Inr w')
    obtain st' s' where w': "w' = (st', s')" by (cases w')
    have "settled r st'" "approvals_ok st'"
      using close_record_settled [of res Cancelled Is_Expired r' st s st' s' r]
        close_record_ok [of res Cancelled Is_Expired r' st s st' s'] Inr Cons.prems
      by (auto simp: w w')
    then show ?thesis using Inr Cons by (auto simp: w')
  qed
qed simp

lemma exec_service_settled:
  assumes "settled r (fst w)" and "approvals_ok (fst w)" and "ap_id r \<notin> drawn_ids op"
  shows "settled r (fst (exec_service bop res fpr op w)) \<and> approvals_ok (fst (exec_service bop res fpr op w))"
proof -
  obtain st s where w: "w = (st, s)" by (cases w)
  have other: "store_get aid st = Some r' \<Longrightarrow> ap_status r' = Is_Pending \<Longrightarrow>
      close_record res status closing r' (st, s) = Inr (st', s') \<Longrightarrow> settled r st' \<and> approvals_ok st'"
    for aid r' status closing st' s'
    using assms close_record_settled [of res status closing r' st s st' s' r]
      close_record_ok [of res status closing r' st s st' s'] store_get_id [of st aid r']
    by (auto simp: w)
  show ?thesis
  proof (cases op)
    case (S_Approve aid fp actor now)
    then show ?thesis using assms other
      by (auto simp: w approve_def matching_record_def split: option.splits sum.splits prod.splits if_splits)
  next
    case (S_Reject aid actor now)
    then show ?thesis using assms other
      by (auto simp: w reject_def Let_def split: option.splits sum.splits prod.splits if_splits)
  next
    case (S_Expire clock)
    have "\<forall>r' \<in> set (list_pending st). ap_status r' = Is_Pending \<and> ap_id r' \<noteq> ap_id r"
    proof
      fix r' assume "r' \<in> set (list_pending st)"
      then have "r' \<in> set (map snd st)" and p: "ap_status r' = Is_Pending"
        by (auto simp: list_pending_def)
      then have "store_get (ap_id r') st = Some r'" using store_get_mem assms(2) by (simp add: w)
      with p settled_other [of r st r'] assms(1)
      show "ap_status r' = Is_Pending \<and> ap_id r' \<noteq> ap_id r" by (simp add: w)
    qed
    with expire_loop_settled [of r w] assms show ?thesis by (simp add: S_Expire expire_due_def w)
  next
    case (S_Create new_id fp q now ttl)
    then show ?thesis using assms create_settled create_ok by (simp add: w)
  next
    case (S_Invoke rules q rl new_id now ttl)
    have "fst (fst (invoke bop fpr rules q rl new_id now ttl w)) =
        (if pd_effect (evaluate rules q rl) = Require_Approval
         then fst (create_unlocked new_id (fpr q) q now ttl st) else st)"
      by (auto simp: invoke_def start_waiting_def w Let_def split: policy_effect.splits prod.splits sum.splits)
    with S_Invoke assms create_settled create_ok show ?thesis by (simp add: w)
  qed (use assms w in auto)
qed

lemma history_settled:
  assumes "settled r (fst w)" and "approvals_ok (fst w)" and "\<forall>op \<in> set ops. ap_id r \<notin> drawn_ids op"
  shows "settled r (fst (fold (exec_service bop res fpr) ops w))"
  using assms
proof (induction ops arbitrary: w)
  case (Cons op ops)
  with exec_service_settled [of r w op bop res fpr] show ?case by simp
qed simp

lemma settled_mismatch:
  assumes "settled r (fst w)"
  shows "approve res (ap_id r) fp actor now w = (w, Inl Approval_Mismatch)"
    and "reject res (ap_id r) actor now w = (w, Approval_Mismatch)"
  using assms
  by (auto simp: settled_def approve_def matching_record_def reject_def split: prod.splits)

section \<open>What an approval guarantees\<close>

text \<open>
  C10. An approval is granted only to the user it was created for, for the request with its
  fingerprint, before it expires, and while its run waits on it; granting it ends the wait. It is
  granted once: whatever the service and the rest of the system do afterwards (as long as no new
  approval draws its identifier), approving or rejecting it again is refused and changes nothing.
\<close>

theorem approval_is_granted_once:
  assumes "approvals_ok st" and "db_ok db"
    and "approve store_resolve aid fp actor now (st, db) = ((st', db'), Inr r)"
    and "\<forall>op \<in> set ops. aid \<notin> drawn_ids op"
  shows "ap_user r = actor \<and> ap_fingerprint r = fp \<and> now < ap_expires r
    \<and> store_waits db (ap_tenant r) (ap_run r) aid fp
    \<and> \<not> store_waits db' (ap_tenant r) (ap_run r) aid fp \<and> db_ok db'
    \<and> (let w = fold (exec_service bop res fpr) ops (st', db') in
       approve res' aid fp' actor' now' w = (w, Inl Approval_Mismatch)
     \<and> reject res' aid actor' now' w = (w, Approval_Mismatch))"
proof -
  from run_approvals.approve_granted [OF assms(1,2,3)] obtain r0 where
    r0: "store_get aid st = Some r0" "ap_id r0 = aid" "ap_user r0 = actor" "ap_fingerprint r0 = fp"
      "now < ap_expires r0" "run_approvals.waits_on db r0" "\<not> run_approvals.waits_on db' r0" "db_ok db'"
      "r = r0\<lparr>ap_status := Is_Approved\<rparr>" "st' = store_put r st" by metis
  have "settled r (fst (st', db'))" using r0 by (simp add: settled_def)
  moreover have "approvals_ok (fst (st', db'))" using r0(10) store_put_ok [OF assms(1)] by simp
  moreover have "ap_id r = aid" using r0 by simp
  ultimately have "settled r (fst (fold (exec_service bop res fpr) ops (st', db')))"
    using history_settled [of r "(st', db')" ops bop res fpr] assms(4) by simp
  from settled_mismatch [OF this] r0 \<open>ap_id r = aid\<close> show ?thesis
    by (simp add: Let_def run_approvals.waits_on_def)
qed





subsection \<open>An instance\<close>

definition sample_request :: capability_request where
  "sample_request = \<lparr>cr_tenant = 7, cr_user = 8, cr_agent = ''main'', cr_capability = ''files'',
     cr_operation = ''write'', cr_resource = ''docs/a'', cr_arguments = [],
     cr_idempotency_key = ''k'', cr_run = 1\<rparr>"

definition sample_approval :: approval_record where
  "sample_approval = \<lparr>ap_id = ''a1'', ap_fingerprint = ''F'', ap_tenant = 7, ap_user = 8, ap_run = 1,
     ap_expires = 600, ap_status = Is_Pending\<rparr>"

definition sample_approvals :: approval_store where
  "sample_approvals = [(''a1'', sample_approval)]"

definition waiting_row :: run_row where
  "waiting_row = sample_row\<lparr>rr_mode := Some Direct, rr_status := Waiting_Approval,
     rr_decision := Some [(''approval_id'', JStr ''a1''), (''approval_fingerprint'', JStr ''F'')]\<rparr>"

definition waiting_db :: run_db where
  "waiting_db = running_db\<lparr>db_runs := [waiting_row]\<rparr>"

lemma waiting_ok: "db_ok waiting_db"
proof -
  have "flush_run waiting_row running_db = Inr waiting_db"
    by (simp add: flush_run_def running_db_def replace_run_def sample_row_def waiting_db_def
        waiting_row_def run_columns_ok_def optional_ok_def)
  then show ?thesis
    by (rule flush_run_ok(1) [OF running_ok,
          where r = "sample_row\<lparr>rr_mode := Some Direct, rr_status := Running\<rparr>", rotated 3])
      (simp_all add: running_db_def same_identity_def sample_row_def waiting_row_def)
qed

lemma sample_approvals_ok: "approvals_ok sample_approvals"
  by (simp add: approvals_ok_def sample_approvals_def sample_approval_def)

lemma sample_resolve: "\<exists>db'. store_resolve 7 1 Running ''a1'' ''F'' waiting_db = Inr db'"
  by (simp add: store_resolve_def resolve_capability_approval_def change_run_def run_select_def
      waiting_db_def waiting_row_def sample_row_def resolve_approval_row_def decision_of_def
      json_get_def flush_run_def run_columns_ok_def optional_ok_def bump_def Let_def)

lemma sample_grant: "\<exists>db'. approve store_resolve ''a1'' ''F'' 8 10 (sample_approvals, waiting_db) =
    ((store_put (sample_approval\<lparr>ap_status := Is_Approved\<rparr>) sample_approvals, db'),
     Inr (sample_approval\<lparr>ap_status := Is_Approved\<rparr>))"
  using sample_resolve
  by (auto simp: approve_def matching_record_def store_get_def sample_approvals_def
      sample_approval_def close_record_def resolve_record_def)

theorem approval_is_granted_once_witness:
  "\<exists>w. approve store_resolve ''a1'' ''F'' 8 10 (sample_approvals, waiting_db)
      = (w, Inr (sample_approval\<lparr>ap_status := Is_Approved\<rparr>))
    \<and> approve store_resolve ''a1'' ''F'' 8 11 w = (w, Inl Approval_Mismatch)"
proof -
  from sample_grant obtain db' where
    g: "approve store_resolve ''a1'' ''F'' 8 10 (sample_approvals, waiting_db) =
      ((store_put (sample_approval\<lparr>ap_status := Is_Approved\<rparr>) sample_approvals, db'),
       Inr (sample_approval\<lparr>ap_status := Is_Approved\<rparr>))" by blast
  from approval_is_granted_once [OF sample_approvals_ok waiting_ok g, where ops = "[]"] g
  show ?thesis by (auto simp: Let_def)
qed






section \<open>Where approvals get stuck\<close>

text \<open>
  The sweep of due approvals stops with the conflict of the first one whose run no longer
  waits on it (a cancelled run, say): it then expires nothing, and since that record stays first
  and pending, no later sweep does.
\<close>

theorem sweep_stops_at_first_conflict:
  assumes "db_ok db" and "list_pending st = r # rs" and "ap_expires r \<le> clock 0"
    and "\<not> store_waits db (ap_tenant r) (ap_run r) (ap_id r) (ap_fingerprint r)"
  shows "\<exists>e. expire_due store_resolve clock (st, db) = ((st, db), Inl e)"
proof -
  have "\<exists>e. resolve_record store_resolve Cancelled r db = Inl e"
    using run_approvals.resolve_waited [OF assms(1)] assms(4)
    by (cases "resolve_record store_resolve Cancelled r db") (auto simp: resolve_record_def)
  then have "\<exists>e. close_record store_resolve Cancelled Is_Expired r (st, db) = Inl e"
    by (auto simp: close_record_def)
  with assms(2,3) show ?thesis by (auto simp: expire_due_def)
qed

theorem sweep_stops_at_first_conflict_witness:
  "\<exists>e. expire_due store_resolve (\<lambda>_. 700)
      ([(''a1'', sample_approval), (''a2'', sample_approval\<lparr>ap_id := ''a2'', ap_run := 2\<rparr>)], cancelled_db)
    = (([(''a1'', sample_approval), (''a2'', sample_approval\<lparr>ap_id := ''a2'', ap_run := 2\<rparr>)],
        cancelled_db), Inl e)"
proof (rule sweep_stops_at_first_conflict [OF cancelled_ok, where r = sample_approval])
  have "\<not> store_waits cancelled_db 7 1 ''a1'' ''F''"
  proof (cases "run_select 7 1 cancelled_db")
    case (Some row)
    then have "get_for_update 1 cancelled_db = Inr row"
      using run_select_Some [OF Some] by (simp add: get_for_update_mem [OF cancelled_ok])
    then show ?thesis using Some cancelled_get by (auto simp: store_waits_def row_waits_def)
  qed (simp add: store_waits_def)
  then show "\<not> store_waits cancelled_db (ap_tenant sample_approval) (ap_run sample_approval)
      (ap_id sample_approval) (ap_fingerprint sample_approval)"
    by (simp add: sample_approval_def)
qed (simp_all add: list_pending_def sample_approval_def)

text \<open>
  A request made again after its approval lapsed, but before a sweep marked it, is answered
  with the lapsed approval: the run starts to wait on an approval that nobody can grant any more.
\<close>

theorem lapsed_approval_is_reused:
  assumes "approvals_ok st" and "get_pending_by_fingerprint fp st = Some a" and "ap_expires a \<le> now"
    and "begin_wait a s = Inr s'"
  shows "start_waiting begin_wait new_id fp q now ttl (st, s) = ((st, s'), Inr a)
    \<and> (now \<le> now' \<longrightarrow> (\<exists>w e. approve res (ap_id a) fp' actor now' (st, s') = (w, Inl e)))"
proof -
  have "store_get (ap_id a) st = Some a" using pending_fingerprint_Some [OF assms(1,2)] by simp
  with assms show ?thesis
    by (auto simp: start_waiting_def create_unlocked_def Let_def approve_def matching_record_def
        split: sum.splits)
qed

theorem lapsed_approval_is_reused_witness:
  "start_waiting (\<lambda>a s. Inr s) ''a2'' ''F'' sample_request 700 600 (sample_approvals, waiting_db)
     = ((sample_approvals, waiting_db), Inr sample_approval)"
  by (rule conjunct1 [OF lapsed_approval_is_reused [OF sample_approvals_ok]])
    (simp_all add: get_pending_by_fingerprint_def sample_approvals_def sample_approval_def)

end
