(* ===== verification/Decision_Tokens.thy ===== *)
theory Decision_Tokens
  imports Run_State Hub_Prelude
begin

text \<open>
  The values of \<open>routing/types.py\<close>: assessments, confirmation snapshots and route decisions with
  their validators, and the in-memory store of one-time decision tokens. The store keeps two
  dictionaries, records by token digest and the current token by subject; its invariant says that
  they describe the same tokens.
\<close>

section \<open>Assessments, snapshots and decisions\<close>

datatype risk_level = Low | Medium | High

fun risk_rank :: "risk_level \<Rightarrow> nat" where
  "risk_rank Low = 0" | "risk_rank Medium = 1" | "risk_rank High = 2"

datatype route_source = From_Explicit | From_Rule | From_Classifier | From_Verifier | From_User

definition executable_mode_order :: "task_mode list" where
  "executable_mode_order = [Direct, Dispatch, Discuss, Hybrid]"

definition executable :: "task_mode \<Rightarrow> bool" where
  "executable m \<longleftrightarrow> m \<in> set executable_mode_order"

lemma executable_iff: "executable m \<longleftrightarrow> m \<noteq> Auto"
  by (cases m) (simp_all add: executable_def executable_mode_order_def)

record assessment =
  as_mode :: task_mode
  as_confidence :: pyfloat
  as_reason :: string
  as_roles :: "string list"
  as_seconds :: int
  as_cost :: decimal
  as_risk :: risk_level
  as_source :: route_source
  as_logical :: string
  as_deployment :: string
  as_provider :: string

definition safe_route_id :: "string \<Rightarrow> bool" where
  "safe_route_id = ident_match lower_alnum (lower_alnum @ ''_-'') 127"

definition safe_text :: "string \<Rightarrow> bool" where
  "safe_text v \<longleftrightarrow> v = py_strip v \<and> \<not> list_ex control_char v"

definition assessment_ok :: "assessment \<Rightarrow> bool" where
  "assessment_ok a \<longleftrightarrow>
     executable (as_mode a) \<and> 0 \<le> as_confidence a \<and> as_confidence a \<le> 1
   \<and> 1 \<le> length (as_reason a) \<and> length (as_reason a) \<le> 512 \<and> safe_text (as_reason a)
   \<and> length (as_roles a) \<le> 8 \<and> distinct (as_roles a) \<and> list_all safe_route_id (as_roles a)
   \<and> 0 \<le> as_seconds a \<and> as_seconds a \<le> 604800 \<and> 0 \<le> as_cost a \<and> as_cost a \<le> 10000
   \<and> list_all safe_route_id [as_logical a, as_deployment a, as_provider a]"

text \<open>\<open>max(..., key=_risk_rank)\<close> with the default for no assessment.\<close>

fun aggregate_risk :: "assessment list \<Rightarrow> risk_level" where
  "aggregate_risk [] = Low"
| "aggregate_risk [a] = as_risk a"
| "aggregate_risk (a # b # as) =
     (let r = aggregate_risk (b # as) in if risk_rank (as_risk a) \<ge> risk_rank r then as_risk a else r)"

definition reason_code :: "string \<Rightarrow> bool" where
  "reason_code = ident_match lower_alpha (lower_alnum @ ''_'') 127"

record snapshot =
  sn_assessments :: "assessment list"
  sn_reason :: string
  sn_options :: "task_mode list"
  sn_risk :: risk_level
  sn_approval :: bool

definition snapshot_ok :: "snapshot \<Rightarrow> bool" where
  "snapshot_ok s \<longleftrightarrow>
     list_all assessment_ok (sn_assessments s) \<and> length (sn_assessments s) \<le> 4
   \<and> reason_code (sn_reason s) \<and> sn_options s = executable_mode_order
   \<and> sn_risk s = aggregate_risk (sn_assessments s)
   \<and> (sn_risk s = High \<longrightarrow> sn_approval s) \<and> (sn_assessments s = [] \<longrightarrow> \<not> sn_approval s)"

datatype route_status = Ready | Waiting_Mode

record decision =
  de_mode :: "task_mode option"
  de_choice :: bool
  de_status :: route_status
  de_assessments :: "assessment list"
  de_reason :: "string option"
  de_options :: "task_mode list"
  de_token :: "string option"
  de_version :: int
  de_risk :: risk_level
  de_approval :: bool
  de_permissions :: bool

definition token_alphabet :: string where
  "token_alphabet = upper_alpha @ lower_alnum @ ''_-''"

definition token_ok :: "string \<Rightarrow> bool" where
  "token_ok t \<longleftrightarrow> 32 \<le> length t \<and> length t \<le> 128 \<and> list_all (\<lambda>c. c \<in> set token_alphabet) t"

text \<open>The positions of the user's own assessments.\<close>

definition user_indexes :: "assessment list \<Rightarrow> nat list" where
  "user_indexes as = filter (\<lambda>k. as_source (as ! k) = From_User) [0..<length as]"

definition decision_ok :: "decision \<Rightarrow> bool" where
  "decision_ok d \<longleftrightarrow>
     list_all assessment_ok (de_assessments d) \<and> length (de_assessments d) \<le> 4
   \<and> list_all executable (de_options d) \<and> distinct (de_options d)
   \<and> (case de_token d of None \<Rightarrow> True | Some t \<Rightarrow> token_ok t)
   \<and> (case de_reason d of None \<Rightarrow> True | Some r \<Rightarrow> length r \<le> 128 \<and> reason_code r)
   \<and> 1 \<le> de_version d \<and> de_version d \<le> 2 ^ 31 - 1 \<and> de_permissions d
   \<and> (case de_status d of
        Ready \<Rightarrow>
          (case de_mode d of None \<Rightarrow> False | Some m \<Rightarrow> executable m \<and> \<not> de_choice d
             \<and> de_assessments d \<noteq> []
             \<and> (if user_indexes (de_assessments d) \<noteq> []
                then user_indexes (de_assessments d) = [length (de_assessments d) - 1]
                  \<and> as_mode (last (de_assessments d)) = m
                else list_all (\<lambda>a. as_mode a = m) (de_assessments d)))
          \<and> de_reason d = None \<and> de_options d = [] \<and> de_token d = None
      | Waiting_Mode \<Rightarrow>
          de_mode d = None \<and> de_choice d \<and> de_reason d \<noteq> None
          \<and> de_options d = executable_mode_order)
   \<and> de_risk d = aggregate_risk (de_assessments d)
   \<and> (de_risk d = High \<longrightarrow> de_approval d) \<and> (de_assessments d = [] \<longrightarrow> \<not> de_approval d)"

section \<open>The token store\<close>

record subject =
  su_tenant :: string
  su_user :: string
  su_task :: string
  su_generation :: string

definition subject_char_head :: string where
  "subject_char_head = upper_alpha @ lower_alnum"

definition subject_ok :: "subject \<Rightarrow> bool" where
  "subject_ok s \<longleftrightarrow>
     list_all (ident_match subject_char_head (subject_char_head @ ''_.:@-'') 127)
       [su_tenant s, su_user s, su_task s, su_generation s]"

record token_record =
  tr_subject :: subject
  tr_version :: int
  tr_snapshot :: snapshot
  tr_expires :: pyfloat

record token_store =
  ts_records :: "(string \<times> token_record) list"
  ts_subjects :: "(subject \<times> int \<times> string option) list"
  ts_last :: "pyfloat option"

definition empty_tokens :: token_store where
  "empty_tokens = \<lparr>ts_records = [], ts_subjects = [], ts_last = None\<rparr>"

datatype token_error =
  Bad_Ttl | Clock_Unavailable | Capacity_Unavailable | Version_Exhausted | Draws_Exhausted

text \<open>A reading of the injected clock: it may raise, be no finite number, or be a time.\<close>

datatype reading = Clock_Raises | Clock_Not_Finite | Reads pyfloat

definition invalidate_tokens :: "token_store \<Rightarrow> token_store" where
  "invalidate_tokens s = s\<lparr>ts_records := [], ts_subjects := []\<rparr>"

definition clock_now :: "reading \<Rightarrow> token_store \<Rightarrow> token_store \<times> pyfloat option" where
  "clock_now c s = (case c of
      Reads now \<Rightarrow>
        if (case ts_last s of None \<Rightarrow> False | Some l \<Rightarrow> now < l) then (invalidate_tokens s, None)
        else (s\<lparr>ts_last := Some now\<rparr>, Some now)
    | _ \<Rightarrow> (invalidate_tokens s, None))"

text \<open>
  \<open>_purge\<close>: each expired record is popped, and with it its subject's state where that still
  names the popped digest.
\<close>

definition purge_one :: "string \<times> token_record \<Rightarrow> token_store \<Rightarrow> token_store" where
  "purge_one x s = (case x of (d, r) \<Rightarrow>
     let s1 = s\<lparr>ts_records := AList.delete d (ts_records s)\<rparr> in
     case map_of (ts_subjects s1) (tr_subject r) of
       Some (v, Some d') \<Rightarrow>
         if d' = d then s1\<lparr>ts_subjects := AList.delete (tr_subject r) (ts_subjects s1)\<rparr> else s1
     | _ \<Rightarrow> s1)"

definition purge :: "pyfloat \<Rightarrow> token_store \<Rightarrow> token_store" where
  "purge now s = fold purge_one (filter (\<lambda>(d, r). tr_expires r \<le> now) (ts_records s)) s"

text \<open>
  \<open>digest\<close> is the hash of a token; \<open>draws\<close> are the tokens the random source gives, of which the
  first with a fresh digest is taken. \<open>max_records\<close> and \<open>max_version\<close> are the store's bounds.
\<close>

definition mint ::
  "(string \<Rightarrow> string) \<Rightarrow> int \<Rightarrow> string list \<Rightarrow> subject \<Rightarrow> snapshot \<Rightarrow> pyfloat \<Rightarrow> int
     \<Rightarrow> token_store \<Rightarrow> token_store \<times> (token_error + string \<times> int)" where
  "mint digest max_version draws sub snap expires current_version s =
     (if current_version \<ge> max_version then (s, Inl Version_Exhausted)
      else case find (\<lambda>t. map_of (ts_records s) (digest t) = None) draws of
          None \<Rightarrow> (s, Inl Draws_Exhausted)
        | Some t \<Rightarrow>
            let v = current_version + 1;
                r = \<lparr>tr_subject = sub, tr_version = v, tr_snapshot = snap, tr_expires = expires\<rparr> in
            (s\<lparr>ts_records := AList.update (digest t) r (ts_records s),
               ts_subjects := AList.update sub (v, Some (digest t)) (ts_subjects s)\<rparr>,
             Inr (t, v)))"

definition forget_current :: "subject \<Rightarrow> token_store \<Rightarrow> token_store" where
  "forget_current sub s = (case map_of (ts_subjects s) sub of
      Some (_, Some d) \<Rightarrow> s\<lparr>ts_records := AList.delete d (ts_records s),
                            ts_subjects := AList.delete sub (ts_subjects s)\<rparr>
    | _ \<Rightarrow> s)"

definition issue ::
  "(string \<Rightarrow> string) \<Rightarrow> nat \<Rightarrow> int \<Rightarrow> reading \<Rightarrow> string list \<Rightarrow> subject \<Rightarrow> snapshot \<Rightarrow> pyfloat
     \<Rightarrow> token_store \<Rightarrow> token_store \<times> (token_error + string \<times> int)" where
  "issue digest max_records max_version c draws sub snap ttl s =
     (if ttl \<le> 0 then (s, Inl Bad_Ttl)
      else case clock_now c s of
        (s0, None) \<Rightarrow> (s0, Inl Clock_Unavailable)
      | (s0, Some now) \<Rightarrow>
          let s1 = purge now s0; state = map_of (ts_subjects s1) sub in
          if state = None \<and> length (ts_records s1) \<ge> max_records
          then (s1, Inl Capacity_Unavailable)
          else mint digest max_version draws sub snap (now + ttl)
                 (case state of None \<Rightarrow> 0 | Some (v, _) \<Rightarrow> v) (forget_current sub s1))"

definition consume ::
  "(string \<Rightarrow> string) \<Rightarrow> reading \<Rightarrow> string \<Rightarrow> subject \<Rightarrow> int \<Rightarrow> task_mode \<Rightarrow> token_store
     \<Rightarrow> token_store \<times> (token_error + snapshot option)" where
  "consume digest c t sub version m s =
     (if \<not> token_ok t \<or> version \<le> 0 \<or> \<not> executable m \<or> \<not> subject_ok sub then (s, Inr None)
      else case clock_now c s of
        (s0, None) \<Rightarrow> (s0, Inl Clock_Unavailable)
      | (s0, Some now) \<Rightarrow>
          let s1 = purge now s0 in
          (case (map_of (ts_records s1) (digest t), map_of (ts_subjects s1) sub) of
             (Some r, Some (v, cur)) \<Rightarrow>
               if cur \<noteq> Some (digest t) \<or> tr_subject r \<noteq> sub \<or> tr_version r \<noteq> version
                  \<or> v \<noteq> version \<or> m \<notin> set (sn_options (tr_snapshot r))
               then (s1, Inr None)
               else (s1\<lparr>ts_records := AList.delete (digest t) (ts_records s1),
                        ts_subjects := AList.delete sub (ts_subjects s1)\<rparr>,
                     Inr (Some (tr_snapshot r)))
           | _ \<Rightarrow> (s1, Inr None)))"

section \<open>The two dictionaries agree\<close>

definition tokens_ok :: "token_store \<Rightarrow> bool" where
  "tokens_ok s \<longleftrightarrow> distinct (map fst (ts_records s)) \<and> distinct (map fst (ts_subjects s))
   \<and> (\<forall>d r. map_of (ts_records s) d = Some r \<longrightarrow>
        map_of (ts_subjects s) (tr_subject r) = Some (tr_version r, Some d))
   \<and> (\<forall>sub v cur. map_of (ts_subjects s) sub = Some (v, cur) \<longrightarrow>
        (\<exists>d r. cur = Some d \<and> map_of (ts_records s) d = Some r \<and> tr_subject r = sub
             \<and> tr_version r = v))"

lemma tokens_ok_empty: "tokens_ok empty_tokens"
  by (simp add: tokens_ok_def empty_tokens_def)

lemma tokens_ok_last [simp]: "tokens_ok (s\<lparr>ts_last := x\<rparr>) \<longleftrightarrow> tokens_ok s"
  by (simp add: tokens_ok_def)

lemma tokens_ok_invalidate [simp]: "tokens_ok (invalidate_tokens s)"
  by (simp add: tokens_ok_def invalidate_tokens_def)

text \<open>Removing a record together with its subject.\<close>

definition drop_token :: "string \<Rightarrow> subject \<Rightarrow> token_store \<Rightarrow> token_store" where
  "drop_token d sub s = s\<lparr>ts_records := AList.delete d (ts_records s),
     ts_subjects := AList.delete sub (ts_subjects s)\<rparr>"

lemma drop_token_ok:
  assumes "tokens_ok s" and "map_of (ts_records s) d = Some r" and "tr_subject r = sub"
  shows "tokens_ok (drop_token d sub s)"
proof -
  have own: "map_of (ts_subjects s) sub = Some (tr_version r, Some d)"
    using assms by (auto simp: tokens_ok_def)
  have rec: "map_of (ts_records s) d' = Some r' \<Longrightarrow> tr_subject r' = sub \<Longrightarrow> d' = d" for d' r'
    using assms(1) own unfolding tokens_ok_def by fastforce
  have sub: "map_of (ts_subjects s) sub' = Some (v, Some d) \<Longrightarrow> sub' = sub" for sub' v
    using assms unfolding tokens_ok_def by fastforce
  show ?thesis
    unfolding tokens_ok_def
  proof (intro conjI allI impI)
    show "distinct (map fst (ts_records (drop_token d sub s)))"
      "distinct (map fst (ts_subjects (drop_token d sub s)))"
      using assms(1) by (simp_all add: drop_token_def tokens_ok_def distinct_delete)
  next
    fix d' r' assume "map_of (ts_records (drop_token d sub s)) d' = Some r'"
    then have r': "map_of (ts_records s) d' = Some r'" "d' \<noteq> d"
      by (auto simp: drop_token_def delete_conv' split: if_splits)
    then have "tr_subject r' \<noteq> sub" using rec by blast
    with r' assms(1) show "map_of (ts_subjects (drop_token d sub s)) (tr_subject r') =
        Some (tr_version r', Some d')"
      by (simp add: drop_token_def delete_conv' tokens_ok_def)
  next
    fix sub' v cur assume "map_of (ts_subjects (drop_token d sub s)) sub' = Some (v, cur)"
    then have s': "map_of (ts_subjects s) sub' = Some (v, cur)" "sub' \<noteq> sub"
      by (auto simp: drop_token_def delete_conv' split: if_splits)
    with assms(1) obtain d' r' where d': "cur = Some d'" "map_of (ts_records s) d' = Some r'"
      "tr_subject r' = sub'" "tr_version r' = v" unfolding tokens_ok_def by blast
    then have "d' \<noteq> d" using sub s' by blast
    with d' show "\<exists>d' r'. cur = Some d' \<and> map_of (ts_records (drop_token d sub s)) d' = Some r'
        \<and> tr_subject r' = sub' \<and> tr_version r' = v"
      by (auto simp: drop_token_def delete_conv')
  qed
qed

lemma purge_one_drop:
  assumes "tokens_ok s" and "map_of (ts_records s) d = Some r"
  shows "purge_one (d, r) s = drop_token d (tr_subject r) s"
proof -
  have "map_of (ts_subjects s) (tr_subject r) = Some (tr_version r, Some d)"
    using assms by (auto simp: tokens_ok_def)
  then show ?thesis by (simp add: purge_one_def drop_token_def Let_def)
qed

lemma fold_purge:
  assumes "tokens_ok s" and "distinct (map fst xs)" and "\<forall>(d, r) \<in> set xs. map_of (ts_records s) d = Some r"
  shows "tokens_ok (fold purge_one xs s) \<and> ts_last (fold purge_one xs s) = ts_last s
    \<and> (\<forall>d. map_of (ts_records (fold purge_one xs s)) d =
         (if d \<in> fst ` set xs then None else map_of (ts_records s) d))
    \<and> length (ts_records (fold purge_one xs s)) \<le> length (ts_records s)"
  using assms
proof (induction xs arbitrary: s)
  case (Cons x xs)
  obtain d r where x: "x = (d, r)" by (cases x)
  have r: "map_of (ts_records s) d = Some r" using Cons.prems(3) by (simp add: x)
  let ?s = "drop_token d (tr_subject r) s"
  have s': "purge_one x s = ?s" using purge_one_drop [OF Cons.prems(1) r] by (simp add: x)
  have ok: "tokens_ok ?s" by (rule drop_token_ok [OF Cons.prems(1) r refl])
  have rec: "map_of (ts_records ?s) d' = (if d' = d then None else map_of (ts_records s) d')" for d'
    by (simp add: drop_token_def delete_conv')
  have "\<forall>(d', r') \<in> set xs. map_of (ts_records ?s) d' = Some r'"
  proof (clarify)
    fix d' r' assume m: "(d', r') \<in> set xs"
    then have "d' \<noteq> d" using Cons.prems(2) by (force simp: x)
    with m Cons.prems(3) show "map_of (ts_records ?s) d' = Some r'" by (auto simp: rec)
  qed
  from Cons.IH [OF ok _ this] Cons.prems(2) have
    IH: "tokens_ok (fold purge_one xs ?s)" "ts_last (fold purge_one xs ?s) = ts_last ?s"
      "\<forall>d. map_of (ts_records (fold purge_one xs ?s)) d =
         (if d \<in> fst ` set xs then None else map_of (ts_records ?s) d)"
      "length (ts_records (fold purge_one xs ?s)) \<le> length (ts_records ?s)" by simp_all
  have len: "length (ts_records ?s) \<le> length (ts_records s)"
    by (simp add: drop_token_def length_delete_le)
  have last: "ts_last ?s = ts_last s" by (simp add: drop_token_def)
  have f: "fold purge_one (x # xs) s = fold purge_one xs ?s" by (simp add: s')
  show ?case
    unfolding f
  proof (intro conjI allI)
    fix e
    show "map_of (ts_records (fold purge_one xs ?s)) e =
        (if e \<in> fst ` set (x # xs) then None else map_of (ts_records s) e)"
      unfolding spec [OF IH(3)] rec by (simp add: x)
  qed (use IH(1,2,4) len last in simp_all)
qed simp

lemma purge_ok:
  assumes "tokens_ok s"
  shows "tokens_ok (purge now s)" and "ts_last (purge now s) = ts_last s"
    and "map_of (ts_records (purge now s)) d =
      (case map_of (ts_records s) d of None \<Rightarrow> None
       | Some r \<Rightarrow> if tr_expires r \<le> now then None else Some r)"
    and "length (ts_records (purge now s)) \<le> length (ts_records s)"
proof -
  let ?xs = "filter (\<lambda>(d, r). tr_expires r \<le> now) (ts_records s)"
  have dist: "distinct (map fst (ts_records s))" using assms by (simp add: tokens_ok_def)
  then have "distinct (map fst ?xs)" by (auto simp: distinct_map intro: inj_on_subset)
  moreover have "\<forall>(d, r) \<in> set ?xs. map_of (ts_records s) d = Some r"
    using dist by auto
  ultimately have *: "tokens_ok (purge now s) \<and> ts_last (purge now s) = ts_last s
    \<and> (\<forall>d. map_of (ts_records (purge now s)) d =
         (if d \<in> fst ` set ?xs then None else map_of (ts_records s) d))
    \<and> length (ts_records (purge now s)) \<le> length (ts_records s)"
    unfolding purge_def by (rule fold_purge [OF assms])
  then show "tokens_ok (purge now s)" "ts_last (purge now s) = ts_last s"
    "length (ts_records (purge now s)) \<le> length (ts_records s)" by blast+
  have "d \<in> fst ` set ?xs \<longleftrightarrow> (\<exists>r. map_of (ts_records s) d = Some r \<and> tr_expires r \<le> now)"
  proof -
    have "set ?xs = {(d, r). map_of (ts_records s) d = Some r \<and> tr_expires r \<le> now}"
      using map_of_eq_Some_iff [OF dist] by auto
    then show ?thesis by (auto simp: image_iff)
  qed
  with * show "map_of (ts_records (purge now s)) d =
      (case map_of (ts_records s) d of None \<Rightarrow> None
       | Some r \<Rightarrow> if tr_expires r \<le> now then None else Some r)"
    by (auto split: option.splits)
qed

section \<open>Issuing and consuming\<close>

lemma clock_now_ok:
  "tokens_ok s \<Longrightarrow> clock_now c s = (s', x) \<Longrightarrow> tokens_ok s'"
  by (auto simp: clock_now_def split: reading.splits if_splits)

lemma clock_now_Some:
  "clock_now c s = (s', Some now) \<Longrightarrow> c = Reads now \<and> s' = s\<lparr>ts_last := Some now\<rparr>"
  by (auto simp: clock_now_def split: reading.splits if_splits)

lemma add_token_ok:
  assumes "tokens_ok s" and "map_of (ts_records s) d = None" and "map_of (ts_subjects s) sub = None"
    and "tr_subject r = sub"
  shows "tokens_ok (s\<lparr>ts_records := AList.update d r (ts_records s),
    ts_subjects := AList.update sub (tr_version r, Some d) (ts_subjects s)\<rparr>)" (is "tokens_ok ?s")
proof -
  have rec: "map_of (ts_records s) d' = Some r' \<Longrightarrow>
      map_of (ts_subjects s) (tr_subject r') = Some (tr_version r', Some d')" for d' r'
    using assms(1) unfolding tokens_ok_def by blast
  have sub: "map_of (ts_subjects s) sub' = Some (v, cur) \<Longrightarrow> \<exists>d' r'. cur = Some d'
      \<and> map_of (ts_records s) d' = Some r' \<and> tr_subject r' = sub' \<and> tr_version r' = v" for sub' v cur
    using assms(1) unfolding tokens_ok_def by blast
  show ?thesis
    unfolding tokens_ok_def
  proof (intro conjI allI impI)
    show "distinct (map fst (ts_records ?s))" "distinct (map fst (ts_subjects ?s))"
      using assms(1) by (simp_all add: tokens_ok_def distinct_update)
  next
    fix d' r' assume *: "map_of (ts_records ?s) d' = Some r'"
    show "map_of (ts_subjects ?s) (tr_subject r') = Some (tr_version r', Some d')"
    proof (cases "d' = d")
      case True
      with * assms(4) show ?thesis by simp
    next
      case False
      with * have r': "map_of (ts_subjects s) (tr_subject r') = Some (tr_version r', Some d')"
        by (intro rec) simp
      moreover have "tr_subject r' \<noteq> sub" using r' assms(3) by (metis option.distinct(1))
      ultimately show ?thesis by simp
    qed
  next
    fix sub' v cur assume *: "map_of (ts_subjects ?s) sub' = Some (v, cur)"
    show "\<exists>d' r'. cur = Some d' \<and> map_of (ts_records ?s) d' = Some r'
        \<and> tr_subject r' = sub' \<and> tr_version r' = v"
    proof (cases "sub' = sub")
      case True
      with * assms(4) show ?thesis by auto
    next
      case False
      with * obtain d' r' where d': "cur = Some d'" "map_of (ts_records s) d' = Some r'"
        "tr_subject r' = sub'" "tr_version r' = v" using sub [of sub' v cur] by auto
      then have "d' \<noteq> d" using assms(2) by (metis option.distinct(1))
      with d' show ?thesis by auto
    qed
  qed
qed

lemma find_fresh: "find P xs = Some x \<Longrightarrow> P x"
  by (auto simp: find_Some_iff)

text \<open>The token's own record, current for its subject, options as offered.\<close>

definition token_live ::
  "(string \<Rightarrow> string) \<Rightarrow> token_store \<Rightarrow> string \<Rightarrow> subject \<Rightarrow> int \<Rightarrow> snapshot \<Rightarrow> bool" where
  "token_live digest s t sub v snap \<longleftrightarrow>
     (\<exists>r. map_of (ts_records s) (digest t) = Some r \<and> tr_subject r = sub \<and> tr_version r = v
        \<and> tr_snapshot r = snap)"

lemma forget_current_ok:
  assumes "tokens_ok s"
  shows "tokens_ok (forget_current sub s) \<and> map_of (ts_subjects (forget_current sub s)) sub = None"
proof (cases "map_of (ts_subjects s) sub")
  case (Some p)
  obtain v x where p: "p = (v, x)" by (cases p)
  with assms Some obtain d r where d: "x = Some d" "map_of (ts_records s) d = Some r" "tr_subject r = sub"
    unfolding tokens_ok_def by blast
  have "forget_current sub s = drop_token d sub s"
    by (simp add: forget_current_def Some p d drop_token_def)
  with drop_token_ok [OF assms d(2,3)] show ?thesis by (simp add: drop_token_def)
qed (use assms in \<open>simp add: forget_current_def\<close>)

lemma mint_ok:
  assumes "tokens_ok s" and "map_of (ts_subjects s) sub = None"
    and "mint digest mv draws sub snap e cv s = (s', out)"
  shows "tokens_ok s' \<and> (\<forall>t v. out = Inr (t, v) \<longrightarrow> token_live digest s' t sub v snap \<and> v = cv + 1)"
proof (cases "cv \<ge> mv \<or> find (\<lambda>t. map_of (ts_records s) (digest t) = None) draws = None")
  case True
  with assms show ?thesis by (auto simp: mint_def split: if_splits)
next
  case False
  then obtain t where t: "find (\<lambda>t. map_of (ts_records s) (digest t) = None) draws = Some t" by auto
  let ?r = "\<lparr>tr_subject = sub, tr_version = cv + 1, tr_snapshot = snap, tr_expires = e\<rparr>"
  have s': "s' = s\<lparr>ts_records := AList.update (digest t) ?r (ts_records s),
      ts_subjects := AList.update sub (cv + 1, Some (digest t)) (ts_subjects s)\<rparr>"
    and out: "out = Inr (t, cv + 1)"
    using assms(3) False t by (simp_all add: mint_def Let_def)
  have "tokens_ok s'"
    using add_token_ok [OF assms(1) find_fresh [OF t] assms(2), of ?r] by (simp add: s')
  then show ?thesis by (simp add: out token_live_def) (simp add: s')
qed

lemma issue_state:
  assumes "tokens_ok s" and "issue digest mr mv c draws sub snap ttl s = (s', out)"
  shows "tokens_ok s' \<and> (\<forall>t v. out = Inr (t, v) \<longrightarrow> token_live digest s' t sub v snap)"
proof (cases "0 < ttl")
  case True
  obtain s0 n where clk: "clock_now c s = (s0, n)" by (cases "clock_now c s")
  note ok0 = clock_now_ok [OF assms(1) clk]
  show ?thesis
  proof (cases n)
    case (Some now)
    note ok1 = purge_ok(1) [OF ok0, of now]
    note fc = forget_current_ok [OF ok1, of sub]
    show ?thesis
    proof (cases "map_of (ts_subjects (purge now s0)) sub = None \<and> length (ts_records (purge now s0)) \<ge> mr")
      case True
      with assms(2) \<open>0 < ttl\<close> clk Some ok1 show ?thesis by (auto simp: issue_def Let_def)
    next
      case False
      with assms(2) \<open>0 < ttl\<close> clk Some have "mint digest mv draws sub snap (now + ttl)
          (case map_of (ts_subjects (purge now s0)) sub of None \<Rightarrow> 0 | Some (v, _) \<Rightarrow> v)
          (forget_current sub (purge now s0)) = (s', out)"
        by (auto simp: issue_def Let_def)
      from mint_ok [OF conjunct1 [OF fc] conjunct2 [OF fc] this] show ?thesis by blast
    qed
  qed (use assms(2) True clk ok0 in \<open>auto simp: issue_def\<close>)
qed (use assms in \<open>auto simp: issue_def\<close>)

lemma consume_cases:
  assumes "tokens_ok s" and "consume digest c t sub v m s = (s', out)"
  obtains (Same) "s' = s" "out = Inr None"
    | (No_Clock) "s' = invalidate_tokens s" "out = Inl Clock_Unavailable"
    | (Purged) now where "c = Reads now" "s' = purge now (s\<lparr>ts_last := Some now\<rparr>)" "out = Inr None"
    | (Taken) now r where "c = Reads now" "map_of (ts_records s) (digest t) = Some r"
        "tr_subject r = sub" "tr_version r = v" "now < tr_expires r" "m \<in> set (sn_options (tr_snapshot r))"
        "s' = drop_token (digest t) sub (purge now (s\<lparr>ts_last := Some now\<rparr>))"
        "out = Inr (Some (tr_snapshot r))"
proof (cases "\<not> token_ok t \<or> v \<le> 0 \<or> \<not> executable m \<or> \<not> subject_ok sub")
  case True
  with assms(2) that(1) show ?thesis by (auto simp: consume_def)
next
  case False
  obtain s0 n where clk: "clock_now c s = (s0, n)" by (cases "clock_now c s")
  show ?thesis
  proof (cases n)
    case None
    with clk have "s0 = invalidate_tokens s"
      by (auto simp: clock_now_def split: reading.splits if_splits)
    with assms(2) False clk None that(2) show ?thesis by (auto simp: consume_def)
  next
    case (Some now)
    from clock_now_Some [OF clk [unfolded Some]] have c: "c = Reads now" "s0 = s\<lparr>ts_last := Some now\<rparr>"
      by auto
    let ?s1 = "purge now s0"
    have ok0: "tokens_ok s0" using assms(1) by (simp add: c)
    show ?thesis
    proof (cases "out = Inr None")
      case True
      with assms(2) False clk Some have "s' = ?s1"
        by (auto simp: consume_def Let_def split: option.splits prod.splits if_splits)
      with c True that(3) show ?thesis by simp
    next
      case taken: False
      from assms(2) False clk Some taken obtain r where r: "map_of (ts_records ?s1) (digest t) = Some r"
        "tr_subject r = sub" "tr_version r = v" "m \<in> set (sn_options (tr_snapshot r))"
        "s' = drop_token (digest t) sub ?s1" "out = Inr (Some (tr_snapshot r))"
        by (auto simp: consume_def Let_def drop_token_def split: option.splits prod.splits if_splits)
      have "map_of (ts_records s) (digest t) = Some r" "now < tr_expires r"
        using r(1) unfolding purge_ok(3) [OF ok0] by (auto simp: c split: option.splits if_splits)
      with c r that(4) show ?thesis by blast
    qed
  qed
qed

lemma consume_state:
  assumes "tokens_ok s" and "consume digest c t sub v m s = (s', out)"
  shows "tokens_ok s'"
  using assms
proof (cases rule: consume_cases)
  case (Taken now r)
  have ok: "tokens_ok (s\<lparr>ts_last := Some now\<rparr>)" using assms(1) by simp
  have "map_of (ts_records (purge now (s\<lparr>ts_last := Some now\<rparr>))) (digest t) = Some r"
    unfolding purge_ok(3) [OF ok] using Taken by simp
  from drop_token_ok [OF purge_ok(1) [OF ok] this Taken(3)] Taken(7) show ?thesis by simp
qed (use assms(1) in \<open>auto intro: purge_ok(1)\<close>)

text \<open>What is live after a consumption was live before.\<close>

lemma consume_only_kills:
  assumes "tokens_ok s" and "consume digest c t sub v m s = (s', out)"
    and "token_live digest s' t' sub' v' snap'"
  shows "token_live digest s t' sub' v' snap'"
proof -
  have "map_of (ts_records s') d = Some r \<Longrightarrow> map_of (ts_records s) d = Some r" for d r
    using assms(1,2)
  proof (cases rule: consume_cases)
    case (Purged now)
    assume "map_of (ts_records s') d = Some r"
    then show ?thesis
      using purge_ok(3) [of "s\<lparr>ts_last := Some now\<rparr>" now d] assms(1) Purged
      by (auto split: option.splits if_splits)
  next
    case (Taken now r')
    assume "map_of (ts_records s') d = Some r"
    then show ?thesis
      using purge_ok(3) [of "s\<lparr>ts_last := Some now\<rparr>" now d] assms(1) Taken
      by (auto simp: drop_token_def split: option.splits if_splits)
  qed (auto simp: invalidate_tokens_def)
  with assms(3) show ?thesis unfolding token_live_def by blast
qed

lemma consume_taken:
  assumes "tokens_ok s" and "consume digest c t sub v m s = (s', Inr (Some snap))"
  shows "token_live digest s t sub v snap \<and> m \<in> set (sn_options snap)
    \<and> (\<forall>sub' v' snap'. \<not> token_live digest s' t sub' v' snap')"
  using assms
proof (cases rule: consume_cases)
  case (Taken now r)
  then show ?thesis by (auto simp: token_live_def drop_token_def)
qed simp_all

section \<open>The interface the router uses\<close>

text \<open>
  What a router may expect of a token store: an issued token is live for exactly its subject,
  version and snapshot; a consumption that succeeds names a live token and an offered mode, and
  the token is not live afterwards for anybody; no consumption brings a token to life.
\<close>

type_synonym ('c, 's) issue_op =
  "'c \<Rightarrow> subject \<Rightarrow> snapshot \<Rightarrow> pyfloat \<Rightarrow> 's \<Rightarrow> 's \<times> (token_error + string \<times> int)"
type_synonym ('c, 's) consume_op =
  "'c \<Rightarrow> string \<Rightarrow> subject \<Rightarrow> int \<Rightarrow> task_mode \<Rightarrow> 's \<Rightarrow> 's \<times> (token_error + snapshot option)"

locale one_time_tokens =
  fixes inv :: "'s \<Rightarrow> bool"
    and live :: "'s \<Rightarrow> string \<Rightarrow> subject \<Rightarrow> int \<Rightarrow> snapshot \<Rightarrow> bool"
    and issue_op :: "('c, 's) issue_op"
    and consume_op :: "('c, 's) consume_op"
  assumes issue_law: "inv s \<Longrightarrow> issue_op c sub snap ttl s = (s', issued) \<Longrightarrow>
      inv s' \<and> (\<forall>t v. issued = Inr (t, v) \<longrightarrow> live s' t sub v snap)"
    and consume_inv: "inv s \<Longrightarrow> consume_op c t sub v m s = (s', out) \<Longrightarrow> inv s'"
    and consume_live: "inv s \<Longrightarrow> consume_op c t sub v m s = (s', Inr (Some snap)) \<Longrightarrow>
      live s t sub v snap \<and> m \<in> set (sn_options snap) \<and> (\<forall>sub' v' snap'. \<not> live s' t sub' v' snap')"
    and consume_kills: "inv s \<Longrightarrow> consume_op c t sub v m s = (s', out) \<Longrightarrow>
      live s' t' sub' v' snap' \<Longrightarrow> live s t' sub' v' snap'"
begin

text \<open>A list of consumption attempts, whatever their arguments.\<close>

fun attempts :: "('c \<times> string \<times> subject \<times> int \<times> task_mode) list \<Rightarrow> 's \<Rightarrow> 's" where
  "attempts [] s = s"
| "attempts ((c, t, sub, v, m) # as) s = attempts as (fst (consume_op c t sub v m s))"

lemma attempts_dead:
  assumes "inv s" and "\<forall>sub v snap. \<not> live s t sub v snap"
  shows "inv (attempts as s) \<and> (\<forall>sub v snap. \<not> live (attempts as s) t sub v snap)"
  using assms
proof (induction as s rule: attempts.induct)
  case (2 c t' sub v m as s)
  obtain s' out where c: "consume_op c t' sub v m s = (s', out)" by fastforce
  with consume_inv [OF 2(2) c] consume_kills [OF 2(2) c] 2(1,3) show ?case by (simp, blast)
qed simp

lemma consumed_once:
  assumes "inv s" and "consume_op c t sub v m s = (s', Inr (Some snap))"
  shows "snd (consume_op c' t sub' v' m' (attempts as s')) \<noteq> Inr (Some snap')"
proof
  assume *: "snd (consume_op c' t sub' v' m' (attempts as s')) = Inr (Some snap')"
  obtain s2 where c2: "consume_op c' t sub' v' m' (attempts as s') = (s2, Inr (Some snap'))"
    using * by (metis prod.collapse)
  from attempts_dead [OF consume_inv [OF assms], of t as] consume_live [OF assms]
  have "inv (attempts as s') \<and> \<not> live (attempts as s') t sub' v' snap'" by blast
  with consume_live [OF _ c2] show False by blast
qed

end

text \<open>The in-memory store as the router calls it: a reading of the clock and the random draws.\<close>

definition store_issue ::
  "(string \<Rightarrow> string) \<Rightarrow> nat \<Rightarrow> int \<Rightarrow> (reading \<times> string list, token_store) issue_op" where
  "store_issue digest max_records max_version c sub snap ttl s =
     issue digest max_records max_version (fst c) (snd c) sub snap ttl s"

definition store_consume ::
  "(string \<Rightarrow> string) \<Rightarrow> (reading \<times> string list, token_store) consume_op" where
  "store_consume digest c t sub v m s = consume digest (fst c) t sub v m s"

interpretation memory_tokens: one_time_tokens tokens_ok "token_live digest"
  "store_issue digest mr mv" "store_consume digest" for digest mr mv
proof
  fix s c sub snap ttl s' out
  assume "tokens_ok s" and "store_issue digest mr mv c sub snap ttl s = (s', out)"
  then show "tokens_ok s' \<and> (\<forall>t v. out = Inr (t, v) \<longrightarrow> token_live digest s' t sub v snap)"
    unfolding store_issue_def by (rule issue_state)
next
  fix s c t sub v m s' out
  assume *: "tokens_ok s" "store_consume digest c t sub v m s = (s', out)"
  then show "tokens_ok s'" unfolding store_consume_def by (rule consume_state)
  fix t' sub' v' snap' assume "token_live digest s' t' sub' v' snap'"
  then show "token_live digest s t' sub' v' snap'"
    using consume_only_kills * unfolding store_consume_def by blast
next
  fix s c t sub v m s' snap
  assume "tokens_ok s" "store_consume digest c t sub v m s = (s', Inr (Some snap))"
  then show "token_live digest s t sub v snap \<and> m \<in> set (sn_options snap)
      \<and> (\<forall>sub' v' snap'. \<not> token_live digest s' t sub' v' snap')"
    unfolding store_consume_def by (rule consume_taken)
qed

section \<open>What the tokens guarantee\<close>

text \<open>
  C12. A decision token is bound and single use: consuming it succeeds only while its record is
  unexpired, for the subject and version it was issued to and a mode it offered; it hands out the
  snapshot stored at issue, and no attempt after that, with any arguments, gets anything for it.
\<close>

theorem tokens_are_single_use:
  assumes "tokens_ok s" and "consume digest (Reads now) t sub v m s = (s', Inr (Some snap))"
  shows "(\<exists>r. map_of (ts_records s) (digest t) = Some r \<and> tr_subject r = sub \<and> tr_version r = v
      \<and> now < tr_expires r \<and> tr_snapshot r = snap) \<and> m \<in> set (sn_options snap) \<and> tokens_ok s'
    \<and> snd (consume digest c' t sub' v' m'
        (memory_tokens.attempts digest as s')) \<noteq> Inr (Some snap')"
proof -
  have "store_consume digest (Reads now, []) t sub v m s = (s', Inr (Some snap))"
    using assms(2) by (simp add: store_consume_def)
  from memory_tokens.consumed_once [OF assms(1) this, of "(c', [])" sub' v' m' as snap']
  have once: "snd (consume digest c' t sub' v' m' (memory_tokens.attempts digest as s')) \<noteq> Inr (Some snap')"
    by (simp add: store_consume_def)
  have "\<exists>r. map_of (ts_records s) (digest t) = Some r \<and> tr_subject r = sub \<and> tr_version r = v
      \<and> now < tr_expires r \<and> tr_snapshot r = snap \<and> m \<in> set (sn_options snap)"
    using assms by (cases rule: consume_cases) auto
  with once consume_state [OF assms] show ?thesis by blast
qed

definition sample_subject :: subject where
  "sample_subject = \<lparr>su_tenant = ''t'', su_user = ''u'', su_task = ''k'', su_generation = ''g''\<rparr>"

definition sample_snapshot :: snapshot where
  "sample_snapshot = \<lparr>sn_assessments = [], sn_reason = ''routing'', sn_options = executable_mode_order,
     sn_risk = Low, sn_approval = False\<rparr>"

definition sample_token :: string where
  "sample_token = replicate 40 CHR ''x''"

definition sample_tokens :: token_store where
  "sample_tokens = fst (issue id 10 100 (Reads 5) [sample_token] sample_subject sample_snapshot 60 empty_tokens)"

lemma sample_tokens_ok: "tokens_ok sample_tokens"
  using issue_state [OF tokens_ok_empty] by (metis prod.collapse sample_tokens_def)

lemma sample_consumed: "\<exists>s'. consume id (Reads 6) sample_token sample_subject 1 Discuss sample_tokens
    = (s', Inr (Some sample_snapshot))"
proof -
  have "snd (consume id (Reads 6) sample_token sample_subject 1 Discuss sample_tokens)
      = Inr (Some sample_snapshot)"
    by code_simp
  then show ?thesis by (metis prod.collapse)
qed

theorem tokens_are_single_use_witness:
  "\<exists>s'. consume id (Reads 6) sample_token sample_subject 1 Discuss sample_tokens
      = (s', Inr (Some sample_snapshot))
    \<and> snd (consume id (Reads 7) sample_token sample_subject 1 Direct s') \<noteq> Inr (Some sample_snapshot)"
proof -
  from sample_consumed obtain s' where
    c: "consume id (Reads 6) sample_token sample_subject 1 Discuss sample_tokens
      = (s', Inr (Some sample_snapshot))" by blast
  from tokens_are_single_use [OF sample_tokens_ok c, where as = "[]"] c show ?thesis by auto
qed

lemma live_current:
  assumes "tokens_ok s" and "map_of (ts_records s) d = Some r"
  shows "map_of (ts_subjects s) (tr_subject r) = Some (tr_version r, Some d)"
  using assms unfolding tokens_ok_def by blast

text \<open>
  Whatever sequence of issues and consumptions ran, the two dictionaries of the store agree:
  each record is the current token of its subject, at its version, and each subject's current
  token has its record, so a subject never holds two live tokens.
\<close>

theorem token_store_is_consistent:
  assumes "tokens_ok s"
  shows "tokens_ok (fst (issue digest mr mv c draws sub snap ttl s))
    \<and> tokens_ok (fst (consume digest c t sub v m s))
    \<and> (token_live digest s t1 sub v1 snap1 \<and> token_live digest s t2 sub v2 snap2 \<longrightarrow>
         digest t1 = digest t2 \<and> v1 = v2 \<and> snap1 = snap2)"
proof -
  have "tokens_ok (fst (issue digest mr mv c draws sub snap ttl s))"
    using issue_state [OF assms] by (metis prod.collapse)
  moreover have "tokens_ok (fst (consume digest c t sub v m s))"
    using consume_state [OF assms] by (metis prod.collapse)
  moreover have "token_live digest s t1 sub v1 snap1 \<and> token_live digest s t2 sub v2 snap2 \<longrightarrow>
      digest t1 = digest t2 \<and> v1 = v2 \<and> snap1 = snap2"
  proof
    assume *: "token_live digest s t1 sub v1 snap1 \<and> token_live digest s t2 sub v2 snap2"
    then obtain r1 r2 where r: "map_of (ts_records s) (digest t1) = Some r1" "tr_subject r1 = sub"
      "tr_version r1 = v1" "tr_snapshot r1 = snap1" "map_of (ts_records s) (digest t2) = Some r2"
      "tr_subject r2 = sub" "tr_version r2 = v2" "tr_snapshot r2 = snap2"
      unfolding token_live_def by blast
    have "digest t1 = digest t2" "v1 = v2"
      using live_current [OF assms r(1)] live_current [OF assms r(5)] r by auto
    with r show "digest t1 = digest t2 \<and> v1 = v2 \<and> snap1 = snap2" by auto
  qed
  ultimately show ?thesis by blast
qed

theorem token_store_is_consistent_witness:
  "tokens_ok (fst (consume id (Reads 6) sample_token sample_subject 1 Discuss sample_tokens))"
  using token_store_is_consistent [OF sample_tokens_ok] by blast

end
