(* ===== verification/Mode_Router.thy ===== *)
theory Mode_Router
  imports Decision_Tokens
begin

text \<open>
  The mode router: explicit commands and rule assessment of \<open>routing/rules.py\<close> and the routing
  policy, routing and confirmation of \<open>routing/service.py\<close>. The regular expressions that look
  for topics and risks in the task are arguments (a record of detectors), as are the two
  classifiers; an outcome \<open>None\<close> of a classifier is an exception, a timeout or a value that is no
  assessment. Cancellation of the caller is not modelled. The token store is used through the
  interface of \<open>Decision_Tokens\<close>. Confidences and thresholds, floats between 0 and 1, are exact rationals.
\<close>

section \<open>Task text and explicit commands\<close>

definition max_task_text :: nat where "max_task_text = 16000"

definition tab_char :: char where "tab_char = CHR 0x09"
definition newline_char :: char where "newline_char = CHR 0x0A"
definition return_char :: char where "return_char = CHR 0x0D"

definition invalid_task_char :: "char \<Rightarrow> bool" where
  "invalid_task_char c \<longleftrightarrow> (let n = (of_char c :: nat) in
     c \<notin> {tab_char, newline_char, return_char} \<and> (n < 32 \<or> (127 \<le> n \<and> n < 160) \<or> n = 173))"

definition validate_task_text :: "string \<Rightarrow> bool" where
  "validate_task_text t \<longleftrightarrow>
     t \<noteq> [] \<and> length t \<le> max_task_text \<and> \<not> list_ex invalid_task_char t"

fun unify_newlines :: "string \<Rightarrow> string" where
  "unify_newlines [] = []"
| "unify_newlines [c] = [if c = return_char then newline_char else c]"
| "unify_newlines (c # d # cs) =
     (if c = return_char \<and> d = newline_char then newline_char # unify_newlines cs
      else (if c = return_char then newline_char else c) # unify_newlines (d # cs))"

definition normalize_task_text :: "string \<Rightarrow> string" where
  "normalize_task_text t = concat (map (\<lambda>c. if c = newline_char then '' ; ''
     else if c = tab_char then '' '' else [c]) (unify_newlines t))"

record explicit_command =
  ec_mode :: "task_mode option"
  ec_text :: string
  ec_invalid :: bool

definition commands :: "(string \<times> task_mode) list" where
  "commands = [(''/direct'', Direct), (''/dispatch'', Dispatch), (''/discuss'', Discuss),
     (''/hybrid'', Hybrid), (''/auto'', Auto)]"

text \<open>\<open>str.partition\<close>: head, whether the separator occurs, rest.\<close>

definition partition_at :: "char \<Rightarrow> string \<Rightarrow> string \<times> bool \<times> string" where
  "partition_at c t = (takeWhile (\<lambda>x. x \<noteq> c) t, c \<in> set t, tl (dropWhile (\<lambda>x. x \<noteq> c) t))"

definition parse_explicit_command :: "string \<Rightarrow> explicit_command" where
  "parse_explicit_command task_text =
     (let leading = lstrip_chars [CHR '' '', tab_char] task_text in
      if leading = [] then \<lparr>ec_mode = None, ec_text = [], ec_invalid = False\<rparr>
      else
        let (token0, sep0, rest0) = partition_at CHR '' '' leading;
            (token, sep, rest) =
              (if tab_char \<in> set token0
               then let (tk, _, after) = partition_at tab_char token0 in
                 (tk, True, after @ (if rest0 = [] then [] else CHR '' '' # rest0))
               else (token0, sep0, rest0)) in
        case map_of commands token of
          None \<Rightarrow> \<lparr>ec_mode = None, ec_text = task_text, ec_invalid = False\<rparr>
        | Some m \<Rightarrow>
            let body = (if sep then lstrip_chars [CHR '' '', tab_char] rest else []) in
            if body = [] \<or> starts_with ''-'' body \<or> length body > max_task_text
            then \<lparr>ec_mode = None, ec_text = [], ec_invalid = True\<rparr>
            else \<lparr>ec_mode = Some m, ec_text = body, ec_invalid = False\<rparr>)"

section \<open>Rules\<close>

record detectors =
  dt_high_risk :: "string \<Rightarrow> bool"
  dt_direct :: "string \<Rightarrow> bool"
  dt_dispatch :: "string \<Rightarrow> bool"
  dt_discuss :: "string \<Rightarrow> bool"
  dt_multimedia :: "string \<Rightarrow> bool"

record rule_result =
  rl_mode :: "task_mode option"
  rl_reason :: "string option"
  rl_risk :: risk_level
  rl_approval :: bool
  rl_conflict :: bool

definition assess_rules :: "detectors \<Rightarrow> string \<Rightarrow> rule_result" where
  "assess_rules det t =
     (let matched = map fst (filter snd
            [(Direct, dt_direct det t), (Dispatch, dt_dispatch det t \<or> dt_multimedia det t),
             (Discuss, dt_discuss det t)]);
          risk = (if dt_high_risk det t then High else Low) in
      if dt_high_risk det t
      then \<lparr>rl_mode = None, rl_reason = Some ''high_risk_requires_choice'', rl_risk = risk,
             rl_approval = True, rl_conflict = False\<rparr>
      else if length matched > 1
      then \<lparr>rl_mode = None, rl_reason = Some ''conflicting_deterministic_rules'', rl_risk = risk,
             rl_approval = False, rl_conflict = True\<rparr>
      else case matched of
        m # _ \<Rightarrow> \<lparr>rl_mode = Some m,
            rl_reason = Some (if m = Dispatch \<and> dt_multimedia det t
              then ''multimedia_generation_rule'' else ''deterministic_rule''),
            rl_risk = risk, rl_approval = False, rl_conflict = False\<rparr>
      | [] \<Rightarrow> \<lparr>rl_mode = None, rl_reason = None, rl_risk = risk, rl_approval = False,
            rl_conflict = False\<rparr>)"

section \<open>The policy\<close>

record routing_policy =
  rp_threshold :: pyfloat
  rp_margin :: pyfloat
  rp_single_cost :: decimal
  rp_total_cost :: decimal
  rp_timeout :: pyfloat
  rp_grace :: pyfloat
  rp_detached :: nat
  rp_ttl :: pyfloat
  rp_parallel :: bool
  rp_single :: bool

definition default_policy :: routing_policy where
  "default_policy = \<lparr>rp_threshold = 85/100, rp_margin = 15/100, rp_single_cost = 1/2,
     rp_total_cost = 3/4, rp_timeout = 20, rp_grace = 1/10, rp_detached = 32, rp_ttl = 300,
     rp_parallel = True, rp_single = False\<rparr>"

definition policy_ok :: "routing_policy \<Rightarrow> bool" where
  "policy_ok p \<longleftrightarrow>
     0 \<le> rp_threshold p \<and> rp_threshold p \<le> 1 \<and> 0 \<le> rp_margin p \<and> rp_margin p \<le> 1
   \<and> 0 \<le> rp_single_cost p \<and> 0 \<le> rp_total_cost p \<and> rp_single_cost p \<le> rp_total_cost p
   \<and> 0 < rp_timeout p \<and> 0 < rp_grace p \<and> rp_grace p \<le> 1
   \<and> 2 \<le> rp_detached p \<and> rp_detached p \<le> 256 \<and> 0 < rp_ttl p"

section \<open>Decisions\<close>

datatype route_error = Invalid_Decision | Stale_Decision | Mode_Not_Executable

definition mk_decision :: "decision \<Rightarrow> route_error + decision" where
  "mk_decision d = (if decision_ok d then Inr d else Inl Invalid_Decision)"

definition local_assessment :: "task_mode \<Rightarrow> string \<Rightarrow> route_source \<Rightarrow> risk_level \<Rightarrow> assessment" where
  "local_assessment m reason source risk =
     \<lparr>as_mode = m, as_confidence = 1, as_reason = reason, as_roles = [], as_seconds = 0,
      as_cost = 0, as_risk = risk, as_source = source, as_logical = ''local'',
      as_deployment = ''local'', as_provider = ''local''\<rparr>"

definition ready ::
  "task_mode \<Rightarrow> assessment list \<Rightarrow> risk_level \<Rightarrow> bool \<Rightarrow> int \<Rightarrow> route_error + decision" where
  "ready m assessments risk approval version = mk_decision
     \<lparr>de_mode = Some m, de_choice = False, de_status = Ready, de_assessments = assessments,
      de_reason = None, de_options = [], de_token = None, de_version = version, de_risk = risk,
      de_approval = approval, de_permissions = True\<rparr>"

text \<open>A waiting decision tries to get a token; any failure on the way leaves it without one.\<close>

definition waiting_token ::
  "('c, 's) issue_op \<Rightarrow> 'c \<Rightarrow> routing_policy \<Rightarrow> subject option \<Rightarrow> snapshot \<Rightarrow> 's
     \<Rightarrow> 's \<times> string option \<times> int" where
  "waiting_token issue_op c p sub snap s = (case sub of
      None \<Rightarrow> (s, None, 1)
    | Some su \<Rightarrow>
        if \<not> snapshot_ok snap then (s, None, 1)
        else (case issue_op c su snap (rp_ttl p) s of
            (s1, Inl _) \<Rightarrow> (s1, None, 1)
          | (s1, Inr (t, v)) \<Rightarrow> (s1, Some t, v)))"

definition waiting ::
  "('c, 's) issue_op \<Rightarrow> 'c \<Rightarrow> routing_policy \<Rightarrow> string \<Rightarrow> assessment list \<Rightarrow> risk_level \<Rightarrow> bool
     \<Rightarrow> subject option \<Rightarrow> 's \<Rightarrow> 's \<times> (route_error + decision)" where
  "waiting issue_op c p reason assessments0 risk approval sub s =
     (let assessments = (if assessments0 = [] \<and> risk = High
            then [local_assessment Dispatch ''high_risk_policy'' From_Rule High] else assessments0);
          snap = \<lparr>sn_assessments = assessments, sn_reason = reason,
             sn_options = executable_mode_order, sn_risk = risk, sn_approval = approval\<rparr>;
          (s', token, version) = waiting_token issue_op c p sub snap s in
      (s', mk_decision
         \<lparr>de_mode = None, de_choice = True, de_status = Waiting_Mode,
          de_assessments = assessments, de_reason = Some reason,
          de_options = executable_mode_order, de_token = token, de_version = version,
          de_risk = risk, de_approval = approval, de_permissions = True\<rparr>))"

section \<open>Classification\<close>

definition validate_assessment :: "assessment option \<Rightarrow> route_source \<Rightarrow> assessment option" where
  "validate_assessment v source = (case v of
      None \<Rightarrow> None
    | Some a \<Rightarrow>
        let a' = a\<lparr>as_reason := (if source = From_Classifier then ''classifier_recommendation''
                                else ''verifier_recommendation''), as_source := source\<rparr> in
        if assessment_ok a' then Some a' else None)"

text \<open>
  One after the other, the verifier only when the policy wants it; or both at once, which takes
  two of the bounded task slots, \<open>slots\<close> of which are in use.
\<close>

definition classify_text ::
  "routing_policy \<Rightarrow> nat \<Rightarrow> (string \<Rightarrow> assessment option) \<Rightarrow> (string \<Rightarrow> assessment option) \<Rightarrow> string
     \<Rightarrow> assessment list option" where
  "classify_text p slots classifier verifier t =
     (let second = (\<lambda>primary. case validate_assessment (verifier t) From_Verifier of
            None \<Rightarrow> None | Some v \<Rightarrow> Some [primary, v]) in
      if \<not> rp_parallel p then
        (case validate_assessment (classifier t) From_Classifier of
           None \<Rightarrow> None
         | Some primary \<Rightarrow> if rp_single p then Some [primary] else second primary)
      else if slots + 2 > rp_detached p then None
      else (case validate_assessment (classifier t) From_Classifier of
              None \<Rightarrow> None | Some primary \<Rightarrow> second primary))"

text \<open>The decision on the assessments of the classifiers.\<close>

definition by_confidence :: "assessment list \<Rightarrow> assessment list" where
  "by_confidence = sort_key (\<lambda>a. - as_confidence a)"

definition mode_conflict :: "assessment list \<Rightarrow> bool" where
  "mode_conflict as = list_ex (\<lambda>a. as_mode a \<noteq> as_mode (hd as)) (tl as)"

definition clear_winner :: "routing_policy \<Rightarrow> assessment list \<Rightarrow> bool" where
  "clear_winner p as \<longleftrightarrow> mode_conflict as \<and>
     (let sorted = by_confidence as in
      rp_threshold p \<le> as_confidence (sorted ! 0)
    \<and> (length sorted = 1 \<or> rp_margin p \<le> as_confidence (sorted ! 0) - as_confidence (sorted ! 1)))"

definition needs_choice :: "routing_policy \<Rightarrow> assessment list \<Rightarrow> bool" where
  "needs_choice p as \<longleftrightarrow>
     (list_ex (\<lambda>a. as_confidence a < rp_threshold p) as \<and> \<not> clear_winner p as)
   \<or> (mode_conflict as \<and> \<not> clear_winner p as)
   \<or> aggregate_risk as = High
   \<or> list_ex (\<lambda>a. rp_single_cost p < as_cost a) as
   \<or> rp_total_cost p < sum_list (map as_cost as)"

definition decide ::
  "('c, 's) issue_op \<Rightarrow> 'c \<Rightarrow> routing_policy \<Rightarrow> assessment list \<Rightarrow> subject option \<Rightarrow> 's
     \<Rightarrow> 's \<times> (route_error + decision)" where
  "decide issue_op c p as sub s =
     (let risk = aggregate_risk as; approval = (risk = High) in
      if needs_choice p as
      then waiting issue_op c p ''routing_requires_user_choice'' as risk approval sub s
      else if clear_winner p as
      then let w = hd (by_confidence as) in (s, ready (as_mode w) [w] risk approval 1)
      else (s, ready (as_mode (hd as)) as risk approval 1))"

section \<open>Routing and confirmation\<close>

definition route ::
  "('c, 's) issue_op \<Rightarrow> 'c \<Rightarrow> routing_policy \<Rightarrow> detectors \<Rightarrow> nat \<Rightarrow> (string \<Rightarrow> assessment option)
     \<Rightarrow> (string \<Rightarrow> assessment option) \<Rightarrow> string \<Rightarrow> subject option \<Rightarrow> 's
     \<Rightarrow> 's \<times> (route_error + decision)" where
  "route issue_op c p det slots classifier verifier task sub s =
     (if \<not> validate_task_text task then waiting issue_op c p ''invalid_input'' [] Low False None s
      else
        let command = parse_explicit_command task in
        if ec_invalid command
        then waiting issue_op c p ''invalid_explicit_command'' [] Low False sub s
        else if ec_mode command \<notin> {None, Some Auto} then
          let m = the (ec_mode command);
              rule = assess_rules det (normalize_task_text (ec_text command)) in
          (s, ready m [local_assessment m ''explicit_user_command'' From_Explicit (rl_risk rule)]
                (rl_risk rule) (rl_approval rule) 1)
        else
          let t = normalize_task_text (if ec_mode command = Some Auto then ec_text command else task);
              rules = assess_rules det t in
          case (rl_mode rules, rl_reason rules) of
            (None, Some reason) \<Rightarrow>
              waiting issue_op c p reason [] (rl_risk rules) (rl_approval rules) sub s
          | (Some m, reason) \<Rightarrow>
              (s, ready m [local_assessment m
                     (case reason of None \<Rightarrow> ''deterministic_rule'' | Some r \<Rightarrow> r) From_Rule (rl_risk rules)]
                    (rl_risk rules) (rl_approval rules) 1)
          | (None, None) \<Rightarrow>
              (case classify_text p slots classifier verifier t of
                 None \<Rightarrow> waiting issue_op c p ''classification_unavailable'' [] Low False sub s
               | Some as \<Rightarrow> decide issue_op c p as sub s))"

definition confirm_mode ::
  "('c, 's) consume_op \<Rightarrow> 'c \<Rightarrow> task_mode \<Rightarrow> string option \<Rightarrow> int \<Rightarrow> subject \<Rightarrow> 's
     \<Rightarrow> 's \<times> (route_error + decision)" where
  "confirm_mode consume_op c m token version sub s =
     (if \<not> subject_ok sub then (s, Inl Stale_Decision)
      else if token = None \<or> version \<le> 0 then (s, Inl Stale_Decision)
      else if \<not> executable m then (s, Inl Mode_Not_Executable)
      else case consume_op c (the token) sub version m s of
        (s', Inr (Some snap)) \<Rightarrow>
          (s', ready m (sn_assessments snap @
                  [local_assessment m ''explicit_user_confirmation'' From_User (sn_risk snap)])
                (sn_risk snap) (sn_approval snap) (version + 1))
      | (s', _) \<Rightarrow> (s', Inl Stale_Decision))"

section \<open>Validity of the decisions\<close>

text \<open>Every reason the router writes itself is a reason code.\<close>

definition router_reasons :: "string list" where
  "router_reasons = [''explicit_user_command'', ''deterministic_rule'', ''multimedia_generation_rule'',
     ''high_risk_policy'', ''explicit_user_confirmation'', ''invalid_input'',
     ''invalid_explicit_command'', ''high_risk_requires_choice'', ''conflicting_deterministic_rules'',
     ''classification_unavailable'', ''routing_requires_user_choice'']"

lemma router_reasons_ok:
  "list_all (\<lambda>r. safe_text r \<and> r \<noteq> [] \<and> length r \<le> 128 \<and> reason_code r) router_reasons"
  by code_simp

lemma router_reason:
  assumes "r \<in> set router_reasons"
  shows "safe_text r" and "Suc 0 \<le> length r" and "length r \<le> 512" and "length r \<le> 128" and "reason_code r"
proof -
  from assms router_reasons_ok have "safe_text r \<and> r \<noteq> [] \<and> length r \<le> 128 \<and> reason_code r"
    by (auto simp: list_all_iff)
  then show "safe_text r" "Suc 0 \<le> length r" "length r \<le> 512" "length r \<le> 128" "reason_code r"
    by (auto simp: Suc_le_eq)
qed

lemma safe_local: "safe_route_id ''local''"
  by code_simp

lemma local_assessment_ok:
  "executable m \<Longrightarrow> r \<in> set router_reasons \<Longrightarrow> assessment_ok (local_assessment m r src risk)"
  using router_reason [of r] safe_local by (simp add: assessment_ok_def local_assessment_def)

lemma local_assessment_simps [simp]:
  "as_mode (local_assessment m r src risk) = m" "as_risk (local_assessment m r src risk) = risk"
  "as_source (local_assessment m r src risk) = src"
  by (simp_all add: local_assessment_def)

lemma user_indexes_none [simp]:
  "user_indexes as = [] \<longleftrightarrow> list_all (\<lambda>a. as_source a \<noteq> From_User) as"
  by (auto simp: user_indexes_def filter_empty_conv list_all_length)

text \<open>When a ready decision passes the validators.\<close>

lemma ready_iff:
  assumes "list_all assessment_ok as" and "list_all (\<lambda>a. as_mode a = m \<and> as_source a \<noteq> From_User) as"
    and "as \<noteq> []" and "length as \<le> 4" and "executable m" and "risk = High \<longrightarrow> approval"
  shows "ready m as risk approval 1 =
    (if risk = aggregate_risk as
     then Inr \<lparr>de_mode = Some m, de_choice = False, de_status = Ready, de_assessments = as,
      de_reason = None, de_options = [], de_token = None, de_version = 1, de_risk = risk,
      de_approval = approval, de_permissions = True\<rparr>
     else Inl Invalid_Decision)"
proof -
  have "list_all (\<lambda>a. as_source a \<noteq> From_User) as" "list_all (\<lambda>a. as_mode a = m) as"
    using assms(2) by (auto simp: list_all_iff)
  with assms(1,3-6) show ?thesis by (simp add: ready_def mk_decision_def decision_ok_def)
qed

text \<open>The tokens an issue gives are in the format and range of a decision's fields.\<close>

definition issues_valid ::
  "('c, 's) issue_op \<Rightarrow> 'c \<Rightarrow> routing_policy \<Rightarrow> subject option \<Rightarrow> 's \<Rightarrow> bool" where
  "issues_valid issue_op c p sub s \<longleftrightarrow>
     (\<forall>su snap s' t v. sub = Some su \<longrightarrow> issue_op c su snap (rp_ttl p) s = (s', Inr (t, v)) \<longrightarrow>
        token_ok t \<and> 1 \<le> v \<and> v \<le> 2 ^ 31 - 1)"

lemma waiting_token_range:
  assumes "issues_valid issue_op c p sub s" and "waiting_token issue_op c p sub snap s = (s', t, v)"
  shows "(case t of None \<Rightarrow> True | Some t \<Rightarrow> token_ok t) \<and> 1 \<le> v \<and> v \<le> 2 ^ 31 - 1"
proof (cases sub)
  case (Some su)
  obtain s1 r where r: "issue_op c su snap (rp_ttl p) s = (s1, r)" by fastforce
  with assms Some show ?thesis
    by (cases r) (auto simp: waiting_token_def issues_valid_def split: if_splits)
qed (use assms(2) in \<open>simp add: waiting_token_def\<close>)

lemma executable_order_ok: "list_all executable executable_mode_order \<and> distinct executable_mode_order"
  by (simp add: executable_mode_order_def executable_iff)

text \<open>A waiting decision always comes about.\<close>

definition waiting_shape :: "assessment list \<Rightarrow> string \<Rightarrow> risk_level \<Rightarrow> bool \<Rightarrow> decision \<Rightarrow> bool" where
  "waiting_shape as reason risk approval d \<longleftrightarrow>
     decision_ok d \<and> de_status d = Waiting_Mode \<and> de_mode d = None \<and> de_assessments d = as
   \<and> de_reason d = Some reason \<and> de_options d = executable_mode_order \<and> de_risk d = risk
   \<and> de_approval d = approval"

definition waiting_assessments :: "risk_level \<Rightarrow> assessment list \<Rightarrow> assessment list" where
  "waiting_assessments risk as = (if as = [] \<and> risk = High
     then [local_assessment Dispatch ''high_risk_policy'' From_Rule High] else as)"

lemma waiting_returns:
  assumes "issues_valid issue_op c p sub s" and "list_all assessment_ok as0" and "length as0 \<le> 4"
    and "reason \<in> set router_reasons" and "risk = aggregate_risk (waiting_assessments risk as0)"
    and "approval \<longleftrightarrow> risk = High"
  shows "\<exists>s' d. waiting issue_op c p reason as0 risk approval sub s = (s', Inr d)
    \<and> waiting_shape (waiting_assessments risk as0) reason risk approval d"
proof -
  let ?as = "waiting_assessments risk as0"
  let ?snap = "\<lparr>sn_assessments = ?as, sn_reason = reason, sn_options = executable_mode_order,
    sn_risk = risk, sn_approval = approval\<rparr>"
  let ?d = "\<lambda>t v. \<lparr>de_mode = None, de_choice = True, de_status = Waiting_Mode, de_assessments = ?as,
      de_reason = Some reason, de_options = executable_mode_order, de_token = t, de_version = v,
      de_risk = risk, de_approval = approval, de_permissions = True\<rparr>"
  have high: "assessment_ok (local_assessment Dispatch ''high_risk_policy'' From_Rule High)"
    by (rule local_assessment_ok) (simp_all add: executable_iff router_reasons_def)
  have as: "list_all assessment_ok ?as" "length ?as \<le> 4"
    using assms(2,3) high by (simp_all add: waiting_assessments_def)
  have empty: "?as = [] \<longrightarrow> \<not> approval"
    using assms(6) by (auto simp: waiting_assessments_def)
  have shape: "decision_ok (?d t v)"
    if "case t of None \<Rightarrow> True | Some t \<Rightarrow> token_ok t" "1 \<le> v" "v \<le> 2 ^ 31 - 1" for t v
    using that as empty router_reason(4,5) [OF assms(4)] executable_order_ok assms(6)
    by (simp add: decision_ok_def assms(5) [symmetric])
  obtain s' t v where t: "waiting_token issue_op c p sub ?snap s = (s', t, v)"
    by (cases "waiting_token issue_op c p sub ?snap s")
  note range = waiting_token_range [OF assms(1) t]
  have "waiting issue_op c p reason as0 risk approval sub s = (s', Inr (?d t v))"
    using t shape range
    by (simp add: waiting_def waiting_assessments_def mk_decision_def Let_def)
  with shape range show ?thesis by (auto simp: waiting_shape_def)
qed

section \<open>The ways a route can go\<close>

lemma validated:
  assumes "validate_assessment v src = Some a"
  shows "assessment_ok a \<and> as_source a = src"
  using assms by (auto simp: validate_assessment_def Let_def split: option.splits if_splits)

lemma classify_text_results:
  assumes "classify_text p slots classifier verifier t = Some as"
  shows "list_all assessment_ok as \<and> list_all (\<lambda>a. as_source a \<noteq> From_User) as \<and> as \<noteq> [] \<and> length as \<le> 2"
proof -
  consider (one) a where "as = [a]" "validate_assessment (classifier t) From_Classifier = Some a"
    | (two) a b where "as = [a, b]" "validate_assessment (classifier t) From_Classifier = Some a"
        "validate_assessment (verifier t) From_Verifier = Some b"
    using assms by (auto simp: classify_text_def Let_def split: if_splits option.splits)
  then show ?thesis by cases (auto dest: validated)
qed

text \<open>The text the rules and classifiers see, where no explicit mode is named.\<close>

definition effective_text :: "string \<Rightarrow> string" where
  "effective_text task = (let command = parse_explicit_command task in
     normalize_task_text (if ec_mode command = Some Auto then ec_text command else task))"

text \<open>What a route gets from the classifiers when nothing decided before them.\<close>

definition classified ::
  "routing_policy \<Rightarrow> detectors \<Rightarrow> nat \<Rightarrow> (string \<Rightarrow> assessment option) \<Rightarrow> (string \<Rightarrow> assessment option)
     \<Rightarrow> string \<Rightarrow> assessment list option" where
  "classified p det slots classifier verifier task =
     (let command = parse_explicit_command task; rules = assess_rules det (effective_text task) in
      if validate_task_text task \<and> \<not> ec_invalid command \<and> ec_mode command \<in> {None, Some Auto}
         \<and> rl_mode rules = None \<and> rl_reason rules = None
      then classify_text p slots classifier verifier (effective_text task) else None)"

definition rule_risk :: "detectors \<Rightarrow> string \<Rightarrow> risk_level" where
  "rule_risk det t = (if dt_high_risk det t then High else Low)"

lemma assess_rules_risk:
  "rl_risk (assess_rules det t) = rule_risk det t"
  "rl_approval (assess_rules det t) \<longleftrightarrow> rule_risk det t = High"
  by (simp_all add: assess_rules_def rule_risk_def Let_def split: list.splits)

lemma assess_rules_None:
  assumes "rl_mode (assess_rules det t) = None" and "rl_reason (assess_rules det t) = Some reason"
  shows "reason \<in> {''high_risk_requires_choice'', ''conflicting_deterministic_rules''}"
  using assms by (auto simp: assess_rules_def Let_def split: list.splits if_splits)

lemma assess_rules_Some:
  assumes "rl_mode (assess_rules det t) = Some m"
  shows "executable m" and "\<not> dt_high_risk det t"
    and "rl_reason (assess_rules det t) \<in> {Some ''multimedia_generation_rule'', Some ''deterministic_rule''}"
  using assms by (auto simp: assess_rules_def Let_def executable_iff split: list.splits if_splits)

lemma route_cases:
  obtains (Wait) reason risk sub' where "reason \<in> set router_reasons" "sub' \<in> {None, sub}"
      "risk = High \<or> risk = Low"
      "route issue_op c p det slots classifier verifier task sub s
        = waiting issue_op c p reason [] risk (risk = High) sub' s"
      "classified p det slots classifier verifier task = None"
    | (Command) m where "ec_mode (parse_explicit_command task) = Some m" "m \<noteq> Auto"
      "route issue_op c p det slots classifier verifier task sub s =
        (s, ready m [local_assessment m ''explicit_user_command'' From_Explicit
              (rule_risk det (normalize_task_text (ec_text (parse_explicit_command task))))]
            (rule_risk det (normalize_task_text (ec_text (parse_explicit_command task))))
            (rule_risk det (normalize_task_text (ec_text (parse_explicit_command task))) = High) 1)"
      "classified p det slots classifier verifier task = None"
    | (Rule) m reason where "rl_mode (assess_rules det (effective_text task)) = Some m" "executable m"
      "ec_mode (parse_explicit_command task) \<in> {None, Some Auto}"
      "reason \<in> set router_reasons"
      "route issue_op c p det slots classifier verifier task sub s =
        (s, ready m [local_assessment m reason From_Rule Low] Low False 1)"
      "classified p det slots classifier verifier task = None"
    | (Classified) as where "classified p det slots classifier verifier task = Some as"
      "ec_mode (parse_explicit_command task) \<in> {None, Some Auto}"
      "route issue_op c p det slots classifier verifier task sub s = decide issue_op c p as sub s"
      "classify_text p slots classifier verifier (effective_text task) = Some as"
proof -
  let ?cmd = "parse_explicit_command task"
  let ?rules = "assess_rules det (effective_text task)"
  let ?route = "route issue_op c p det slots classifier verifier task sub s"
  note eff = effective_text_def [unfolded Let_def, symmetric]
  consider (input) "\<not> validate_task_text task"
    | (invalid) "validate_task_text task" "ec_invalid ?cmd"
    | (explicit) m where "validate_task_text task" "\<not> ec_invalid ?cmd" "ec_mode ?cmd = Some m" "m \<noteq> Auto"
    | (rest) "validate_task_text task" "\<not> ec_invalid ?cmd" "ec_mode ?cmd \<in> {None, Some Auto}"
    by (cases "ec_mode ?cmd") auto
  then show ?thesis
  proof cases
    case input
    show ?thesis
      by (rule Wait [of "''invalid_input''" None Low])
        (use input in \<open>simp_all add: router_reasons_def route_def classified_def\<close>)
  next
    case invalid
    show ?thesis
      by (rule Wait [of "''invalid_explicit_command''" sub Low])
        (use invalid in \<open>simp_all add: router_reasons_def route_def classified_def\<close>)
  next
    case explicit
    show ?thesis
      by (rule Command [of m])
        (use explicit in \<open>simp_all add: route_def classified_def Let_def assess_rules_risk\<close>)
  next
    case rest
    have r: "?route = (case (rl_mode ?rules, rl_reason ?rules) of
        (None, Some reason) \<Rightarrow> waiting issue_op c p reason [] (rl_risk ?rules) (rl_approval ?rules) sub s
      | (Some m, reason) \<Rightarrow> (s, ready m [local_assessment m
           (case reason of None \<Rightarrow> ''deterministic_rule'' | Some r \<Rightarrow> r) From_Rule (rl_risk ?rules)]
             (rl_risk ?rules) (rl_approval ?rules) 1)
      | (None, None) \<Rightarrow> (case classify_text p slots classifier verifier (effective_text task) of
           None \<Rightarrow> waiting issue_op c p ''classification_unavailable'' [] Low False sub s
         | Some as \<Rightarrow> decide issue_op c p as sub s))"
      using rest unfolding route_def Let_def eff by simp
    show ?thesis
    proof (cases "rl_mode ?rules")
      case (Some m)
      note rs = assess_rules_Some [OF Some]
      show ?thesis
        by (rule Rule [of m "case rl_reason ?rules of None \<Rightarrow> ''deterministic_rule'' | Some r \<Rightarrow> r"])
          (use rest Some rs in \<open>auto simp: r router_reasons_def assess_rules_risk rule_risk_def classified_def\<close>)
    next
      case none: None
      show ?thesis
      proof (cases "rl_reason ?rules")
        case (Some reason)
        have k: "reason \<in> set router_reasons"
          using assess_rules_None [OF none Some] by (auto simp: router_reasons_def)
        show ?thesis
          by (rule Wait [of reason sub "rule_risk det (effective_text task)"])
            (use none Some k in \<open>simp_all add: r assess_rules_risk classified_def Let_def, simp add: rule_risk_def\<close>)
      next
        case None
        show ?thesis
        proof (cases "classify_text p slots classifier verifier (effective_text task)")
          case c: None
          show ?thesis
            by (rule Wait [of "''classification_unavailable''" sub Low])
              (use none None c in \<open>simp_all add: r router_reasons_def classified_def Let_def\<close>)
        next
          case (Some as)
          show ?thesis
            by (rule Classified [of as])
              (use rest none None Some in \<open>simp_all add: r classified_def Let_def\<close>)
        qed
      qed
    qed
  qed
qed

section \<open>What a route returns\<close>

text \<open>The winner of a conflict carries another risk than the assessments together.\<close>

definition riskier_loser :: "routing_policy \<Rightarrow> assessment list \<Rightarrow> bool" where
  "riskier_loser p as \<longleftrightarrow> \<not> needs_choice p as \<and> clear_winner p as
     \<and> as_risk (hd (by_confidence as)) \<noteq> aggregate_risk as"

lemma by_confidence_hd: "as \<noteq> [] \<Longrightarrow> hd (by_confidence as) \<in> set as"
  unfolding by_confidence_def by (metis hd_in_set set_empty set_sort)

text \<open>The decisions a route may make ready, and what their assessments look like.\<close>

definition ready_shape :: "task_mode \<Rightarrow> assessment list \<Rightarrow> risk_level \<Rightarrow> bool \<Rightarrow> decision \<Rightarrow> bool" where
  "ready_shape m as risk approval d \<longleftrightarrow>
     decision_ok d \<and> de_status d = Ready \<and> de_mode d = Some m \<and> de_assessments d = as
   \<and> de_risk d = risk \<and> de_approval d = approval"

lemma ready_returns:
  assumes "list_all assessment_ok as" and "list_all (\<lambda>a. as_mode a = m \<and> as_source a \<noteq> From_User) as"
    and "as \<noteq> []" and "length as \<le> 4" and "executable m" and "risk = High \<longrightarrow> approval"
    and "ready m as risk approval 1 = Inr d"
  shows "ready_shape m as risk approval d"
  using ready_iff [OF assms(1-6)] assms(7)
  by (auto simp: ready_shape_def ready_def mk_decision_def split: if_splits)

lemma ready_local:
  assumes "executable m" and "r \<in> set router_reasons" and "src \<noteq> From_User"
    and "risk = High \<longrightarrow> approval"
  shows "\<exists>d. ready m [local_assessment m r src risk] risk approval 1 = Inr d
    \<and> ready_shape m [local_assessment m r src risk] risk approval d"
proof -
  let ?as = "[local_assessment m r src risk]"
  have as: "list_all assessment_ok ?as" "list_all (\<lambda>a. as_mode a = m \<and> as_source a \<noteq> From_User) ?as"
    using local_assessment_ok [OF assms(1,2)] assms(3) by simp_all
  from ready_iff [OF as _ _ assms(1,4)] obtain d where d: "ready m ?as risk approval 1 = Inr d" by simp
  from ready_returns [OF as _ _ assms(1,4) d] d show ?thesis by simp
qed

lemma decide_cases:
  assumes "list_all assessment_ok as" and "list_all (\<lambda>a. as_source a \<noteq> From_User) as"
    and "as \<noteq> []" and "length as \<le> 2" and "issues_valid issue_op c p sub s"
  obtains (Choice) s' d where "needs_choice p as" "decide issue_op c p as sub s = (s', Inr d)"
      "waiting_shape as ''routing_requires_user_choice'' (aggregate_risk as) (aggregate_risk as = High) d"
    | (Winner) d where "\<not> needs_choice p as" "clear_winner p as" "\<not> riskier_loser p as"
      "decide issue_op c p as sub s = (s, Inr d)"
      "ready_shape (as_mode (hd (by_confidence as))) [hd (by_confidence as)] (aggregate_risk as) False d"
    | (Fails) "riskier_loser p as" "decide issue_op c p as sub s = (s, Inl Invalid_Decision)"
    | (Agreed) d where "\<not> needs_choice p as" "\<not> mode_conflict as" "\<not> clear_winner p as"
      "decide issue_op c p as sub s = (s, Inr d)"
      "ready_shape (as_mode (hd as)) as (aggregate_risk as) False d"
proof (cases "needs_choice p as")
  case True
  let ?r = "aggregate_risk as"
  have wa: "waiting_assessments ?r as = as" using assms(3) by (simp add: waiting_assessments_def)
  obtain s' d where w: "waiting issue_op c p ''routing_requires_user_choice'' as ?r (?r = High) sub s = (s', Inr d)"
      "waiting_shape as ''routing_requires_user_choice'' ?r (?r = High) d"
    using waiting_returns [OF assms(5,1), of "''routing_requires_user_choice''" ?r "?r = High"] assms(4) wa
    by (auto simp: router_reasons_def)
  with True Choice show ?thesis by (simp add: decide_def Let_def)
next
  case False
  then have low: "aggregate_risk as \<noteq> High" by (simp add: needs_choice_def)
  show ?thesis
  proof (cases "clear_winner p as")
    case True
    let ?w = "hd (by_confidence as)"
    have w: "assessment_ok ?w" "as_source ?w \<noteq> From_User"
      using by_confidence_hd [OF assms(3)] assms(1,2) by (auto simp: list_all_iff)
    then have ex: "executable (as_mode ?w)" by (simp add: assessment_ok_def)
    note ri = ready_iff [of "[?w]" "as_mode ?w" "aggregate_risk as" False]
    have d: "decide issue_op c p as sub s = (s, ready (as_mode ?w) [?w] (aggregate_risk as) False 1)"
      using False True low by (simp add: decide_def Let_def)
    show ?thesis
    proof (cases "as_risk ?w = aggregate_risk as")
      case eq: True
      then obtain x where x: "ready (as_mode ?w) [?w] (aggregate_risk as) False 1 = Inr x"
        using ri w ex low by auto
      have "ready_shape (as_mode ?w) [?w] (aggregate_risk as) False x"
        by (rule ready_returns [OF _ _ _ _ ex _ x]) (use w low in simp_all)
      with Winner [OF False True, of x] x d eq show ?thesis by (simp add: riskier_loser_def)
    next
      case neq: False
      then have "ready (as_mode ?w) [?w] (aggregate_risk as) False 1 = Inl Invalid_Decision"
        using ri w ex low by auto
      with Fails neq d False True show ?thesis by (simp add: riskier_loser_def)
    qed
  next
    case nc: False
    with False have agree: "\<not> mode_conflict as" by (auto simp: needs_choice_def)
    obtain a rest where as: "as = a # rest" using assms(3) by (cases as) auto
    then have same: "list_all (\<lambda>x. as_mode x = as_mode (hd as) \<and> as_source x \<noteq> From_User) as"
      using agree assms(2) by (auto simp: mode_conflict_def list_ex_iff list_all_iff)
    have ex: "executable (as_mode (hd as))" using assms(1) as by (simp add: assessment_ok_def)
    have len: "length as \<le> 4" using assms(4) by simp
    from ready_iff [OF assms(1) same assms(3) len ex, of "aggregate_risk as" False] low
    obtain x where x: "ready (as_mode (hd as)) as (aggregate_risk as) False 1 = Inr x" by auto
    have "ready_shape (as_mode (hd as)) as (aggregate_risk as) False x"
      by (rule ready_returns [OF assms(1) same assms(3) len ex _ x]) (use low in simp)
    moreover have "decide issue_op c p as sub s = (s, Inr x)"
      using False nc low x by (simp add: decide_def Let_def)
    ultimately show ?thesis using Agreed False agree nc by blast
  qed
qed

text \<open>Waiting without classifiers.\<close>

lemma wait_returns:
  assumes "issues_valid issue_op c p sub s" and "sub' \<in> {None, sub}" and "reason \<in> set router_reasons"
    and "risk = High \<or> risk = Low"
  shows "\<exists>s' d. waiting issue_op c p reason [] risk (risk = High) sub' s = (s', Inr d)
    \<and> waiting_shape (waiting_assessments risk []) reason risk (risk = High) d"
proof -
  have "issues_valid issue_op c p sub' s" using assms(1,2) by (auto simp: issues_valid_def)
  from waiting_returns [OF this _ _ assms(3), of "[]" risk "risk = High"] assms(4)
  show ?thesis by (auto simp: waiting_assessments_def)
qed

text \<open>
  C13. The router always answers with a decision its own validators accept, whatever the task, the
  classifiers and the token store do, with one exception: when the classifiers disagree, one is
  clearly more confident and the other reports a higher (but not high) risk, the constructor of
  the decision rejects the risk and \<open>route\<close> raises.
\<close>

theorem route_fails_only_on_riskier_loser:
  assumes "issues_valid issue_op c p sub s"
  shows "case classified p det slots classifier verifier task of
      None \<Rightarrow> \<exists>s' d. route issue_op c p det slots classifier verifier task sub s = (s', Inr d) \<and> decision_ok d
    | Some as \<Rightarrow>
        if riskier_loser p as
        then route issue_op c p det slots classifier verifier task sub s = (s, Inl Invalid_Decision)
        else \<exists>s' d. route issue_op c p det slots classifier verifier task sub s = (s', Inr d) \<and> decision_ok d"
proof (cases rule: route_cases [where issue_op = issue_op and c = c and p = p and det = det
      and slots = slots and classifier = classifier and verifier = verifier and task = task
      and sub = sub and s = s])
  case (Wait reason risk sub')
  with wait_returns [OF assms Wait(2,1,3)] show ?thesis by (auto simp: waiting_shape_def)
next
  case (Command m)
  let ?r = "rule_risk det (normalize_task_text (ec_text (parse_explicit_command task)))"
  obtain d where "ready m [local_assessment m ''explicit_user_command'' From_Explicit ?r] ?r (?r = High) 1
      = Inr d" "ready_shape m [local_assessment m ''explicit_user_command'' From_Explicit ?r] ?r (?r = High) d"
    using ready_local [of m "''explicit_user_command''" From_Explicit ?r "?r = High"] Command(2)
    by (auto simp: executable_iff router_reasons_def)
  with Command(3,4) show ?thesis by (simp add: ready_shape_def)
next
  case (Rule m reason)
  obtain d where "ready m [local_assessment m reason From_Rule Low] Low False 1 = Inr d"
      "ready_shape m [local_assessment m reason From_Rule Low] Low False d"
    using ready_local [OF Rule(2,4), of From_Rule Low False] by auto
  with Rule(5,6) show ?thesis by (simp add: ready_shape_def)
next
  case (Classified as)
  from classify_text_results [OF Classified(4)]
  have ok: "list_all assessment_ok as" "list_all (\<lambda>a. as_source a \<noteq> From_User) as" "as \<noteq> []"
    "length as \<le> 2" by auto
  show ?thesis
    using ok assms
  proof (cases rule: decide_cases)
    case Winner then show ?thesis using Classified(1,3) by (auto simp: ready_shape_def)
  next
    case Choice then show ?thesis using Classified(1,3) by (auto simp: waiting_shape_def riskier_loser_def)
  next
    case Fails then show ?thesis using Classified(1,3) by auto
  next
    case Agreed then show ?thesis using Classified(1,3) by (auto simp: ready_shape_def riskier_loser_def)
  qed
qed

definition quiet :: detectors where
  "quiet = \<lparr>dt_high_risk = (\<lambda>_. False), dt_direct = (\<lambda>_. False), dt_dispatch = (\<lambda>_. False),
     dt_discuss = (\<lambda>_. False), dt_multimedia = (\<lambda>_. False)\<rparr>"

definition opinion :: "task_mode \<Rightarrow> pyfloat \<Rightarrow> risk_level \<Rightarrow> string \<Rightarrow> assessment option" where
  "opinion m confidence risk t = Some \<lparr>as_mode = m, as_confidence = confidence, as_reason = ''guess'',
     as_roles = [], as_seconds = 10, as_cost = 1/100, as_risk = risk, as_source = From_Classifier,
     as_logical = ''small'', as_deployment = ''d1'', as_provider = ''p1''\<rparr>"

lemma fresh_issue_valid:
  "issues_valid (store_issue id 10 100) (Reads 5, [sample_token]) default_policy sub empty_tokens"
proof -
  have t: "token_ok sample_token" by code_simp
  show ?thesis
    by (auto simp: issues_valid_def store_issue_def issue_def clock_now_def empty_tokens_def purge_def
        forget_current_def mint_def default_policy_def t Let_def)
qed

theorem route_fails_only_on_riskier_loser_witness:
  "\<exists>s' d. route (store_issue id 10 100) (Reads 5, [sample_token]) default_policy quiet 0
      (opinion Direct (95/100) Low) (opinion Direct (9/10) Medium) ''plan my week''
      (Some sample_subject) empty_tokens = (s', Inr d) \<and> decision_ok d"
proof -
  let ?as = "classified default_policy quiet 0 (opinion Direct (95/100) Low) (opinion Direct (9/10) Medium)
    ''plan my week''"
  have "case ?as of None \<Rightarrow> True | Some as \<Rightarrow> \<not> riskier_loser default_policy as" by code_simp
  then show ?thesis
    using route_fails_only_on_riskier_loser [OF fresh_issue_valid, where det = quiet and slots = 0
      and classifier = "opinion Direct (95/100) Low" and verifier = "opinion Direct (9/10) Medium"
      and task = "''plan my week''" and sub = "Some sample_subject"]
    by (cases ?as) auto
qed

text \<open>
  The exception happens: a clear winner of low risk against an assessment of medium risk
  makes \<open>route\<close> raise a validation error, and no decision and no token comes out.
\<close>

theorem route_raises_on_medium_loser:
  "route (store_issue id 10 100) (Reads 5, [sample_token]) default_policy quiet 0
      (opinion Direct (95/100) Low) (opinion Dispatch (1/2) Medium) ''plan my week''
      (Some sample_subject) empty_tokens = (empty_tokens, Inl Invalid_Decision)"
  by code_simp

lemma waiting_waits:
  assumes "snd (waiting issue_op c p reason as risk approval sub s) = Inr d"
  shows "de_status d = Waiting_Mode"
  using assms by (auto simp: waiting_def mk_decision_def Let_def split: prod.splits if_splits)

lemma ready_keeps:
  assumes "ready m as risk approval v = Inr d"
  shows "de_mode d = Some m \<and> de_assessments d = as \<and> de_risk d = risk \<and> de_approval d = approval"
  using assms by (auto simp: ready_def mk_decision_def split: if_splits)

lemma two_sorted:
  fixes as :: "assessment list"
  assumes "length as \<le> 2" and "as \<noteq> []"
  obtains a where "as = [a]" "by_confidence as = [a]"
    | a b where "set as = {a, b}" "by_confidence as = [a, b]"
proof (cases as)
  case (Cons x xs)
  show ?thesis
  proof (cases xs)
    case Nil then show ?thesis using that(1) Cons by (simp add: by_confidence_def)
  next
    case (Cons y ys)
    with assms Cons \<open>as = x # xs\<close> have as: "as = [x, y]" by simp
    show ?thesis
    proof (cases "as_confidence y \<le> as_confidence x")
      case True
      then show ?thesis using that(2) [of x y] as by (simp add: by_confidence_def)
    next
      case False
      then show ?thesis using that(2) [of y x] as by (simp add: by_confidence_def insert_commute)
    qed
  qed
qed (use assms in simp)

lemma decide_ready:
  assumes "snd (decide issue_op c p as sub s) = Inr d" and "de_status d = Ready"
    and "as \<noteq> []" and "length as \<le> 2"
  shows "\<not> needs_choice p as \<and> de_risk d = aggregate_risk as \<and> \<not> de_approval d
    \<and> (\<exists>m. de_mode d = Some m \<and> de_assessments d \<noteq> [] \<and> set (de_assessments d) \<subseteq> set as
      \<and> (\<forall>a \<in> set (de_assessments d). as_mode a = m \<and> rp_threshold p \<le> as_confidence a
          \<and> (\<forall>b \<in> set as. as_mode b = m \<or> rp_margin p \<le> as_confidence a - as_confidence b)))"
proof -
  have n: "\<not> needs_choice p as"
  proof
    assume "needs_choice p as"
    with assms(1) have "snd (waiting issue_op c p ''routing_requires_user_choice'' as
        (aggregate_risk as) (aggregate_risk as = High) sub s) = Inr d"
      by (simp add: decide_def Let_def)
    from waiting_waits [OF this] assms(2) show False by simp
  qed
  then have low: "aggregate_risk as \<noteq> High" by (simp add: needs_choice_def)
  show ?thesis
  proof (cases "clear_winner p as")
    case True
    with n assms(1) low have k: "ready (as_mode (hd (by_confidence as))) [hd (by_confidence as)]
        (aggregate_risk as) False 1 = Inr d" by (simp add: decide_def Let_def)
    from True have conf: "rp_threshold p \<le> as_confidence (by_confidence as ! 0)"
      "length (by_confidence as) = 1 \<or>
        rp_margin p \<le> as_confidence (by_confidence as ! 0) - as_confidence (by_confidence as ! 1)"
      by (auto simp: clear_winner_def Let_def)
    from assms(4,3) show ?thesis
    proof (cases rule: two_sorted)
      case (1 a)
      with ready_keeps [OF k] conf n show ?thesis by auto
    next
      case (2 a b)
      with ready_keeps [OF k] conf n show ?thesis by auto
    qed
  next
    case False
    with n assms(1) low have k: "ready (as_mode (hd as)) as (aggregate_risk as) False 1 = Inr d"
      by (simp add: decide_def Let_def)
    from n False have "\<not> mode_conflict as" "\<forall>a \<in> set as. rp_threshold p \<le> as_confidence a"
      by (auto simp: needs_choice_def list_ex_iff not_less)
    then have "\<forall>a \<in> set as. as_mode a = as_mode (hd as) \<and> rp_threshold p \<le> as_confidence a"
      using assms(3) by (cases as) (auto simp: mode_conflict_def list_ex_iff)
    then have "\<exists>m. Some (as_mode (hd as)) = Some m \<and> (\<forall>a \<in> set as. as_mode a = m
        \<and> rp_threshold p \<le> as_confidence a
        \<and> (\<forall>b \<in> set as. as_mode b = m \<or> rp_margin p \<le> as_confidence a - as_confidence b))"
      by blast
    moreover have d: "de_mode d = Some (as_mode (hd as))" "de_assessments d = as"
      "de_risk d = aggregate_risk as" "de_approval d = False"
      using ready_keeps [OF k] by blast+
    ultimately show ?thesis unfolding d using n assms(3) by blast
  qed
qed

text \<open>
  A decision is ready for one of three reasons: an explicit command names the mode, with an
  approval exactly when its text is of high risk; or a single rule matched a text that is not of
  high risk; or the classifiers agree on the mode with enough confidence, or disagree with a
  winner ahead by the margin, at no high risk and within both cost limits.
\<close>

theorem ready_has_a_reason:
  assumes "snd (route issue_op c p det slots classifier verifier task sub s) = Inr d"
    and "de_status d = Ready"
  shows "\<exists>m. de_mode d = Some m \<and>
     (m \<noteq> Auto \<and> ec_mode (parse_explicit_command task) = Some m
        \<and> (de_approval d \<longleftrightarrow> dt_high_risk det (normalize_task_text (ec_text (parse_explicit_command task))))
      \<or> rl_mode (assess_rules det (effective_text task)) = Some m
        \<and> \<not> dt_high_risk det (effective_text task) \<and> de_risk d = Low \<and> \<not> de_approval d
      \<or> (\<exists>as. classified p det slots classifier verifier task = Some as
        \<and> de_risk d = aggregate_risk as \<and> de_risk d \<noteq> High \<and> \<not> de_approval d
        \<and> (\<forall>a \<in> set as. as_cost a \<le> rp_single_cost p) \<and> sum_list (map as_cost as) \<le> rp_total_cost p
        \<and> de_assessments d \<noteq> [] \<and> set (de_assessments d) \<subseteq> set as
        \<and> (\<forall>a \<in> set (de_assessments d). as_mode a = m \<and> rp_threshold p \<le> as_confidence a
             \<and> (\<forall>b \<in> set as. as_mode b = m \<or> rp_margin p \<le> as_confidence a - as_confidence b))))"
proof (cases rule: route_cases [where issue_op = issue_op and c = c and p = p and det = det
      and slots = slots and classifier = classifier and verifier = verifier and task = task
      and sub = sub and s = s])
  case (Wait reason risk sub')
  from assms(1) have "snd (waiting issue_op c p reason [] risk (risk = High) sub' s) = Inr d"
    unfolding Wait(4) .
  from waiting_waits [OF this] assms(2) show ?thesis by simp
next
  case (Command m)
  with assms ready_keeps show ?thesis by (auto simp: rule_risk_def)
next
  case (Rule m reason)
  with assms ready_keeps assess_rules_Some(2) [OF Rule(1)] show ?thesis by auto
next
  case (Classified as)
  have len: "as \<noteq> []" "length as \<le> 2" using classify_text_results [OF Classified(4)] by auto
  have d: "snd (decide issue_op c p as sub s) = Inr d" using assms(1) Classified(3) by simp
  from decide_ready [OF d assms(2) len]
  have n: "\<not> needs_choice p as" and r: "de_risk d = aggregate_risk as" "\<not> de_approval d"
    and who: "\<exists>m. de_mode d = Some m \<and> de_assessments d \<noteq> [] \<and> set (de_assessments d) \<subseteq> set as
      \<and> (\<forall>a \<in> set (de_assessments d). as_mode a = m \<and> rp_threshold p \<le> as_confidence a
          \<and> (\<forall>b \<in> set as. as_mode b = m \<or> rp_margin p \<le> as_confidence a - as_confidence b))"
    by blast+
  have "aggregate_risk as \<noteq> High" "\<forall>a \<in> set as. as_cost a \<le> rp_single_cost p"
    "sum_list (map as_cost as) \<le> rp_total_cost p"
    using n by (auto simp: needs_choice_def list_ex_iff not_less)
  with who r Classified(1) show ?thesis by auto
qed

theorem ready_has_a_reason_witness:
  "\<exists>d m. snd (route (store_issue id 10 100) (Reads 5, []) default_policy quiet 0
      (opinion Direct (95/100) Low) (opinion Direct (9/10) Low) ''plan my week'' None empty_tokens) = Inr d
    \<and> de_mode d = Some m \<and> de_assessments d \<noteq> []"
proof -
  let ?r = "snd (route (store_issue id 10 100) (Reads 5, []) default_policy quiet 0
      (opinion Direct (95/100) Low) (opinion Direct (9/10) Low) ''plan my week'' None empty_tokens)"
  have "case ?r of Inr d \<Rightarrow> de_status d = Ready \<and> de_assessments d \<noteq> [] | Inl _ \<Rightarrow> False" by code_simp
  then obtain d where d: "?r = Inr d" "de_status d = Ready" "de_assessments d \<noteq> []"
    by (cases ?r) auto
  from ready_has_a_reason [OF d(1,2)] d(1,3) show ?thesis by blast
qed

text \<open>
  A text of high risk without an explicit mode is never started by the router: neither a
  matching rule nor the classifiers are consulted, the user gets the choice of all modes, and the
  decision is marked as of high risk and needing approval.
\<close>

theorem high_risk_is_left_to_the_user:
  assumes "issues_valid issue_op c p sub s" and "validate_task_text task"
    and "\<not> ec_invalid (parse_explicit_command task)"
    and "ec_mode (parse_explicit_command task) \<in> {None, Some Auto}"
    and "dt_high_risk det (effective_text task)"
  shows "\<exists>s' d. (\<forall>slots classifier verifier.
        route issue_op c p det slots classifier verifier task sub s = (s', Inr d))
    \<and> decision_ok d \<and> de_status d = Waiting_Mode \<and> de_mode d = None
    \<and> de_options d = executable_mode_order \<and> de_risk d = High \<and> de_approval d"
proof -
  have rules: "rl_mode (assess_rules det (effective_text task)) = None"
    "rl_reason (assess_rules det (effective_text task)) = Some ''high_risk_requires_choice''"
    "rl_risk (assess_rules det (effective_text task)) = High"
    "rl_approval (assess_rules det (effective_text task))"
    using assms(5) by (simp_all add: assess_rules_def Let_def)
  note eff = effective_text_def [unfolded Let_def, symmetric]
  have r: "route issue_op c p det slots classifier verifier task sub s
      = waiting issue_op c p ''high_risk_requires_choice'' [] High True sub s" for slots classifier verifier
    using assms(2-4) rules unfolding route_def Let_def eff by simp
  obtain s' d where "waiting issue_op c p ''high_risk_requires_choice'' [] High (High = High) sub s = (s', Inr d)"
      "waiting_shape (waiting_assessments High []) ''high_risk_requires_choice'' High (High = High) d"
    using wait_returns [OF assms(1), of sub "''high_risk_requires_choice''" High]
    by (auto simp: router_reasons_def)
  with r show ?thesis unfolding waiting_shape_def by auto
qed

definition alarmed :: detectors where
  "alarmed = quiet\<lparr>dt_high_risk := (\<lambda>_. True), dt_direct := (\<lambda>_. True)\<rparr>"

theorem high_risk_is_left_to_the_user_witness:
  "\<exists>s' d. (\<forall>slots classifier verifier. route (store_issue id 10 100) (Reads 5, [sample_token])
        default_policy alarmed slots classifier verifier ''/auto drop all tables''
        (Some sample_subject) empty_tokens = (s', Inr d))
    \<and> de_risk d = High \<and> de_approval d"
proof -
  have "validate_task_text ''/auto drop all tables''" by code_simp
  moreover have "\<not> ec_invalid (parse_explicit_command ''/auto drop all tables'')" by code_simp
  moreover have "ec_mode (parse_explicit_command ''/auto drop all tables'') = Some Auto" by code_simp
  ultimately show ?thesis
    using high_risk_is_left_to_the_user [OF fresh_issue_valid,
        of "''/auto drop all tables''" alarmed "Some sample_subject"]
    by (simp add: alarmed_def quiet_def) blast
qed

end
