(* ===== verification/Mode_Confirmation.thy ===== *)
theory Mode_Confirmation
  imports Mode_Router
begin

text \<open>
  The two halves of a mode choice together: a waiting route decision with its token, and
  \<open>confirm_mode\<close> on the in-memory token store.
\<close>

section \<open>An issued token can be consumed\<close>

lemma issue_record:
  assumes "tokens_ok s" and "issue digest mr mv (Reads now) draws sub snap ttl s = (s', Inr (t, v))"
  shows "map_of (ts_records s') (digest t) =
      Some \<lparr>tr_subject = sub, tr_version = v, tr_snapshot = snap, tr_expires = now + ttl\<rparr>"
    and "ts_last s' = Some now" and "v \<le> mv" and "tokens_ok s'" and "0 < ttl"
proof -
  show ttl: "0 < ttl" using assms(2) by (auto simp: issue_def split: if_splits)
  obtain s0 n where clk: "clock_now (Reads now) s = (s0, n)" by fastforce
  with assms(2) ttl have n: "n = Some now"
    using clock_now_Some by (cases n) (auto simp: issue_def)
  from clock_now_Some [OF clk [unfolded n]] have s0: "s0 = s\<lparr>ts_last := Some now\<rparr>" by simp
  then have "ts_last (purge now s0) = Some now" using purge_ok(2) [of s0 now] assms(1) by simp
  then have last: "ts_last (forget_current sub (purge now s0)) = Some now"
    by (simp add: forget_current_def split: option.splits prod.splits)
  from assms(2) ttl clk n obtain cv where m: "mint digest mv draws sub snap (now + ttl) cv
      (forget_current sub (purge now s0)) = (s', Inr (t, v))"
    by (auto simp: issue_def Let_def split: if_splits)
  then show "map_of (ts_records s') (digest t) =
      Some \<lparr>tr_subject = sub, tr_version = v, tr_snapshot = snap, tr_expires = now + ttl\<rparr>"
    "ts_last s' = Some now" "v \<le> mv"
    using last by (auto simp: mint_def Let_def split: if_splits option.splits)
  from issue_state [OF assms] show "tokens_ok s'" by simp
qed

lemma consume_hit:
  assumes "tokens_ok s" and "map_of (ts_records s) (digest t) = Some r" and "ts_last s = Some t0"
    and "t0 \<le> now" and "now < tr_expires r" and "token_ok t" and "0 < tr_version r"
    and "executable m" and "subject_ok (tr_subject r)" and "m \<in> set (sn_options (tr_snapshot r))"
  shows "\<exists>s'. consume digest (Reads now) t (tr_subject r) (tr_version r) m s = (s', Inr (Some (tr_snapshot r)))"
proof -
  let ?s = "s\<lparr>ts_last := Some now\<rparr>"
  have clk: "clock_now (Reads now) s = (?s, Some now)" using assms(3,4) by (simp add: clock_now_def)
  have ok: "tokens_ok ?s" using assms(1) by simp
  have rec: "map_of (ts_records (purge now ?s)) (digest t) = Some r"
    using purge_ok(3) [OF ok, of now "digest t"] assms(2,5) by simp
  have sub: "map_of (ts_subjects (purge now ?s)) (tr_subject r) = Some (tr_version r, Some (digest t))"
    by (rule live_current [OF purge_ok(1) [OF ok] rec])
  show ?thesis
    using assms(6-10) clk rec sub by (simp add: consume_def Let_def)
qed

section \<open>Confirming\<close>

lemma aggregate_risk_snoc:
  "aggregate_risk (as @ [local_assessment m reason From_User (aggregate_risk as)]) = aggregate_risk as"
proof (induction as rule: aggregate_risk.induct)
  case (3 a b as)
  have max: "risk_rank x \<ge> risk_rank y \<and> risk_rank y \<ge> risk_rank x \<Longrightarrow> x = y" for x y
    by (cases x; cases y) simp_all
  have snoc: "aggregate_risk ((b # as) @ [local_assessment m reason From_User r]) =
      (if risk_rank (aggregate_risk (b # as)) \<ge> risk_rank r then aggregate_risk (b # as) else r)" for r
    by (induction as arbitrary: b) (auto simp: Let_def)
  show ?case using snoc by (auto simp: Let_def)
qed (simp_all add: Let_def)

text \<open>Confirming puts the user's own assessment behind the stored ones.\<close>

lemma user_indexes_snoc:
  assumes "list_all (\<lambda>a. as_source a \<noteq> From_User) as" and "as_source u = From_User"
  shows "user_indexes (as @ [u]) = [length as]"
proof -
  have "filter (\<lambda>k. as_source ((as @ [u]) ! k) = From_User) [0..<length as] = []"
    using assms(1) by (auto simp: filter_empty_conv list_all_length nth_append)
  with assms(2) show ?thesis by (simp add: user_indexes_def nth_append)
qed

lemma confirmed_ready:
  assumes "list_all assessment_ok as" and "length as \<le> 3" and "list_all (\<lambda>a. as_source a \<noteq> From_User) as"
    and "executable m" and "risk = aggregate_risk as" and "approval \<longleftrightarrow> risk = High"
    and "1 \<le> v" and "v \<le> 2 ^ 31 - 1"
  shows "\<exists>d. ready m (as @ [local_assessment m ''explicit_user_confirmation'' From_User risk]) risk approval v
      = Inr d \<and> ready_shape m (as @ [local_assessment m ''explicit_user_confirmation'' From_User risk]) risk approval d
    \<and> de_version d = v"
proof -
  let ?u = "local_assessment m ''explicit_user_confirmation'' From_User risk"
  have u: "assessment_ok ?u"
    by (rule local_assessment_ok [OF assms(4)]) (simp add: router_reasons_def)
  have idx: "user_indexes (as @ [?u]) = [length as]"
    by (rule user_indexes_snoc [OF assms(3)]) simp
  have risk: "aggregate_risk (as @ [?u]) = risk"
    using aggregate_risk_snoc [of as m] by (simp add: assms(5))
  show ?thesis
    using assms(1,2,4,6-8) u idx risk
    by (simp add: ready_def mk_decision_def decision_ok_def ready_shape_def)
qed

section \<open>A decision with a token\<close>

lemma ready_no_token:
  assumes "ready m as risk approval v = Inr d"
  shows "de_token d = None"
  using assms by (auto simp: ready_def mk_decision_def split: if_splits)

lemma waiting_no_subject:
  assumes "snd (waiting issue_op c p reason as risk approval None s) = Inr d"
  shows "de_token d = None"
  using assms by (auto simp: waiting_def waiting_token_def mk_decision_def Let_def split: if_splits)

text \<open>A route that returns a token went through a waiting decision for its subject.\<close>

lemma token_route:
  assumes "snd (route issue_op c p det slots classifier verifier task (Some su) s) = Inr d"
    and "de_token d = Some t"
  obtains reason as risk where
    "route issue_op c p det slots classifier verifier task (Some su) s
      = waiting issue_op c p reason as risk (risk = High) (Some su) s"
    "list_all assessment_ok (waiting_assessments risk as)"
    "list_all (\<lambda>a. as_source a \<noteq> From_User) (waiting_assessments risk as)"
    "length (waiting_assessments risk as) \<le> 2"
    "risk = aggregate_risk (waiting_assessments risk as)"
proof (cases rule: route_cases [where issue_op = issue_op and c = c and p = p and det = det
      and slots = slots and classifier = classifier and verifier = verifier and task = task
      and sub = "Some su" and s = s])
  case (Wait reason risk sub')
  have "sub' = Some su"
  proof (rule ccontr)
    assume "sub' \<noteq> Some su"
    with Wait(2) have none: "sub' = None" by auto
    from assms(1) have "snd (waiting issue_op c p reason [] risk (risk = High) None s) = Inr d"
      unfolding Wait(4) none .
    from waiting_no_subject [OF this] assms(2) show False by simp
  qed
  moreover have "assessment_ok (local_assessment Dispatch ''high_risk_policy'' From_Rule High)"
    by (rule local_assessment_ok) (simp_all add: executable_iff router_reasons_def)
  ultimately show ?thesis
    using that [of reason "[]" risk] Wait(3,4) by (auto simp: waiting_assessments_def)
next
  case (Command m)
  with assms ready_no_token show ?thesis by fastforce
next
  case (Rule m reason)
  with assms ready_no_token show ?thesis by fastforce
next
  case (Classified as)
  note ok = classify_text_results [OF Classified(4)]
  then have wa: "waiting_assessments (aggregate_risk as) as = as"
    by (simp add: waiting_assessments_def)
  from assms(1) have d: "snd (decide issue_op c p as (Some su) s) = Inr d" by (simp only: Classified(3))
  have "needs_choice p as"
  proof (rule ccontr)
    assume "\<not> needs_choice p as"
    with d assms(2) ready_no_token show False
      by (fastforce simp: decide_def Let_def split: if_splits)
  qed
  then have "decide issue_op c p as (Some su) s = waiting issue_op c p ''routing_requires_user_choice'' as
      (aggregate_risk as) (aggregate_risk as = High) (Some su) s"
    by (simp add: decide_def Let_def)
  with that [of "''routing_requires_user_choice''" as "aggregate_risk as"] ok wa Classified(3)
  show ?thesis by simp
qed

lemma waiting_snapshot:
  assumes "waiting issue_op c p reason as risk approval (Some su) s = (s1, Inr d)"
    and "de_token d = Some t"
  shows "issue_op c su \<lparr>sn_assessments = waiting_assessments risk as, sn_reason = reason,
      sn_options = executable_mode_order, sn_risk = risk, sn_approval = approval\<rparr> (rp_ttl p) s
      = (s1, Inr (t, de_version d))"
    and "decision_ok d" and "de_assessments d = waiting_assessments risk as" and "de_risk d = risk"
    and "de_approval d = approval"
proof -
  let ?snap = "\<lparr>sn_assessments = waiting_assessments risk as, sn_reason = reason,
      sn_options = executable_mode_order, sn_risk = risk, sn_approval = approval\<rparr>"
  obtain s2 t2 v where w: "waiting_token issue_op c p (Some su) ?snap s = (s2, t2, v)"
    by (cases "waiting_token issue_op c p (Some su) ?snap s")
  let ?d = "\<lparr>de_mode = None, de_choice = True, de_status = Waiting_Mode,
      de_assessments = waiting_assessments risk as, de_reason = Some reason,
      de_options = executable_mode_order, de_token = t2, de_version = v, de_risk = risk,
      de_approval = approval, de_permissions = True\<rparr>"
  have "waiting issue_op c p reason as risk approval (Some su) s = (s2, mk_decision ?d)"
    using w by (simp add: waiting_def waiting_assessments_def Let_def)
  with assms(1) have d: "s1 = s2" "d = ?d" "decision_ok ?d"
    by (auto simp: mk_decision_def split: if_splits)
  then show "decision_ok d" "de_assessments d = waiting_assessments risk as" "de_risk d = risk"
    "de_approval d = approval" by simp_all
  from d(2) assms(2) have "t2 = Some t" by simp
  with w d(1,2) show "issue_op c su ?snap (rp_ttl p) s = (s1, Inr (t, de_version d))"
    by (auto simp: waiting_token_def split: if_splits prod.splits sum.splits)
qed

text \<open>
  The token of a waiting decision buys exactly one confirmation: within its lifetime, for the
  subject it was issued to and any executable mode, \<open>confirm_mode\<close> returns a valid ready decision
  in that mode with the same risk and approval, the user's assessment behind the stored ones and
  the next version; whatever is consumed after that, a second confirmation fails as stale.
\<close>

theorem confirmation_round_trip:
  assumes "tokens_ok s" and "mv \<le> 2 ^ 31 - 2"
    and "route (store_issue digest mr mv) (Reads t0, draws) p det slots classifier verifier task (Some su) s
      = (s1, Inr d)"
    and "de_token d = Some t" and "subject_ok su" and "executable m"
    and "t0 \<le> t1" and "t1 < t0 + rp_ttl p"
  shows "\<exists>s2 d'. confirm_mode (store_consume digest) (Reads t1, x) m (Some t) (de_version d) su s1 = (s2, Inr d')
    \<and> decision_ok d' \<and> de_status d' = Ready \<and> de_mode d' = Some m \<and> de_risk d' = de_risk d
    \<and> de_approval d' = de_approval d \<and> de_version d' = de_version d + 1
    \<and> butlast (de_assessments d') = de_assessments d
    \<and> snd (confirm_mode (store_consume digest) c' m' (Some t) v' su' (memory_tokens.attempts digest as s2))
        \<in> {Inl Stale_Decision, Inl Mode_Not_Executable}"
proof -
  let ?consume = "store_consume digest :: (reading \<times> string list, token_store) consume_op"
  from assms(3) have "snd (route (store_issue digest mr mv) (Reads t0, draws) p det slots classifier verifier
      task (Some su) s) = Inr d" by simp
  from this assms(4) obtain reason as0 risk where
    r: "waiting (store_issue digest mr mv) (Reads t0, draws) p reason as0 risk (risk = High) (Some su) s = (s1, Inr d)"
    and wa: "list_all assessment_ok (waiting_assessments risk as0)"
      "list_all (\<lambda>a. as_source a \<noteq> From_User) (waiting_assessments risk as0)"
      "length (waiting_assessments risk as0) \<le> 2" "risk = aggregate_risk (waiting_assessments risk as0)"
    by (rule token_route) (metis assms(3))
  note w = waiting_snapshot [OF r assms(4)]
  let ?as = "waiting_assessments risk as0"
  let ?snap = "\<lparr>sn_assessments = ?as, sn_reason = reason, sn_options = executable_mode_order,
    sn_risk = risk, sn_approval = (risk = High)\<rparr>"
  from w(1) have "issue digest mr mv (Reads t0) draws su ?snap (rp_ttl p) s = (s1, Inr (t, de_version d))"
    by (simp add: store_issue_def)
  note i = issue_record [OF assms(1) this]
  have v: "1 \<le> de_version d" "token_ok t" using w(2) assms(4) by (simp_all add: decision_ok_def)
  obtain s2 where c: "?consume (Reads t1, x) t su (de_version d) m s1 = (s2, Inr (Some ?snap))"
    using consume_hit [where digest = digest and t = t and m = m, OF i(4,1,2) assms(7) _ v(2)] assms(5,6,8) v(1)
    by (auto simp: store_consume_def executable_def)
  let ?as' = "?as @ [local_assessment m ''explicit_user_confirmation'' From_User risk]"
  obtain d' where d': "ready m ?as' risk (risk = High) (de_version d + 1) = Inr d'"
    "ready_shape m ?as' risk (risk = High) d'" "de_version d' = de_version d + 1"
    using confirmed_ready [OF wa(1) _ wa(2) assms(6) wa(4), of "risk = High" "de_version d + 1"]
      wa(3) i(3) assms(2) v(1) by auto
  have conf: "confirm_mode ?consume (Reads t1, x) m (Some t) (de_version d) su s1 = (s2, Inr d')"
    using c d'(1) assms(5,6) v(1) by (simp add: confirm_mode_def)
  have "\<forall>snap'. snd (?consume c' t su' v' m' (memory_tokens.attempts digest as s2)) \<noteq> Inr (Some snap')"
    using memory_tokens.consumed_once [OF i(4) c] by blast
  then have "snd (confirm_mode ?consume c' m' (Some t) v' su' (memory_tokens.attempts digest as s2))
      \<in> {Inl Stale_Decision, Inl Mode_Not_Executable}"
    by (auto simp: confirm_mode_def split: prod.splits sum.splits option.splits)
  with conf d' w(3-5) show ?thesis by (auto simp: ready_shape_def)
qed

theorem confirmation_round_trip_witness:
  "\<exists>s1 d s2 d'. route (store_issue id 10 100) (Reads 5, [sample_token]) default_policy alarmed 0
        (opinion Direct 1 Low) (opinion Direct 1 Low) ''drop all tables'' (Some sample_subject) empty_tokens
      = (s1, Inr d)
    \<and> confirm_mode (store_consume id) (Reads 200, []) Hybrid (Some sample_token) 1 sample_subject s1 = (s2, Inr d')
    \<and> de_mode d' = Some Hybrid \<and> de_approval d'"
proof -
  let ?r = "route (store_issue id 10 100) (Reads 5, [sample_token]) default_policy alarmed 0
        (opinion Direct 1 Low) (opinion Direct 1 Low) ''drop all tables'' (Some sample_subject) empty_tokens"
  have "case snd ?r of Inr d \<Rightarrow> de_token d = Some sample_token \<and> de_version d = 1 \<and> de_approval d
      | Inl _ \<Rightarrow> False" by code_simp
  then obtain s1 d where r: "?r = (s1, Inr d)" "de_token d = Some sample_token" "de_version d = 1" "de_approval d"
    by (cases ?r; cases "snd ?r") auto
  have "subject_ok sample_subject" "executable Hybrid" "tokens_ok empty_tokens"
    by (code_simp, code_simp, rule tokens_ok_empty)
  from confirmation_round_trip [OF this(3) _ r(1,2) this(1,2), of 200 "[]" _ _ _ _ "[]"] r
  show ?thesis by (simp add: default_policy_def) blast
qed

end
