(* ===== verification/Dispatch_Plan.thy ===== *)
theory Dispatch_Plan
  imports Runtime_Contracts
begin

text \<open>
  The dispatch plans of \<open>runtime/crew/plan.py\<close>: agents, steps and plans with their validators,
  the graph check, the topological layers and the ancestors of a step. Reading a plan from JSON
  or YAML and its digest are library calls around these. Float sums are exact here.
\<close>

section \<open>Fields\<close>

definition max_plan_bytes :: nat where "max_plan_bytes = 262144"

definition dangerous_tools :: "string list" where
  "dangerous_tools = [''shell.exec'', ''docker.socket'', ''host.write'', ''privilege.escalate'']"

definition plan_text :: "nat \<Rightarrow> string \<Rightarrow> bool" where
  "plan_text limit v \<longleftrightarrow> \<not> py_isblank v \<and> utf8_len v \<le> limit \<and> \<not> list_ex unsafe_control v"

definition id_tuple :: "nat \<Rightarrow> string list \<Rightarrow> bool" where
  "id_tuple maximum v \<longleftrightarrow> length v \<le> maximum \<and> list_all safe_id v \<and> distinct v"

text \<open>\<open>_decimal\<close> on the text of its argument: at most seven digits, then at most six decimals.\<close>

definition decimal_value :: "string \<Rightarrow> decimal option" where
  "decimal_value t =
     (let whole = takeWhile (\<lambda>c. c \<noteq> CHR ''.'') t; rest = dropWhile (\<lambda>c. c \<noteq> CHR ''.'') t;
          frac = tl rest in
      if length t \<le> 32 \<and> whole \<noteq> [] \<and> list_all (\<lambda>c. c \<in> set digits) whole \<and> length whole \<le> 7
         \<and> (hd whole = CHR ''0'' \<longrightarrow> length whole = 1)
         \<and> (rest \<noteq> [] \<longrightarrow> frac \<noteq> [] \<and> list_all (\<lambda>c. c \<in> set digits) frac \<and> length frac \<le> 6)
      then Some (of_nat (nat_value whole)
             + (if rest = [] then 0 else of_nat (nat_value frac) / 10 ^ length frac))
      else None)"

section \<open>Agents and steps\<close>

record agent_spec =
  ag_id :: string
  ag_role :: string
  ag_goal :: string
  ag_model :: string
  ag_tools :: "string list"
  ag_tokens :: int

definition agent_ok :: "agent_spec \<Rightarrow> bool" where
  "agent_ok a \<longleftrightarrow> safe_id (ag_id a) \<and> safe_id (ag_model a) \<and> plan_text 512 (ag_role a)
     \<and> plan_text 16384 (ag_goal a) \<and> id_tuple 64 (ag_tools a)
     \<and> 1 \<le> ag_tokens a \<and> ag_tokens a \<le> 1000000"

record dispatch_step =
  st_id :: string
  st_agent :: string
  st_task :: string
  st_deps :: "string list"
  st_tools :: "string list"
  st_reviewer :: "string option"
  st_retries :: int
  st_final :: bool
  st_tokens :: int
  st_timeout :: pyfloat
  st_cost :: decimal

definition step_ok :: "dispatch_step \<Rightarrow> bool" where
  "step_ok s \<longleftrightarrow> safe_id (st_id s) \<and> safe_id (st_agent s) \<and> plan_text max_text_bytes (st_task s)
     \<and> id_tuple 64 (st_deps s) \<and> id_tuple 64 (st_tools s)
     \<and> (case st_reviewer s of None \<Rightarrow> True | Some r \<Rightarrow> safe_id r)
     \<and> 0 \<le> st_retries s \<and> st_retries s \<le> 8 \<and> 1 \<le> st_tokens s \<and> st_tokens s \<le> 1000000
     \<and> 0 < st_timeout s \<and> st_timeout s \<le> 3600 \<and> 0 \<le> st_cost s \<and> st_cost s \<le> 1000000
     \<and> \<not> (st_reviewer s = None \<and> st_retries s \<noteq> 0)
     \<and> st_reviewer s \<noteq> Some (st_agent s) \<and> st_id s \<notin> set (st_deps s)"

record dispatch_plan =
  pl_agents :: "agent_spec list"
  pl_steps :: "dispatch_step list"
  pl_allowed :: "string list"
  pl_denied :: "string list"
  pl_max_steps :: int
  pl_parallel :: int
  pl_tokens :: int
  pl_timeout :: pyfloat
  pl_cost :: decimal

section \<open>The graph\<close>

text \<open>The dictionary of dependencies: a later step of the same id would replace an earlier one.\<close>

definition dependency_dict :: "dispatch_step list \<Rightarrow> (string \<times> string list) list" where
  "dependency_dict steps = fold (\<lambda>s. AList.update (st_id s) (st_deps s)) steps []"

definition ready_ids :: "string list \<Rightarrow> (string \<times> string list) list \<Rightarrow> string list" where
  "ready_ids completed remaining =
     sort (map fst (filter (\<lambda>(i, deps). list_all (\<lambda>d. d \<in> set completed) deps) remaining))"

function layer_loop :: "string list \<Rightarrow> (string \<times> string list) list \<Rightarrow> string list list" where
  "layer_loop completed remaining =
     (let ready = ready_ids completed remaining in
      if remaining = [] \<or> ready = [] then []
      else ready # layer_loop (completed @ ready) (filter (\<lambda>(i, _). i \<notin> set ready) remaining))"
  by pat_completeness auto

lemma set_ready_ids:
  "i \<in> set (ready_ids completed remaining) \<longleftrightarrow>
     (\<exists>deps. (i, deps) \<in> set remaining \<and> set deps \<subseteq> set completed)"
  by (force simp: ready_ids_def list_all_iff)

lemma ready_shrinks:
  assumes "ready_ids completed remaining \<noteq> []"
  shows "length (filter (\<lambda>(i, _). i \<notin> set (ready_ids completed remaining)) remaining) < length remaining"
proof -
  obtain i where i: "i \<in> set (ready_ids completed remaining)" using assms by (meson hd_in_set)
  then obtain deps where "(i, deps) \<in> set remaining" by (auto simp: set_ready_ids)
  with i show ?thesis by (intro length_filter_less [of "(i, deps)"]) auto
qed

termination layer_loop
  by (relation "measure (\<lambda>(_, remaining). length remaining)") (auto intro: ready_shrinks)

declare layer_loop.simps [simp del]

definition topological_layers :: "dispatch_step list \<Rightarrow> string list list" where
  "topological_layers steps = layer_loop [] (dependency_dict steps)"

text \<open>
  The stack of \<open>_ancestors\<close>, its top first; \<open>None\<close> is the \<open>KeyError\<close> of an unknown step.
\<close>

function ancestor_loop ::
  "(string \<times> string list) list \<Rightarrow> string list \<Rightarrow> string list \<Rightarrow> string list option" where
  "ancestor_loop by_id found [] = Some found"
| "ancestor_loop by_id found (current # stack) =
     (if current \<in> set found then ancestor_loop by_id found stack
      else case map_of by_id current of
        None \<Rightarrow> None
      | Some deps \<Rightarrow> ancestor_loop by_id (current # found) (rev deps @ stack))"
  by pat_completeness auto

termination ancestor_loop
proof (relation "measures [\<lambda>(by_id, found, _). card (fst ` set by_id - set found), \<lambda>(_, _, stack). length stack]",
    goal_cases)
  case (3 by_id found current stack deps)
  then have "current \<in> fst ` set by_id" by (auto dest: map_of_SomeD intro: rev_image_eqI)
  with 3 have "card (fst ` set by_id - set (current # found)) < card (fst ` set by_id - set found)"
    by (intro psubset_card_mono) auto
  then show ?case by simp
qed simp_all

definition ancestors :: "dispatch_step list \<Rightarrow> string \<Rightarrow> string list option" where
  "ancestors steps i = (let by_id = dependency_dict steps in
     case map_of by_id i of None \<Rightarrow> None | Some deps \<Rightarrow> ancestor_loop by_id [] (rev deps))"

section \<open>The validators of a plan\<close>

datatype plan_error = Invalid_Plan string | Unknown_Step

definition review_rounds :: "dispatch_step \<Rightarrow> rat" where
  "review_rounds s = (if st_reviewer s = None then 1 else 2 + 2 * of_int (st_retries s))"

definition step_checks ::
  "agent_spec list \<Rightarrow> string list \<Rightarrow> string list \<Rightarrow> string list \<Rightarrow> dispatch_step \<Rightarrow> (bool \<times> plan_error) list" where
  "step_checks agents known allowed denied s =
     (let agent_dict = map_of (map (\<lambda>a. (ag_id a, a)) agents) in
      [(agent_dict (st_agent s) = None
          \<or> (case st_reviewer s of None \<Rightarrow> False | Some r \<Rightarrow> agent_dict r = None),
        Invalid_Plan ''step references an unknown agent''),
       (list_ex (\<lambda>d. d \<notin> set known) (st_deps s),
        Invalid_Plan ''step references an unknown dependency''),
       (list_ex (\<lambda>t. \<not> ((case agent_dict (st_agent s) of None \<Rightarrow> False | Some a \<Rightarrow> t \<in> set (ag_tools a))
                       \<and> t \<in> set allowed) \<or> t \<in> set denied) (st_tools s),
        Invalid_Plan ''step tool policy is not permitted'')])"

text \<open>The steps nothing but the final step depends on.\<close>

definition leaves :: "dispatch_step list \<Rightarrow> string \<Rightarrow> string list" where
  "leaves steps final = map st_id (filter (\<lambda>s. st_id s \<noteq> final
     \<and> \<not> list_ex (\<lambda>c. st_id c \<noteq> final \<and> st_id s \<in> set (st_deps c)) steps) steps)"

definition budget_checks :: "dispatch_plan \<Rightarrow> (bool \<times> plan_error) list" where
  "budget_checks p =
     [(list_ex (\<lambda>s. st_tokens s > pl_tokens p) (pl_steps p),
       Invalid_Plan ''total token budget is insufficient''),
      (sum_list (map (\<lambda>s. st_timeout s * review_rounds s) (pl_steps p)) > pl_timeout p,
       Invalid_Plan ''total timeout budget is insufficient''),
      (sum_list (map (\<lambda>s. st_cost s * review_rounds s) (pl_steps p)) > pl_cost p,
       Invalid_Plan ''total cost budget is insufficient'')]"

definition graph_checks :: "dispatch_plan \<Rightarrow> (bool \<times> plan_error) list" where
  "graph_checks p =
     (let steps = pl_steps p; ids = map st_id steps in
      [(int (length steps) > pl_max_steps p, Invalid_Plan ''step count exceeds maximum''),
       (\<not> distinct (map ag_id (pl_agents p)), Invalid_Plan ''agent ids must be unique''),
       (\<not> distinct ids, Invalid_Plan ''step ids must be unique'')]
      @ concat (map (step_checks (pl_agents p) ids (pl_allowed p) (pl_denied p @ dangerous_tools)) steps)
      @ [(sum_list (map length (topological_layers steps)) \<noteq> length steps,
          Invalid_Plan ''dispatch plan contains a cycle'')])"

definition synthesis_check :: "dispatch_plan \<Rightarrow> plan_error + unit" where
  "synthesis_check p =
     (let steps = pl_steps p in
      case filter st_final steps of
        [f] \<Rightarrow>
          if list_ex (\<lambda>s. st_id f \<in> set (st_deps s)) steps
          then Inl (Invalid_Plan ''final synthesizer must be terminal'')
          else (case ancestors steps (st_id f) of
              None \<Rightarrow> Inl Unknown_Step
            | Some found \<Rightarrow>
                if list_ex (\<lambda>l. l \<notin> set found) (leaves steps (st_id f))
                then Inl (Invalid_Plan ''final synthesizer must cover every required leaf'')
                else Inr ())
      | _ \<Rightarrow> Inl (Invalid_Plan ''plan requires exactly one final synthesizer''))"

definition validate_graph :: "dispatch_plan \<Rightarrow> plan_error + unit" where
  "validate_graph p =
     res_bind (run_checks (graph_checks p)) (\<lambda>_.
     res_bind (synthesis_check p) (\<lambda>_.
     run_checks (budget_checks p)))"

definition plan_fields_ok :: "dispatch_plan \<Rightarrow> bool" where
  "plan_fields_ok p \<longleftrightarrow>
     1 \<le> length (pl_agents p) \<and> length (pl_agents p) \<le> 128 \<and> list_all agent_ok (pl_agents p)
   \<and> pl_steps p \<noteq> [] \<and> length (pl_steps p) \<le> 64 \<and> list_all step_ok (pl_steps p)
   \<and> id_tuple 256 (pl_allowed p) \<and> id_tuple 256 (pl_denied p)
   \<and> 1 \<le> pl_max_steps p \<and> pl_max_steps p \<le> 64 \<and> 1 \<le> pl_parallel p \<and> pl_parallel p \<le> 64
   \<and> 1 \<le> pl_tokens p \<and> pl_tokens p \<le> 10000000 \<and> 0 < pl_timeout p \<and> pl_timeout p \<le> 86400
   \<and> 0 \<le> pl_cost p \<and> pl_cost p \<le> 1000000"

definition mk_plan :: "dispatch_plan \<Rightarrow> plan_error + dispatch_plan" where
  "mk_plan p =
     (if \<not> plan_fields_ok p then Inl (Invalid_Plan ''invalid dispatch plan'')
      else if sum_list (map (utf8_len \<circ> ag_goal) (pl_agents p))
              + sum_list (map (utf8_len \<circ> st_task) (pl_steps p)) > max_plan_bytes
      then Inl (Invalid_Plan ''dispatch plan exceeds size limit'')
      else res_bind (validate_graph p) (\<lambda>_. Inr p))"

definition final_step :: "dispatch_plan \<Rightarrow> dispatch_step option" where
  "final_step p = find st_final (pl_steps p)"

end
