(* ===== verification/Dispatch_Graph.thy ===== *)
theory Dispatch_Graph
  imports Dispatch_Plan
begin

text \<open>
  What the graph check of a dispatch plan establishes: the layers order the steps by their
  dependencies, they cover all steps exactly when the dependencies have no cycle, and the final
  step of an accepted plan depends on every other step.
\<close>

section \<open>The dependency relation\<close>

definition depends :: "(string \<times> string list) list \<Rightarrow> (string \<times> string) set" where
  "depends d = {(i, j). \<exists>deps. (i, deps) \<in> set d \<and> j \<in> set deps}"

lemma update_new: "k \<notin> fst ` set al \<Longrightarrow> AList.update k v al = al @ [(k, v)]"
  by (induction al) auto

lemma dependency_dict_distinct:
  assumes "distinct (map st_id steps)"
  shows "dependency_dict steps = map (\<lambda>s. (st_id s, st_deps s)) steps"
proof -
  have "fold (\<lambda>s. AList.update (st_id s) (st_deps s)) steps acc
      = acc @ map (\<lambda>s. (st_id s, st_deps s)) steps"
    if "distinct (map st_id steps)" "\<forall>s \<in> set steps. st_id s \<notin> fst ` set acc" for acc
    using that
  proof (induction steps arbitrary: acc)
    case (Cons s steps)
    then have "AList.update (st_id s) (st_deps s) acc = acc @ [(st_id s, st_deps s)]"
      by (simp add: update_new)
    moreover have "\<forall>s' \<in> set steps. st_id s' \<notin> fst ` set (acc @ [(st_id s, st_deps s)])"
      using Cons.prems by (auto simp: image_iff)
    ultimately show ?case using Cons by simp
  qed simp
  from this [OF assms, of "[]"] show ?thesis by (simp add: dependency_dict_def)
qed

lemma finite_depends: "finite (depends d)"
proof (rule finite_subset)
  show "depends d \<subseteq> (\<Union>(i, deps) \<in> set d. {i} \<times> set deps)" by (force simp: depends_def)
qed auto

section \<open>The layers\<close>

text \<open>
  What one run of the loop gives: every step is in at most one layer, its dependencies are in
  earlier layers or were completed before, and a step left out waits for something left out.
\<close>

definition done_before :: "string list \<Rightarrow> string list list \<Rightarrow> nat \<Rightarrow> string set" where
  "done_before completed layers k = set completed \<union> set (concat (take k layers))"

lemma layer_loop_unfold:
  assumes "remaining \<noteq> []" and "ready_ids completed remaining \<noteq> []"
  shows "layer_loop completed remaining = ready_ids completed remaining #
    layer_loop (completed @ ready_ids completed remaining)
      (filter (\<lambda>(i, _). i \<notin> set (ready_ids completed remaining)) remaining)"
  using assms by (subst layer_loop.simps) (simp add: Let_def)

lemma layer_loop_stop:
  assumes "remaining = [] \<or> ready_ids completed remaining = []"
  shows "layer_loop completed remaining = []"
  using assms by (subst layer_loop.simps) (auto simp: Let_def)

lemma layer_loop_sorted:
  "layer \<in> set (layer_loop completed remaining) \<Longrightarrow> layer \<noteq> [] \<and> sorted layer"
proof (induction completed remaining rule: layer_loop.induct)
  case (1 completed remaining)
  then show ?case
    by (cases "remaining = [] \<or> ready_ids completed remaining = []")
      (auto simp: layer_loop_stop layer_loop_unfold ready_ids_def)
qed

lemma layer_loop_ids:
  assumes "distinct (map fst remaining)"
  shows "distinct (concat (layer_loop completed remaining))
    \<and> set (concat (layer_loop completed remaining)) \<subseteq> fst ` set remaining"
  using assms
proof (induction completed remaining rule: layer_loop.induct)
  case (1 completed remaining)
  show ?case
  proof (cases "remaining = [] \<or> ready_ids completed remaining = []")
    case True
    then show ?thesis by (simp add: layer_loop_stop)
  next
    case False
    let ?r = "ready_ids completed remaining"
    let ?rest = "filter (\<lambda>(i, _). i \<notin> set ?r) remaining"
    have dist: "distinct (map fst ?rest)" using 1(2) by (simp add: distinct_map_filter)
    have "distinct ?r"
      using 1(2) by (simp add: ready_ids_def distinct_map_filter)
    moreover have "set ?r \<subseteq> fst ` set remaining" by (force simp: set_ready_ids)
    ultimately show ?thesis
      using 1(1) [OF refl _ dist] False by (auto simp: layer_loop_unfold)
  qed
qed

lemma layer_loop_deps:
  assumes "distinct (map fst remaining)" and "(i, deps) \<in> set remaining"
    and "k < length (layer_loop completed remaining)" and "i \<in> set (layer_loop completed remaining ! k)"
  shows "set deps \<subseteq> done_before completed (layer_loop completed remaining) k"
  using assms
proof (induction completed remaining arbitrary: k rule: layer_loop.induct)
  case (1 completed remaining)
  let ?r = "ready_ids completed remaining"
  let ?rest = "filter (\<lambda>(i, _). i \<notin> set ?r) remaining"
  show ?case
  proof (cases "remaining = [] \<or> ?r = []")
    case True
    with 1(4) show ?thesis by (simp add: layer_loop_stop)
  next
    case False
    then have unf: "layer_loop completed remaining = ?r # layer_loop (completed @ ?r) ?rest"
      by (simp add: layer_loop_unfold)
    show ?thesis
    proof (cases k)
      case 0
      with 1(5) unf obtain deps' where d: "(i, deps') \<in> set remaining" "set deps' \<subseteq> set completed"
        by (auto simp: set_ready_ids)
      from d(1) 1(2,3) have "deps' = deps" by (simp add: eq_key_imp_eq_value)
      with d(2) 0 show ?thesis by (simp add: done_before_def)
    next
      case (Suc n)
      have dist: "distinct (map fst ?rest)" using 1(2) by (simp add: distinct_map_filter)
      have n: "n < length (layer_loop (completed @ ?r) ?rest)" "i \<in> set (layer_loop (completed @ ?r) ?rest ! n)"
        using 1(4,5) unf Suc by simp_all
      then have "i \<in> set (concat (layer_loop (completed @ ?r) ?rest))" by fastforce
      with layer_loop_ids [OF dist] have "i \<in> fst ` set ?rest" by blast
      then have "i \<notin> set ?r" by auto
      with 1(3) have "(i, deps) \<in> set ?rest" by simp
      from 1(1) [OF refl _ dist this n] False
      have "set deps \<subseteq> done_before (completed @ ?r) (layer_loop (completed @ ?r) ?rest) n" by blast
      then show ?thesis using unf Suc by (auto simp: done_before_def)
    qed
  qed
qed

lemma layer_loop_left:
  assumes "distinct (map fst remaining)" and "(i, deps) \<in> set remaining"
    and "i \<notin> set (concat (layer_loop completed remaining))"
  shows "\<exists>d \<in> set deps. d \<notin> set completed \<and> d \<notin> set (concat (layer_loop completed remaining))"
  using assms
proof (induction completed remaining rule: layer_loop.induct)
  case (1 completed remaining)
  let ?r = "ready_ids completed remaining"
  let ?rest = "filter (\<lambda>(i, _). i \<notin> set ?r) remaining"
  show ?case
  proof (cases "?r = []")
    case True
    then have "\<not> set deps \<subseteq> set completed" using 1(3) set_ready_ids [of i completed remaining] by auto
    with True show ?thesis by (auto simp: layer_loop_stop)
  next
    case False
    from 1(3) have ne: "remaining \<noteq> []" by auto
    have unf: "layer_loop completed remaining = ?r # layer_loop (completed @ ?r) ?rest"
      by (rule layer_loop_unfold [OF ne False])
    have dist: "distinct (map fst ?rest)" using 1(2) by (simp add: distinct_map_filter)
    have "(i, deps) \<in> set ?rest" using 1(3,4) unf by simp
    from 1(1) [OF refl _ dist this] ne False 1(4) unf show ?thesis by fastforce
  qed
qed

section \<open>Cycles\<close>

lemma in_concat_take:
  "j \<in> set (concat (take k ls)) \<longleftrightarrow> (\<exists>m. m < k \<and> m < length ls \<and> j \<in> set (ls ! m))"
  by (simp add: set_conv_nth [of "take k ls"]) auto

lemma layers_cover_acyclic:
  assumes "distinct (map fst d)" and "\<forall>(i, deps) \<in> set d. set deps \<subseteq> fst ` set d"
  shows "set (concat (layer_loop [] d)) = fst ` set d \<longleftrightarrow> acyclic (depends d)"
proof
  assume cover: "set (concat (layer_loop [] d)) = fst ` set d"
  let ?L = "layer_loop [] d"
  let ?f = "\<lambda>i. LEAST k. k < length ?L \<and> i \<in> set (?L ! k)"
  have least: "?f i < length ?L \<and> i \<in> set (?L ! ?f i)" if "i \<in> fst ` set d" for i
  proof -
    from that cover have "i \<in> set (concat (take (length ?L) ?L))" by simp
    then have "\<exists>k. k < length ?L \<and> i \<in> set (?L ! k)" unfolding in_concat_take by blast
    then show ?thesis by (rule LeastI_ex)
  qed
  have less: "?f j < ?f i" if "(i, j) \<in> depends d" for i j
  proof -
    from that obtain deps where d: "(i, deps) \<in> set d" "j \<in> set deps" by (auto simp: depends_def)
    then have "i \<in> fst ` set d" by force
    from least [OF this] have fi: "?f i < length ?L" "i \<in> set (?L ! ?f i)" by blast+
    from layer_loop_deps [OF assms(1) d(1) fi] d(2)
    have "j \<in> set (concat (take (?f i) ?L))" by (auto simp: done_before_def)
    then obtain k where k: "k < ?f i" "k < length ?L" "j \<in> set (?L ! k)"
      unfolding in_concat_take by blast
    then have "?f j \<le> k" by (intro Least_le) simp
    with k show ?thesis by simp
  qed
  have "(i, j) \<in> (depends d)\<^sup>+ \<Longrightarrow> ?f j < ?f i" for i j
    by (induction rule: trancl_induct) (auto dest: less)
  then show "acyclic (depends d)" by (force simp: acyclic_def)
next
  assume "acyclic (depends d)"
  then have wf: "wf ((depends d)\<inverse>)" by (rule finite_acyclic_wf_converse [OF finite_depends])
  have "i \<in> set (concat (layer_loop [] d))" if "i \<in> fst ` set d" for i
    using wf that
  proof (induction i rule: wf_induct_rule)
    case (less i)
    from less.prems obtain deps where d: "(i, deps) \<in> set d" by auto
    show ?case
    proof (rule ccontr)
      assume "i \<notin> set (concat (layer_loop [] d))"
      from layer_loop_left [OF assms(1) d this] obtain j where
        j: "j \<in> set deps" "j \<notin> set (concat (layer_loop [] d))" by auto
      have "(j, i) \<in> (depends d)\<inverse>" using d j(1) by (auto simp: depends_def)
      moreover have "j \<in> fst ` set d" using assms(2) d j(1) by blast
      ultimately show False using less.IH j(2) by blast
    qed
  qed
  with layer_loop_ids [OF assms(1), of "[]"] show "set (concat (layer_loop [] d)) = fst ` set d" by blast
qed

lemma layers_length:
  assumes "distinct (map fst d)"
  shows "sum_list (map length (layer_loop [] d)) = length d \<longleftrightarrow> set (concat (layer_loop [] d)) = fst ` set d"
proof -
  from layer_loop_ids [OF assms, of "[]"]
  have ids: "distinct (concat (layer_loop [] d))" "set (concat (layer_loop [] d)) \<subseteq> fst ` set d" by blast+
  have "sum_list (map length (layer_loop [] d)) = card (set (concat (layer_loop [] d)))"
    using distinct_card [OF ids(1)] by (simp add: length_concat)
  moreover have "length d = card (fst ` set d)"
    using distinct_card [OF assms] by simp
  ultimately show ?thesis using ids(2) by (metis card_subset_eq finite_imageI finite_set)
qed

section \<open>Ancestors\<close>

lemma ancestor_loop_result:
  assumes "ancestor_loop d found stack = Some result" and "distinct (map fst d)"
    and "\<forall>i \<in> set found. \<forall>j. (i, j) \<in> depends d \<longrightarrow> j \<in> set found \<union> set stack"
  shows "set found \<union> set stack \<subseteq> set result
    \<and> (\<forall>i \<in> set result. \<forall>j. (i, j) \<in> depends d \<longrightarrow> j \<in> set result)
    \<and> set result \<subseteq> set found \<union> {j. \<exists>i \<in> set stack. (i, j) \<in> (depends d)\<^sup>*}"
  using assms
proof (induction d found stack rule: ancestor_loop.induct)
  case (2 d found current stack)
  show ?case
  proof (cases "current \<in> set found")
    case True
    with 2(1) [OF True] 2(3-5) show ?thesis by (simp add: insert_absorb) blast
  next
    case False
    with 2(3) obtain deps where deps: "map_of d current = Some deps"
      by (cases "map_of d current") auto
    have dep_iff: "(current, j) \<in> depends d \<longleftrightarrow> j \<in> set deps" for j
      using map_of_SomeD [OF deps] eq_key_imp_eq_value [OF 2(4)] unfolding depends_def by blast
    have inv: "\<forall>i \<in> set (current # found). \<forall>j. (i, j) \<in> depends d \<longrightarrow>
        j \<in> set (current # found) \<union> set (rev deps @ stack)"
      using 2(5) dep_iff by auto
    have "ancestor_loop d (current # found) (rev deps @ stack) = Some result"
      using 2(3) False deps by simp
    from 2(2) [OF False deps this 2(4) inv]
    have ih: "set (current # found) \<union> set (rev deps @ stack) \<subseteq> set result"
      "\<forall>i \<in> set result. \<forall>j. (i, j) \<in> depends d \<longrightarrow> j \<in> set result"
      "set result \<subseteq> set (current # found) \<union> {j. \<exists>i \<in> set (rev deps @ stack). (i, j) \<in> (depends d)\<^sup>*}"
      by blast+
    have "{j. \<exists>i \<in> set (rev deps @ stack). (i, j) \<in> (depends d)\<^sup>*}
        \<subseteq> {j. \<exists>i \<in> set (current # stack). (i, j) \<in> (depends d)\<^sup>*}"
      using dep_iff by (auto intro: converse_rtrancl_into_rtrancl)
    moreover have "current \<in> {j. \<exists>i \<in> set (current # stack). (i, j) \<in> (depends d)\<^sup>*}" by auto
    ultimately have "set result \<subseteq> set found \<union> {j. \<exists>i \<in> set (current # stack). (i, j) \<in> (depends d)\<^sup>*}"
      using ih(3) unfolding list.set by blast
    with ih(1,2) show ?thesis by auto
  qed
qed simp

lemma ancestor_loop_total:
  assumes "set stack \<subseteq> fst ` set d" and "\<forall>(i, deps) \<in> set d. set deps \<subseteq> fst ` set d"
  shows "\<exists>result. ancestor_loop d found stack = Some result"
  using assms
proof (induction d found stack rule: ancestor_loop.induct)
  case (2 d found current stack)
  show ?case
  proof (cases "current \<in> set found")
    case False
    from 2(3) obtain deps where deps: "map_of d current = Some deps"
      by (metis insertI1 list.simps(15) map_of_eq_None_iff option.exhaust subsetD)
    then have "set deps \<subseteq> fst ` set d" using 2(4) by (auto dest!: map_of_SomeD)
    with 2(2) [OF False deps] 2(3,4) deps False show ?thesis by simp
  qed (use 2 in auto)
qed simp

lemma ancestors_are_reachable:
  assumes "distinct (map st_id steps)" and "ancestors steps i = Some found"
  shows "set found = {j. (i, j) \<in> (depends (dependency_dict steps))\<^sup>+}"
proof -
  let ?d = "dependency_dict steps"
  have dist: "distinct (map fst ?d)"
    using assms(1) by (simp add: dependency_dict_distinct comp_def)
  from assms(2) obtain deps where deps: "map_of ?d i = Some deps" "ancestor_loop ?d [] (rev deps) = Some found"
    by (auto simp: ancestors_def Let_def split: option.splits)
  have dep_iff: "(i, j) \<in> depends ?d \<longleftrightarrow> j \<in> set deps" for j
    using map_of_SomeD [OF deps(1)] eq_key_imp_eq_value [OF dist] unfolding depends_def by blast
  have inv: "\<forall>i \<in> set []. \<forall>j. (i, j) \<in> depends ?d \<longrightarrow> j \<in> set [] \<union> set (rev deps)" by simp
  note r = ancestor_loop_result [OF deps(2) dist inv]
  have closed: "x \<in> set found \<Longrightarrow> (x, j) \<in> depends ?d \<Longrightarrow> j \<in> set found" for x j
    using r by blast
  have "j \<in> set found" if "(i, j) \<in> (depends ?d)\<^sup>+" for j
    using that
  proof (induction rule: trancl_induct)
    case (base y)
    with dep_iff r show ?case by auto
  next
    case (step y z)
    with closed show ?case by blast
  qed
  moreover have "(i, j) \<in> (depends ?d)\<^sup>+" if "j \<in> set found" for j
  proof -
    from that r obtain x where "x \<in> set (rev deps)" "(x, j) \<in> (depends ?d)\<^sup>*" by auto
    with dep_iff show ?thesis by (auto intro: rtrancl_into_trancl2)
  qed
  ultimately show ?thesis by blast
qed

section \<open>Accepted graphs\<close>

definition steps_known :: "dispatch_step list \<Rightarrow> bool" where
  "steps_known steps \<longleftrightarrow> (\<forall>s \<in> set steps. set (st_deps s) \<subseteq> set (map st_id steps))"

lemma depends_steps:
  assumes "distinct (map st_id steps)"
  shows "(i, j) \<in> depends (dependency_dict steps) \<longleftrightarrow>
    (\<exists>s \<in> set steps. st_id s = i \<and> j \<in> set (st_deps s))"
  using assms by (auto simp: dependency_dict_distinct depends_def)

lemma dict_facts:
  assumes "distinct (map st_id steps)" and "steps_known steps"
  shows "distinct (map fst (dependency_dict steps))"
    and "fst ` set (dependency_dict steps) = st_id ` set steps"
    and "\<forall>(i, deps) \<in> set (dependency_dict steps). set deps \<subseteq> fst ` set (dependency_dict steps)"
    and "length (dependency_dict steps) = length steps"
  using assms by (auto simp: dependency_dict_distinct comp_def steps_known_def image_image)

text \<open>
  C14. The layers of a plan order its steps by their dependencies: with distinct ids and known
  dependencies, no step is in two layers, a step in layer k depends only on steps of the layers
  before it, each layer is sorted, and the layers hold every step exactly when the dependencies
  have no cycle.
\<close>

theorem layers_order_the_steps:
  assumes "distinct (map st_id steps)" and "steps_known steps"
  shows "distinct (concat (topological_layers steps))
    \<and> set (concat (topological_layers steps)) \<subseteq> st_id ` set steps
    \<and> (\<forall>s \<in> set steps. \<forall>k < length (topological_layers steps).
         st_id s \<in> set (topological_layers steps ! k) \<longrightarrow>
         set (st_deps s) \<subseteq> set (concat (take k (topological_layers steps))))
    \<and> (\<forall>layer \<in> set (topological_layers steps). layer \<noteq> [] \<and> sorted layer)
    \<and> (set (concat (topological_layers steps)) = st_id ` set steps
         \<longleftrightarrow> acyclic (depends (dependency_dict steps)))"
proof -
  note d = dict_facts [OF assms]
  have mem: "(st_id s, st_deps s) \<in> set (dependency_dict steps)" if "s \<in> set steps" for s
    using that assms(1) by (simp add: dependency_dict_distinct)
  have "\<forall>s \<in> set steps. \<forall>k < length (topological_layers steps).
         st_id s \<in> set (topological_layers steps ! k) \<longrightarrow>
         set (st_deps s) \<subseteq> set (concat (take k (topological_layers steps)))"
    using layer_loop_deps [OF d(1) mem, where completed = "[]"]
    unfolding topological_layers_def done_before_def by simp
  with layer_loop_ids [OF d(1), of "[]"] layer_loop_sorted [where completed = "[]"]
    layers_cover_acyclic [OF d(1,3)] d(2)
  show ?thesis unfolding topological_layers_def by simp
qed

text \<open>What the graph check accepts.\<close>

lemma validate_graph_Inr:
  assumes "validate_graph p = Inr ()"
  obtains f found where "filter st_final (pl_steps p) = [f]" "distinct (map st_id (pl_steps p))"
    "steps_known (pl_steps p)" "acyclic (depends (dependency_dict (pl_steps p)))"
    "\<forall>s \<in> set (pl_steps p). st_id f \<notin> set (st_deps s)"
    "ancestors (pl_steps p) (st_id f) = Some found"
    "\<forall>l \<in> set (leaves (pl_steps p) (st_id f)). l \<in> set found"
    "\<forall>s \<in> set (pl_steps p). \<forall>c \<in> set (step_checks (pl_agents p) (map st_id (pl_steps p))
        (pl_allowed p) (pl_denied p @ dangerous_tools) s). \<not> fst c"
    "\<forall>c \<in> set (budget_checks p). \<not> fst c"
proof -
  let ?steps = "pl_steps p"
  from assms have g: "\<forall>c \<in> set (graph_checks p). \<not> fst c" and syn: "synthesis_check p = Inr ()"
    and budget: "\<forall>c \<in> set (budget_checks p). \<not> fst c"
    by (auto simp: validate_graph_def)
  from g have first: "distinct (map st_id ?steps)"
    "\<forall>s \<in> set ?steps. \<forall>c \<in> set (step_checks (pl_agents p) (map st_id ?steps)
        (pl_allowed p) (pl_denied p @ dangerous_tools) s). \<not> fst c"
    "sum_list (map length (topological_layers ?steps)) = length ?steps"
    unfolding graph_checks_def Let_def by auto
  have known: "steps_known ?steps"
    using first(2) by (auto simp: steps_known_def step_checks_def Let_def list_ex_iff)
  note d = dict_facts [OF first(1) known]
  have acyc: "acyclic (depends (dependency_dict ?steps))"
    using layers_cover_acyclic [OF d(1,3)] layers_length [OF d(1)] first(3) d(4)
    by (simp add: topological_layers_def)
  from syn obtain f where f: "filter st_final ?steps = [f]"
    by (auto simp: synthesis_check_def Let_def split: list.splits)
  with syn obtain found where "ancestors ?steps (st_id f) = Some found"
    "\<forall>s \<in> set ?steps. st_id f \<notin> set (st_deps s)"
    "\<forall>l \<in> set (leaves ?steps (st_id f)). l \<in> set found"
    by (auto simp: synthesis_check_def Let_def list_ex_iff split: if_splits option.splits)
  with f first(1,2) known acyc budget that show ?thesis by blast
qed

lemma leaves_cover_all:
  assumes "distinct (map st_id steps)" and "acyclic (depends (dependency_dict steps))"
  shows "(\<forall>l \<in> set (leaves steps f). (f, l) \<in> (depends (dependency_dict steps))\<^sup>+) \<longleftrightarrow>
    (\<forall>s \<in> set steps. st_id s \<noteq> f \<longrightarrow> (f, st_id s) \<in> (depends (dependency_dict steps))\<^sup>+)"
    (is "?leaves \<longleftrightarrow> ?all")
proof
  let ?D = "depends (dependency_dict steps)"
  assume leaves: ?leaves
  have wf: "wf ?D" by (rule finite_acyclic_wf [OF finite_depends assms(2)])
  have "\<forall>s \<in> set steps. st_id s = i \<longrightarrow> i \<noteq> f \<longrightarrow> (f, i) \<in> ?D\<^sup>+" for i
    using wf
  proof (induction i rule: wf_induct_rule)
    case (less i)
    show ?case
    proof (intro ballI impI)
      fix s assume s: "s \<in> set steps" "st_id s = i" "i \<noteq> f"
      show "(f, i) \<in> ?D\<^sup>+"
      proof (cases "\<exists>c \<in> set steps. st_id c \<noteq> f \<and> i \<in> set (st_deps c)")
        case True
        then obtain c where c: "c \<in> set steps" "st_id c \<noteq> f" "i \<in> set (st_deps c)" by blast
        then have "(st_id c, i) \<in> ?D" using depends_steps [OF assms(1)] by blast
        with less c(1,2) show ?thesis by (auto intro: trancl_into_trancl)
      next
        case False
        with s have "i \<in> set (leaves steps f)" by (auto simp: leaves_def list_ex_iff)
        with leaves show ?thesis by blast
      qed
    qed
  qed
  then show ?all by blast
qed (auto simp: leaves_def)

lemma ancestors_total:
  assumes "distinct (map st_id steps)" and "steps_known steps" and "s \<in> set steps"
  shows "\<exists>found. ancestors steps (st_id s) = Some found"
proof -
  note d = dict_facts [OF assms(1,2)]
  have "(st_id s, st_deps s) \<in> set (dependency_dict steps)"
    using assms(1,3) by (simp add: dependency_dict_distinct)
  then have m: "map_of (dependency_dict steps) (st_id s) = Some (st_deps s)"
    by (rule map_of_is_SomeI [OF d(1)])
  have "set (rev (st_deps s)) \<subseteq> fst ` set (dependency_dict steps)"
    using assms(2,3) d(2) by (auto simp: steps_known_def)
  from ancestor_loop_total [OF this d(3)] m show ?thesis by (simp add: ancestors_def)
qed

text \<open>The plan as a set of conditions on its graph, its tools and its budgets.\<close>

definition tools_permitted :: "dispatch_plan \<Rightarrow> dispatch_step \<Rightarrow> bool" where
  "tools_permitted p s \<longleftrightarrow> (\<exists>a \<in> set (pl_agents p). ag_id a = st_agent s \<and> set (st_tools s) \<subseteq> set (ag_tools a))
     \<and> set (st_tools s) \<subseteq> set (pl_allowed p)
     \<and> set (st_tools s) \<inter> (set (pl_denied p) \<union> set dangerous_tools) = {}"

definition plan_sound :: "dispatch_plan \<Rightarrow> bool" where
  "plan_sound p \<longleftrightarrow>
     int (length (pl_steps p)) \<le> pl_max_steps p
   \<and> distinct (map ag_id (pl_agents p)) \<and> distinct (map st_id (pl_steps p))
   \<and> (\<forall>s \<in> set (pl_steps p). tools_permitted p s
        \<and> (\<forall>r. st_reviewer s = Some r \<longrightarrow> r \<in> ag_id ` set (pl_agents p)))
   \<and> steps_known (pl_steps p) \<and> acyclic (depends (dependency_dict (pl_steps p)))
   \<and> (\<exists>f. filter st_final (pl_steps p) = [f]
        \<and> (\<forall>s \<in> set (pl_steps p). st_id f \<notin> set (st_deps s))
        \<and> (\<forall>s \<in> set (pl_steps p). st_id s \<noteq> st_id f \<longrightarrow>
             (st_id f, st_id s) \<in> (depends (dependency_dict (pl_steps p)))\<^sup>+))
   \<and> (\<forall>s \<in> set (pl_steps p). st_tokens s \<le> pl_tokens p)
   \<and> (\<Sum>s \<leftarrow> pl_steps p. st_timeout s * review_rounds s) \<le> pl_timeout p
   \<and> (\<Sum>s \<leftarrow> pl_steps p. st_cost s * review_rounds s) \<le> pl_cost p"

lemma step_checks_pass:
  assumes "distinct (map ag_id (pl_agents p))"
  shows "(\<forall>c \<in> set (step_checks (pl_agents p) known (pl_allowed p) (pl_denied p @ dangerous_tools) s). \<not> fst c)
    \<longleftrightarrow> tools_permitted p s \<and> (\<forall>r. st_reviewer s = Some r \<longrightarrow> r \<in> ag_id ` set (pl_agents p))
      \<and> set (st_deps s) \<subseteq> set known"
proof -
  let ?dict = "map_of (map (\<lambda>a. (ag_id a, a)) (pl_agents p))"
  have some: "?dict i = Some a \<longleftrightarrow> a \<in> set (pl_agents p) \<and> ag_id a = i" for i a
    using assms by (auto simp: map_of_eq_Some_iff comp_def)
  have none: "?dict i = None \<longleftrightarrow> i \<notin> ag_id ` set (pl_agents p)" for i
    by (auto simp: map_of_eq_None_iff image_image)
  show ?thesis
  proof (cases "?dict (st_agent s)")
    case None
    with none have "\<not> tools_permitted p s" by (force simp: tools_permitted_def)
    with None show ?thesis by (simp add: step_checks_def Let_def)
  next
    case (Some a)
    then have a: "b \<in> set (pl_agents p) \<and> ag_id b = st_agent s \<longleftrightarrow> b = a" for b
      using some [of "st_agent s"] by (metis option.inject)
    then have "(\<exists>x \<in> set (pl_agents p). ag_id x = st_agent s \<and> Q x) \<longleftrightarrow> Q a" for Q
      unfolding Bex_def conj_assoc [symmetric] by simp
    then have tp: "tools_permitted p s \<longleftrightarrow> set (st_tools s) \<subseteq> set (ag_tools a)
        \<and> set (st_tools s) \<subseteq> set (pl_allowed p)
        \<and> set (st_tools s) \<inter> (set (pl_denied p) \<union> set dangerous_tools) = {}"
      unfolding tools_permitted_def by simp
    have exp: "(\<forall>c \<in> set (step_checks (pl_agents p) known (pl_allowed p) (pl_denied p @ dangerous_tools) s). \<not> fst c)
        \<longleftrightarrow> (case st_reviewer s of None \<Rightarrow> True | Some r \<Rightarrow> ?dict r \<noteq> None)
          \<and> (\<forall>d \<in> set (st_deps s). d \<in> set known)
          \<and> (\<forall>t \<in> set (st_tools s). t \<in> set (ag_tools a) \<and> t \<in> set (pl_allowed p)
               \<and> t \<notin> set (pl_denied p) \<and> t \<notin> set dangerous_tools)"
      using Some by (cases "st_reviewer s") (auto simp: step_checks_def Let_def list_ex_iff)
    have rev: "(case st_reviewer s of None \<Rightarrow> True | Some r \<Rightarrow> ?dict r \<noteq> None)
        \<longleftrightarrow> (\<forall>r. st_reviewer s = Some r \<longrightarrow> r \<in> ag_id ` set (pl_agents p))"
      using none by (cases "st_reviewer s") auto
    show ?thesis unfolding exp rev tp by auto
  qed
qed

text \<open>What the checks of the graph demand, and what the final synthesis demands.\<close>

definition basics_sound :: "dispatch_plan \<Rightarrow> bool" where
  "basics_sound p \<longleftrightarrow> int (length (pl_steps p)) \<le> pl_max_steps p
    \<and> distinct (map ag_id (pl_agents p)) \<and> distinct (map st_id (pl_steps p))
    \<and> (\<forall>s \<in> set (pl_steps p). tools_permitted p s
         \<and> (\<forall>r. st_reviewer s = Some r \<longrightarrow> r \<in> ag_id ` set (pl_agents p)))
    \<and> steps_known (pl_steps p) \<and> acyclic (depends (dependency_dict (pl_steps p)))"

definition final_sound :: "dispatch_plan \<Rightarrow> dispatch_step \<Rightarrow> bool" where
  "final_sound p f \<longleftrightarrow> (\<forall>s \<in> set (pl_steps p). st_id f \<notin> set (st_deps s))
    \<and> (\<forall>s \<in> set (pl_steps p). st_id s \<noteq> st_id f \<longrightarrow>
         (st_id f, st_id s) \<in> (depends (dependency_dict (pl_steps p)))\<^sup>+)"

lemma layers_complete:
  assumes "distinct (map st_id steps)" and "steps_known steps"
  shows "sum_list (map length (topological_layers steps)) = length steps
    \<longleftrightarrow> acyclic (depends (dependency_dict steps))"
proof -
  note d = dict_facts [OF assms]
  show ?thesis
    using layers_cover_acyclic [OF d(1,3)] layers_length [OF d(1)] d(4)
    by (simp add: topological_layers_def)
qed

lemma graph_checks_exact:
  "(\<forall>c \<in> set (graph_checks p). \<not> fst c) \<longleftrightarrow> basics_sound p"
proof (cases "distinct (map ag_id (pl_agents p)) \<and> distinct (map st_id (pl_steps p))")
  case True
  have "(\<forall>c \<in> set (graph_checks p). \<not> fst c) \<longleftrightarrow> int (length (pl_steps p)) \<le> pl_max_steps p
    \<and> (\<forall>s \<in> set (pl_steps p). \<forall>c \<in> set (step_checks (pl_agents p) (map st_id (pl_steps p)) (pl_allowed p)
          (pl_denied p @ dangerous_tools) s). \<not> fst c)
    \<and> sum_list (map length (topological_layers (pl_steps p))) = length (pl_steps p)"
    using True unfolding graph_checks_def Let_def by auto
  also have "\<dots> \<longleftrightarrow> basics_sound p"
    using True layers_complete step_checks_pass [OF conjunct1 [OF True]]
    unfolding basics_sound_def steps_known_def by blast
  finally show ?thesis .
next
  case False
  then show ?thesis unfolding graph_checks_def basics_sound_def Let_def by auto
qed

lemma synthesis_check_exact:
  assumes "basics_sound p"
  shows "synthesis_check p = Inr () \<longleftrightarrow> (\<exists>f. filter st_final (pl_steps p) = [f] \<and> final_sound p f)"
proof (cases "\<exists>f. filter st_final (pl_steps p) = [f]")
  case True
  from assms have b: "distinct (map st_id (pl_steps p))" "steps_known (pl_steps p)"
    "acyclic (depends (dependency_dict (pl_steps p)))"
    by (auto simp: basics_sound_def)
  from True obtain f where f: "filter st_final (pl_steps p) = [f]" by blast
  then have "f \<in> set (pl_steps p)" by (metis filter_is_subset list.set_intros(1) subsetD)
  then obtain found where found: "ancestors (pl_steps p) (st_id f) = Some found"
    using ancestors_total [OF b(1,2)] by blast
  with ancestors_are_reachable [OF b(1) found] leaves_cover_all [OF b(1,3), of "st_id f"] f
  show ?thesis by (auto simp: synthesis_check_def final_sound_def Let_def list_ex_iff)
next
  case False
  then show ?thesis by (auto simp: synthesis_check_def Let_def split: list.splits)
qed

lemma budget_checks_exact:
  "(\<forall>c \<in> set (budget_checks p). \<not> fst c) \<longleftrightarrow>
    (\<forall>s \<in> set (pl_steps p). st_tokens s \<le> pl_tokens p)
    \<and> (\<Sum>s \<leftarrow> pl_steps p. st_timeout s * review_rounds s) \<le> pl_timeout p
    \<and> (\<Sum>s \<leftarrow> pl_steps p. st_cost s * review_rounds s) \<le> pl_cost p"
  by (auto simp: budget_checks_def list_ex_iff not_less)

text \<open>
  C15. The check of a plan is exact: it accepts a plan just when its ids are unique, every step
  names known agents and dependencies and only tools its agent has, the plan allows and nothing
  denies, the dependencies have no cycle, there is exactly one final step, nothing depends on it
  and it depends, directly or not, on every other step, and the budgets cover the worst case of
  all review rounds. In particular no accepted plan uses one of the four dangerous tools.
\<close>

theorem plan_check_is_exact:
  "validate_graph p = Inr () \<longleftrightarrow> plan_sound p"
proof -
  have "validate_graph p = Inr () \<longleftrightarrow> (\<forall>c \<in> set (graph_checks p). \<not> fst c)
      \<and> synthesis_check p = Inr () \<and> (\<forall>c \<in> set (budget_checks p). \<not> fst c)"
    by (simp add: validate_graph_def)
  also have "\<dots> \<longleftrightarrow> plan_sound p"
    unfolding graph_checks_exact budget_checks_exact using synthesis_check_exact [of p]
    unfolding plan_sound_def basics_sound_def final_sound_def by blast
  finally show ?thesis .
qed

definition sample_step :: "string \<Rightarrow> string list \<Rightarrow> bool \<Rightarrow> dispatch_step" where
  "sample_step i deps final = \<lparr>st_id = i, st_agent = ''a'', st_task = ''do it'', st_deps = deps,
     st_tools = [], st_reviewer = None, st_retries = 0, st_final = final, st_tokens = 100,
     st_timeout = 60, st_cost = 0\<rparr>"

definition sample_steps :: "dispatch_step list" where
  "sample_steps = [sample_step ''report'' [''left'', ''right''] True, sample_step ''right'' [''base''] False,
     sample_step ''left'' [''base''] False, sample_step ''base'' [] False]"

theorem layers_order_the_steps_witness:
  "topological_layers sample_steps = [[''base''], [''left'', ''right''], [''report'']]
    \<and> acyclic (depends (dependency_dict sample_steps))"
proof -
  have "distinct (map st_id sample_steps)" "steps_known sample_steps"
    by (simp_all add: sample_steps_def sample_step_def steps_known_def)
  moreover have "topological_layers sample_steps = [[''base''], [''left'', ''right''], [''report'']]"
    by code_simp
  ultimately show ?thesis
    using layers_order_the_steps [of sample_steps] by (auto simp: sample_steps_def sample_step_def)
qed

end
