(* ===== verification/Schedule_Types.thy ===== *)
theory Schedule_Types
  imports Json_Value Run_State
begin

text \<open>
  The schedules of \<open>scheduler/types.py\<close>: one-time and cron specifications, schedule definitions,
  task requests, the idempotency key of a fire and the search for the next fire of a cron
  expression.

  A time zone (\<open>zoneinfo\<close>) is a pair of functions: the local wall clock of an instant, and the
  instant of a wall clock reading with \<open>fold=0\<close>, which is what adding a \<open>timedelta\<close> leaves. Both
  count microseconds. Overflow past the year 9999 is not modelled.
\<close>

section \<open>Specifications\<close>

datatype misfire_policy = Fire_Once | Skip_Misfire
datatype schedule_kind = One_Time | Cron_Kind
datatype schedule_status = Active | Suspended | Done

record zone =
  zn_local :: "instant \<Rightarrow> int"
  zn_utc :: "int \<Rightarrow> instant"

type_synonym zones = "string \<Rightarrow> zone option"

datatype schedule_spec =
  One_Time_Spec (run_at: instant) (spec_zone: string) (spec_misfire: misfire_policy)
| Cron_Spec (spec_expression: string) (spec_zone: string) (spec_misfire: misfire_policy)

datatype schedule_error =
  Bad_Timezone | Bad_Cron | No_Fire_Time | Bad_Schedule | Already_Exists | Schedule_Missing
| Bad_Request | Submission_Failed

section \<open>Cron expressions\<close>

definition split_ws :: "string \<Rightarrow> string list" where
  "split_ws t = filter (\<lambda>w. w \<noteq> []) (split_on CHR '' '' (map (\<lambda>c. if py_space c then CHR '' '' else c) t))"

definition parse_int :: "string \<Rightarrow> int option" where
  "parse_int t = (if t \<noteq> [] \<and> list_all (\<lambda>c. c \<in> set digits) t then Some (int (nat_value t)) else None)"

text \<open>The numbers of \<open>range(minimum, maximum + 1, step)\<close>.\<close>

definition step_range :: "int \<Rightarrow> int \<Rightarrow> int \<Rightarrow> int list" where
  "step_range minimum maximum step = filter (\<lambda>v. (v - minimum) mod step = 0) [minimum..maximum]"

definition parse_cron_field :: "int \<Rightarrow> int \<Rightarrow> string \<Rightarrow> int list option" where
  "parse_cron_field minimum maximum t =
     (if t = ''*'' then Some [minimum..maximum]
      else if starts_with ''*/'' t then
        (case parse_int (drop 2 t) of
           None \<Rightarrow> None
         | Some step \<Rightarrow> if step \<le> 0 then None else Some (step_range minimum maximum step))
      else (case parse_int t of
           None \<Rightarrow> None
         | Some v \<Rightarrow> if minimum \<le> v \<and> v \<le> maximum then Some [v] else None))"

record cron =
  cn_minutes :: "int list"
  cn_hours :: "int list"
  cn_weekdays :: "int list"

definition parse_cron :: "string \<Rightarrow> cron option" where
  "parse_cron expression = (case split_ws expression of
      [f1, f2, f3, f4, f5] \<Rightarrow>
        (case parse_cron_field 0 59 f1 of
           None \<Rightarrow> None
         | Some minutes \<Rightarrow>
             (case parse_cron_field 0 23 f2 of
                None \<Rightarrow> None
              | Some hours \<Rightarrow>
                  if f3 \<noteq> ''*'' \<or> f4 \<noteq> ''*'' then None
                  else (case parse_cron_field 0 6 f5 of
                      None \<Rightarrow> None
                    | Some weekdays \<Rightarrow>
                        Some \<lparr>cn_minutes = minutes, cn_hours = hours, cn_weekdays = weekdays\<rparr>)))
    | _ \<Rightarrow> None)"

definition minute_us :: int where "minute_us = 60000000"

definition minute_of :: "int \<Rightarrow> int" where "minute_of n = n div minute_us mod 60"
definition hour_of :: "int \<Rightarrow> int" where "hour_of n = n div (60 * minute_us) mod 24"

text \<open>Day 0 is a Thursday; Python's Monday is 0, cron's Sunday is 0.\<close>

definition cron_weekday :: "int \<Rightarrow> int" where
  "cron_weekday n = ((n div (1440 * minute_us) + 3) mod 7 + 1) mod 7"

definition cron_matches :: "cron \<Rightarrow> int \<Rightarrow> bool" where
  "cron_matches c n \<longleftrightarrow> minute_of n \<in> set (cn_minutes c) \<and> hour_of n \<in> set (cn_hours c)
     \<and> cron_weekday n \<in> set (cn_weekdays c)"

fun cron_search :: "nat \<Rightarrow> cron \<Rightarrow> int \<Rightarrow> int option" where
  "cron_search 0 c candidate = None"
| "cron_search (Suc k) c candidate =
     (if cron_matches c candidate then Some candidate else cron_search k c (candidate + minute_us))"

definition max_cron_minutes :: nat where "max_cron_minutes = 527040"

definition next_cron_fire :: "zones \<Rightarrow> string \<Rightarrow> string \<Rightarrow> instant \<Rightarrow> schedule_error + instant" where
  "next_cron_fire zones expression zone_name after =
     (case parse_cron expression of
        None \<Rightarrow> Inl Bad_Cron
      | Some c \<Rightarrow>
          (case zones zone_name of
             None \<Rightarrow> Inl Bad_Timezone
           | Some z \<Rightarrow>
               let local_after = zn_local z after - zn_local z after mod minute_us in
               (case cron_search max_cron_minutes c (local_after + minute_us) of
                  None \<Rightarrow> Inl No_Fire_Time
                | Some n \<Rightarrow> Inr (zn_utc z n))))"

definition spec_ok :: "zones \<Rightarrow> schedule_spec \<Rightarrow> bool" where
  "spec_ok zones spec \<longleftrightarrow> zones (spec_zone spec) \<noteq> None
     \<and> (case spec of Cron_Spec e _ _ \<Rightarrow> parse_cron e \<noteq> None | _ \<Rightarrow> True)"

definition first_fire_after :: "zones \<Rightarrow> schedule_spec \<Rightarrow> instant \<Rightarrow> schedule_error + instant" where
  "first_fire_after zones spec now = (case spec of
      One_Time_Spec t _ _ \<Rightarrow> Inr t
    | Cron_Spec e z _ \<Rightarrow> next_cron_fire zones e z now)"

definition next_after :: "zones \<Rightarrow> schedule_spec \<Rightarrow> instant \<Rightarrow> schedule_error + instant option" where
  "next_after zones spec fire_time = (case spec of
      One_Time_Spec _ _ _ \<Rightarrow> Inr None
    | Cron_Spec e z _ \<Rightarrow> res_bind (next_cron_fire zones e z fire_time) (\<lambda>u. Inr (Some u)))"

section \<open>Definitions and requests\<close>

definition schedule_key_ok :: "string \<Rightarrow> bool" where
  "schedule_key_ok k \<longleftrightarrow> k \<noteq> [] \<and> length k \<le> 256
     \<and> list_all (\<lambda>c. c \<in> set (upper_alpha @ lower_alnum @ ''_.:-'')) k"

definition schedule_id_ok :: "string \<Rightarrow> bool" where
  "schedule_id_ok = ident_match lower_alnum (lower_alnum @ ''_.-'') 127"

definition schedule_text_ok :: "nat \<Rightarrow> string \<Rightarrow> bool" where
  "schedule_text_ok max_bytes t \<longleftrightarrow> \<not> py_isblank t \<and> utf8_len t \<le> max_bytes"

record schedule =
  sd_tenant :: uuid
  sd_owner :: uuid
  sd_name :: string
  sd_mode :: task_mode
  sd_workflow :: string
  sd_message :: string
  sd_budget :: int
  sd_spec :: schedule_spec
  sd_key :: string
  sd_id :: uuid
  sd_next :: "instant option"
  sd_status :: schedule_status
  sd_visible :: bool
  sd_metadata :: "(string \<times> json) list"

text \<open>A blank idempotency key is replaced by the name, then the fields are checked.\<close>

definition mk_schedule :: "schedule \<Rightarrow> schedule_error + schedule" where
  "mk_schedule s0 =
     (let s = (if sd_key s0 = [] then s0\<lparr>sd_key := sd_name s0\<rparr> else s0) in
      if schedule_text_ok 256 (sd_name s) \<and> schedule_text_ok 65536 (sd_message s)
         \<and> schedule_id_ok (sd_workflow s) \<and> schedule_key_ok (sd_key s)
         \<and> 1 \<le> sd_budget s \<and> sd_budget s \<le> 10000000
      then Inr s else Inl Bad_Schedule)"

definition kind_of :: "schedule \<Rightarrow> schedule_kind" where
  "kind_of s = (case sd_spec s of One_Time_Spec _ _ _ \<Rightarrow> One_Time | Cron_Spec _ _ _ \<Rightarrow> Cron_Kind)"

record task_request =
  tq_tenant :: uuid
  tq_actor :: uuid
  tq_message :: string
  tq_mode :: task_mode
  tq_workflow :: string
  tq_budget :: int
  tq_key :: string
  tq_metadata :: "(string \<times> json) list"
  tq_schedule :: uuid
  tq_fire :: instant
  tq_advance :: instant

definition request_checks :: "task_request \<Rightarrow> bool" where
  "request_checks q \<longleftrightarrow> schedule_text_ok 65536 (tq_message q) \<and> schedule_id_ok (tq_workflow q)
     \<and> schedule_key_ok (tq_key q) \<and> 1 \<le> tq_budget q \<and> tq_budget q \<le> 10000000"

text \<open>
  \<open>stamp\<close> is \<open>strftime\<close> with seconds, \<open>sha\<close> the first 128 bits of the SHA-256 digest, of which
  the key takes the 32 hexadecimal digits.
\<close>

definition deterministic_idempotency_key ::
  "(instant \<Rightarrow> string) \<Rightarrow> (string \<Rightarrow> uuid) \<Rightarrow> uuid \<Rightarrow> uuid \<Rightarrow> instant \<Rightarrow> string \<Rightarrow> schedule_error + string" where
  "deterministic_idempotency_key stamp sha tenant schedule_id fire_time base_key =
     (if \<not> schedule_key_ok base_key then Inl Bad_Schedule
      else Inr (''schedule:'' @ uuid_hex (sha (join_with CHR '':''
             [uuid_text tenant, uuid_text schedule_id, stamp fire_time, base_key]))))"

section \<open>The search finds the next fire\<close>

lemma parse_cron_field_range:
  assumes "parse_cron_field minimum maximum t = Some vs" and "minimum \<le> maximum"
  shows "vs \<noteq> [] \<and> set vs \<subseteq> {minimum..maximum}"
proof -
  have "minimum \<in> set (step_range minimum maximum step)" for step
    using assms(2) by (simp add: step_range_def)
  then have "step_range minimum maximum step \<noteq> []" for step by (metis empty_iff empty_set)
  moreover have "set (step_range minimum maximum step) \<subseteq> {minimum..maximum}" for step
    by (auto simp: step_range_def)
  ultimately show ?thesis
    using assms by (auto simp: parse_cron_field_def split: if_splits option.splits)
qed

definition cron_ok :: "cron \<Rightarrow> bool" where
  "cron_ok c \<longleftrightarrow> (\<exists>m \<in> set (cn_minutes c). 0 \<le> m \<and> m < 60) \<and> (\<exists>h \<in> set (cn_hours c). 0 \<le> h \<and> h < 24)
     \<and> (\<exists>w \<in> set (cn_weekdays c). 0 \<le> w \<and> w < 7)"

lemma parse_cron_ok: "parse_cron e = Some c \<Longrightarrow> cron_ok c"
proof -
  assume "parse_cron e = Some c"
  then obtain f1 f2 f5 where f: "parse_cron_field 0 59 f1 = Some (cn_minutes c)"
    "parse_cron_field 0 23 f2 = Some (cn_hours c)" "parse_cron_field 0 6 f5 = Some (cn_weekdays c)"
    by (auto simp: parse_cron_def split: list.splits option.splits if_splits)
  have some: "vs \<noteq> [] \<and> set vs \<subseteq> {0..n} \<Longrightarrow> \<exists>v \<in> set vs. 0 \<le> v \<and> v < n + 1" for vs and n :: int
    by (cases vs) auto
  from parse_cron_field_range [OF f(1)] parse_cron_field_range [OF f(2)] parse_cron_field_range [OF f(3)]
  show ?thesis
    using some [of "cn_minutes c" 59] some [of "cn_hours c" 23] some [of "cn_weekdays c" 6]
    by (simp add: cron_ok_def)
qed

lemma minute_us_pos: "0 < minute_us"
  by (simp add: minute_us_def)

lemma whole_minute:
  "minute_of (N * minute_us) = N mod 60" "hour_of (N * minute_us) = N div 60 mod 24"
  "cron_weekday (N * minute_us) = ((N div 1440 + 3) mod 7 + 1) mod 7"
  using minute_us_pos by (simp_all add: minute_of_def hour_of_def cron_weekday_def)

text \<open>Every cron expression matches within eight days.\<close>

lemma cron_match_soon:
  assumes "cron_ok c"
  shows "\<exists>j. 0 \<le> j \<and> j < 11520 \<and> cron_matches c ((N + j) * minute_us)"
proof -
  from assms obtain m h w where m: "m \<in> set (cn_minutes c)" "0 \<le> m" "m < 60"
    and h: "h \<in> set (cn_hours c)" "0 \<le> h" "h < 24"
    and w: "w \<in> set (cn_weekdays c)" "0 \<le> w" "w < 7"
    unfolding cron_ok_def by blast
  define r where "r = (w - (N div 1440 + 5)) mod 7"
  define D where "D = N div 1440 + 1 + r"
  define M where "M = D * 1440 + h * 60 + m"
  have r: "0 \<le> r" "r < 7" by (simp_all add: r_def)
  have "(D + 4) mod 7 = (N div 1440 + 5 + r) mod 7" by (simp add: D_def algebra_simps)
  also have "\<dots> = w" using w unfolding r_def mod_add_right_eq by simp
  finally have "((D + 3) mod 7 + 1) mod 7 = w" by (simp add: mod_simps add.commute)
  then have D: "N div 1440 < D" "D \<le> N div 1440 + 7" "((D + 3) mod 7 + 1) mod 7 = w"
    using r unfolding D_def by linarith+
  have day: "0 \<le> h * 60 + m" "h * 60 + m < 1440" using m h by simp_all
  have "M div 1440 = D"
  proof -
    have "M = (h * 60 + m) + D * 1440" by (simp add: M_def)
    then have "M div 1440 = (h * 60 + m) div 1440 + D" by simp
    with day show ?thesis by (simp only: div_pos_pos_trivial)
  qed
  moreover have "M mod 60 = m" "M div 60 mod 24 = h"
  proof -
    define E where "E = D * 24 + h"
    have E: "M = m + E * 60" by (simp add: M_def E_def)
    show "M mod 60 = m" using m by (simp add: E)
    have "M div 60 = E" using m by (simp add: E)
    then show "M div 60 mod 24 = h" using h by (simp add: E_def)
  qed
  ultimately have parts: "M mod 60 = m" "M div 60 mod 24 = h" "M div 1440 = D" by blast+
  have "cron_matches c (M * minute_us)"
    using parts D(3) m h w by (simp add: cron_matches_def whole_minute)
  moreover have "N \<le> M" "M < N + 11520"
  proof -
    have N: "N = 1440 * (N div 1440) + N mod 1440" "0 \<le> N mod 1440" "N mod 1440 < 1440" by simp_all
    show "N \<le> M" using N D(1) day unfolding M_def by linarith
    show "M < N + 11520" using N D(2) day unfolding M_def by linarith
  qed
  ultimately show ?thesis by (intro exI [of _ "M - N"]) simp
qed

lemma cron_search_first:
  assumes "cron_matches c ((N + int j) * minute_us)" and "j < k"
    and "\<forall>i < j. \<not> cron_matches c ((N + int i) * minute_us)"
  shows "cron_search k c (N * minute_us) = Some ((N + int j) * minute_us)"
  using assms
proof (induction k arbitrary: j N)
  case (Suc k)
  show ?case
  proof (cases j)
    case 0
    with Suc show ?thesis by simp
  next
    case (Suc i)
    have "\<not> cron_matches c (N * minute_us)" using Suc.prems(3) Suc by force
    moreover have "cron_search k c ((N + 1) * minute_us) = Some ((N + 1 + int i) * minute_us)"
      by (rule Suc.IH) (use Suc.prems Suc in \<open>auto simp: algebra_simps\<close>)
    ultimately show ?thesis using Suc by (simp add: algebra_simps)
  qed
qed simp

definition fixed_offset :: "zone \<Rightarrow> int \<Rightarrow> bool" where
  "fixed_offset z off \<longleftrightarrow> (\<forall>t. zn_local z t = t + off) \<and> (\<forall>n. zn_utc z n = n - off)"

lemma cron_next_fire:
  assumes "parse_cron e = Some c" and "zones zone_name = Some z" and "fixed_offset z off"
  shows "\<exists>u. next_cron_fire zones e zone_name after = Inr u \<and> after < u
    \<and> u \<le> after + 11520 * minute_us
    \<and> zn_local z u mod minute_us = 0 \<and> cron_matches c (zn_local z u)
    \<and> (\<forall>t. after < t \<and> t < u \<and> zn_local z t mod minute_us = 0 \<longrightarrow> \<not> cron_matches c (zn_local z t))"
proof -
  define N where "N = (after + off) div minute_us"
  have local: "after + off - (after + off) mod minute_us = N * minute_us"
    by (simp add: N_def minus_mod_eq_div_mult)
  have bounds: "N * minute_us \<le> after + off" "after + off < (N + 1) * minute_us"
  proof -
    define r where "r = (after + off) mod minute_us"
    have "0 \<le> r" "r < minute_us" using minute_us_pos by (simp_all add: r_def)
    moreover have "after + off - r = N * minute_us" using local by (simp add: r_def)
    moreover have "(N + 1) * minute_us = N * minute_us + minute_us" by (simp add: algebra_simps)
    ultimately show "N * minute_us \<le> after + off" "after + off < (N + 1) * minute_us" by linarith+
  qed
  let ?P = "\<lambda>j. cron_matches c ((N + 1 + int j) * minute_us)"
  obtain i where i: "0 \<le> i" "i < 11520" "cron_matches c ((N + 1 + i) * minute_us)"
    using cron_match_soon [OF parse_cron_ok [OF assms(1)], of "N + 1"] by blast
  then have "?P (nat i)" by simp
  define j where "j = (LEAST j. ?P j)"
  have j: "?P j" "j \<le> nat i" unfolding j_def using \<open>?P (nat i)\<close> by (rule LeastI, rule Least_le)
  have least: "\<forall>i < j. \<not> ?P i" unfolding j_def by (blast dest: not_less_Least)
  have j_bound: "int j < 11520" using j(2) i(2) by linarith
  then have "j < max_cron_minutes" by (simp add: max_cron_minutes_def)
  from cron_search_first [OF j(1) this least]
  have search: "cron_search max_cron_minutes c (N * minute_us + minute_us) = Some ((N + 1 + int j) * minute_us)"
    by (simp add: algebra_simps)
  let ?u = "(N + 1 + int j) * minute_us - off"
  have found: "next_cron_fire zones e zone_name after = Inr ?u"
    using assms search local by (simp add: next_cron_fire_def fixed_offset_def Let_def)
  have "(N + 1) * minute_us \<le> (N + 1 + int j) * minute_us" using minute_us_pos by simp
  then have after: "after < ?u" using bounds(2) by linarith
  have "(N + 1 + int j) * minute_us \<le> (N + 11520) * minute_us" using j_bound minute_us_pos by simp
  then have soon: "?u \<le> after + 11520 * minute_us" using bounds(1) by (simp add: algebra_simps)
  have between: "\<not> cron_matches c (zn_local z t)"
    if t: "after < t" "t < ?u" "zn_local z t mod minute_us = 0" for t
  proof -
    have loc: "zn_local z t = t + off" using assms(3) by (simp add: fixed_offset_def)
    then obtain K where K: "t + off = K * minute_us" using t(3) by (metis mult.commute dvd_def mod_0_imp_dvd)
    have "N * minute_us < K * minute_us" "K * minute_us < (N + 1 + int j) * minute_us"
      using t(1,2) bounds(1) K by linarith+
    then have "N < K" "K < N + 1 + int j" using minute_us_pos by (simp_all add: mult_less_cancel_right)
    then have "K = N + 1 + int (nat (K - N - 1))" "nat (K - N - 1) < j" by simp_all
    with least have "\<not> cron_matches c (K * minute_us)" by metis
    with loc K show ?thesis by simp
  qed
  show ?thesis
    using found after soon j(1) between assms(3) by (intro exI [of _ ?u]) (simp add: fixed_offset_def)
qed

lemma next_cron_later:
  assumes "parse_cron e = Some c" and "zones zone_name = Some z" and "fixed_offset z off"
  shows "\<exists>u. next_cron_fire zones e zone_name after = Inr u \<and> after < u"
  using cron_next_fire [where zones = zones and zone_name = zone_name, OF assms(1,2,3)] by blast

text \<open>
  C16. Every accepted cron expression has a next fire and the bounded search finds it: in a zone
  with a fixed offset the result is the least instant after the reference whose local time is a
  whole minute and matches the expression, and it lies within eight days, far inside the 366
  days the search allows, so it never fails.
\<close>

theorem cron_finds_the_next_fire:
  assumes "parse_cron e = Some c" and "zones zone_name = Some z" and "fixed_offset z off"
  shows "\<exists>u. next_cron_fire zones e zone_name after = Inr u \<and> after < u
    \<and> u \<le> after + 11520 * minute_us
    \<and> zn_local z u mod minute_us = 0 \<and> cron_matches c (zn_local z u)
    \<and> (\<forall>t. after < t \<and> t < u \<and> zn_local z t mod minute_us = 0 \<longrightarrow> \<not> cron_matches c (zn_local z t))"
  using cron_next_fire [where zones = zones and zone_name = zone_name, OF assms(1,2,3)] by blast

definition utc_zone :: zone where
  "utc_zone = \<lparr>zn_local = (\<lambda>t. t), zn_utc = (\<lambda>n. n)\<rparr>"

theorem cron_finds_the_next_fire_witness:
  "\<exists>u. next_cron_fire (\<lambda>_. Some utc_zone) ''30 */6 * * 1'' ''UTC'' 90000000 = Inr u \<and> 90000000 < u"
proof -
  have "parse_cron ''30 */6 * * 1'' = Some \<lparr>cn_minutes = [30], cn_hours = [0, 6, 12, 18], cn_weekdays = [1]\<rparr>"
    by code_simp
  moreover have "fixed_offset utc_zone 0" by (simp add: fixed_offset_def utc_zone_def)
  ultimately show ?thesis using cron_finds_the_next_fire [where zones = "\<lambda>_. Some utc_zone"] by blast
qed

end
