(* ===== verification/Scheduler.thy ===== *)
theory Scheduler
  imports Schedule_Types
begin

text \<open>
  The scheduler of \<open>scheduler/service.py\<close>. Its state is the dictionary of schedules and the set of
  submitted fires. The two methods of a schedule's specification it calls are an interface;
  \<open>key_of\<close> is \<open>deterministic_idempotency_key\<close>. Submitting a task is outside: \<open>submit k q\<close> says
  whether the k-th submission of a tick succeeds. A tick holds the lock only within its steps;
  here no other call runs between them. What the code writes into the metadata of a request as
  text and reads back from it (schedule, fire time, \<open>advance_after\<close>) is kept as values.
\<close>

section \<open>State\<close>

type_synonym fire = "uuid \<times> uuid \<times> instant"

record scheduler =
  sc_schedules :: "((uuid \<times> uuid) \<times> schedule) list"
  sc_fires :: "fire list"

definition empty_scheduler :: scheduler where
  "empty_scheduler = \<lparr>sc_schedules = [], sc_fires = []\<rparr>"

type_synonym next_op = "schedule_spec \<Rightarrow> instant \<Rightarrow> schedule_error + instant option"
type_synonym first_op = "schedule_spec \<Rightarrow> instant \<Rightarrow> schedule_error + instant"

definition find_schedule :: "uuid \<Rightarrow> uuid \<Rightarrow> scheduler \<Rightarrow> schedule option" where
  "find_schedule t i st = map_of (sc_schedules st) (t, i)"

definition put_schedule :: "uuid \<Rightarrow> schedule \<Rightarrow> scheduler \<Rightarrow> scheduler" where
  "put_schedule t s st = st\<lparr>sc_schedules := AList.update (t, sd_id s) s (sc_schedules st)\<rparr>"

section \<open>Creating, reading, deleting\<close>

definition insert_schedule :: "schedule \<Rightarrow> scheduler \<Rightarrow> schedule_error + (scheduler \<times> schedule)" where
  "insert_schedule s st =
     (if find_schedule (sd_tenant s) (sd_id s) st \<noteq> None then Inl Already_Exists
      else Inr (put_schedule (sd_tenant s) s st, s))"

text \<open>\<open>draft\<close> holds the arguments of the call and the fresh id.\<close>

definition create_schedule ::
  "first_op \<Rightarrow> schedule \<Rightarrow> instant \<Rightarrow> scheduler \<Rightarrow> schedule_error + (scheduler \<times> schedule)" where
  "create_schedule first draft now st =
     res_bind (first (sd_spec draft) now) (\<lambda>fire.
     res_bind (mk_schedule (draft\<lparr>sd_next := Some fire, sd_status := Active\<rparr>)) (\<lambda>s.
     insert_schedule s st))"

definition add_schedule ::
  "first_op \<Rightarrow> schedule \<Rightarrow> instant \<Rightarrow> scheduler \<Rightarrow> schedule_error + (scheduler \<times> schedule)" where
  "add_schedule first s now st =
     res_bind (if sd_next s = None \<and> sd_status s = Active
               then res_bind (first (sd_spec s) now) (\<lambda>f. Inr (Some f)) else Inr (sd_next s)) (\<lambda>fire.
     res_bind (mk_schedule (s\<lparr>sd_next := fire\<rparr>)) (\<lambda>stored. insert_schedule stored st))"

definition get_schedule :: "uuid \<Rightarrow> uuid \<Rightarrow> scheduler \<Rightarrow> schedule_error + schedule" where
  "get_schedule t i st =
     (case find_schedule t i st of None \<Rightarrow> Inl Schedule_Missing | Some s \<Rightarrow> Inr s)"

definition list_schedules :: "uuid \<Rightarrow> scheduler \<Rightarrow> schedule list" where
  "list_schedules t st = map snd (filter (\<lambda>(k, _). fst k = t) (sc_schedules st))"

definition delete_schedule :: "uuid \<Rightarrow> uuid \<Rightarrow> scheduler \<Rightarrow> schedule_error + scheduler" where
  "delete_schedule t i st =
     (if find_schedule t i st = None then Inl Schedule_Missing
      else Inr \<lparr>sc_schedules = AList.delete (t, i) (sc_schedules st),
                sc_fires = filter (\<lambda>(t', i', _). t' \<noteq> t \<or> i' \<noteq> i) (sc_fires st)\<rparr>)"

definition next_fire :: "uuid \<Rightarrow> uuid \<Rightarrow> scheduler \<Rightarrow> instant option" where
  "next_fire t i st =
     (case find (\<lambda>(k, s). sd_id s = i \<and> fst k = t) (sc_schedules st) of
        None \<Rightarrow> None | Some (_, s) \<Rightarrow> sd_next s)"

definition submission_count :: "uuid \<Rightarrow> uuid \<Rightarrow> instant \<Rightarrow> scheduler \<Rightarrow> nat" where
  "submission_count t i f st = length (filter (\<lambda>x. x = (t, i, f)) (sc_fires st))"

definition schedule_follow_up ::
  "first_op \<Rightarrow> uuid \<Rightarrow> uuid \<Rightarrow> uuid \<Rightarrow> uuid \<Rightarrow> string \<Rightarrow> instant option \<Rightarrow> instant option \<Rightarrow> string
     \<Rightarrow> task_mode \<Rightarrow> string \<Rightarrow> int \<Rightarrow> string \<Rightarrow> scheduler \<Rightarrow> schedule_error + (scheduler \<times> schedule)" where
  "schedule_follow_up first new_id t owner run message due_at at_time zone_key mode workflow budget key st =
     (case (case due_at of Some d \<Rightarrow> Some d | None \<Rightarrow> at_time) of
        None \<Rightarrow> Inl Bad_Schedule
      | Some fire \<Rightarrow> create_schedule first
          \<lparr>sd_tenant = t, sd_owner = owner, sd_name = ''follow-up-'' @ uuid_text run, sd_mode = mode,
           sd_workflow = workflow, sd_message = message, sd_budget = budget,
           sd_spec = One_Time_Spec fire zone_key Fire_Once,
           sd_key = (if key = [] then ''follow-up:'' @ uuid_text run else key), sd_id = new_id,
           sd_next = None, sd_status = Active, sd_visible = True,
           sd_metadata = [(''follow_up_for_run_id'', JStr (uuid_text run))]\<rparr> fire st)"

section \<open>Advancing a schedule\<close>

text \<open>
  The loop that passes over missed fires. It ends at once in a calendar whose next fire is later
  than its argument; otherwise it may run on, hence the fuel, and \<open>None\<close> when it is used up.
\<close>

fun skip_loop :: "nat \<Rightarrow> next_op \<Rightarrow> schedule_spec \<Rightarrow> instant \<Rightarrow> instant option
     \<Rightarrow> (schedule_error + instant option) option" where
  "skip_loop n next spec now None = Some (Inr None)"
| "skip_loop 0 next spec now (Some u) = (if u \<le> now then None else Some (Inr (Some u)))"
| "skip_loop (Suc n) next spec now (Some u) =
     (if u \<le> now then (case next spec u of
          Inl e \<Rightarrow> Some (Inl e)
        | Inr r \<Rightarrow> skip_loop n next spec now r)
      else Some (Inr (Some u)))"

definition skip_fuel :: nat where "skip_fuel = 100"

definition advance_schedule ::
  "next_op \<Rightarrow> uuid \<Rightarrow> schedule \<Rightarrow> instant \<Rightarrow> bool \<Rightarrow> scheduler \<Rightarrow> (schedule_error + scheduler) option" where
  "advance_schedule next t s now skipped st =
     (case next (sd_spec s) now of
        Inl e \<Rightarrow> Some (Inl e)
      | Inr r \<Rightarrow>
          (case (if skipped then skip_loop skip_fuel next (sd_spec s) now r else Some (Inr r)) of
             None \<Rightarrow> None
           | Some (Inl e) \<Rightarrow> Some (Inl e)
           | Some (Inr None) \<Rightarrow> Some (Inr (put_schedule t (s\<lparr>sd_status := Done, sd_next := None\<rparr>) st))
           | Some (Inr (Some u)) \<Rightarrow> Some (Inr (put_schedule t (s\<lparr>sd_next := Some u\<rparr>) st))))"

section \<open>A tick\<close>

definition is_cron :: "schedule_spec \<Rightarrow> bool" where
  "is_cron spec \<longleftrightarrow> (case spec of Cron_Spec _ _ _ \<Rightarrow> True | _ \<Rightarrow> False)"

definition fire_request ::
  "(schedule \<Rightarrow> instant \<Rightarrow> schedule_error + string) \<Rightarrow> uuid \<times> uuid \<Rightarrow> schedule \<Rightarrow> instant \<Rightarrow> instant
     \<Rightarrow> schedule_error + task_request" where
  "fire_request key_of k s fire now =
     res_bind (key_of s fire) (\<lambda>ik.
       let q = \<lparr>tq_tenant = fst k, tq_actor = sd_owner s, tq_message = sd_message s, tq_mode = sd_mode s,
                tq_workflow = sd_workflow s, tq_budget = sd_budget s, tq_key = ik,
                tq_metadata = sd_metadata s, tq_schedule = sd_id s, tq_fire = fire,
                tq_advance = (if is_cron (sd_spec s) \<and> now > fire then now else fire)\<rparr> in
       if request_checks q then Inr q else Inl Bad_Request)"

text \<open>One pass over the items the dictionary had when the pass began.\<close>

fun due_loop ::
  "next_op \<Rightarrow> (schedule \<Rightarrow> instant \<Rightarrow> schedule_error + string) \<Rightarrow> uuid option \<Rightarrow> instant
     \<Rightarrow> ((uuid \<times> uuid) \<times> schedule) list \<Rightarrow> scheduler
     \<Rightarrow> scheduler \<times> (schedule_error + task_request option) option" where
  "due_loop next key_of tenant now [] st = (st, Some (Inr None))"
| "due_loop next key_of tenant now ((k, s) # items) st =
     (if tenant \<noteq> None \<and> tenant \<noteq> Some (fst k) then due_loop next key_of tenant now items st
      else case sd_next s of
        None \<Rightarrow> due_loop next key_of tenant now items st
      | Some fire \<Rightarrow>
          if sd_status s \<noteq> Active \<or> fire > now then due_loop next key_of tenant now items st
          else if spec_misfire (sd_spec s) = Skip_Misfire \<and> now > fire then
            (case advance_schedule next (fst k) s now True st of
               None \<Rightarrow> (st, None)
             | Some (Inl e) \<Rightarrow> (st, Some (Inl e))
             | Some (Inr st') \<Rightarrow> due_loop next key_of tenant now items st')
          else
            (case fire_request key_of k s fire now of
               Inl e \<Rightarrow> (st, Some (Inl e))
             | Inr q \<Rightarrow>
                 if (fst k, snd k, fire) \<in> set (sc_fires st)
                 then due_loop next key_of tenant now items st
                 else (st\<lparr>sc_fires := (fst k, snd k, fire) # sc_fires st\<rparr>, Some (Inr (Some q)))))"

definition next_due_request ::
  "next_op \<Rightarrow> (schedule \<Rightarrow> instant \<Rightarrow> schedule_error + string) \<Rightarrow> uuid option \<Rightarrow> instant \<Rightarrow> scheduler
     \<Rightarrow> scheduler \<times> (schedule_error + task_request option) option" where
  "next_due_request next key_of tenant now st =
     due_loop next key_of tenant now (sc_schedules st) st"

definition fire_identity :: "task_request \<Rightarrow> fire" where
  "fire_identity q = (tq_tenant q, tq_schedule q, tq_fire q)"

definition release_fire :: "task_request \<Rightarrow> scheduler \<Rightarrow> scheduler" where
  "release_fire q st = st\<lparr>sc_fires := filter (\<lambda>x. x \<noteq> fire_identity q) (sc_fires st)\<rparr>"

definition complete_fire :: "next_op \<Rightarrow> task_request \<Rightarrow> scheduler \<Rightarrow> (schedule_error + scheduler) option" where
  "complete_fire next q st =
     (case find_schedule (tq_tenant q) (tq_schedule q) st of
        None \<Rightarrow> Some (Inr st)
      | Some s \<Rightarrow> advance_schedule next (tq_tenant q) s (tq_advance q) False st)"

text \<open>
  The loop of a tick; the requests handed to \<open>submit\<close> come out with the state, newest last. A
  round fires one schedule, so a bound on the rounds above the number of schedules that are due
  is never reached; \<open>None\<close> says that it was, or that a skip loop ran on.
\<close>

fun tick_loop ::
  "nat \<Rightarrow> next_op \<Rightarrow> (schedule \<Rightarrow> instant \<Rightarrow> schedule_error + string) \<Rightarrow> (nat \<Rightarrow> task_request \<Rightarrow> bool)
     \<Rightarrow> uuid option \<Rightarrow> instant \<Rightarrow> task_request list \<Rightarrow> scheduler
     \<Rightarrow> scheduler \<times> task_request list \<times> (schedule_error + uuid list) option" where
  "tick_loop 0 next key_of submit tenant now sent st = (st, sent, None)"
| "tick_loop (Suc n) next key_of submit tenant now sent st =
     (case next_due_request next key_of tenant now st of
        (st1, None) \<Rightarrow> (st1, sent, None)
      | (st1, Some (Inl e)) \<Rightarrow> (st1, sent, Some (Inl e))
      | (st1, Some (Inr None)) \<Rightarrow> (st1, sent, Some (Inr (map tq_schedule sent)))
      | (st1, Some (Inr (Some q))) \<Rightarrow>
          if \<not> submit (length sent) q then (release_fire q st1, sent, Some (Inl Submission_Failed))
          else (case complete_fire next q st1 of
              None \<Rightarrow> (st1, sent @ [q], None)
            | Some (Inl e) \<Rightarrow> (st1, sent @ [q], Some (Inl e))
            | Some (Inr st2) \<Rightarrow> tick_loop n next key_of submit tenant now (sent @ [q]) st2))"

definition tick ::
  "nat \<Rightarrow> next_op \<Rightarrow> (schedule \<Rightarrow> instant \<Rightarrow> schedule_error + string) \<Rightarrow> (nat \<Rightarrow> task_request \<Rightarrow> bool)
     \<Rightarrow> uuid option \<Rightarrow> instant \<Rightarrow> scheduler
     \<Rightarrow> scheduler \<times> task_request list \<times> (schedule_error + uuid list) option" where
  "tick n next key_of submit tenant now st = tick_loop n next key_of submit tenant now [] st"

end
