(* ===== verification/Schedule_Guarantees.thy ===== *)
theory Schedule_Guarantees
  imports Scheduler
begin

text \<open>
  What the scheduler guarantees over a calendar whose next fire is always later, which the cron
  search provides in zones with a fixed offset, and what goes wrong in a zone that sets its
  clocks back.
\<close>

section \<open>The interface of a specification\<close>

text \<open>The fields a request is checked for.\<close>

definition fields_ok :: "schedule \<Rightarrow> bool" where
  "fields_ok s \<longleftrightarrow> schedule_text_ok 65536 (sd_message s) \<and> schedule_id_ok (sd_workflow s)
     \<and> schedule_key_ok (sd_key s) \<and> 1 \<le> sd_budget s \<and> sd_budget s \<le> 10000000"

locale calendar =
  fixes next_op :: next_op
    and good :: "schedule_spec \<Rightarrow> bool"
  assumes next_later: "good spec \<Longrightarrow> next_op spec t = Inr (Some u) \<Longrightarrow> t < u"
    and next_total: "good spec \<Longrightarrow> \<exists>r. next_op spec t = Inr r"
    and one_time_once: "\<not> is_cron spec \<Longrightarrow> next_op spec t = Inr None"

locale scheduling = calendar +
  fixes key_of :: "schedule \<Rightarrow> instant \<Rightarrow> schedule_error + string"
  assumes key_of_ok: "fields_ok s \<Longrightarrow> \<exists>k. key_of s f = Inr k \<and> schedule_key_ok k"

section \<open>The invariant\<close>

definition shelf_ok :: "(schedule_spec \<Rightarrow> bool) \<Rightarrow> scheduler \<Rightarrow> bool" where
  "shelf_ok good st \<longleftrightarrow> dict_ok (sc_schedules st)
   \<and> (\<forall>k s. map_of (sc_schedules st) k = Some s \<longrightarrow> k = (sd_tenant s, sd_id s) \<and> good (sd_spec s) \<and> fields_ok s)"

text \<open>Every submitted fire of a schedule lies before its next fire.\<close>

definition fires_past :: "fire list \<Rightarrow> scheduler \<Rightarrow> bool" where
  "fires_past fs st \<longleftrightarrow> (\<forall>(t, i, f) \<in> set fs. \<forall>s u. map_of (sc_schedules st) (t, i) = Some s \<longrightarrow>
     sd_next s = Some u \<longrightarrow> f < u)"

definition known_fires :: "fire list \<Rightarrow> scheduler \<Rightarrow> bool" where
  "known_fires fs st \<longleftrightarrow> (\<forall>(t, i, f) \<in> set fs. map_of (sc_schedules st) (t, i) \<noteq> None)"

definition scheduler_ok :: "(schedule_spec \<Rightarrow> bool) \<Rightarrow> scheduler \<Rightarrow> bool" where
  "scheduler_ok good st \<longleftrightarrow> shelf_ok good st \<and> fires_past (sc_fires st) st
     \<and> known_fires (sc_fires st) st"

lemma known_fires_mono:
  assumes "\<And>k. map_of (sc_schedules st') k = None \<Longrightarrow> map_of (sc_schedules st) k = None"
    and "known_fires fs st"
  shows "known_fires fs st'"
  using assms unfolding known_fires_def by blast

definition due :: "uuid option \<Rightarrow> instant \<Rightarrow> scheduler \<Rightarrow> uuid \<times> uuid \<Rightarrow> bool" where
  "due tenant now st k \<longleftrightarrow> (tenant = None \<or> tenant = Some (fst k))
     \<and> (\<exists>s f. map_of (sc_schedules st) k = Some s \<and> sd_status s = Active \<and> sd_next s = Some f \<and> f \<le> now)"

text \<open>A schedule after an advance past \<open>now\<close>.\<close>

definition advanced :: "instant \<Rightarrow> schedule \<Rightarrow> schedule \<Rightarrow> bool" where
  "advanced now s s' \<longleftrightarrow> (\<exists>u > now. s' = s\<lparr>sd_next := Some u\<rparr>)
     \<or> s' = s\<lparr>sd_status := Done, sd_next := None\<rparr>"

lemma put_schedule_get [simp]:
  "map_of (sc_schedules (put_schedule t s st)) k = (if k = (t, sd_id s) then Some s else map_of (sc_schedules st) k)"
  by (simp add: put_schedule_def)

lemma put_schedule_fires [simp]: "sc_fires (put_schedule t s st) = sc_fires st"
  by (simp add: put_schedule_def)

lemma advanced_fields:
  "advanced now s s' \<Longrightarrow> sd_id s' = sd_id s \<and> sd_tenant s' = sd_tenant s \<and> sd_spec s' = sd_spec s
     \<and> (fields_ok s' \<longleftrightarrow> fields_ok s)"
  by (auto simp: advanced_def fields_ok_def)

lemma shelf_ok_advance:
  assumes "shelf_ok good st" and "map_of (sc_schedules st) (t, i) = Some s" and "advanced now s s'"
  shows "shelf_ok good (put_schedule t s' st)"
  using assms advanced_fields [OF assms(3)]
  by (auto simp: shelf_ok_def put_schedule_def)

lemma fires_past_advance:
  assumes "fires_past fs st" and "map_of (sc_schedules st) (t, i) = Some s" and "sd_id s = i"
    and "advanced now s s'" and "sd_next s = Some f" and "f \<le> now"
  shows "fires_past fs (put_schedule t s' st)"
proof -
  have "g < u" if "(t, i, g) \<in> set fs" "sd_next s' = Some u" for g u
  proof -
    have "g < f" using assms(1,2,5) that(1) unfolding fires_past_def by fastforce
    with assms(4,6) that(2) show ?thesis by (auto simp: advanced_def)
  qed
  with assms(1,3) advanced_fields [OF assms(4)] show ?thesis
    unfolding fires_past_def by (auto split: if_splits)
qed

lemma due_advance:
  assumes "map_of (sc_schedules st) (t, i) = Some s" and "sd_id s = i" and "advanced now s s'"
  shows "due tenant now (put_schedule t s' st) k \<longleftrightarrow> k \<noteq> (t, i) \<and> due tenant now st k"
  using assms advanced_fields [OF assms(3)] by (auto simp: due_def advanced_def)

section \<open>One pass over the schedules\<close>

context calendar
begin

lemma skip_loop_stops:
  assumes "case r of None \<Rightarrow> True | Some u \<Rightarrow> now < u"
  shows "skip_loop n next_op spec now r = Some (Inr r)"
  using assms by (cases r; cases n) auto

lemma advance_schedule_good:
  assumes "good (sd_spec s)"
  shows "\<exists>s'. advance_schedule next_op t s now skipped st = Some (Inr (put_schedule t s' st))
    \<and> advanced now s s'"
proof -
  obtain r where r: "next_op (sd_spec s) now = Inr r" using next_total [OF assms] by blast
  then have "case r of None \<Rightarrow> True | Some u \<Rightarrow> now < u"
    using next_later [OF assms] by (cases r) auto
  from skip_loop_stops [OF this] r this show ?thesis
    by (cases r) (auto simp: advance_schedule_def advanced_def)
qed

end


text \<open>The schedule a request of a pass stands for, in the state the pass leaves.\<close>

definition claims :: "uuid option \<Rightarrow> instant \<Rightarrow> scheduler \<Rightarrow> scheduler \<Rightarrow> task_request \<Rightarrow> schedule \<Rightarrow> bool" where
  "claims tenant now st st' q s \<longleftrightarrow>
     map_of (sc_schedules st) (tq_tenant q, tq_schedule q) = Some s
   \<and> map_of (sc_schedules st') (tq_tenant q, tq_schedule q) = Some s
   \<and> due tenant now st (tq_tenant q, tq_schedule q) \<and> sd_id s = tq_schedule q
   \<and> sd_next s = Some (tq_fire q) \<and> tq_fire q \<le> now
   \<and> tq_advance q = (if is_cron (sd_spec s) then now else tq_fire q)
   \<and> fire_identity q \<notin> set (sc_fires st) \<and> sc_fires st' = fire_identity q # sc_fires st"

definition pass_keeps :: "(schedule_spec \<Rightarrow> bool) \<Rightarrow> uuid option \<Rightarrow> instant \<Rightarrow> scheduler \<Rightarrow> scheduler \<Rightarrow> bool" where
  "pass_keeps good tenant now st st' \<longleftrightarrow> shelf_ok good st' \<and> fires_past (sc_fires st) st'
   \<and> (\<forall>k. due tenant now st' k \<longrightarrow> due tenant now st k)
   \<and> (\<forall>k. map_of (sc_schedules st') k = None \<longleftrightarrow> map_of (sc_schedules st) k = None)"

context scheduling
begin

lemma fire_request_good:
  assumes "fields_ok s" and "k = (t, sd_id s)"
  shows "\<exists>q. fire_request key_of k s f now = Inr q \<and> tq_tenant q = t \<and> tq_schedule q = sd_id s
    \<and> tq_fire q = f \<and> tq_advance q = (if is_cron (sd_spec s) \<and> now > f then now else f)"
proof -
  obtain ik where "key_of s f = Inr ik" "schedule_key_ok ik" using key_of_ok [OF assms(1)] by blast
  with assms show ?thesis
    by (auto simp: fire_request_def request_checks_def fields_ok_def Let_def)
qed

lemma due_loop_pass:
  assumes "shelf_ok good st" and "fires_past (sc_fires st) st"
    and "\<forall>(k, s) \<in> set items. map_of (sc_schedules st) k = Some s" and "distinct (map fst items)"
  shows "\<exists>st' r. due_loop next_op key_of tenant now items st = (st', Some (Inr r))
    \<and> pass_keeps good tenant now st st'
    \<and> (\<forall>k. k \<notin> fst ` set items \<longrightarrow> map_of (sc_schedules st') k = map_of (sc_schedules st) k)
    \<and> (case r of
        None \<Rightarrow> sc_fires st' = sc_fires st \<and> (\<forall>k \<in> fst ` set items. \<not> due tenant now st' k)
      | Some q \<Rightarrow> \<exists>s. claims tenant now st st' q s)"
  using assms
proof (induction items arbitrary: st)
  case Nil
  then show ?case by (auto simp: pass_keeps_def)
next
  case (Cons item items)
  obtain k s where item: "item = (k, s)" by (cases item)
  from Cons.prems(3) item have here: "map_of (sc_schedules st) k = Some s" by simp
  from Cons.prems(1) here have s: "k = (sd_tenant s, sd_id s)" "good (sd_spec s)" "fields_ok s"
    unfolding shelf_ok_def by blast+
  have rest: "\<forall>(k, s) \<in> set items. map_of (sc_schedules st) k = Some s" "distinct (map fst items)"
    "k \<notin> fst ` set items"
    using Cons.prems(3,4) item by auto
  note ih = Cons.IH [OF Cons.prems(1,2) rest(1,2)]
  show ?case
  proof (cases "due tenant now st k")
    case False
    have step: "due_loop next_op key_of tenant now (item # items) st = due_loop next_op key_of tenant now items st"
      using False here item by (auto simp: due_def split: option.splits)
    from ih obtain st' r where i: "due_loop next_op key_of tenant now items st = (st', Some (Inr r))"
      "pass_keeps good tenant now st st'"
      "\<forall>k. k \<notin> fst ` set items \<longrightarrow> map_of (sc_schedules st') k = map_of (sc_schedules st) k"
      "case r of None \<Rightarrow> sc_fires st' = sc_fires st \<and> (\<forall>k \<in> fst ` set items. \<not> due tenant now st' k)
        | Some q \<Rightarrow> \<exists>s. claims tenant now st st' q s" by blast
    have "\<not> due tenant now st' k" using i(2) False unfolding pass_keeps_def by blast
    with i step item show ?thesis by (cases r) auto
  next
    case True
    then obtain f where f: "tenant = None \<or> tenant = Some (fst k)" "sd_status s = Active"
      "sd_next s = Some f" "f \<le> now" using here by (auto simp: due_def)
    show ?thesis
    proof (cases "spec_misfire (sd_spec s) = Skip_Misfire \<and> now > f")
      case skip: True
      obtain s' where adv: "advance_schedule next_op (fst k) s now True st = Some (Inr (put_schedule (fst k) s' st))"
        "advanced now s s'" using advance_schedule_good [OF s(2)] by blast
      let ?st = "put_schedule (fst k) s' st"
      have k: "map_of (sc_schedules st) (fst k, sd_id s) = Some s" "k = (fst k, sd_id s)"
        using here s(1) by simp_all
      have shelf: "shelf_ok good ?st" by (rule shelf_ok_advance [OF Cons.prems(1) k(1) adv(2)])
      have past: "fires_past (sc_fires st) ?st"
        by (rule fires_past_advance [OF Cons.prems(2) k(1) refl adv(2) f(3,4)])
      have other: "map_of (sc_schedules ?st) k' = map_of (sc_schedules st) k'" if "k' \<noteq> k" for k'
        using that k(2) advanced_fields [OF adv(2)] by auto
      have rest': "\<forall>(k', s) \<in> set items. map_of (sc_schedules ?st) k' = Some s"
        using rest(1,3) other by (metis (no_types, lifting) case_prodD case_prodI2 fst_conv image_eqI)
      have step: "due_loop next_op key_of tenant now (item # items) st = due_loop next_op key_of tenant now items ?st"
        using f skip adv(1) item by auto
      have gone: "due tenant now ?st k' \<longleftrightarrow> k' \<noteq> k \<and> due tenant now st k'" for k'
        using due_advance [OF k(1) refl adv(2)] k(2) by simp
      from Cons.IH [OF shelf _ rest' rest(2)] past obtain st' r where
        i: "due_loop next_op key_of tenant now items ?st = (st', Some (Inr r))"
        "pass_keeps good tenant now ?st st'"
        "\<forall>k. k \<notin> fst ` set items \<longrightarrow> map_of (sc_schedules st') k = map_of (sc_schedules ?st) k"
        "case r of None \<Rightarrow> sc_fires st' = sc_fires ?st \<and> (\<forall>k \<in> fst ` set items. \<not> due tenant now st' k)
          | Some q \<Rightarrow> \<exists>s. claims tenant now ?st st' q s" by auto
      have "map_of (sc_schedules ?st) k' = None \<longleftrightarrow> map_of (sc_schedules st) k' = None" for k'
        using other [of k'] here k(2) advanced_fields [OF adv(2)] by (cases "k' = k") auto
      then have keeps: "pass_keeps good tenant now st st'"
        using i(2) gone unfolding pass_keeps_def put_schedule_fires by blast
      have not_k: "\<not> due tenant now st' k" using i(2) gone unfolding pass_keeps_def by blast
      have run: "due_loop next_op key_of tenant now (item # items) st = (st', Some (Inr r))"
        using step i(1) by (rule trans)
      have off: "\<forall>k'. k' \<notin> fst ` set (item # items) \<longrightarrow>
          map_of (sc_schedules st') k' = map_of (sc_schedules st) k'"
      proof (intro allI impI)
        fix k' assume "k' \<notin> fst ` set (item # items)"
        then have "k' \<noteq> k" "k' \<notin> fst ` set items" using item by simp_all
        with i(3) other [of k'] show "map_of (sc_schedules st') k' = map_of (sc_schedules st) k'" by metis
      qed
      have "case r of
          None \<Rightarrow> sc_fires st' = sc_fires st \<and> (\<forall>k \<in> fst ` set (item # items). \<not> due tenant now st' k)
        | Some q \<Rightarrow> \<exists>s. claims tenant now st st' q s"
      proof (cases r)
        case None
        with i(4) not_k item show ?thesis by simp
      next
        case (Some q)
        with i(4) obtain s2 where c: "claims tenant now ?st st' q s2" by auto
        then have ne: "(tq_tenant q, tq_schedule q) \<noteq> k" using gone unfolding claims_def by blast
        have "claims tenant now st st' q s2"
          using c gone other [OF ne] unfolding claims_def put_schedule_fires by metis
        with Some show ?thesis by auto
      qed
      with run keeps off show ?thesis by blast
    next
      case fire: False
      obtain q where q: "fire_request key_of k s f now = Inr q" "tq_tenant q = fst k" "tq_schedule q = sd_id s"
        "tq_fire q = f" "tq_advance q = (if is_cron (sd_spec s) \<and> now > f then now else f)"
        using fire_request_good [OF s(3), of k "fst k" f now] s(1) by auto
      have new: "(fst k, snd k, f) \<notin> set (sc_fires st)"
        using Cons.prems(2) here f(3) unfolding fires_past_def by fastforce
      let ?st = "st\<lparr>sc_fires := (fst k, snd k, f) # sc_fires st\<rparr>"
      have step: "due_loop next_op key_of tenant now (item # items) st = (?st, Some (Inr (Some q)))"
        using f fire q(1) new item by auto
      have "claims tenant now st ?st q s"
        using q here s(1) new True f by (auto simp: claims_def fire_identity_def)
      moreover have "pass_keeps good tenant now st ?st"
        using Cons.prems(1,2) by (simp add: pass_keeps_def shelf_ok_def fires_past_def due_def)
      ultimately show ?thesis using step by auto
    qed
  qed
qed

end


section \<open>A whole tick\<close>

lemma finite_due: "finite {k. due tenant now st k}"
proof (rule finite_subset)
  show "{k. due tenant now st k} \<subseteq> fst ` set (sc_schedules st)"
    by (auto simp: due_def dest: map_of_SomeD intro: rev_image_eqI)
qed simp

context scheduling
begin

lemma next_due_pass:
  assumes "scheduler_ok good st"
  obtains st1 r where "next_due_request next_op key_of tenant now st = (st1, Some (Inr r))"
    "pass_keeps good tenant now st st1"
    "case r of None \<Rightarrow> sc_fires st1 = sc_fires st \<and> (\<forall>k. \<not> due tenant now st1 k)
      | Some q \<Rightarrow> \<exists>s. claims tenant now st st1 q s"
proof -
  have ok: "shelf_ok good st" "fires_past (sc_fires st) st" using assms by (simp_all add: scheduler_ok_def)
  then have d: "dict_ok (sc_schedules st)" by (simp add: shelf_ok_def)
  have items: "\<forall>(k, s) \<in> set (sc_schedules st). map_of (sc_schedules st) k = Some s"
    using d by (auto simp: dict_mem_iff)
  have "distinct (map fst (sc_schedules st))" using d by (simp add: dict_ok_def)
  from due_loop_pass [OF ok items this, of tenant now] obtain st1 r where
    r: "due_loop next_op key_of tenant now (sc_schedules st) st = (st1, Some (Inr r))"
      "pass_keeps good tenant now st st1"
      "case r of None \<Rightarrow> sc_fires st1 = sc_fires st \<and> (\<forall>k \<in> fst ` set (sc_schedules st). \<not> due tenant now st1 k)
        | Some q \<Rightarrow> \<exists>s. claims tenant now st st1 q s" by blast
  have mem: "k \<in> fst ` set (sc_schedules st)" if "due tenant now st1 k" for k
  proof -
    from that r(2) have "due tenant now st k" unfolding pass_keeps_def by blast
    then show ?thesis unfolding due_def by (metis map_of_eq_None_iff option.distinct(1))
  qed
  have "case r of None \<Rightarrow> sc_fires st1 = sc_fires st \<and> (\<forall>k. \<not> due tenant now st1 k)
      | Some q \<Rightarrow> \<exists>s. claims tenant now st st1 q s"
  proof (cases r)
    case None
    with r(3) have "\<forall>k \<in> fst ` set (sc_schedules st). \<not> due tenant now st1 k" "sc_fires st1 = sc_fires st"
      by simp_all
    then have "sc_fires st1 = sc_fires st \<and> (\<forall>k. \<not> due tenant now st1 k)" using mem by blast
    with None show ?thesis by simp
  qed (use r(3) in auto)
  with r(1,2) that show ?thesis by (simp add: next_due_request_def)
qed

text \<open>A pass that found nothing leaves the scheduler in order.\<close>

lemma idle_pass_ok:
  assumes "scheduler_ok good st" and "pass_keeps good tenant now st st1" and "sc_fires st1 = sc_fires st"
  shows "scheduler_ok good st1"
proof -
  have "shelf_ok good st1" "fires_past (sc_fires st1) st1"
    "\<And>k. map_of (sc_schedules st1) k = None \<Longrightarrow> map_of (sc_schedules st) k = None"
    using assms(2,3) unfolding pass_keeps_def by auto
  with assms(1,3) known_fires_mono [of st1 st "sc_fires st"] show ?thesis
    unfolding scheduler_ok_def by simp
qed

text \<open>A claimed fire can be completed, after which its schedule is due no more.\<close>

lemma complete_claim:
  assumes "scheduler_ok good st" and "pass_keeps good tenant now st st1" and "claims tenant now st st1 q s"
  shows "\<exists>st2. complete_fire next_op q st1 = Some (Inr st2) \<and> scheduler_ok good st2
    \<and> sc_fires st2 = fire_identity q # sc_fires st
    \<and> (\<forall>k. due tenant now st2 k \<longrightarrow> due tenant now st k \<and> k \<noteq> (tq_tenant q, tq_schedule q))"
proof -
  let ?k = "(tq_tenant q, tq_schedule q)"
  have here: "map_of (sc_schedules st1) ?k = Some s" and sid: "sd_id s = tq_schedule q"
    and nxt: "sd_next s = Some (tq_fire q)" and fires: "sc_fires st1 = fire_identity q # sc_fires st"
    and adv_at: "tq_advance q = (if is_cron (sd_spec s) then now else tq_fire q)" and le: "tq_fire q \<le> now"
    using assms(3) by (simp_all add: claims_def)
  have keeps: "shelf_ok good st1" "fires_past (sc_fires st) st1"
    "\<And>k. due tenant now st1 k \<Longrightarrow> due tenant now st k"
    "\<And>k. map_of (sc_schedules st1) k = None \<longleftrightarrow> map_of (sc_schedules st) k = None"
    using assms(2) unfolding pass_keeps_def by blast+
  have spec: "good (sd_spec s)" using keeps(1) here unfolding shelf_ok_def by blast
  obtain s' where adv: "advance_schedule next_op (tq_tenant q) s (tq_advance q) False st1
      = Some (Inr (put_schedule (tq_tenant q) s' st1))" "advanced (tq_advance q) s s'"
    using advance_schedule_good [OF spec] by blast
  let ?st2 = "put_schedule (tq_tenant q) s' st1"
  have beyond: "advanced now s s'"
  proof (cases "is_cron (sd_spec s)")
    case True
    with adv(2) adv_at show ?thesis by simp
  next
    case False
    then have "next_op (sd_spec s) (tq_advance q) = Inr None" by (rule one_time_once)
    with adv(1) have "put_schedule (tq_tenant q) s' st1
        = put_schedule (tq_tenant q) (s\<lparr>sd_status := Done, sd_next := None\<rparr>) st1"
      by (simp add: advance_schedule_def)
    then have "map_of (sc_schedules (put_schedule (tq_tenant q) s' st1)) ?k
        = map_of (sc_schedules (put_schedule (tq_tenant q) (s\<lparr>sd_status := Done, sd_next := None\<rparr>) st1)) ?k"
      by simp
    then have "s' = s\<lparr>sd_status := Done, sd_next := None\<rparr>"
      using advanced_fields [OF adv(2)] sid by simp
    then show ?thesis by (simp add: advanced_def)
  qed
  have key: "map_of (sc_schedules st1) (tq_tenant q, sd_id s) = Some s" using here sid by simp
  have shelf: "shelf_ok good ?st2" by (rule shelf_ok_advance [OF keeps(1) key beyond])
  have old: "fires_past (sc_fires st) ?st2"
    by (rule fires_past_advance [OF keeps(2) key refl beyond nxt le])
  have new: "tq_fire q < u" if "sd_next s' = Some u" for u
    using beyond that le by (auto simp: advanced_def)
  have past: "fires_past (sc_fires ?st2) ?st2"
    using old new advanced_fields [OF beyond] sid fires
    unfolding fires_past_def by (auto simp: fire_identity_def)
  have "map_of (sc_schedules ?st2) k = None \<Longrightarrow> map_of (sc_schedules st) k = None" for k
    using keeps(4) [of k] by (auto split: if_splits)
  then have "known_fires (sc_fires st) ?st2"
    using known_fires_mono assms(1) unfolding scheduler_ok_def by blast
  then have dom: "known_fires (sc_fires ?st2) ?st2"
    using fires advanced_fields [OF beyond] sid by (simp add: known_fires_def fire_identity_def)
  have "complete_fire next_op q st1 = Some (Inr ?st2)"
    using here adv(1) by (simp add: complete_fire_def find_schedule_def)
  moreover have "due tenant now ?st2 k \<longrightarrow> due tenant now st k \<and> k \<noteq> ?k" for k
    using due_advance [OF key refl beyond] keeps(3) sid by simp
  ultimately show ?thesis
    using shelf past dom fires by (auto simp: scheduler_ok_def)
qed

lemma tick_loop_finishes:
  assumes "scheduler_ok good st" and "card {k. due tenant now st k} < n" and "\<forall>i q. submit i q"
  shows "\<exists>st' out. tick_loop n next_op key_of submit tenant now sent st
      = (st', sent @ out, Some (Inr (map tq_schedule (sent @ out))))
    \<and> scheduler_ok good st' \<and> (\<forall>k. \<not> due tenant now st' k)
    \<and> sc_fires st' = rev (map fire_identity out) @ sc_fires st
    \<and> distinct (map fire_identity out)
    \<and> (\<forall>q \<in> set out. fire_identity q \<notin> set (sc_fires st) \<and> tq_fire q \<le> now
         \<and> due tenant now st (tq_tenant q, tq_schedule q))"
  using assms(1,2)
proof (induction n arbitrary: st sent)
  case (Suc n)
  obtain st1 r where r: "next_due_request next_op key_of tenant now st = (st1, Some (Inr r))"
    "pass_keeps good tenant now st st1"
    "case r of None \<Rightarrow> sc_fires st1 = sc_fires st \<and> (\<forall>k. \<not> due tenant now st1 k)
      | Some q \<Rightarrow> \<exists>s. claims tenant now st st1 q s"
    by (rule next_due_pass [OF Suc.prems(1)])
  show ?case
  proof (cases r)
    case None
    with r have "tick_loop (Suc n) next_op key_of submit tenant now sent st
        = (st1, sent, Some (Inr (map tq_schedule sent)))" by simp
    moreover have "scheduler_ok good st1"
      using idle_pass_ok [OF Suc.prems(1) r(2)] r(3) None by simp
    ultimately show ?thesis using r(3) None by (intro exI [of _ st1] exI [of _ "[]"]) simp
  next
    case (Some q)
    with r(3) obtain s where c: "claims tenant now st st1 q s" by auto
    from complete_claim [OF Suc.prems(1) r(2) c] obtain st2 where st2:
      "complete_fire next_op q st1 = Some (Inr st2)" "scheduler_ok good st2"
      "sc_fires st2 = fire_identity q # sc_fires st"
      "\<And>k. due tenant now st2 k \<Longrightarrow> due tenant now st k \<and> k \<noteq> (tq_tenant q, tq_schedule q)" by blast
    have q: "due tenant now st (tq_tenant q, tq_schedule q)" "fire_identity q \<notin> set (sc_fires st)"
      "tq_fire q \<le> now" using c by (simp_all add: claims_def)
    have "{k. due tenant now st2 k} \<subset> {k. due tenant now st k}" using st2(4) q(1) by blast
    then have "card {k. due tenant now st2 k} < card {k. due tenant now st k}"
      by (rule psubset_card_mono [OF finite_due])
    then have "card {k. due tenant now st2 k} < n" using Suc.prems(2) by simp
    from Suc.IH [OF st2(2) this, of "sent @ [q]"] obtain st' out where i:
      "tick_loop n next_op key_of submit tenant now (sent @ [q]) st2
        = (st', (sent @ [q]) @ out, Some (Inr (map tq_schedule ((sent @ [q]) @ out))))"
      "scheduler_ok good st'" "\<forall>k. \<not> due tenant now st' k"
      "sc_fires st' = rev (map fire_identity out) @ sc_fires st2" "distinct (map fire_identity out)"
      "\<forall>q \<in> set out. fire_identity q \<notin> set (sc_fires st2) \<and> tq_fire q \<le> now
         \<and> due tenant now st2 (tq_tenant q, tq_schedule q)" by blast
    have "tick_loop (Suc n) next_op key_of submit tenant now sent st
        = (st', sent @ (q # out), Some (Inr (map tq_schedule (sent @ (q # out)))))"
      using r(1) Some assms(3) st2(1) i(1) by simp
    moreover have "distinct (map fire_identity (q # out))" using i(5,6) st2(3) by auto
    moreover have "\<forall>q' \<in> set (q # out). fire_identity q' \<notin> set (sc_fires st) \<and> tq_fire q' \<le> now
        \<and> due tenant now st (tq_tenant q', tq_schedule q')"
      using i(6) st2(3,4) q by auto
    ultimately show ?thesis
      using i(2-4) st2(3) by (intro exI [of _ st'] exI [of _ "q # out"]) simp
  qed
qed simp

end


section \<open>The cron calendar in zones with a fixed offset\<close>

definition settled_spec :: "zones \<Rightarrow> schedule_spec \<Rightarrow> bool" where
  "settled_spec zones spec \<longleftrightarrow> spec_ok zones spec
     \<and> (\<exists>z off. zones (spec_zone spec) = Some z \<and> fixed_offset z off)"

text \<open>The key of a fire, with the digest and the time stamp as arguments.\<close>

definition schedule_key ::
  "(instant \<Rightarrow> string) \<Rightarrow> (string \<Rightarrow> uuid) \<Rightarrow> schedule \<Rightarrow> instant \<Rightarrow> schedule_error + string" where
  "schedule_key stamp sha s fire =
     deterministic_idempotency_key stamp sha (sd_tenant s) (sd_id s) fire (sd_key s)"

lemma hex_digits: "c \<in> set (uuid_hex u) \<Longrightarrow> c \<in> set (upper_alpha @ lower_alnum @ ''_.:-'')"
proof -
  have "\<forall>n < 16. digit_char n \<in> set (upper_alpha @ lower_alnum @ ''_.:-'')" by code_simp
  moreover have "uuid_nibble u i < 16" for i by (simp add: uuid_nibble_def)
  ultimately show "c \<in> set (uuid_hex u) \<Longrightarrow> c \<in> set (upper_alpha @ lower_alnum @ ''_.:-'')"
    by (auto simp: uuid_hex_def simp del: set_append)
qed

lemma schedule_key_works:
  assumes "fields_ok s"
  shows "\<exists>k. schedule_key stamp sha s f = Inr k \<and> schedule_key_ok k"
proof -
  have "list_all (\<lambda>c. c \<in> set (upper_alpha @ lower_alnum @ ''_.:-'')) (''schedule:'' @ uuid_hex u)" for u
    using hex_digits [of _ u] by (auto simp: list_all_iff lower_alnum_def)
  then have "schedule_key_ok (''schedule:'' @ uuid_hex u)" for u
    by (simp add: schedule_key_ok_def)
  with assms show ?thesis
    by (simp add: schedule_key_def deterministic_idempotency_key_def fields_ok_def)
qed

lemma settled_cron_later:
  assumes "settled_spec zones (Cron_Spec e z m)"
  shows "\<exists>u. next_cron_fire zones e z t = Inr u \<and> t < u"
  using assms next_cron_later unfolding settled_spec_def spec_ok_def by fastforce

interpretation cron_schedules: scheduling "next_after zones" "settled_spec zones" "schedule_key stamp sha"
  for zones stamp sha
proof
  fix spec t u s f
  show "t < u" if "settled_spec zones spec" "next_after zones spec t = Inr (Some u)"
    using that settled_cron_later [of zones _ _ _ t] by (cases spec) (fastforce simp: next_after_def)+
  show "\<exists>r. next_after zones spec t = Inr r" if "settled_spec zones spec"
    using that settled_cron_later [of zones _ _ _ t] by (cases spec) (fastforce simp: next_after_def)+
  show "next_after zones spec t = Inr None" if "\<not> is_cron spec"
    using that by (cases spec) (simp_all add: next_after_def is_cron_def)
  show "\<exists>k. schedule_key stamp sha s f = Inr k \<and> schedule_key_ok k" if "fields_ok s"
    using that by (rule schedule_key_works)
qed

section \<open>What a tick guarantees\<close>

text \<open>
  C17. In zones with a fixed offset, from a state that keeps the invariant of the scheduler, a tick whose
  submissions succeed finishes, after at most one round per due schedule, with nothing left due: every schedule that was due has either been
  submitted or passed over as a misfire. Each fire is submitted at most once, within this tick
  and ever: no fire of an earlier tick is submitted again and the fires of this one are recorded.
  The invariant that every recorded fire lies before its schedule's next one is kept.
\<close>

theorem tick_leaves_nothing_due:
  assumes "scheduler_ok (settled_spec zones) st" and "card {k. due tenant now st k} < n"
    and "\<forall>i q. submit i q"
  shows "\<exists>st' sent. tick n (next_after zones) (schedule_key stamp sha) submit tenant now st
      = (st', sent, Some (Inr (map tq_schedule sent)))
    \<and> scheduler_ok (settled_spec zones) st' \<and> (\<forall>k. \<not> due tenant now st' k)
    \<and> sc_fires st' = rev (map fire_identity sent) @ sc_fires st \<and> distinct (map fire_identity sent)
    \<and> (\<forall>q \<in> set sent. fire_identity q \<notin> set (sc_fires st) \<and> tq_fire q \<le> now
         \<and> due tenant now st (tq_tenant q, tq_schedule q))"
  using cron_schedules.tick_loop_finishes [OF assms, of stamp sha "[]"] by (simp add: tick_def)

definition sample_schedule :: "string \<Rightarrow> misfire_policy \<Rightarrow> instant \<Rightarrow> schedule" where
  "sample_schedule e m fire = \<lparr>sd_tenant = 1, sd_owner = 2, sd_name = ''nightly'', sd_mode = Direct,
     sd_workflow = ''report'', sd_message = ''go'', sd_budget = 100, sd_spec = Cron_Spec e ''z'' m,
     sd_key = ''nightly'', sd_id = 3, sd_next = Some fire, sd_status = Active, sd_visible = False,
     sd_metadata = []\<rparr>"

definition sample_scheduler :: "string \<Rightarrow> misfire_policy \<Rightarrow> instant \<Rightarrow> scheduler" where
  "sample_scheduler e m fire = \<lparr>sc_schedules = [((1, 3), sample_schedule e m fire)], sc_fires = []\<rparr>"

lemma sample_scheduler_ok:
  "scheduler_ok (settled_spec (\<lambda>_. Some utc_zone)) (sample_scheduler ''0 * * * *'' Fire_Once 0)"
proof -
  have "parse_cron ''0 * * * *'' \<noteq> None" by code_simp
  moreover have "fixed_offset utc_zone 0" by (simp add: fixed_offset_def utc_zone_def)
  ultimately have "settled_spec (\<lambda>_. Some utc_zone) (Cron_Spec ''0 * * * *'' ''z'' Fire_Once)"
    unfolding settled_spec_def spec_ok_def by auto
  moreover have "fields_ok (sample_schedule ''0 * * * *'' Fire_Once 0)" by code_simp
  ultimately show ?thesis
    by (simp add: scheduler_ok_def shelf_ok_def fires_past_def known_fires_def sample_scheduler_def
        dict_ok_def sample_schedule_def)
qed

theorem tick_leaves_nothing_due_witness:
  "\<exists>st' sent. tick 2 (next_after (\<lambda>_. Some utc_zone)) (schedule_key (\<lambda>_. ''t'') (\<lambda>_. 7)) (\<lambda>_ _. True) None 90
      (sample_scheduler ''0 * * * *'' Fire_Once 0) = (st', sent, Some (Inr (map tq_schedule sent)))
    \<and> \<not> due None 90 st' (1, 3)"
proof -
  have "{k. due None 90 (sample_scheduler ''0 * * * *'' Fire_Once 0) k} \<subseteq> {(1, 3)}"
    by (auto simp: due_def sample_scheduler_def split: if_splits)
  then have "card {k. due None 90 (sample_scheduler ''0 * * * *'' Fire_Once 0) k} \<le> card {(1 :: uuid, 3 :: uuid)}"
    by (rule card_mono [rotated]) simp
  then have "card {k. due None 90 (sample_scheduler ''0 * * * *'' Fire_Once 0) k} < 2"
    by simp
  from tick_leaves_nothing_due [OF sample_scheduler_ok this, of "\<lambda>_ _. True" "\<lambda>_. ''t''" "\<lambda>_. 7"]
  show ?thesis by blast
qed

section \<open>Where it goes wrong\<close>

text \<open>A zone whose clock goes back from four to five hours behind at the instant \<open>turn\<close>.\<close>

definition hour_us :: int where "hour_us = 60 * minute_us"

definition autumn_zone :: "instant \<Rightarrow> zone" where
  "autumn_zone turn = \<lparr>zn_local = (\<lambda>t. if t < turn then t - 4 * hour_us else t - 5 * hour_us),
     zn_utc = (\<lambda>n. if n < turn - 4 * hour_us then n + 4 * hour_us else n + 5 * hour_us)\<rparr>"

text \<open>New York on the first of November 2026, six o'clock UTC; half an hour before it and ten
  minutes after.\<close>

definition turn_2026 :: instant where "turn_2026 = (20758 * 1440 + 360) * minute_us"

definition half_past_one :: instant where "half_past_one = turn_2026 - 30 * minute_us"
definition ten_past_one_again :: instant where "ten_past_one_again = turn_2026 + 10 * minute_us"

definition new_york_tick ::
  "(instant \<Rightarrow> string) \<Rightarrow> (string \<Rightarrow> uuid) \<Rightarrow> (nat \<Rightarrow> task_request \<Rightarrow> bool) \<Rightarrow> instant \<Rightarrow> scheduler
     \<Rightarrow> scheduler \<times> task_request list \<times> (schedule_error + uuid list) option" where
  "new_york_tick stamp sha submit now st =
     tick 2 (next_after (\<lambda>_. Some (autumn_zone turn_2026))) (schedule_key stamp sha) submit None now st"

definition stuck_scheduler :: scheduler where
  "stuck_scheduler = sample_scheduler ''30 1 * * *'' Fire_Once half_past_one
     \<lparr>sc_fires := [(1, 3, half_past_one)]\<rparr>"

lemma idle_tick:
  assumes "sc_schedules st = [((t, i), s)]" and "sd_next s = Some f" and "(t, i, f) \<in> set (sc_fires st)"
    and "\<exists>q. fire_request key_of (t, i) s f now = Inr q" and "spec_misfire (sd_spec s) = Fire_Once"
  shows "tick (Suc n) next key_of submit None now st = (st, [], Some (Inr []))"
  using assms by (auto simp: tick_def next_due_request_def)

lemma sample_request:
  "\<exists>q. fire_request (schedule_key stamp sha) (1, 3) (sample_schedule e m f) u now = Inr q"
proof -
  have "fields_ok (sample_schedule e m f)" by (simp add: sample_schedule_def fields_ok_def) code_simp
  from schedule_key_works [OF this, of stamp sha u] this show ?thesis
    by (auto simp: fire_request_def request_checks_def fields_ok_def sample_schedule_def Let_def)
qed

lemma sample_tick:
  assumes "next_after zones (Cron_Spec e ''z'' Fire_Once) now = Inr (Some f)" and "f < now"
  shows "\<exists>q. tick (Suc (Suc n)) (next_after zones) (schedule_key stamp sha) (\<lambda>_ _. True) None now
     (sample_scheduler e Fire_Once f) = (sample_scheduler e Fire_Once f\<lparr>sc_fires := [(1, 3, f)]\<rparr>, [q], Some (Inr [3]))
     \<and> fire_identity q = (1, 3, f)"
proof -
  obtain q where q: "fire_request (schedule_key stamp sha) (1, 3) (sample_schedule e Fire_Once f) f now = Inr q"
    using sample_request by blast
  then have id: "fire_identity q = (1, 3, f)" and adv: "tq_advance q = now"
    using \<open>f < now\<close> by (auto simp: fire_request_def fire_identity_def sample_schedule_def is_cron_def Let_def
        split: if_splits)
  then have ids: "tq_tenant q = 1" "tq_schedule q = 3" by (auto simp: fire_identity_def)
  let ?st = "sample_scheduler e Fire_Once f\<lparr>sc_fires := [(1, 3, f)]\<rparr>"
  have same: "sample_schedule e Fire_Once f\<lparr>sd_next := Some f\<rparr> = sample_schedule e Fire_Once f"
    by (simp add: sample_schedule_def)
  have spec: "sd_spec (sample_schedule e Fire_Once f) = Cron_Spec e ''z'' Fire_Once"
    "sd_next (sample_schedule e Fire_Once f) = Some f" "sd_status (sample_schedule e Fire_Once f) = Active"
    "sd_id (sample_schedule e Fire_Once f) = 3"
    by (simp_all add: sample_schedule_def)
  have first: "next_due_request (next_after zones) (schedule_key stamp sha) None now (sample_scheduler e Fire_Once f)
      = (?st, Some (Inr (Some q)))"
    using q \<open>f < now\<close> spec by (simp add: next_due_request_def sample_scheduler_def)
  have step: "complete_fire (next_after zones) q ?st = Some (Inr ?st)"
    using assms(1) spec same adv ids
    by (simp add: complete_fire_def advance_schedule_def find_schedule_def put_schedule_def sample_scheduler_def)
  have "tick_loop (Suc n) (next_after zones) (schedule_key stamp sha) (\<lambda>_ _. True) None now [q] ?st
      = (?st, [q], Some (Inr [3]))"
    using q spec ids by (auto simp: next_due_request_def sample_scheduler_def)
  then show ?thesis using first step id by (simp add: tick_def)
qed

text \<open>
  When the clock of the zone is set back, a schedule may stop for good. Its fire at half past
  one is found late, at ten past one of the second pass of that hour; the next fire is then
  computed from the wall clock, on which half past one is still to come, and read as half past
  one of the first pass: the fire just submitted. From then on the schedule is due at
  every tick, is found among the submitted fires, and is neither submitted nor advanced.
\<close>

theorem clock_set_back_stops_the_schedule:
  "(\<exists>q. new_york_tick stamp sha (\<lambda>_ _. True) ten_past_one_again
        (sample_scheduler ''30 1 * * *'' Fire_Once half_past_one) = (stuck_scheduler, [q], Some (Inr [3])))
   \<and> (\<forall>submit now. new_york_tick stamp sha submit now stuck_scheduler = (stuck_scheduler, [], Some (Inr [])))"
proof -
  have "next_after (\<lambda>_. Some (autumn_zone turn_2026)) (Cron_Spec ''30 1 * * *'' ''z'' Fire_Once) ten_past_one_again
      = Inr (Some half_past_one)"
    by code_simp
  moreover have "half_past_one < ten_past_one_again" by code_simp
  ultimately have "\<exists>q. new_york_tick stamp sha (\<lambda>_ _. True) ten_past_one_again
      (sample_scheduler ''30 1 * * *'' Fire_Once half_past_one) = (stuck_scheduler, [q], Some (Inr [3]))"
    unfolding stuck_scheduler_def new_york_tick_def
    using sample_tick [of _ _ _ _ 0 stamp sha] by (fastforce simp: numeral_2_eq_2)
  moreover have "tick (Suc 1) next (schedule_key stamp sha) submit None now stuck_scheduler
      = (stuck_scheduler, [], Some (Inr []))" for "next" submit now
    by (rule idle_tick [where t = 1 and i = 3 and f = half_past_one and
          s = "sample_schedule ''30 1 * * *'' Fire_Once half_past_one"])
      (use sample_request in \<open>simp_all add: stuck_scheduler_def sample_scheduler_def sample_schedule_def\<close>)
  ultimately show ?thesis unfolding new_york_tick_def by (simp add: numeral_2_eq_2)
qed

lemma fire_request_fields:
  "fire_request key_of k s f now = Inr q \<Longrightarrow> tq_schedule q = sd_id s \<and> tq_fire q = f"
  by (auto simp: fire_request_def Let_def split: if_splits)

lemma due_loop_request:
  assumes "due_loop next key_of tenant now items st = (st', Some (Inr (Some q)))"
  shows "\<exists>k s. (k, s) \<in> set items \<and> fire_request key_of k s (tq_fire q) now = Inr q
     \<and> sd_next s = Some (tq_fire q) \<and> tq_fire q \<le> now
     \<and> (spec_misfire (sd_spec s) = Skip_Misfire \<longrightarrow> tq_fire q = now)"
  using assms
proof (induction items arbitrary: st)
  case (Cons item items)
  obtain k s where item: "item = (k, s)" by (cases item)
  consider st1 where "due_loop next key_of tenant now items st1 = (st', Some (Inr (Some q)))"
    | f where "sd_next s = Some f" "f \<le> now" "fire_request key_of k s f now = Inr q"
        "\<not> (spec_misfire (sd_spec s) = Skip_Misfire \<and> now > f)"
    using Cons.prems unfolding item
    by (auto split: if_splits option.splits sum.splits)
  then show ?case
  proof cases
    case 1 then show ?thesis using Cons.IH by fastforce
  next
    case (2 f)
    then show ?thesis using fire_request_fields [of key_of k s f now q] unfolding item by (intro exI [of _ k] exI [of _ s]) auto
  qed
qed simp

text \<open>
  Under the policy \<open>skip\<close> a fire is submitted only by a tick whose clock shows exactly the
  time of the fire, to the microsecond: a tick that comes any later passes the fire over as missed.
\<close>

theorem skip_needs_the_exact_instant:
  assumes "next_due_request next key_of tenant now st = (st', Some (Inr (Some q)))"
  shows "\<exists>k s. (k, s) \<in> set (sc_schedules st) \<and> sd_next s = Some (tq_fire q) \<and> tq_schedule q = sd_id s
     \<and> tq_fire q \<le> now \<and> (spec_misfire (sd_spec s) = Skip_Misfire \<longrightarrow> tq_fire q = now)"
proof -
  from due_loop_request [OF assms [unfolded next_due_request_def]] obtain k s
    where s: "(k, s) \<in> set (sc_schedules st)" "fire_request key_of k s (tq_fire q) now = Inr q"
      "sd_next s = Some (tq_fire q)" "tq_fire q \<le> now"
      "spec_misfire (sd_spec s) = Skip_Misfire \<longrightarrow> tq_fire q = now"
    by blast
  then show ?thesis using fire_request_fields [OF s(2)] by blast
qed

theorem skip_needs_the_exact_instant_witness:
  "\<exists>st' q. next_due_request (next_after (\<lambda>_. Some utc_zone)) (schedule_key (\<lambda>_. ''t'') (\<lambda>_. 7)) None 60000000
      (sample_scheduler ''* * * * *'' Skip_Misfire 60000000) = (st', Some (Inr (Some q))) \<and> tq_fire q = 60000000"
proof -
  obtain q where "fire_request (schedule_key (\<lambda>_. ''t'') (\<lambda>_. 7)) (1, 3)
      (sample_schedule ''* * * * *'' Skip_Misfire 60000000) 60000000 60000000 = Inr q"
    using sample_request by blast
  then have "\<exists>st'. next_due_request (next_after (\<lambda>_. Some utc_zone)) (schedule_key (\<lambda>_. ''t'') (\<lambda>_. 7)) None 60000000
      (sample_scheduler ''* * * * *'' Skip_Misfire 60000000) = (st', Some (Inr (Some q)))"
    by (simp add: next_due_request_def sample_scheduler_def sample_schedule_def)
  then obtain st' where run: "next_due_request (next_after (\<lambda>_. Some utc_zone)) (schedule_key (\<lambda>_. ''t'') (\<lambda>_. 7)) None
      60000000 (sample_scheduler ''* * * * *'' Skip_Misfire 60000000) = (st', Some (Inr (Some q)))" by blast
  from skip_needs_the_exact_instant [OF run]
  have "tq_fire q = 60000000" by (auto simp: sample_scheduler_def sample_schedule_def)
  with run show ?thesis by blast
qed

end
