(* ===== verification/Model_Types.thy ===== *)
theory Model_Types
  imports Hub_Prelude
begin

text \<open>
  The deployments of \<open>models/types.py\<close> with their validation, the registry of \<open>models/registry.py\<close>
  and the arithmetic of Python's floats as far as the model layer uses it.
\<close>

section \<open>Floats\<close>

text \<open>
  The double next to a positive rational: 53 significant bits, ties to even. Overflow and the
  numbers below the normal range are left out; the values here lie between a microsecond and years.
\<close>

definition round_even :: "rat \<Rightarrow> int" where
  "round_even q = (let f = \<lfloor>q\<rfloor>; d = q - of_int f in
     if d < 1 / 2 then f else if 1 / 2 < d then f + 1 else if even f then f else f + 1)"

fun digits_from :: "nat \<Rightarrow> int \<Rightarrow> nat" where
  "digits_from 0 n = 0"
| "digits_from (Suc k) n = (if n \<le> 0 then 0 else Suc (digits_from k (n div 2)))"

definition pow2 :: "int \<Rightarrow> rat" where
  "pow2 e = (if 0 \<le> e then 2 ^ nat e else 1 / 2 ^ nat (- e))"

text \<open>\<open>digits_from\<close> counts binary digits, at most 2000 of them.\<close>

definition exponent_of :: "rat \<Rightarrow> int" where
  "exponent_of x = (let (n, d) = quotient_of x; e = int (digits_from 2000 n) - int (digits_from 2000 d) in
     if pow2 e \<le> x then e else e - 1)"

definition to_double :: "rat \<Rightarrow> rat" where
  "to_double x = (if x = 0 then 0 else
     let u = pow2 (exponent_of x - 52) in of_int (round_even (x / u)) * u)"

section \<open>Deployments\<close>

datatype model_capability =
  Cap_Text | Cap_Vision | Cap_Audio | Cap_Tool_Calling | Cap_Structured_Output | Cap_Image_Generation
| Cap_Video_Generation | Cap_Audio_Generation

definition safe_model_id :: "string \<Rightarrow> bool" where
  "safe_model_id v \<longleftrightarrow> length v \<le> 128 \<and> ident_match lower_alnum (lower_alnum @ ''_-'') 127 v"

definition unpadded :: "nat \<Rightarrow> string \<Rightarrow> bool" where
  "unpadded max_length v \<longleftrightarrow> v \<noteq> [] \<and> v = py_strip v \<and> length v \<le> max_length"

record deployment =
  dp_id :: string
  dp_logical :: string
  dp_provider :: string
  dp_request :: "string option"
  dp_api_base :: string
  dp_secret :: string
  dp_scope :: string
  dp_concurrency :: int
  dp_utilization :: pyfloat
  dp_reserved :: int
  dp_rpm :: "int option"
  dp_tpm :: "int option"
  dp_weight :: int
  dp_price_in :: "decimal option"
  dp_price_out :: "decimal option"
  dp_capabilities :: "model_capability list"

text \<open>
  The parts of \<open>urlsplit\<close> the check uses, for texts without control characters: the scheme up to
  the first colon, the authority between two slashes and the next slash, question mark or hash,
  and in it the host and the port. \<open>bracket_ok\<close> is the standard library's verdict on an authority
  with square brackets.
\<close>

definition cut_at :: "string \<Rightarrow> string \<Rightarrow> string" where
  "cut_at stops t = takeWhile (\<lambda>c. c \<notin> set stops) t"

definition lower_text :: "string \<Rightarrow> string" where
  "lower_text t = map (\<lambda>c. if c \<in> set upper_alpha then char_of ((of_char c :: nat) + 32) else c) t"

definition url_authority :: "string \<Rightarrow> (string \<times> string) option" where
  "url_authority t = (let scheme = cut_at '':'' t; rest = drop (Suc (length scheme)) t in
     if length scheme < length t \<and> starts_with ''//'' rest
     then Some (lower_text scheme, cut_at ''/?#'' (drop 2 rest)) else None)"

definition port_ok :: "string \<Rightarrow> bool" where
  "port_ok p \<longleftrightarrow> p = [] \<or> (list_all (\<lambda>c. c \<in> set digits) p
     \<and> foldl (\<lambda>n c. 10 * n + ((of_char c :: nat) - 48)) 0 p \<le> 65535)"

definition host_and_port_ok :: "string \<Rightarrow> bool" where
  "host_and_port_ok netloc = (let host = cut_at '':'' netloc in
     host \<noteq> [] \<and> port_ok (drop (Suc (length host)) netloc))"

definition api_base_ok :: "(string \<Rightarrow> bool) \<Rightarrow> string \<Rightarrow> bool" where
  "api_base_ok bracket_ok t \<longleftrightarrow> \<not> list_ex control_char t \<and> length t \<le> 2048 \<and> t = py_strip t
     \<and> (case url_authority t of None \<Rightarrow> False
        | Some (scheme, netloc) \<Rightarrow> scheme \<in> {''http'', ''https''} \<and> netloc \<noteq> []
            \<and> \<not> list_ex py_space netloc \<and> CHR ''@'' \<notin> set netloc
            \<and> (if CHR ''['' \<in> set netloc \<or> CHR '']'' \<in> set netloc then bracket_ok netloc
               else host_and_port_ok netloc))"

text \<open>A price is bounded and has at most six decimal places; a decimal is its value, so places that
  hold only zeros are not seen.\<close>

definition price_ok :: "decimal \<Rightarrow> bool" where
  "price_ok v \<longleftrightarrow> 0 \<le> v \<and> v \<le> 1000000 \<and> of_int \<lfloor>v * 1000000\<rfloor> = v * 1000000"

definition deployment_ok :: "(string \<Rightarrow> bool) \<Rightarrow> deployment \<Rightarrow> bool" where
  "deployment_ok bracket_ok d \<longleftrightarrow> safe_model_id (dp_id d) \<and> safe_model_id (dp_logical d)
     \<and> unpadded 512 (dp_provider d) \<and> safe_model_id (cut_at ''/'' (dp_provider d))
     \<and> (case dp_request d of None \<Rightarrow> True | Some r \<Rightarrow> unpadded 512 r)
     \<and> unpadded 512 (dp_secret d) \<and> safe_model_id (dp_scope d) \<and> api_base_ok bracket_ok (dp_api_base d)
     \<and> 1 \<le> dp_concurrency d \<and> dp_concurrency d \<le> 1000
     \<and> 1 / 2 \<le> dp_utilization d \<and> dp_utilization d \<le> to_double (9 / 10)
     \<and> 0 \<le> dp_reserved d \<and> dp_reserved d < dp_concurrency d
     \<and> (case dp_rpm d of None \<Rightarrow> True | Some r \<Rightarrow> 0 < r) \<and> (case dp_tpm d of None \<Rightarrow> True | Some r \<Rightarrow> 0 < r)
     \<and> 0 < dp_weight d \<and> (dp_price_in d = None \<longleftrightarrow> dp_price_out d = None)
     \<and> (case dp_price_in d of None \<Rightarrow> True | Some v \<Rightarrow> price_ok v)
     \<and> (case dp_price_out d of None \<Rightarrow> True | Some v \<Rightarrow> price_ok v) \<and> dp_capabilities d \<noteq> []"

section \<open>The registry\<close>

record model_registry =
  mr_models :: "(string \<times> deployment list) list"
  mr_deployments :: "deployment list"

definition grouped :: "deployment list \<Rightarrow> (string \<times> deployment list) list" where
  "grouped ds = (let names = sort (remdups (map dp_logical ds)) in
     map (\<lambda>n. (n, filter (\<lambda>d. dp_logical d = n) ds)) names)"

definition mk_registry :: "deployment list \<Rightarrow> model_registry option" where
  "mk_registry ds = (let ordered = sort_key dp_id ds in
     if distinct (map dp_id ordered) then Some \<lparr>mr_models = grouped ordered, mr_deployments = ordered\<rparr> else None)"

definition candidates :: "model_registry \<Rightarrow> string \<Rightarrow> model_capability list \<Rightarrow> deployment list option" where
  "candidates reg logical required =
     (let ds = filter (\<lambda>d. set required \<subseteq> set (dp_capabilities d))
                 (case map_of (mr_models reg) logical of None \<Rightarrow> [] | Some ds \<Rightarrow> ds) in
      if ds = [] then None else Some ds)"

end
