(* ===== verification/Capacity_Scripts.thy ===== *)
theory Capacity_Scripts
  imports Hub_Prelude
begin

text \<open>
  The scripts of \<open>models/redis\<close> that keep the capacity of a quota scope, and the inline script of
  \<open>CapacityPool.effective_limit\<close>. A script runs alone, so it is a function of the server's time
  in milliseconds and the keys of the scope. A sorted set is the list of its members with their
  scores, a hash the list of its fields; a key exists while it is not empty and its time to live
  has not run out. Each script sees the keys without those whose time is over. Numbers are
  integers except the tokens of a bucket, which are exact fractions where Lua has doubles.
\<close>

section \<open>The keys of a scope\<close>

type_synonym millis = int

record bucket =
  bk_tokens :: rat
  bk_last :: millis
  bk_until :: millis

record scope_policy =
  po_base :: int
  po_rpm :: int
  po_tpm :: int

record scope =
  sp_leases :: "(uuid \<times> millis) list"
  sp_leases_until :: millis
  sp_rpm :: "bucket option"
  sp_tpm :: "bucket option"
  sp_effective :: "int option"
  sp_cooldown :: "millis option"
  sp_health_until :: millis
  sp_latency :: "int list"
  sp_latency_until :: millis
  sp_policy :: "scope_policy option"
  sp_expires :: "(uuid \<times> millis) list"
  sp_bases :: "(uuid \<times> int) list"
  sp_rpms :: "(uuid \<times> int) list"
  sp_tpms :: "(uuid \<times> int) list"
  sp_owners :: "uuid list"
  sp_policy_until :: millis

definition empty_scope :: scope where
  "empty_scope = \<lparr>sp_leases = [], sp_leases_until = 0, sp_rpm = None, sp_tpm = None, sp_effective = None,
     sp_cooldown = None, sp_health_until = 0, sp_latency = [], sp_latency_until = 0, sp_policy = None,
     sp_expires = [], sp_bases = [], sp_rpms = [], sp_tpms = [], sp_owners = [], sp_policy_until = 0\<rparr>"

text \<open>A key is gone once the time is past its deadline.\<close>

definition keep_bucket :: "millis \<Rightarrow> bucket option \<Rightarrow> bucket option" where
  "keep_bucket now b = (case b of None \<Rightarrow> None | Some k \<Rightarrow> if bk_until k < now then None else Some k)"

definition drop_policy :: "scope \<Rightarrow> scope" where
  "drop_policy s = s\<lparr>sp_policy := None, sp_expires := [], sp_bases := [], sp_rpms := [], sp_tpms := [],
     sp_owners := []\<rparr>"

definition drop_health :: "scope \<Rightarrow> scope" where
  "drop_health s = s\<lparr>sp_effective := None, sp_cooldown := None\<rparr>"

definition tidy_leases :: "millis \<Rightarrow> scope \<Rightarrow> scope" where
  "tidy_leases now s = (if sp_leases_until s < now then s\<lparr>sp_leases := []\<rparr> else s)"

definition tidy_health :: "millis \<Rightarrow> scope \<Rightarrow> scope" where
  "tidy_health now s = (if sp_health_until s < now then drop_health s else s)"

definition tidy_policy :: "millis \<Rightarrow> scope \<Rightarrow> scope" where
  "tidy_policy now s = (if sp_policy_until s < now then drop_policy s else s)"

definition tidy :: "millis \<Rightarrow> scope \<Rightarrow> scope" where
  "tidy now s = tidy_policy now (tidy_health now (tidy_leases now
     (s\<lparr>sp_rpm := keep_bucket now (sp_rpm s), sp_tpm := keep_bucket now (sp_tpm s),
        sp_latency := (if sp_latency_until s < now then [] else sp_latency s)\<rparr>)))"

datatype reply = Numbers "int list" | Script_Error

section \<open>Leases\<close>

definition clamp_limit :: "int \<Rightarrow> int option \<Rightarrow> int" where
  "clamp_limit base health = max 1 (min (case health of None \<Rightarrow> base | Some v \<Rightarrow> v) base)"

text \<open>\<open>available_tokens\<close>: whether the cost can be paid, and what the bucket holds now.\<close>

definition refill :: "millis \<Rightarrow> int \<Rightarrow> bucket \<Rightarrow> rat" where
  "refill now limit k = of_int (max 0 (now - bk_last k)) * of_int limit / 60000"

definition bucket_level :: "millis \<Rightarrow> int \<Rightarrow> bucket option \<Rightarrow> rat" where
  "bucket_level now limit b = (case b of
      None \<Rightarrow> of_int limit
    | Some k \<Rightarrow> min (of_int limit) (bk_tokens k + refill now limit k))"

definition can_pay :: "millis \<Rightarrow> int \<Rightarrow> int \<Rightarrow> bucket option \<Rightarrow> bool" where
  "can_pay now limit cost b \<longleftrightarrow> limit \<le> 0 \<or> of_int cost \<le> bucket_level now limit b + 1 / 1000000000"

definition spend :: "millis \<Rightarrow> int \<Rightarrow> int \<Rightarrow> bucket option \<Rightarrow> bucket option" where
  "spend now limit cost b =
     (if 0 < limit then Some \<lparr>bk_tokens = bucket_level now limit b - of_int cost, bk_last = now,
        bk_until = now + 120000\<rparr> else b)"

definition live_leases :: "millis \<Rightarrow> scope \<Rightarrow> (uuid \<times> millis) list" where
  "live_leases now s = filter (\<lambda>(_, expires). now < expires) (sp_leases s)"

definition acquire_checks :: "millis \<Rightarrow> int \<Rightarrow> millis \<Rightarrow> scope_policy \<Rightarrow> bool" where
  "acquire_checks ttl cost state_ttl p \<longleftrightarrow> 1 \<le> ttl \<and> 1 \<le> cost \<and> 1 \<le> state_ttl \<and> 1 \<le> po_base p
     \<and> 0 \<le> po_rpm p \<and> 0 \<le> po_tpm p"

definition acquire_script :: "millis \<Rightarrow> uuid \<Rightarrow> millis \<Rightarrow> int \<Rightarrow> millis \<Rightarrow> scope \<Rightarrow> scope \<times> reply" where
  "acquire_script now lease ttl cost state_ttl s0 = (let s = tidy now s0 in
     case sp_policy s of
       None \<Rightarrow> (s, Script_Error)
     | Some p \<Rightarrow>
         if \<not> acquire_checks ttl cost state_ttl p then (s, Script_Error)
         else let live = live_leases now s; active = int (length live);
                  effective = clamp_limit (po_base p) (sp_effective s);
                  s1 = s\<lparr>sp_leases := live, sp_effective := Some effective,
                         sp_health_until := now + state_ttl\<rparr> in
           if effective \<le> active then (s1, Numbers [0, active, effective, 1])
           else if \<not> can_pay now (po_rpm p) 1 (sp_rpm s) \<or> \<not> can_pay now (po_tpm p) cost (sp_tpm s)
           then (s1, Numbers [0, active, effective, 2])
           else (s1\<lparr>sp_rpm := spend now (po_rpm p) 1 (sp_rpm s),
                    sp_tpm := spend now (po_tpm p) cost (sp_tpm s),
                    sp_leases := AList.update lease (now + ttl) live,
                    sp_leases_until := now + state_ttl\<rparr>,
                 Numbers [1, active + 1, effective, now + ttl]))"

definition release_script :: "millis \<Rightarrow> uuid \<Rightarrow> millis \<Rightarrow> scope \<Rightarrow> scope \<times> reply" where
  "release_script now lease state_ttl s0 = (let s = tidy now s0;
       rest = AList.delete lease (sp_leases s) in
     (s\<lparr>sp_leases := rest, sp_leases_until := (if rest = [] then sp_leases_until s else now + state_ttl)\<rparr>,
      Numbers [if map_of (sp_leases s) lease = None then 0 else 1]))"

definition renew_script :: "millis \<Rightarrow> uuid \<Rightarrow> millis \<Rightarrow> millis \<Rightarrow> scope \<Rightarrow> scope \<times> reply" where
  "renew_script now lease ttl state_ttl s0 = (let s = tidy now s0; live = live_leases now s in
     if map_of live lease = None then (s\<lparr>sp_leases := live\<rparr>, Numbers [0])
     else (s\<lparr>sp_leases := AList.update lease (now + ttl) live, sp_leases_until := now + state_ttl\<rparr>,
           Numbers [now + ttl]))"

section \<open>Health\<close>

text \<open>The element of the sorted samples at \<open>ceil(n * 0.95)\<close>, counted from 1.\<close>

definition percentile95 :: "int list \<Rightarrow> int" where
  "percentile95 samples = (if samples = [] then 0
     else sort samples ! (nat (max 1 \<lceil>of_nat (length samples) * (95 / 100 :: rat)\<rceil>) - 1))"

definition outcome_checks ::
  "int \<Rightarrow> int \<Rightarrow> int \<Rightarrow> int \<Rightarrow> millis \<Rightarrow> int \<Rightarrow> int \<Rightarrow> millis \<Rightarrow> bool" where
  "outcome_checks base status succeeded latency cooldown threshold window state_ttl \<longleftrightarrow>
     1 \<le> base \<and> (status = 0 \<or> (100 \<le> status \<and> status \<le> 599)) \<and> (succeeded = 0 \<or> succeeded = 1)
     \<and> 0 \<le> latency \<and> 1 \<le> cooldown \<and> 1 \<le> threshold \<and> 1 \<le> window \<and> 1 \<le> state_ttl"

definition outcome_script ::
  "millis \<Rightarrow> int \<Rightarrow> int \<Rightarrow> int \<Rightarrow> millis \<Rightarrow> int \<Rightarrow> int \<Rightarrow> millis \<Rightarrow> scope \<Rightarrow> scope \<times> reply" where
  "outcome_script now status succeeded latency cooldown threshold window state_ttl s0 = (let s = tidy now s0 in
     case sp_policy s of
       None \<Rightarrow> (s, Script_Error)
     | Some p \<Rightarrow>
         if \<not> outcome_checks (po_base p) status succeeded latency cooldown threshold window state_ttl
         then (s, Script_Error)
         else let pushed = sp_latency s @ [latency];
                  samples = drop (length pushed - nat window) pushed;
                  p95 = percentile95 samples;
                  current = clamp_limit (po_base p) (sp_effective s);
                  until0 = (case sp_cooldown s of None \<Rightarrow> 0 | Some c \<Rightarrow> c);
                  unhealthy = (status = 429 \<or> status = 503 \<or> threshold < p95);
                  new = (if unhealthy then max 1 (current div 2)
                         else if succeeded = 1 \<and> until0 \<le> now \<and> current < po_base p then current + 1
                         else current);
                  until1 = (if unhealthy then max until0 (now + cooldown) else until0) in
           (s\<lparr>sp_latency := samples, sp_latency_until := now + state_ttl, sp_effective := Some new,
              sp_cooldown := Some until1, sp_health_until := now + state_ttl\<rparr>,
            Numbers [new, p95, until1]))"

definition limit_script :: "millis \<Rightarrow> millis \<Rightarrow> scope \<Rightarrow> scope \<times> reply" where
  "limit_script now state_ttl s0 = (let s = tidy now s0 in
     case sp_policy s of
       None \<Rightarrow> (s, Script_Error)
     | Some p \<Rightarrow>
         if po_base p < 1 then (s, Script_Error)
         else let v = clamp_limit (po_base p) (sp_effective s) in
           (s\<lparr>sp_effective := Some v, sp_health_until := now + state_ttl\<rparr>, Numbers [v]))"

section \<open>Policies\<close>

definition forget_owners :: "uuid set \<Rightarrow> scope \<Rightarrow> scope" where
  "forget_owners gone s = s\<lparr>sp_bases := filter (\<lambda>(o', _). o' \<notin> gone) (sp_bases s),
     sp_rpms := filter (\<lambda>(o', _). o' \<notin> gone) (sp_rpms s),
     sp_tpms := filter (\<lambda>(o', _). o' \<notin> gone) (sp_tpms s),
     sp_owners := filter (\<lambda>o'. o' \<notin> gone) (sp_owners s)\<rparr>"

text \<open>\<open>minimum\<close>: the least value, without the zeros where zero means unlimited; 0 when there is none.\<close>

definition minimum :: "bool \<Rightarrow> int list \<Rightarrow> int" where
  "minimum zero_unlimited vs = (let ws = filter (\<lambda>v. \<not> zero_unlimited \<or> v \<noteq> 0) vs in
     if ws = [] then 0 else Min (set ws))"

definition owned_policy :: "scope \<Rightarrow> scope_policy" where
  "owned_policy s = \<lparr>po_base = minimum False (map snd (sp_bases s)), po_rpm = minimum True (map snd (sp_rpms s)),
     po_tpm = minimum True (map snd (sp_tpms s))\<rparr>"

definition lower_health :: "int \<Rightarrow> scope \<Rightarrow> scope" where
  "lower_health base s = (case sp_effective s of
      None \<Rightarrow> s\<lparr>sp_effective := Some base\<rparr>
    | Some h \<Rightarrow> if base < h then s\<lparr>sp_effective := Some base\<rparr> else s)"

text \<open>The policy is written, the health lowered to it and every key kept until the last owner
  expires; a deadline that is not in the future deletes the keys.\<close>

definition latest_expiry :: "scope \<Rightarrow> millis" where
  "latest_expiry s = Max (snd ` set (sp_expires s))"

definition publish_policy :: "millis \<Rightarrow> scope \<Rightarrow> scope" where
  "publish_policy now s =
     (let p = owned_policy s; s1 = lower_health (po_base p) (s\<lparr>sp_policy := Some p\<rparr>) in
      if latest_expiry s \<le> now then drop_health (drop_policy s1)
      else s1\<lparr>sp_policy_until := latest_expiry s, sp_health_until := latest_expiry s\<rparr>)"

definition register_checks :: "int \<Rightarrow> int \<Rightarrow> int \<Rightarrow> millis \<Rightarrow> int \<Rightarrow> bool" where
  "register_checks base rpm tpm ttl max_owners \<longleftrightarrow> 1 \<le> base \<and> 0 \<le> rpm \<and> 0 \<le> tpm \<and> 1 \<le> ttl \<and> 1 \<le> max_owners"

definition put_owner :: "uuid \<Rightarrow> int \<Rightarrow> int \<Rightarrow> int \<Rightarrow> millis \<Rightarrow> scope \<Rightarrow> scope" where
  "put_owner w base rpm tpm expires s = s\<lparr>sp_expires := AList.update w expires (sp_expires s),
     sp_bases := AList.update w base (sp_bases s), sp_rpms := AList.update w rpm (sp_rpms s),
     sp_tpms := AList.update w tpm (sp_tpms s), sp_owners := List.insert w (sp_owners s)\<rparr>"

definition expired_owners :: "millis \<Rightarrow> scope \<Rightarrow> uuid set" where
  "expired_owners now s = fst ` set (filter (\<lambda>(_, e). e \<le> now) (sp_expires s))"

definition purge_owners :: "millis \<Rightarrow> scope \<Rightarrow> scope" where
  "purge_owners now s = (forget_owners (expired_owners now s) s)
     \<lparr>sp_expires := filter (\<lambda>(_, e). \<not> e \<le> now) (sp_expires s)\<rparr>"

definition register_script ::
  "millis \<Rightarrow> uuid \<Rightarrow> int \<Rightarrow> int \<Rightarrow> int \<Rightarrow> millis \<Rightarrow> int \<Rightarrow> scope \<Rightarrow> scope \<times> reply" where
  "register_script now w base rpm tpm ttl max_owners s0 = (let s = tidy now s0 in
     if \<not> register_checks base rpm tpm ttl max_owners then (s, Script_Error)
     else let s1 = purge_owners now s; n = length (sp_expires s1) in
       if \<not> (length (sp_bases s1) = n \<and> length (sp_rpms s1) = n \<and> length (sp_tpms s1) = n
             \<and> length (sp_owners s1) = n)
       then (s1, Script_Error)
       else if map_of (sp_expires s1) w = None \<and> max_owners \<le> int n then (s1, Script_Error)
       else let s2 = put_owner w base rpm tpm (now + ttl) s1; p = owned_policy s2 in
         (publish_policy now s2,
          Numbers [po_base p, po_rpm p, po_tpm p, if map_of (sp_expires s1) w = None then 1 else 0,
                   int (length (sp_expires s2))]))"

definition rollback_script :: "millis \<Rightarrow> uuid \<Rightarrow> scope \<Rightarrow> scope \<times> reply" where
  "rollback_script now w s0 = (let s = tidy now s0;
       s1 = (forget_owners {w} s)\<lparr>sp_expires := AList.delete w (sp_expires s)\<rparr> in
     (if sp_expires s1 = [] then drop_health (drop_policy s1) else publish_policy now s1, Numbers [1]))"

section \<open>Calls\<close>

datatype scope_call =
  Acquire_Call uuid millis int millis
| Release_Call uuid millis
| Renew_Call uuid millis millis
| Outcome_Call int int int millis int int millis
| Limit_Call millis
| Register_Call uuid int int int millis int
| Rollback_Call uuid

fun exec_call :: "millis \<Rightarrow> scope_call \<Rightarrow> scope \<Rightarrow> scope \<times> reply" where
  "exec_call now (Acquire_Call lease ttl cost state_ttl) s = acquire_script now lease ttl cost state_ttl s"
| "exec_call now (Release_Call lease state_ttl) s = release_script now lease state_ttl s"
| "exec_call now (Renew_Call lease ttl state_ttl) s = renew_script now lease ttl state_ttl s"
| "exec_call now (Outcome_Call status succeeded latency cooldown threshold window state_ttl) s =
     outcome_script now status succeeded latency cooldown threshold window state_ttl s"
| "exec_call now (Limit_Call state_ttl) s = limit_script now state_ttl s"
| "exec_call now (Register_Call w base rpm tpm ttl max_owners) s = register_script now w base rpm tpm ttl max_owners s"
| "exec_call now (Rollback_Call w) s = rollback_script now w s"

end
