(* ===== verification/Capacity_Pool.thy ===== *)
theory Capacity_Pool
  imports Model_Types Capacity_Scripts
begin

text \<open>
  The capacity pool of \<open>models/capacity.py\<close> and its scoped views. The Redis client, the monotonic
  clock, the event loop's clock and sleep, \<open>uuid4\<close> and the fingerprint resolver are outside: an
  oracle answers each use, where an answer may depend on everything asked of Redis before. The
  locks are not modelled: an operation runs without others between its steps. Floats are taken
  as exact where nothing is rounded to an integer.
\<close>

section \<open>Settings\<close>

datatype capacity_error =
  Wait_Timeout | Queue_Full | Backend_Error | Configuration_Error | Invalid_Argument | Cancelled_Error | Time_Range

record pool_settings =
  ps_lease_ms :: millis
  ps_poll :: pyfloat
  ps_max_waiters :: int
  ps_cooldown_ms :: millis
  ps_latency_ms :: millis
  ps_window :: int
  ps_metadata_ms :: millis
  ps_refresh :: pyfloat
  ps_owner :: uuid

definition prefix_ok :: "string \<Rightarrow> bool" where
  "prefix_ok p \<longleftrightarrow> p \<noteq> [] \<and> length p \<le> 128 \<and> list_all (\<lambda>c. c \<in> set (upper_alpha @ lower_alnum @ '':_-'')) p"

definition to_millis :: "pyfloat \<Rightarrow> millis" where
  "to_millis seconds = \<lceil>to_double (seconds * 1000)\<rceil>"

definition mk_settings ::
  "string \<Rightarrow> pyfloat \<Rightarrow> pyfloat \<Rightarrow> int \<Rightarrow> pyfloat \<Rightarrow> pyfloat \<Rightarrow> int \<Rightarrow> pyfloat \<Rightarrow> pyfloat option \<Rightarrow> uuid
     \<Rightarrow> pool_settings option" where
  "mk_settings key_prefix lease_seconds poll max_waiters cooldown latency window metadata_ttl refresh owner =
     (let interval = (case refresh of None \<Rightarrow> metadata_ttl / 4 | Some r \<Rightarrow> r) in
      if \<not> prefix_ok key_prefix \<or> lease_seconds \<le> 0 \<or> poll \<le> 0 \<or> cooldown \<le> 0 \<or> latency \<le> 0
         \<or> max_waiters \<le> 0 \<or> \<not> (1 \<le> window \<and> window \<le> 100) \<or> metadata_ttl \<le> 0
         \<or> interval \<le> 0 \<or> to_double (metadata_ttl / 3) \<le> interval
         \<or> to_millis metadata_ttl < 3 * to_millis lease_seconds
      then None
      else Some \<lparr>ps_lease_ms = to_millis lease_seconds, ps_poll = poll, ps_max_waiters = max_waiters,
        ps_cooldown_ms = to_millis cooldown, ps_latency_ms = to_millis latency, ps_window = window,
        ps_metadata_ms = to_millis metadata_ttl, ps_refresh = interval, ps_owner = owner\<rparr>)"

definition safe_operational_limit :: "int \<Rightarrow> pyfloat \<Rightarrow> int \<Rightarrow> int option" where
  "safe_operational_limit max_concurrency utilization reserved =
     (if max_concurrency \<le> 0 \<or> \<not> (0 < utilization \<and> utilization \<le> 1) \<or> reserved < 0 \<or> max_concurrency \<le> reserved
      then None
      else Some (max 1 (min \<lfloor>to_double (of_int max_concurrency * utilization)\<rfloor> (max_concurrency - reserved))))"

section \<open>Talking to Redis\<close>

datatype redis_value = R_Int int | R_Text string | R_Other
datatype redis_data = One_Value redis_value | Many_Values "redis_value list"

text \<open>\<open>Answered_Late\<close>: the call was cancelled while the script ran, its result still arrived.\<close>

datatype redis_result =
  Answered redis_data | Answered_Late redis_data | Not_Answered | Call_Cancelled

datatype redis_request =
  Acquire_Script string uuid millis int
| Release_Script string uuid
| Renew_Script string uuid millis
| Outcome_Script string int bool int
| Limit_Script string
| Register_Script string uuid int int int millis
| Rollback_Scope_Script string uuid
| Claim_Script string uuid string millis
| Rollback_Claim_Script string uuid

type_synonym redis_log = "(redis_request \<times> redis_result) list"

datatype resolve_result = Resolved string | Resolve_Failed | Resolve_Cancelled

record outside =
  or_eval :: "redis_log \<Rightarrow> redis_request \<Rightarrow> redis_result"
  or_clock :: "nat \<Rightarrow> pyfloat option"
  or_loop :: "nat \<Rightarrow> pyfloat"
  or_sleep :: "nat \<Rightarrow> bool"
  or_uuid :: "nat \<Rightarrow> uuid"
  or_resolve :: "nat \<Rightarrow> string \<Rightarrow> resolve_result"

text \<open>Text is zero, or an optional minus sign and digits that do not begin with zero.\<close>

definition digits_value :: "string \<Rightarrow> int" where
  "digits_value t = foldl (\<lambda>n c. 10 * n + (int (of_char c) - 48)) 0 t"

definition strict_redis_int :: "redis_value \<Rightarrow> int option" where
  "strict_redis_int v = (case v of
      R_Int i \<Rightarrow> Some i
    | R_Other \<Rightarrow> None
    | R_Text t \<Rightarrow>
        (let body = (if starts_with ''-'' t then tl t else t) in
         if t = ''0'' then Some 0
         else if body \<noteq> [] \<and> list_all (\<lambda>c. c \<in> set digits) body \<and> hd body \<noteq> CHR ''0''
         then Some (if starts_with ''-'' t then - digits_value body else digits_value body) else None))"

definition integer_result :: "redis_data \<Rightarrow> nat \<Rightarrow> int list option" where
  "integer_result d n = (case d of
      One_Value _ \<Rightarrow> None
    | Many_Values vs \<Rightarrow>
        if length vs = n \<and> list_all (\<lambda>v. strict_redis_int v \<noteq> None) vs
        then Some (map (\<lambda>v. the (strict_redis_int v)) vs) else None)"

definition single_result :: "redis_data \<Rightarrow> int option" where
  "single_result d = (case d of One_Value v \<Rightarrow> strict_redis_int v | Many_Values _ \<Rightarrow> None)"

section \<open>State\<close>

record scope_limits =
  sl_base :: int
  sl_rpm :: "int option"
  sl_tpm :: "int option"

record registration_state =
  rg_initialized :: bool
  rg_valid_until :: pyfloat
  rg_refreshing :: bool
  rg_next :: pyfloat

definition fresh_registration :: registration_state where
  "fresh_registration = \<lparr>rg_initialized = False, rg_valid_until = 0, rg_refreshing = False, rg_next = 0\<rparr>"

type_synonym catalog = "(string \<times> deployment) list"
type_synonym limits = "(string \<times> scope_limits) list"

text \<open>The last six fields record what was asked of the outside.\<close>

record pool =
  pl_catalog :: catalog
  pl_limits :: limits
  pl_frozen :: bool
  pl_root :: registration_state
  pl_scoped :: "(string list \<times> registration_state) list"
  pl_waiters :: int
  pl_loads :: "(string \<times> int) list"
  pl_weights :: "(string \<times> int) list"
  pl_fingerprints :: "(string \<times> string) list"
  pl_log :: redis_log
  pl_reads :: nat
  pl_loops :: nat
  pl_naps :: nat
  pl_ids :: nat
  pl_resolves :: nat

definition empty_pool :: pool where
  "empty_pool = \<lparr>pl_catalog = [], pl_limits = [], pl_frozen = False, pl_root = fresh_registration, pl_scoped = [],
     pl_waiters = 0, pl_loads = [], pl_weights = [], pl_fingerprints = [], pl_log = [], pl_reads = 0, pl_loops = 0,
     pl_naps = 0, pl_ids = 0, pl_resolves = 0\<rparr>"

definition redis_eval :: "outside \<Rightarrow> redis_request \<Rightarrow> pool \<Rightarrow> pool \<times> redis_result" where
  "redis_eval orcc q p = (let r = or_eval orcc (pl_log p) q in (p\<lparr>pl_log := pl_log p @ [(q, r)]\<rparr>, r))"

definition clock_read :: "outside \<Rightarrow> pool \<Rightarrow> pool \<times> (capacity_error + pyfloat)" where
  "clock_read orcc p = (p\<lparr>pl_reads := Suc (pl_reads p)\<rparr>,
     case or_clock orcc (pl_reads p) of None \<Rightarrow> Inl Configuration_Error | Some t \<Rightarrow> Inr t)"

section \<open>Configuration\<close>

definition most_restrictive_optional :: "int option \<Rightarrow> int option \<Rightarrow> int option" where
  "most_restrictive_optional a b = (case a of None \<Rightarrow> b
     | Some x \<Rightarrow> (case b of None \<Rightarrow> a | Some y \<Rightarrow> Some (min x y)))"

definition merge_limits :: "scope_limits \<Rightarrow> scope_limits \<Rightarrow> scope_limits" where
  "merge_limits a b = \<lparr>sl_base = min (sl_base a) (sl_base b), sl_rpm = most_restrictive_optional (sl_rpm a) (sl_rpm b),
     sl_tpm = most_restrictive_optional (sl_tpm a) (sl_tpm b)\<rparr>"

text \<open>The deployments before a conflicting one stay registered.\<close>

fun validate_configuration :: "deployment list \<Rightarrow> pool \<Rightarrow> pool \<times> capacity_error option" where
  "validate_configuration [] p = (p, None)"
| "validate_configuration (d # ds) p =
     (let existing = map_of (pl_catalog p) (dp_id d) in
      if existing \<noteq> None \<and> existing \<noteq> Some d then (p, Some Configuration_Error)
      else if pl_frozen p \<and> existing = None then (p, Some Configuration_Error)
      else let p1 = p\<lparr>pl_catalog := AList.update (dp_id d) d (pl_catalog p)\<rparr> in
        case safe_operational_limit (dp_concurrency d) (dp_utilization d) (dp_reserved d) of
          None \<Rightarrow> (p1, Some Invalid_Argument)
        | Some base \<Rightarrow>
            let l = \<lparr>sl_base = base, sl_rpm = dp_rpm d, sl_tpm = dp_tpm d\<rparr>;
                l1 = (case map_of (pl_limits p1) (dp_scope d) of None \<Rightarrow> l | Some old \<Rightarrow> merge_limits old l) in
            validate_configuration ds (p1\<lparr>pl_limits := AList.update (dp_scope d) l1 (pl_limits p1)\<rparr>))"

definition mk_pool :: "deployment list \<Rightarrow> capacity_error + pool" where
  "mk_pool ds = (case validate_configuration ds empty_pool of
      (p, None) \<Rightarrow> Inr p | (_, Some e) \<Rightarrow> Inl e)"

section \<open>Views\<close>

text \<open>
  An operation of the pool or of a scoped view: the registration state, the catalog and the limits
  it goes by. A scoped view has the limits its scopes had when it was made.
\<close>

datatype view = Root | Scoped catalog limits

definition dict_from :: "('k \<times> 'v) list \<Rightarrow> ('k \<times> 'v) list" where
  "dict_from xs = foldl (\<lambda>d (k, v). AList.update k v d) [] xs"

definition uniq :: "'a list \<Rightarrow> 'a list" where
  "uniq xs = rev (remdups (rev xs))"

definition view_key :: "catalog \<Rightarrow> string list" where
  "view_key c = sort (map fst c)"

definition catalog_of :: "view \<Rightarrow> pool \<Rightarrow> catalog" where
  "catalog_of v p = (case v of Root \<Rightarrow> pl_catalog p | Scoped c _ \<Rightarrow> c)"

definition limits_of :: "view \<Rightarrow> pool \<Rightarrow> limits" where
  "limits_of v p = (case v of Root \<Rightarrow> pl_limits p | Scoped _ l \<Rightarrow> l)"

definition registration_of :: "view \<Rightarrow> pool \<Rightarrow> registration_state" where
  "registration_of v p = (case v of Root \<Rightarrow> pl_root p
     | Scoped c _ \<Rightarrow> (case map_of (pl_scoped p) (view_key c) of None \<Rightarrow> fresh_registration | Some r \<Rightarrow> r))"

definition set_registration :: "view \<Rightarrow> registration_state \<Rightarrow> pool \<Rightarrow> pool" where
  "set_registration v r p = (case v of Root \<Rightarrow> p\<lparr>pl_root := r\<rparr>
     | Scoped c _ \<Rightarrow> p\<lparr>pl_scoped := AList.update (view_key c) r (pl_scoped p)\<rparr>)"

definition scoped :: "deployment list \<Rightarrow> pool \<Rightarrow> capacity_error + (pool \<times> view)" where
  "scoped ds p =
     (if ds = [] then Inl Configuration_Error
      else if list_ex (\<lambda>d. map_of (pl_catalog p) (dp_id d) \<noteq> Some d) ds then Inl Configuration_Error
      else let c = dict_from (map (\<lambda>d. (dp_id d, d)) ds);
               v = Scoped c (map (\<lambda>sc. (sc, the (map_of (pl_limits p) sc))) (uniq (map dp_scope ds))) in
        Inr (set_registration v (registration_of v p) p, v))"

definition view_validate :: "view \<Rightarrow> deployment list \<Rightarrow> pool \<Rightarrow> bool" where
  "view_validate v ds p \<longleftrightarrow> list_all (\<lambda>d. map_of (catalog_of v p) (dp_id d) = Some d) ds"

end
