(* ===== verification/Capacity_Operations.thy ===== *)
theory Capacity_Operations
  imports Capacity_Pool
begin

text \<open>
  The operations of the capacity pool: the registration of the catalog with its rollback, the
  choice among deployments, acquiring, renewing and releasing a lease, and the health reports.
  An operation that loops returns \<open>None\<close> when the given number of rounds does not suffice.
\<close>

section \<open>Credentials\<close>

definition descriptor_ok :: "string \<Rightarrow> string \<Rightarrow> bool" where
  "descriptor_ok secret_ref fingerprint \<longleftrightarrow> secret_ref \<noteq> [] \<and> secret_ref = py_strip secret_ref
     \<and> length fingerprint = 64 \<and> list_all (\<lambda>c. c \<in> set ''0123456789abcdef'') fingerprint"

fun credential_registry :: "(string \<times> string) list \<Rightarrow> (string \<times> string) list \<Rightarrow> (string \<times> string) list option" where
  "credential_registry [] by_ref = Some by_ref"
| "credential_registry ((ref, fp) # ds) by_ref =
     (if map_of by_ref ref \<noteq> None \<and> map_of by_ref ref \<noteq> Some fp then None
      else credential_registry ds (AList.update ref fp by_ref))"

text \<open>A fingerprint goes into the cache before its descriptor is checked.\<close>

fun resolve_refs ::
  "outside \<Rightarrow> string list \<Rightarrow> (string \<times> string) list \<Rightarrow> pool \<Rightarrow> pool \<times> (capacity_error + (string \<times> string) list)" where
  "resolve_refs orc [] found p = (p, Inr found)"
| "resolve_refs orc (ref # refs) found p =
     (if map_of (pl_fingerprints p) ref \<noteq> None then resolve_refs orc refs found p
      else let p1 = p\<lparr>pl_resolves := Suc (pl_resolves p)\<rparr> in
        case or_resolve orc (pl_resolves p) ref of
          Resolve_Cancelled \<Rightarrow> (p1, Inl Cancelled_Error)
        | Resolve_Failed \<Rightarrow> (p1, Inl Configuration_Error)
        | Resolved fp \<Rightarrow>
            let p2 = p1\<lparr>pl_fingerprints := AList.update ref fp (pl_fingerprints p1)\<rparr> in
            if descriptor_ok ref fp then resolve_refs orc refs (found @ [(ref, fp)]) p2
            else (p2, Inl Configuration_Error))"

definition resolved_credentials ::
  "outside \<Rightarrow> (string \<times> string) list option \<Rightarrow> deployment list \<Rightarrow> pool \<Rightarrow> pool \<times> (capacity_error + (string \<times> string) list)" where
  "resolved_credentials orc creds ds p = (case creds of
      Some c \<Rightarrow> (p, Inr c)
    | None \<Rightarrow>
        let refs = uniq (map dp_secret ds);
            cached = [(r, the (map_of (pl_fingerprints p) r)). r \<leftarrow> refs, map_of (pl_fingerprints p) r \<noteq> None] in
        if list_ex (\<lambda>(r, fp). \<not> descriptor_ok r fp) cached then (p, Inl Configuration_Error)
        else (case resolve_refs orc refs cached p of
            (p1, Inl e) \<Rightarrow> (p1, Inl e)
          | (p1, Inr found) \<Rightarrow>
              (p1, case credential_registry found [] of None \<Rightarrow> Inl Configuration_Error | Some c \<Rightarrow> Inr c)))"

section \<open>Registration\<close>

fun pair_fingerprints ::
  "(string \<times> string) list \<Rightarrow> deployment list \<Rightarrow> (string \<times> string) list \<Rightarrow> (deployment \<times> string) list option" where
  "pair_fingerprints creds [] scopes = Some []"
| "pair_fingerprints creds (d # ds) scopes = (case map_of creds (dp_secret d) of
      None \<Rightarrow> None
    | Some fp \<Rightarrow>
        if map_of scopes fp \<noteq> None \<and> map_of scopes fp \<noteq> Some (dp_scope d) then None
        else map_option (\<lambda>rest. (d, fp) # rest) (pair_fingerprints creds ds (AList.update fp (dp_scope d) scopes)))"

text \<open>The answer of a registration script, and whether the call was cancelled meanwhile.\<close>

definition registration_eval ::
  "outside \<Rightarrow> redis_request \<Rightarrow> pool \<Rightarrow> pool \<times> (capacity_error + redis_data \<times> bool)" where
  "registration_eval orc q p = (case redis_eval orc q p of
      (p1, Answered d) \<Rightarrow> (p1, Inr (d, False))
    | (p1, Answered_Late d) \<Rightarrow> (p1, Inr (d, True))
    | (p1, Not_Answered) \<Rightarrow> (p1, Inl Backend_Error)
    | (p1, Call_Cancelled) \<Rightarrow> (p1, Inl Cancelled_Error))"

definition max_owner_records :: int where "max_owner_records = 4096"

definition claim_outcome :: "redis_data \<Rightarrow> capacity_error + bool" where
  "claim_outcome d = (case integer_result d 3 of
      Some [accepted, created, owner_count] \<Rightarrow>
        if \<not> (0 \<le> owner_count \<and> owner_count \<le> max_owner_records) then Inl Backend_Error
        else if accepted \<noteq> 1 then Inl Configuration_Error
        else if created \<noteq> 0 \<and> created \<noteq> 1 then Inl Backend_Error else Inr (created = 1)
    | _ \<Rightarrow> Inl Backend_Error)"

fun claim_fingerprints ::
  "outside \<Rightarrow> pool_settings \<Rightarrow> (deployment \<times> string) list \<Rightarrow> string list \<Rightarrow> pool
     \<Rightarrow> pool \<times> string list \<times> capacity_error option" where
  "claim_fingerprints orc ps [] claimed p = (p, claimed, None)"
| "claim_fingerprints orc ps ((d, fp) # rest) claimed p =
     (case registration_eval orc (Claim_Script fp (ps_owner ps) (dp_scope d) (ps_metadata_ms ps)) p of
        (p1, Inl e) \<Rightarrow> (p1, claimed, Some e)
      | (p1, Inr (r, late)) \<Rightarrow>
          (case claim_outcome r of
             Inl e \<Rightarrow> (p1, claimed, Some e)
           | Inr created \<Rightarrow>
               let claimed1 = (if created then claimed @ [fp] else claimed) in
               if late then (p1, claimed1, Some Cancelled_Error)
               else claim_fingerprints orc ps rest claimed1 p1))"

definition policy_outcome :: "redis_data \<Rightarrow> capacity_error + bool" where
  "policy_outcome d = (case integer_result d 5 of
      Some [_, _, _, created, owner_count] \<Rightarrow>
        if (created \<noteq> 0 \<and> created \<noteq> 1) \<or> \<not> (0 \<le> owner_count \<and> owner_count \<le> max_owner_records)
        then Inl Backend_Error else Inr (created = 1)
    | _ \<Rightarrow> Inl Backend_Error)"

definition zero_or :: "int option \<Rightarrow> int" where
  "zero_or v = (case v of None \<Rightarrow> 0 | Some i \<Rightarrow> i)"

fun register_policies ::
  "outside \<Rightarrow> pool_settings \<Rightarrow> limits \<Rightarrow> string list \<Rightarrow> pool \<Rightarrow> pool \<times> string list \<times> capacity_error option" where
  "register_policies orc ps [] made p = (p, made, None)"
| "register_policies orc ps ((sc, l) # rest) made p =
     (case registration_eval orc (Register_Script sc (ps_owner ps) (sl_base l) (zero_or (sl_rpm l)) (zero_or (sl_tpm l))
             (ps_metadata_ms ps)) p of
        (p1, Inl e) \<Rightarrow> (p1, made, Some e)
      | (p1, Inr (r, late)) \<Rightarrow>
          (case policy_outcome r of
             Inl e \<Rightarrow> (p1, made, Some e)
           | Inr created \<Rightarrow>
               let made1 = (if created then made @ [sc] else made) in
               if late then (p1, made1, Some Cancelled_Error) else register_policies orc ps rest made1 p1))"

definition rollback_registration :: "outside \<Rightarrow> uuid \<Rightarrow> string list \<Rightarrow> string list \<Rightarrow> pool \<Rightarrow> pool" where
  "rollback_registration orc w fps scs p =
     fold (\<lambda>q p. fst (redis_eval orc q p))
       (map (\<lambda>fp. Rollback_Claim_Script fp w) (rev fps) @ map (\<lambda>sc. Rollback_Scope_Script sc w) (rev scs)) p"

definition registration_deadline :: "pool_settings \<Rightarrow> pyfloat \<Rightarrow> pyfloat" where
  "registration_deadline ps started =
     (let ttl = of_int (ps_metadata_ms ps) / 1000 in started + max 0 (ttl - max (1 / 1000) (ttl / 10)))"

definition register_metadata ::
  "outside \<Rightarrow> pool_settings \<Rightarrow> (string \<times> string) list option \<Rightarrow> catalog \<Rightarrow> limits \<Rightarrow> bool \<Rightarrow> pool
     \<Rightarrow> pool \<times> (capacity_error + pyfloat)" where
  "register_metadata orc ps creds c l prior p0 =
     (case clock_read orc p0 of
        (p1, Inl e) \<Rightarrow> (p1, Inl e)
      | (p1, Inr started) \<Rightarrow>
          (case resolved_credentials orc creds (map snd c) p1 of
             (p2, Inl e) \<Rightarrow> (p2, Inl e)
           | (p2, Inr found) \<Rightarrow>
               (case pair_fingerprints found (map snd c) [] of
                  None \<Rightarrow> (p2, Inl Configuration_Error)
                | Some pairs \<Rightarrow>
                    (case claim_fingerprints orc ps pairs [] p2 of
                       (p3, claimed, Some e) \<Rightarrow>
                         (rollback_registration orc (ps_owner ps) (if prior then claimed else uniq (map snd pairs))
                            (if prior then [] else map fst l) p3, Inl e)
                     | (p3, claimed, None) \<Rightarrow>
                         (case register_policies orc ps l [] p3 of
                            (p4, made, Some e) \<Rightarrow>
                              (rollback_registration orc (ps_owner ps) (if prior then claimed else uniq (map snd pairs))
                                 (if prior then made else map fst l) p4, Inl e)
                          | (p4, made, None) \<Rightarrow> (p4, Inr (registration_deadline ps started)))))))"

definition registration_current :: "bool \<Rightarrow> registration_state \<Rightarrow> pyfloat \<Rightarrow> bool" where
  "registration_current force r now \<longleftrightarrow> \<not> force \<and> rg_initialized r \<and> now < rg_next r \<and> now < rg_valid_until r"

text \<open>After a successful registration the clock is read once more, which may fail.\<close>

definition refresh_registration ::
  "outside \<Rightarrow> pool_settings \<Rightarrow> (string \<times> string) list option \<Rightarrow> view \<Rightarrow> pyfloat \<Rightarrow> pool \<Rightarrow> pool \<times> capacity_error option" where
  "refresh_registration orc ps creds v now p =
     (let r = registration_of v p; prior = (rg_initialized r \<and> now < rg_valid_until r) in
      case register_metadata orc ps creds (catalog_of v p) (limits_of v p) prior
             (set_registration v (r\<lparr>rg_refreshing := True\<rparr>) p) of
        (p1, Inl e) \<Rightarrow>
          (set_registration v (r\<lparr>rg_initialized := False, rg_refreshing := False,
             rg_valid_until := (if prior then rg_valid_until r else 0)\<rparr>) p1, Some e)
      | (p1, Inr valid_until) \<Rightarrow>
          let r1 = r\<lparr>rg_initialized := True, rg_valid_until := valid_until, rg_refreshing := False\<rparr>;
              p2 = set_registration v r1 (p1\<lparr>pl_frozen := True\<rparr>) in
          (case clock_read orc p2 of
             (p3, Inl e) \<Rightarrow> (p3, Some e)
           | (p3, Inr t) \<Rightarrow> (set_registration v (r1\<lparr>rg_next := t + ps_refresh ps\<rparr>) p3, None)))"

definition ensure_registration ::
  "outside \<Rightarrow> pool_settings \<Rightarrow> (string \<times> string) list option \<Rightarrow> bool \<Rightarrow> view \<Rightarrow> bool \<Rightarrow> pool \<Rightarrow> pool \<times> capacity_error option" where
  "ensure_registration orc ps creds has_resolver v force p =
     (if catalog_of v p = [] then (p, Some Configuration_Error)
      else if creds = None \<and> \<not> has_resolver then (p, Some Configuration_Error)
      else case clock_read orc p of
        (p1, Inl e) \<Rightarrow> (p1, Some e)
      | (p1, Inr now) \<Rightarrow>
          if registration_current force (registration_of v p1) now then (p1, None)
          else (case clock_read orc p1 of
             (p2, Inl e) \<Rightarrow> (p2, Some e)
           | (p2, Inr now2) \<Rightarrow>
               if registration_current force (registration_of v p2) now2 then (p2, None)
               else refresh_registration orc ps creds v now2 p2))"

definition require_initialized :: "outside \<Rightarrow> view \<Rightarrow> pool \<Rightarrow> pool \<times> capacity_error option" where
  "require_initialized orc v p =
     (let r = registration_of v p;
          fail = (\<lambda>p. (set_registration v (r\<lparr>rg_initialized := False\<rparr>) p, Some Configuration_Error)) in
      if \<not> rg_initialized r \<or> rg_refreshing r then fail p
      else case clock_read orc p of
        (p1, Inl e) \<Rightarrow> (p1, Some e)
      | (p1, Inr now) \<Rightarrow> if rg_valid_until r \<le> now then fail p1 else (p1, None))"

section \<open>Choosing a deployment\<close>

definition weight_of :: "(string \<times> int) list \<Rightarrow> string \<Rightarrow> int" where
  "weight_of w i = (case map_of w i of None \<Rightarrow> 0 | Some x \<Rightarrow> x)"

fun add_weights :: "deployment list \<Rightarrow> (string \<times> int) list \<Rightarrow> (string \<times> int) list" where
  "add_weights [] w = w"
| "add_weights (d # ds) w = add_weights ds (AList.update (dp_id d) (weight_of w (dp_id d) + dp_weight d) w)"

text \<open>The first in the order of ids among those of the greatest weight.\<close>

fun heaviest :: "(string \<times> int) list \<Rightarrow> deployment list \<Rightarrow> deployment option" where
  "heaviest w [] = None"
| "heaviest w (d # ds) = (case heaviest w ds of
      None \<Rightarrow> Some d
    | Some e \<Rightarrow> Some (if weight_of w (dp_id e) \<le> weight_of w (dp_id d) then d else e))"

definition weighted_choice :: "deployment list \<Rightarrow> (string \<times> int) list \<Rightarrow> (string \<times> int) list \<times> deployment option" where
  "weighted_choice ds w =
     (let ordered = sort_key dp_id ds; total = sum_list (map dp_weight ordered); w1 = add_weights ordered w in
      case heaviest w1 ordered of
        None \<Rightarrow> (w1, None)
      | Some d \<Rightarrow> (AList.update (dp_id d) (weight_of w1 (dp_id d) - total) w1, Some d))"

definition load_ratio :: "pool \<Rightarrow> deployment \<Rightarrow> rat" where
  "load_ratio p d = of_int (weight_of (pl_loads p) (dp_scope d)) / of_int (sl_base (the (map_of (pl_limits p) (dp_scope d))))"

fun choose_all :: "deployment list list \<Rightarrow> (string \<times> int) list \<Rightarrow> (string \<times> int) list \<times> deployment list" where
  "choose_all [] w = (w, [])"
| "choose_all (g # gs) w = (case weighted_choice g w of
      (w1, None) \<Rightarrow> choose_all gs w1
    | (w1, Some d) \<Rightarrow> (case choose_all gs w1 of (w2, ds) \<Rightarrow> (w2, d # ds)))"

definition ordered_candidates :: "deployment list \<Rightarrow> pool \<Rightarrow> pool \<times> deployment list" where
  "ordered_candidates ds p =
     (let groups = map (\<lambda>sc. filter (\<lambda>d. dp_scope d = sc) ds) (uniq (map dp_scope ds)) in
      case choose_all groups (pl_weights p) of
        (w, chosen) \<Rightarrow> (p\<lparr>pl_weights := w\<rparr>, sort_key (\<lambda>d. (load_ratio p d, dp_scope d, dp_id d)) chosen))"

section \<open>Leases\<close>

record lease =
  ls_id :: uuid
  ls_deployment :: string
  ls_scope :: string
  ls_expires :: millis
  ls_renew :: pyfloat

definition release_ignoring_errors :: "outside \<Rightarrow> string \<Rightarrow> uuid \<Rightarrow> pool \<Rightarrow> pool" where
  "release_ignoring_errors orc sc lid p = fst (redis_eval orc (Release_Script sc lid) p)"

definition safe_renewal_delay :: "outside \<Rightarrow> pool_settings \<Rightarrow> pyfloat \<Rightarrow> pool \<Rightarrow> pool \<times> (capacity_error + pyfloat)" where
  "safe_renewal_delay orc ps started p = (case clock_read orc p of
      (p1, Inl e) \<Rightarrow> (p1, Inl e)
    | (p1, Inr now) \<Rightarrow>
        (p1, if now - started < 0 then Inl Configuration_Error
             else Inr (max 0 (of_int (ps_lease_ms ps) / 1000 - (now - started)) / 2)))"

text \<open>\<open>datetime.fromtimestamp\<close> knows years up to 9999.\<close>

definition timestamp_ok :: "millis \<Rightarrow> bool" where
  "timestamp_ok ms \<longleftrightarrow> ms < 253402300800000"

definition set_load :: "string \<Rightarrow> int \<Rightarrow> pool \<Rightarrow> pool" where
  "set_load sc n p = p\<lparr>pl_loads := AList.update sc n (pl_loads p)\<rparr>"

text \<open>What the answer of the acquire script says: an error, no lease, or its expiry.\<close>

definition acquire_outcome :: "string \<Rightarrow> redis_data \<Rightarrow> pool \<Rightarrow> pool \<times> (capacity_error + millis option)" where
  "acquire_outcome sc d p = (case integer_result d 4 of
      Some [acquired, active, effective, final] \<Rightarrow>
        (set_load sc active p,
         if acquired = 0 then (if final = 1 \<or> final = 2 then Inr None else Inl Backend_Error)
         else if acquired \<noteq> 1 \<or> final \<le> 0 then Inl Backend_Error else Inr (Some final))
    | _ \<Rightarrow> (p, Inl Backend_Error))"

definition try_acquire ::
  "outside \<Rightarrow> pool_settings \<Rightarrow> deployment \<Rightarrow> int \<Rightarrow> pool \<Rightarrow> pool \<times> (capacity_error + lease option)" where
  "try_acquire orc ps d tokens p0 =
     (let lid = or_uuid orc (pl_ids p0); sc = dp_scope d in
      case clock_read orc (p0\<lparr>pl_ids := Suc (pl_ids p0)\<rparr>) of
        (p1, Inl e) \<Rightarrow> (p1, Inl e)
      | (p1, Inr started) \<Rightarrow>
          (case redis_eval orc (Acquire_Script sc lid (ps_lease_ms ps) tokens) p1 of
             (p2, Call_Cancelled) \<Rightarrow> (release_ignoring_errors orc sc lid p2, Inl Cancelled_Error)
           | (p2, Answered_Late _) \<Rightarrow> (release_ignoring_errors orc sc lid p2, Inl Cancelled_Error)
           | (p2, Not_Answered) \<Rightarrow> (p2, Inl Backend_Error)
           | (p2, Answered r) \<Rightarrow>
               (case acquire_outcome sc r p2 of
                  (p3, Inl e) \<Rightarrow> (release_ignoring_errors orc sc lid p3, Inl e)
                | (p3, Inr None) \<Rightarrow> (p3, Inr None)
                | (p3, Inr (Some final)) \<Rightarrow>
                    (case safe_renewal_delay orc ps started p3 of
                       (p4, Inl e) \<Rightarrow> (release_ignoring_errors orc sc lid p4, Inl e)
                     | (p4, Inr delay) \<Rightarrow>
                         (p4, if timestamp_ok final
                              then Inr (Some \<lparr>ls_id = lid, ls_deployment = dp_id d, ls_scope = sc,
                                ls_expires = final, ls_renew = delay\<rparr>)
                              else Inl Time_Range)))))"

fun try_each ::
  "outside \<Rightarrow> pool_settings \<Rightarrow> deployment list \<Rightarrow> int \<Rightarrow> pool \<Rightarrow> pool \<times> (capacity_error + lease option)" where
  "try_each orc ps [] tokens p = (p, Inr None)"
| "try_each orc ps (d # ds) tokens p = (case try_acquire orc ps d tokens p of
      (p1, Inr None) \<Rightarrow> try_each orc ps ds tokens p1
    | (p1, r) \<Rightarrow> (p1, r))"

definition loop_time :: "outside \<Rightarrow> pool \<Rightarrow> pool \<times> pyfloat" where
  "loop_time orc p = (p\<lparr>pl_loops := Suc (pl_loops p)\<rparr>, or_loop orc (pl_loops p))"

text \<open>A sleep may be cancelled.\<close>

definition sleep_cancelled :: "outside \<Rightarrow> pool \<Rightarrow> pool \<times> bool" where
  "sleep_cancelled orc p = (p\<lparr>pl_naps := Suc (pl_naps p)\<rparr>, or_sleep orc (pl_naps p))"

fun acquire_loop ::
  "nat \<Rightarrow> outside \<Rightarrow> pool_settings \<Rightarrow> deployment list \<Rightarrow> int \<Rightarrow> pyfloat \<Rightarrow> pool \<Rightarrow> pool \<times> (capacity_error + lease) option" where
  "acquire_loop 0 orc ps ds tokens deadline p = (p, None)"
| "acquire_loop (Suc n) orc ps ds tokens deadline p =
     (case ordered_candidates ds p of (p1, order) \<Rightarrow>
      (case try_each orc ps order tokens p1 of
         (p2, Inl e) \<Rightarrow> (p2, Some (Inl e))
       | (p2, Inr (Some l)) \<Rightarrow> (p2, Some (Inr l))
       | (p2, Inr None) \<Rightarrow>
           (case loop_time orc p2 of (p3, now) \<Rightarrow>
            if deadline - now \<le> 0 then (p3, Some (Inl Wait_Timeout))
            else (case sleep_cancelled orc p3 of
                (p4, True) \<Rightarrow> (p4, Some (Inl Cancelled_Error))
              | (p4, False) \<Rightarrow> acquire_loop n orc ps ds tokens deadline p4))))"

definition acquire ::
  "nat \<Rightarrow> outside \<Rightarrow> pool_settings \<Rightarrow> view \<Rightarrow> deployment list \<Rightarrow> pyfloat \<Rightarrow> int \<Rightarrow> pool
     \<Rightarrow> pool \<times> (capacity_error + lease) option" where
  "acquire n orc ps v ds timeout tokens p =
     (if ds = [] \<or> timeout < 0 \<or> tokens \<le> 0 then (p, Some (Inl Invalid_Argument))
      else case require_initialized orc v p of
        (p1, Some e) \<Rightarrow> (p1, Some (Inl e))
      | (p1, None) \<Rightarrow>
          if list_ex (\<lambda>d. map_of (catalog_of v p1) (dp_id d) \<noteq> Some d) ds then (p1, Some (Inl Configuration_Error))
          else if ps_max_waiters ps \<le> pl_waiters p1 then (p1, Some (Inl Queue_Full))
          else (case loop_time orc (p1\<lparr>pl_waiters := pl_waiters p1 + 1\<rparr>) of (p2, now) \<Rightarrow>
                (case acquire_loop n orc ps ds tokens (now + timeout) p2 of
                   (p3, r) \<Rightarrow> (p3\<lparr>pl_waiters := pl_waiters p3 - 1\<rparr>, r))))"

definition release :: "outside \<Rightarrow> lease \<Rightarrow> pool \<Rightarrow> pool \<times> (capacity_error + bool)" where
  "release orc l p = (case redis_eval orc (Release_Script (ls_scope l) (ls_id l)) p of
      (p1, Call_Cancelled) \<Rightarrow> (release_ignoring_errors orc (ls_scope l) (ls_id l) p1, Inl Cancelled_Error)
    | (p1, Answered_Late _) \<Rightarrow> (release_ignoring_errors orc (ls_scope l) (ls_id l) p1, Inl Cancelled_Error)
    | (p1, Not_Answered) \<Rightarrow> (p1, Inl Backend_Error)
    | (p1, Answered d) \<Rightarrow>
        (case single_result d of
           None \<Rightarrow> (p1, Inl Backend_Error)
         | Some removed \<Rightarrow>
             if removed \<noteq> 0 \<and> removed \<noteq> 1 then (p1, Inl Backend_Error)
             else if removed = 1
             then (set_load (ls_scope l)
                     (max 0 ((case map_of (pl_loads p1) (ls_scope l) of None \<Rightarrow> 1 | Some n \<Rightarrow> n) - 1)) p1, Inr True)
             else (p1, Inr False)))"

definition renew ::
  "outside \<Rightarrow> pool_settings \<Rightarrow> (string \<times> string) list option \<Rightarrow> bool \<Rightarrow> view \<Rightarrow> lease \<Rightarrow> pool
     \<Rightarrow> pool \<times> (capacity_error + lease option)" where
  "renew orc ps creds has_resolver v l p =
     (case map_of (catalog_of v p) (ls_deployment l) of
        None \<Rightarrow> (p, Inl Configuration_Error)
      | Some d \<Rightarrow>
          if dp_scope d \<noteq> ls_scope l then (p, Inl Configuration_Error)
          else (case ensure_registration orc ps creds has_resolver v True p of
             (p1, Some e) \<Rightarrow> (p1, Inl e)
           | (p1, None) \<Rightarrow>
               (case clock_read orc p1 of
                  (p2, Inl e) \<Rightarrow> (p2, Inl e)
                | (p2, Inr started) \<Rightarrow>
                    (case redis_eval orc (Renew_Script (ls_scope l) (ls_id l) (ps_lease_ms ps)) p2 of
                       (p3, Call_Cancelled) \<Rightarrow> (p3, Inl Cancelled_Error)
                     | (p3, Answered_Late _) \<Rightarrow> (p3, Inl Cancelled_Error)
                     | (p3, Not_Answered) \<Rightarrow> (p3, Inl Backend_Error)
                     | (p3, Answered r) \<Rightarrow>
                         (case single_result r of
                            None \<Rightarrow> (p3, Inl Backend_Error)
                          | Some expires \<Rightarrow>
                              if expires = 0 then (p3, Inr None)
                              else if expires < 0 then (p3, Inl Backend_Error)
                              else if \<not> timestamp_ok expires then (p3, Inl Time_Range)
                              else (case safe_renewal_delay orc ps started p3 of
                                  (p4, Inl e) \<Rightarrow> (p4, Inl e)
                                | (p4, Inr delay) \<Rightarrow> (p4, Inr (Some (l\<lparr>ls_expires := expires, ls_renew := delay\<rparr>)))))))))"

section \<open>Health\<close>

definition record_outcome ::
  "outside \<Rightarrow> string \<Rightarrow> int option \<Rightarrow> pyfloat \<Rightarrow> bool \<Rightarrow> pool \<Rightarrow> pool \<times> capacity_error option" where
  "record_outcome orc sc status latency succeeded p =
     (if map_of (pl_limits p) sc = None then (p, Some Invalid_Argument)
      else if (case status of None \<Rightarrow> False | Some s \<Rightarrow> s < 100 \<or> 599 < s) \<or> latency < 0
      then (p, Some Invalid_Argument)
      else case redis_eval orc (Outcome_Script sc (zero_or status) succeeded (to_millis latency)) p of
        (p1, Answered d) \<Rightarrow> (p1, if integer_result d 3 = None then Some Backend_Error else None)
      | (p1, Not_Answered) \<Rightarrow> (p1, Some Backend_Error)
      | (p1, _) \<Rightarrow> (p1, Some Cancelled_Error))"

definition effective_limit :: "outside \<Rightarrow> string \<Rightarrow> pool \<Rightarrow> pool \<times> (capacity_error + int)" where
  "effective_limit orc sc p =
     (if map_of (pl_limits p) sc = None then (p, Inl Invalid_Argument)
      else case redis_eval orc (Limit_Script sc) p of
        (p1, Answered d) \<Rightarrow>
          (p1, case single_result d of None \<Rightarrow> Inl Backend_Error
               | Some n \<Rightarrow> if n < 1 then Inl Backend_Error else Inr n)
      | (p1, Not_Answered) \<Rightarrow> (p1, Inl Backend_Error)
      | (p1, _) \<Rightarrow> (p1, Inl Cancelled_Error))"

section \<open>Scoped views\<close>

text \<open>The methods of a view with the catalog \<open>c\<close> and the limits \<open>l\<close>: those of the pool, going by
  the view's own catalog, limits and registration.\<close>

definition scoped_initialize ::
  "outside \<Rightarrow> pool_settings \<Rightarrow> (string \<times> string) list option \<Rightarrow> bool \<Rightarrow> catalog \<Rightarrow> limits \<Rightarrow> pool \<Rightarrow> pool \<times> capacity_error option" where
  "scoped_initialize orc ps creds has_resolver c l = ensure_registration orc ps creds has_resolver (Scoped c l) False"

definition scoped_acquire ::
  "nat \<Rightarrow> outside \<Rightarrow> pool_settings \<Rightarrow> catalog \<Rightarrow> limits \<Rightarrow> deployment list \<Rightarrow> pyfloat \<Rightarrow> int \<Rightarrow> pool
     \<Rightarrow> pool \<times> (capacity_error + lease) option" where
  "scoped_acquire n orc ps c l = acquire n orc ps (Scoped c l)"

definition scoped_renew ::
  "outside \<Rightarrow> pool_settings \<Rightarrow> (string \<times> string) list option \<Rightarrow> bool \<Rightarrow> catalog \<Rightarrow> limits \<Rightarrow> lease \<Rightarrow> pool
     \<Rightarrow> pool \<times> (capacity_error + lease option)" where
  "scoped_renew orc ps creds has_resolver c l = renew orc ps creds has_resolver (Scoped c l)"

definition scoped_record_outcome ::
  "outside \<Rightarrow> catalog \<Rightarrow> limits \<Rightarrow> string \<Rightarrow> int option \<Rightarrow> pyfloat \<Rightarrow> bool \<Rightarrow> pool \<Rightarrow> pool \<times> capacity_error option" where
  "scoped_record_outcome orc c l sc status latency succeeded p =
     (if map_of l sc = None then (p, Some Invalid_Argument)
      else record_outcome orc sc status latency succeeded p)"

definition scoped_effective_limit :: "outside \<Rightarrow> catalog \<Rightarrow> limits \<Rightarrow> string \<Rightarrow> pool \<Rightarrow> pool \<times> (capacity_error + int)" where
  "scoped_effective_limit orc c l sc p =
     (if map_of l sc = None then (p, Inl Invalid_Argument) else effective_limit orc sc p)"

end
