(* ===== verification/Capacity_Admission.thy ===== *)
theory Capacity_Admission
  imports Capacity_Scripts
begin

text \<open>
  What the scripts of a quota scope guarantee together, whichever workers call them and in
  whatever order: the number of leases in force, the amount of tokens handed out in a stretch of
  time, the effective limit, and the policy as the strictest of those registered.
\<close>

section \<open>Tidying keeps what is in time\<close>

lemma tidy_simps [simp]:
  "sp_leases (tidy now s) = (if sp_leases_until s < now then [] else sp_leases s)"
  "sp_leases_until (tidy now s) = sp_leases_until s"
  "sp_policy (tidy now s) = (if sp_policy_until s < now then None else sp_policy s)"
  "sp_rpm (tidy now s) = keep_bucket now (sp_rpm s)"
  "sp_tpm (tidy now s) = keep_bucket now (sp_tpm s)"
  "sp_bases (tidy now s) = (if sp_policy_until s < now then [] else sp_bases s)"
  "sp_rpms (tidy now s) = (if sp_policy_until s < now then [] else sp_rpms s)"
  "sp_tpms (tidy now s) = (if sp_policy_until s < now then [] else sp_tpms s)"
  "sp_owners (tidy now s) = (if sp_policy_until s < now then [] else sp_owners s)"
  "sp_expires (tidy now s) = (if sp_policy_until s < now then [] else sp_expires s)"
  "sp_effective (tidy now s) = (if sp_health_until s < now then None else sp_effective s)"
  "sp_policy_until (tidy now s) = sp_policy_until s"
  by (simp_all add: tidy_def tidy_policy_def tidy_health_def tidy_leases_def drop_policy_def drop_health_def)

lemma publish_policy_simps [simp]:
  "sp_leases (publish_policy now s) = sp_leases s"
  "sp_leases_until (publish_policy now s) = sp_leases_until s"
  "sp_rpm (publish_policy now s) = sp_rpm s"
  "sp_tpm (publish_policy now s) = sp_tpm s"
  by (simp_all add: publish_policy_def lower_health_def drop_policy_def drop_health_def Let_def
      split: option.split)

lemma owner_simps [simp]:
  "sp_leases (purge_owners now s) = sp_leases s"
  "sp_leases_until (purge_owners now s) = sp_leases_until s"
  "sp_rpm (purge_owners now s) = sp_rpm s"
  "sp_tpm (purge_owners now s) = sp_tpm s"
  "sp_leases (put_owner w b r m x s) = sp_leases s"
  "sp_leases_until (put_owner w b r m x s) = sp_leases_until s"
  "sp_rpm (put_owner w b r m x s) = sp_rpm s"
  "sp_tpm (put_owner w b r m x s) = sp_tpm s"
  "sp_policy (put_owner w b r m x s) = sp_policy s"
  "sp_policy (purge_owners now s) = sp_policy s"
  by (simp_all add: purge_owners_def forget_owners_def put_owner_def)

section \<open>The leases in force\<close>

definition state_ttl_ms :: millis where "state_ttl_ms = 3600000"

text \<open>
  The calls the workers make: the time to live of the state is the constant of the pool, leases
  are no longer than it, and no worker registers a base limit above \<open>B\<close>.
\<close>

fun call_fits :: "int \<Rightarrow> scope_call \<Rightarrow> bool" where
  "call_fits B (Acquire_Call _ ttl _ state_ttl) \<longleftrightarrow> state_ttl = state_ttl_ms \<and> ttl \<le> state_ttl_ms"
| "call_fits B (Renew_Call _ ttl state_ttl) \<longleftrightarrow> state_ttl = state_ttl_ms \<and> ttl \<le> state_ttl_ms"
| "call_fits B (Release_Call _ state_ttl) \<longleftrightarrow> state_ttl = state_ttl_ms"
| "call_fits B (Register_Call _ base _ _ _ _) \<longleftrightarrow> base \<le> B"
| "call_fits B _ \<longleftrightarrow> True"

text \<open>What the workers hold: the leases granted to them and not given back, with the expiry they
  were told.\<close>

fun held_after :: "scope_call \<Rightarrow> reply \<Rightarrow> (uuid \<rightharpoonup> millis) \<Rightarrow> (uuid \<rightharpoonup> millis)" where
  "held_after (Acquire_Call lease _ _ _) (Numbers [g, _, _, x]) held = (if g = 1 then held(lease \<mapsto> x) else held)"
| "held_after (Renew_Call lease _ _) (Numbers [x]) held = held(lease := if x = 0 then None else Some x)"
| "held_after (Release_Call lease _) r held = held(lease := None)"
| "held_after _ _ held = held"

inductive serving :: "int \<Rightarrow> millis \<Rightarrow> scope \<Rightarrow> (uuid \<rightharpoonup> millis) \<Rightarrow> bool" for B :: int where
  serving_start: "0 \<le> t \<Longrightarrow> serving B t empty_scope Map.empty"
| serving_call: "serving B t s held \<Longrightarrow> t \<le> now \<Longrightarrow> call_fits B c \<Longrightarrow> exec_call now c s = (s', r)
    \<Longrightarrow> serving B now s' (held_after c r held)"

definition in_force :: "millis \<Rightarrow> (uuid \<rightharpoonup> millis) \<Rightarrow> uuid set" where
  "in_force t held = {lease. \<exists>x. held lease = Some x \<and> t < x}"

subsection \<open>The bound on the base limit\<close>

definition bases_ok :: "int \<Rightarrow> scope \<Rightarrow> bool" where
  "bases_ok B s \<longleftrightarrow> (\<forall>b \<in> snd ` set (sp_bases s). b \<le> B) \<and> (\<forall>p. sp_policy s = Some p \<longrightarrow> po_base p \<le> max 0 B)"

lemma minimum_le:
  assumes "\<forall>v \<in> set vs. v \<le> B"
  shows "minimum False vs \<le> max 0 B"
proof (cases "vs = []")
  case False
  then have "Min (set vs) \<in> set vs" by simp
  with assms have "Min (set vs) \<le> B" by blast
  with False show ?thesis by (simp add: minimum_def Let_def)
qed (simp add: minimum_def)

lemma bases_ok_same [simp]:
  "bases_ok B (s\<lparr>sp_leases := a\<rparr>) = bases_ok B s"
  "bases_ok B (s\<lparr>sp_leases_until := d\<rparr>) = bases_ok B s"
  "bases_ok B (s\<lparr>sp_effective := e\<rparr>) = bases_ok B s"
  "bases_ok B (s\<lparr>sp_cooldown := e'\<rparr>) = bases_ok B s"
  "bases_ok B (s\<lparr>sp_health_until := d\<rparr>) = bases_ok B s"
  "bases_ok B (s\<lparr>sp_rpm := b\<rparr>) = bases_ok B s"
  "bases_ok B (s\<lparr>sp_tpm := b'\<rparr>) = bases_ok B s"
  "bases_ok B (s\<lparr>sp_latency := l\<rparr>) = bases_ok B s"
  "bases_ok B (s\<lparr>sp_latency_until := d\<rparr>) = bases_ok B s"
  "bases_ok B (s\<lparr>sp_policy_until := d\<rparr>) = bases_ok B s"
  "bases_ok B (s\<lparr>sp_expires := x\<rparr>) = bases_ok B s"
  by (simp_all add: bases_ok_def)

lemma bases_ok_tidy: "bases_ok B s \<Longrightarrow> bases_ok B (tidy now s)"
  by (simp add: bases_ok_def)

lemma bases_ok_forget: "bases_ok B s \<Longrightarrow> bases_ok B (forget_owners gone s)"
  by (auto simp: bases_ok_def forget_owners_def)

lemma bases_ok_purge: "bases_ok B s \<Longrightarrow> bases_ok B (purge_owners now s)"
  by (simp add: purge_owners_def bases_ok_forget)

lemma update_subset: "(k', v') \<in> set (AList.update k v d) \<Longrightarrow> (k', v') = (k, v) \<or> (k', v') \<in> set d"
  by (induction d) (auto split: if_splits)

lemma bases_ok_put: "bases_ok B s \<Longrightarrow> b \<le> B \<Longrightarrow> bases_ok B (put_owner w b r m x s)"
  using update_subset by (fastforce simp: bases_ok_def put_owner_def)

lemma bases_ok_drop [simp]: "bases_ok B (drop_policy s)"
  by (simp add: bases_ok_def drop_policy_def)

lemma bases_ok_drop_health [simp]: "bases_ok B (drop_health s) = bases_ok B s"
  by (simp add: drop_health_def)

lemma bases_ok_publish: "bases_ok B s \<Longrightarrow> bases_ok B (publish_policy now s)"
proof -
  assume ok: "bases_ok B s"
  then have "po_base (owned_policy s) \<le> max 0 B"
    by (auto simp: owned_policy_def bases_ok_def intro!: minimum_le)
  with ok have "bases_ok B (lower_health b (s\<lparr>sp_policy := Some (owned_policy s)\<rparr>))" for b
    by (auto simp: lower_health_def bases_ok_def split: option.split)
  then show ?thesis by (simp add: publish_policy_def Let_def)
qed

lemma exec_call_bases:
  assumes "bases_ok B s" and "call_fits B c" and "exec_call now c s = (s', r)"
  shows "bases_ok B s'"
  using assms bases_ok_tidy [OF assms(1), of now]
  by (cases c)
    (auto simp: acquire_script_def release_script_def renew_script_def outcome_script_def limit_script_def
        register_script_def rollback_script_def Let_def bases_ok_publish bases_ok_put bases_ok_purge bases_ok_forget
      split: option.splits if_splits)

subsection \<open>The leases the scope knows\<close>

text \<open>Every lease in force is known with its expiry and its key outlives it.\<close>

definition leases_ok :: "int \<Rightarrow> millis \<Rightarrow> scope \<Rightarrow> (uuid \<rightharpoonup> millis) \<Rightarrow> bool" where
  "leases_ok B t s held \<longleftrightarrow> dict_ok (sp_leases s) \<and> int (length (live_leases t s)) \<le> max 0 B
     \<and> (\<forall>lease x. held lease = Some x \<and> t < x \<longrightarrow>
          map_of (sp_leases s) lease = Some x \<and> x \<le> sp_leases_until s)"

lemma live_leases_mono:
  assumes "t \<le> now" and "set (sp_leases s') \<subseteq> set (sp_leases s)" and "dict_ok (sp_leases s')" and "dict_ok (sp_leases s)"
  shows "length (live_leases now s') \<le> length (live_leases t s)"
proof -
  have d: "distinct (live_leases now s')" "distinct (live_leases t s)"
    using assms(3,4) by (auto simp: live_leases_def dict_ok_def distinct_map)
  have "set (live_leases now s') \<subseteq> set (live_leases t s)"
    using assms(1,2) by (auto simp: live_leases_def)
  then have "card (set (live_leases now s')) \<le> card (set (live_leases t s))" by (rule card_mono [rotated]) simp
  then show ?thesis using d by (simp add: distinct_card)
qed

lemma filter_lease:
  "dict_ok d \<Longrightarrow> map_of (filter (\<lambda>(_, x). P x) d) k = (case map_of d k of None \<Rightarrow> None | Some x \<Rightarrow> if P x then Some x else None)"
  by (induction d) (fastforce simp: dict_ok_def image_iff split: option.splits dest: map_of_SomeD)+

text \<open>A step that keeps the leases, or drops only expired ones.\<close>

lemma leases_ok_keep:
  assumes ok: "leases_ok B t s held" and "t \<le> now" and "dict_ok (sp_leases s')"
    and sub: "set (sp_leases s') \<subseteq> set (sp_leases s)"
    and held: "\<And>lease x. held' lease = Some x \<Longrightarrow> now < x \<Longrightarrow> map_of (sp_leases s') lease = Some x \<and> x \<le> sp_leases_until s'"
  shows "leases_ok B now s' held'"
  using assms live_leases_mono [OF assms(2) sub assms(3)] unfolding leases_ok_def by fastforce

lemma leases_ok_time:
  assumes "leases_ok B t s held" and "t \<le> now" and "sp_leases s' = sp_leases (tidy now s)"
    and "sp_leases_until s' = sp_leases_until s"
  shows "leases_ok B now s' held"
proof (rule leases_ok_keep [OF assms(1,2)])
  show "dict_ok (sp_leases s')" using assms(1,3) by (simp add: leases_ok_def)
  show "set (sp_leases s') \<subseteq> set (sp_leases s)" using assms(3) by simp
  show "map_of (sp_leases s') lease = Some x \<and> x \<le> sp_leases_until s'" if "held lease = Some x" "now < x" for lease x
    using that assms unfolding leases_ok_def by fastforce
qed

text \<open>What an acquisition does to the leases.\<close>

lemma acquire_result:
  assumes "acquire_script now lease ttl cost state_ttl s = (s', r)"
  obtains (error) "r = Script_Error" "s' = tidy now s"
  | (refused) a e why where "r = Numbers [0, a, e, why]" "sp_leases s' = live_leases now (tidy now s)"
      "sp_leases_until s' = sp_leases_until (tidy now s)" "sp_tpm s' = sp_tpm (tidy now s)" "sp_rpm s' = sp_rpm (tidy now s)"
  | (granted) p e where "sp_policy (tidy now s) = Some p" "e = clamp_limit (po_base p) (sp_effective (tidy now s))"
      "int (length (live_leases now (tidy now s))) < e" "acquire_checks ttl cost state_ttl p"
      "r = Numbers [1, int (length (live_leases now (tidy now s))) + 1, e, now + ttl]"
      "sp_leases s' = AList.update lease (now + ttl) (live_leases now (tidy now s))"
      "sp_leases_until s' = now + state_ttl" "sp_policy s' = Some p" "sp_effective s' = Some e"
      "can_pay now (po_tpm p) cost (sp_tpm (tidy now s))" "can_pay now (po_rpm p) 1 (sp_rpm (tidy now s))"
      "sp_tpm s' = spend now (po_tpm p) cost (sp_tpm (tidy now s))"
      "sp_rpm s' = spend now (po_rpm p) 1 (sp_rpm (tidy now s))"
proof (cases "sp_policy (tidy now s)")
  case None
  then show ?thesis using assms error by (auto simp: acquire_script_def Let_def)
next
  case (Some p)
  show ?thesis
    using assms Some unfolding acquire_script_def Let_def
    by (auto split: if_splits simp del: tidy_simps intro: error refused granted)
qed

lemma clamp_limit_le: "1 \<le> base \<Longrightarrow> 1 \<le> clamp_limit base h \<and> clamp_limit base h \<le> base"
  by (simp add: clamp_limit_def)

lemma live_leases_simps [simp]:
  "sp_leases s' = live_leases now s \<Longrightarrow> live_leases now s' = live_leases now s"
  by (simp add: live_leases_def)

lemma dict_ok_live: "dict_ok (sp_leases s) \<Longrightarrow> dict_ok (live_leases now s)"
  by (simp add: live_leases_def)

lemma live_subset: "set (live_leases now s) \<subseteq> set (sp_leases s)"
  by (auto simp: live_leases_def)

lemma live_lookup:
  "dict_ok (sp_leases s) \<Longrightarrow> map_of (sp_leases s) lease = Some x \<Longrightarrow> now < x \<Longrightarrow> map_of (live_leases now s) lease = Some x"
  by (simp add: live_leases_def filter_lease [where P = "\<lambda>x. now < x"])

lemma leases_ok_tidy:
  assumes "leases_ok B t s held" and "t \<le> now"
  shows "leases_ok B now (tidy now s) held"
  by (rule leases_ok_time [OF assms]) simp_all

lemma length_update_le: "length (AList.update k v d) \<le> Suc (length d)"
  by (induction d) auto

lemma length_update_old: "map_of d k \<noteq> None \<Longrightarrow> length (AList.update k v d) = length d"
  by (induction d) auto

lemma acquire_leases_ok:
  assumes ok: "leases_ok B t s held" and "bases_ok B s" and "t \<le> now" and "ttl \<le> state_ttl"
    and run: "acquire_script now lease ttl cost state_ttl s = (s', r)"
    and until: "sp_leases_until s \<le> now + state_ttl"
  shows "leases_ok B now s' (held_after (Acquire_Call lease ttl cost state_ttl) r held)"
proof -
  have tidied: "leases_ok B now (tidy now s) held" by (rule leases_ok_tidy [OF ok \<open>t \<le> now\<close>])
  then have d: "dict_ok (sp_leases (tidy now s))" by (simp add: leases_ok_def)
  from run show ?thesis
  proof (cases rule: acquire_result)
    case error
    with tidied show ?thesis by simp
  next
    case (refused a e why)
    have "leases_ok B now s' held"
    proof (rule leases_ok_keep [OF tidied order_refl])
      show "dict_ok (sp_leases s')" "set (sp_leases s') \<subseteq> set (sp_leases (tidy now s))"
        using d refused(2) by (simp_all only: dict_ok_live live_subset)
      show "map_of (sp_leases s') l = Some x \<and> x \<le> sp_leases_until s'" if "held l = Some x" "now < x" for l x
        using tidied that refused(2,3) live_lookup [OF d] by (fastforce simp: leases_ok_def)
    qed
    with refused(1) show ?thesis by simp
  next
    case (granted p e)
    let ?live = "live_leases now (tidy now s)"
    have "1 \<le> po_base p" using granted(4) by (simp add: acquire_checks_def)
    moreover have "po_base p \<le> max 0 B"
      using bases_ok_tidy [OF assms(2), of now] granted(1) by (simp add: bases_ok_def)
    ultimately have e: "e \<le> max 0 B" using clamp_limit_le granted(2) order_trans by blast
    have "length (live_leases now s') \<le> length (sp_leases s')" by (simp add: live_leases_def)
    also have "\<dots> \<le> Suc (length ?live)" unfolding granted(6) by (rule length_update_le)
    finally have "int (length (live_leases now s')) \<le> max 0 B" using granted(3) e by linarith
    moreover have "dict_ok (sp_leases s')" unfolding granted(6) using d by (simp add: dict_ok_live)
    moreover have "map_of (sp_leases s') l = Some x \<and> x \<le> sp_leases_until s'"
      if "(held(lease \<mapsto> now + ttl)) l = Some x" "now < x" for l x
      using that tidied until \<open>ttl \<le> state_ttl\<close> live_lookup [OF d] unfolding granted(6,7)
      by (fastforce simp: leases_ok_def split: if_splits)
    moreover have "held_after (Acquire_Call lease ttl cost state_ttl) r held = held(lease \<mapsto> now + ttl)"
      by (simp add: granted(5))
    ultimately show ?thesis unfolding leases_ok_def by metis
  qed
qed

lemma renew_leases_ok:
  assumes ok: "leases_ok B t s held" and "t \<le> now" and "ttl \<le> state_ttl"
    and run: "renew_script now lease ttl state_ttl s = (s', r)"
    and until: "sp_leases_until s \<le> now + state_ttl"
  shows "leases_ok B now s' (held_after (Renew_Call lease ttl state_ttl) r held)"
proof -
  have tidied: "leases_ok B now (tidy now s) held" by (rule leases_ok_tidy [OF ok \<open>t \<le> now\<close>])
  then have d: "dict_ok (sp_leases (tidy now s))" by (simp add: leases_ok_def)
  let ?live = "live_leases now (tidy now s)"
  show ?thesis
  proof (cases "map_of ?live lease")
    case None
    then have s': "sp_leases s' = ?live" "sp_leases_until s' = sp_leases_until (tidy now s)" "r = Numbers [0]"
      using run by (auto simp: renew_script_def Let_def)
    have "leases_ok B now s' (held(lease := None))"
    proof (rule leases_ok_keep [OF tidied order_refl])
      show "dict_ok (sp_leases s')" "set (sp_leases s') \<subseteq> set (sp_leases (tidy now s))"
        using d s'(1) by (simp_all only: dict_ok_live live_subset)
      show "map_of (sp_leases s') l = Some x \<and> x \<le> sp_leases_until s'"
        if "(held(lease := None)) l = Some x" "now < x" for l x
        using tidied that s'(1,2) live_lookup [OF d] by (fastforce simp: leases_ok_def split: if_splits)
    qed
    then show ?thesis using s'(3) by simp
  next
    case (Some x0)
    then have s': "sp_leases s' = AList.update lease (now + ttl) ?live" "sp_leases_until s' = now + state_ttl"
        "r = Numbers [now + ttl]"
      using run by (auto simp: renew_script_def Let_def)
    have "length (live_leases now s') \<le> length (sp_leases s')" by (simp add: live_leases_def)
    also have "\<dots> = length ?live" unfolding s'(1) by (rule length_update_old) (simp add: Some)
    finally have "int (length (live_leases now s')) \<le> max 0 B" using tidied by (simp add: leases_ok_def)
    moreover have "dict_ok (sp_leases s')" unfolding s'(1) using d by (simp add: dict_ok_live)
    moreover have "map_of (sp_leases s') l = Some x \<and> x \<le> sp_leases_until s'"
      if "held_after (Renew_Call lease ttl state_ttl) r held l = Some x" "now < x" for l x
      using that tidied until \<open>ttl \<le> state_ttl\<close> live_lookup [OF d] unfolding s'
      by (fastforce simp: leases_ok_def split: if_splits)
    ultimately show ?thesis unfolding leases_ok_def by blast
  qed
qed

lemma delete_subset: "set (AList.delete k d) \<subseteq> set d"
  by (induction d) auto

lemma release_leases_ok:
  assumes ok: "leases_ok B t s held" and "t \<le> now"
    and run: "release_script now lease state_ttl s = (s', r)"
    and until: "sp_leases_until s \<le> now + state_ttl"
  shows "leases_ok B now s' (held_after (Release_Call lease state_ttl) r held)"
proof -
  have tidied: "leases_ok B now (tidy now s) held" by (rule leases_ok_tidy [OF ok \<open>t \<le> now\<close>])
  then have d: "dict_ok (sp_leases (tidy now s))" by (simp add: leases_ok_def)
  have s': "sp_leases s' = AList.delete lease (sp_leases (tidy now s))"
      "sp_leases s' \<noteq> [] \<Longrightarrow> sp_leases_until s' = now + state_ttl"
    using run by (auto simp: release_script_def Let_def)
  have "leases_ok B now s' (held(lease := None))"
  proof (rule leases_ok_keep [OF tidied order_refl])
    show "dict_ok (sp_leases s')" "set (sp_leases s') \<subseteq> set (sp_leases (tidy now s))"
      using d s'(1) delete_subset by (simp_all del: tidy_simps)
    show "map_of (sp_leases s') l = Some x \<and> x \<le> sp_leases_until s'"
      if held: "(held(lease := None)) l = Some x" "now < x" for l x
    proof -
      have "map_of (sp_leases s') l = Some x" "x \<le> sp_leases_until (tidy now s)"
        using tidied held s'(1) by (auto simp: leases_ok_def split: if_splits)
      moreover from this have "sp_leases s' \<noteq> []" by auto
      ultimately show ?thesis using s'(2) until by simp
    qed
  qed
  then show ?thesis by simp
qed

lemma other_leases_ok:
  assumes ok: "leases_ok B t s held" and "t \<le> now" and run: "exec_call now c s = (s', r)"
    and other: "\<nexists>l a b d. c = Acquire_Call l a b d" "\<nexists>l a b. c = Renew_Call l a b" "\<nexists>l a. c = Release_Call l a"
  shows "leases_ok B now s' (held_after c r held)" and "sp_leases_until s' = sp_leases_until s"
proof -
  have "sp_leases s' = sp_leases (tidy now s)" "sp_leases_until s' = sp_leases_until s"
    using run other
    by (cases c; auto simp: outcome_script_def limit_script_def register_script_def rollback_script_def
        forget_owners_def drop_health_def drop_policy_def Let_def split: option.splits if_splits)+
  moreover have "held_after c r held = held" using other by (cases c) auto
  ultimately show "leases_ok B now s' (held_after c r held)" "sp_leases_until s' = sp_leases_until s"
    using leases_ok_time [OF ok \<open>t \<le> now\<close>] by simp_all
qed

lemma leases_until_fits:
  assumes "sp_leases_until s \<le> now + state_ttl_ms" and "call_fits B c" and "exec_call now c s = (s', r)"
  shows "sp_leases_until s' \<le> now + state_ttl_ms"
  using assms other_leases_ok(2) [OF _ order_refl assms(3), of 0]
  by (cases c)
    (auto simp: acquire_script_def release_script_def renew_script_def outcome_script_def limit_script_def
      register_script_def rollback_script_def forget_owners_def drop_health_def drop_policy_def Let_def
      split: option.splits if_splits)

lemma serving_ok:
  "serving B t s held \<Longrightarrow> leases_ok B t s held \<and> bases_ok B s \<and> sp_leases_until s \<le> t + state_ttl_ms"
proof (induction rule: serving.induct)
  case (serving_start t)
  then show ?case
    by (simp add: leases_ok_def live_leases_def bases_ok_def empty_scope_def state_ttl_ms_def)
next
  case (serving_call t s held now c s' r)
  then have until: "sp_leases_until s \<le> now + state_ttl_ms" by simp
  have "leases_ok B now s' (held_after c r held)"
  proof (cases "(\<exists>l a b d. c = Acquire_Call l a b d) \<or> (\<exists>l a b. c = Renew_Call l a b) \<or> (\<exists>l a. c = Release_Call l a)")
    case False
    then show ?thesis using other_leases_ok(1) serving_call by blast
  next
    case True
    then show ?thesis
      using serving_call until acquire_leases_ok renew_leases_ok release_leases_ok by fastforce
  qed
  then show ?case
    using serving_call exec_call_bases leases_until_fits [OF until] by blast
qed

lemma in_force_known:
  assumes "leases_ok B t s held"
  shows "finite (in_force t held) \<and> card (in_force t held) \<le> length (live_leases t s)"
proof -
  have "in_force t held \<subseteq> fst ` set (live_leases t s)"
    using assms by (fastforce simp: in_force_def leases_ok_def live_leases_def image_iff dest: map_of_SomeD)
  then have "finite (in_force t held)" "card (in_force t held) \<le> card (fst ` set (live_leases t s))"
    by (auto intro: finite_subset card_mono)
  moreover have "card (fst ` set (live_leases t s)) \<le> length (live_leases t s)"
    using card_image_le [of "set (live_leases t s)" fst] card_length [of "live_leases t s"] by simp
  ultimately show ?thesis by simp
qed

text \<open>
  C18. However many workers call the scripts and in whatever order, with the clock of the server
  running forward, when the leases are asked for no longer than the one hour the keys of a scope live
  and no worker registers a base limit above \<open>B\<close> (see \<open>call_fits\<close>), the leases granted and neither given back nor expired are never more than the
  largest base limit a worker may register; and a lease is granted only while the leases in force
  are fewer than the effective limit, which lies between one and the base limit in force.
\<close>

theorem capacity_is_never_exceeded:
  assumes "serving B t s held"
  shows "int (card (in_force t held)) \<le> max 0 B
    \<and> (\<forall>now lease ttl cost state_ttl s' a e x. t \<le> now \<longrightarrow>
         acquire_script now lease ttl cost state_ttl s = (s', Numbers [1, a, e, x]) \<longrightarrow>
         int (card (in_force now held)) < e \<and> 1 \<le> e \<and> (\<exists>p. sp_policy s' = Some p \<and> e \<le> po_base p))"
proof (intro conjI allI impI)
  have ok: "leases_ok B t s held" using serving_ok [OF assms] by simp
  show "int (card (in_force t held)) \<le> max 0 B"
    using in_force_known [OF ok] ok by (simp add: leases_ok_def)
  fix now lease ttl cost state_ttl s' a e x
  assume "t \<le> now" and run: "acquire_script now lease ttl cost state_ttl s = (s', Numbers [1, a, e, x])"
  have "card (in_force now held) \<le> length (live_leases now (tidy now s))"
    using in_force_known [OF leases_ok_tidy [OF ok \<open>t \<le> now\<close>]] by simp
  moreover from run obtain p where "sp_policy s' = Some p" "acquire_checks ttl cost state_ttl p"
      "e = clamp_limit (po_base p) (sp_effective (tidy now s))"
      "int (length (live_leases now (tidy now s))) < e"
    by (cases rule: acquire_result) auto
  ultimately have "int (card (in_force now held)) < e \<and> 1 \<le> e \<and> (\<exists>p. sp_policy s' = Some p \<and> e \<le> po_base p)"
    using clamp_limit_le by (auto simp: acquire_checks_def)
  then show "int (card (in_force now held)) < e" "1 \<le> e" "\<exists>p. sp_policy s' = Some p \<and> e \<le> po_base p"
    by blast+
qed

text \<open>A scope of base limit 2 with two leases in force.\<close>

definition sample_scope :: scope where
  "sample_scope = fst (acquire_script 20 12 30000 5 state_ttl_ms (fst (acquire_script 10 11 30000 5 state_ttl_ms
     (fst (register_script 1 7 2 0 1000 3600000 4096 empty_scope)))))"

definition sample_held :: "uuid \<rightharpoonup> millis" where
  "sample_held = [11 \<mapsto> 30010, 12 \<mapsto> 30020]"

lemma serving_exec:
  "serving B t s held \<Longrightarrow> t \<le> now \<Longrightarrow> call_fits B c \<Longrightarrow> snd (exec_call now c s) = r
    \<Longrightarrow> serving B now (fst (exec_call now c s)) (held_after c r held)"
  by (rule serving_call) (auto intro: prod_eqI)

lemma sample_serving: "serving 2 20 sample_scope sample_held"
proof -
  let ?s1 = "fst (register_script 1 7 2 0 1000 3600000 4096 empty_scope)"
  let ?s2 = "fst (acquire_script 10 11 30000 5 state_ttl_ms ?s1)"
  have "serving 2 0 empty_scope Map.empty" by (rule serving_start) simp
  from serving_exec [OF this, of 1 "Register_Call 7 2 0 1000 3600000 4096", OF _ _ refl]
  have s1: "serving 2 1 ?s1 Map.empty" by simp
  have "snd (acquire_script 10 11 30000 5 state_ttl_ms ?s1) = Numbers [1, 1, 2, 30010]" by code_simp
  with serving_exec [OF s1, of 10 "Acquire_Call 11 30000 5 state_ttl_ms"]
  have s2: "serving 2 10 ?s2 [11 \<mapsto> 30010]" by (simp add: state_ttl_ms_def)
  have "snd (acquire_script 20 12 30000 5 state_ttl_ms ?s2) = Numbers [1, 2, 2, 30020]" by code_simp
  with serving_exec [OF s2, of 20 "Acquire_Call 12 30000 5 state_ttl_ms"]
  show ?thesis by (simp add: state_ttl_ms_def sample_scope_def sample_held_def)
qed

theorem capacity_is_never_exceeded_witness:
  "card (in_force 20 sample_held) \<le> 2"
  using capacity_is_never_exceeded [OF sample_serving] by simp

section \<open>The rate\<close>

text \<open>
  The level a bucket would have under the limit \<open>L\<close> is the potential of the argument: it grows by
  at most \<open>L\<close> a minute, a payment lowers it by its cost, and it stays above minus the tolerance.
\<close>

definition tolerance :: rat where "tolerance = 1 / 1000000000"

definition bucket_ok :: "bucket option \<Rightarrow> bool" where
  "bucket_ok b \<longleftrightarrow> (case b of None \<Rightarrow> True
     | Some k \<Rightarrow> - tolerance \<le> bk_tokens k \<and> bk_until k = bk_last k + 120000)"

lemma bucket_level_le: "bucket_level now L b \<le> of_int L"
  by (simp add: bucket_level_def split: option.split)

lemma refill_mono: "l \<le> L \<Longrightarrow> refill now l k \<le> refill now L k"
  by (simp add: refill_def divide_right_mono mult_left_mono)

lemma refill_nonneg: "0 \<le> L \<Longrightarrow> 0 \<le> refill now L k"
  by (simp add: refill_def)

lemma refill_later:
  assumes "t \<le> now" and "0 \<le> L"
  shows "refill now L k \<le> refill t L k + of_int (now - t) * of_int L / 60000"
proof -
  have "(of_int (max 0 (now - bk_last k)) :: rat) \<le> of_int (max 0 (t - bk_last k)) + of_int (now - t)"
    using assms(1) by (simp flip: of_int_add)
  then have "of_int (max 0 (now - bk_last k)) * (of_int L :: rat)
      \<le> (of_int (max 0 (t - bk_last k)) + of_int (now - t)) * of_int L"
    using assms(2) by (intro mult_right_mono) simp_all
  then show ?thesis by (simp add: refill_def distrib_right add_divide_distrib [symmetric] divide_right_mono)
qed

lemma refill_expired:
  assumes "bk_last k + 120000 < now" and "0 \<le> L"
  shows "2 * of_int L \<le> refill now L k"
proof -
  have "(120000 :: rat) \<le> of_int (max 0 (now - bk_last k))" using assms(1) by linarith
  then have "120000 * (of_int L :: rat) \<le> of_int (max 0 (now - bk_last k)) * of_int L"
    using assms(2) by (intro mult_right_mono) simp_all
  then show ?thesis by (simp add: refill_def field_simps)
qed

lemma bucket_level_mono: "l \<le> L \<Longrightarrow> bucket_level now l b \<le> bucket_level now L b"
  using refill_mono [of l L now] by (auto simp: bucket_level_def min_def split: option.split intro: order_trans add_left_mono)

lemma bucket_level_refill:
  assumes "t \<le> now" and "0 \<le> L"
  shows "bucket_level now L b \<le> bucket_level t L b + of_int (now - t) * of_int L / 60000"
proof (cases b)
  case (Some k)
  have "0 \<le> of_int (now - t) * (of_int L :: rat) / 60000" using assms by simp
  then show ?thesis using refill_later [OF assms, of k] Some by (simp add: bucket_level_def min_def)
qed (use assms in \<open>simp add: bucket_level_def\<close>)

lemma bucket_level_keep:
  assumes "bucket_ok b" and "1 \<le> L"
  shows "bucket_level now L (keep_bucket now b) = bucket_level now L b"
proof (cases b)
  case (Some k)
  have "bk_until k < now \<Longrightarrow> of_int L \<le> bk_tokens k + refill now L k"
    using refill_expired [of k now L] assms Some by (simp add: bucket_ok_def tolerance_def)
  then show ?thesis using Some by (simp add: bucket_level_def keep_bucket_def min_def)
qed (simp add: keep_bucket_def)

lemma bucket_level_ge:
  assumes "bucket_ok b" and "1 \<le> L"
  shows "- tolerance \<le> bucket_level now L b"
  using assms refill_nonneg [of L now]
  by (auto simp: bucket_level_def bucket_ok_def tolerance_def split: option.splits
      intro: order_trans [OF _ add_left_mono [of 0]])

lemma bucket_ok_keep: "bucket_ok b \<Longrightarrow> bucket_ok (keep_bucket now b)"
  by (auto simp: bucket_ok_def keep_bucket_def split: option.splits)

lemma spend_level:
  assumes "0 < l" and "l \<le> L" and "can_pay now l cost b"
  shows "bucket_level now L (spend now l cost b) \<le> bucket_level now L b - of_int cost"
    and "bucket_ok (spend now l cost b)"
  using assms bucket_level_mono [OF assms(2), of now b]
  by (auto simp: spend_def bucket_level_def [of now L "Some _"] bucket_ok_def can_pay_def tolerance_def refill_def)

text \<open>One step of time, then a payment or none.\<close>

lemma level_step:
  assumes "bucket_ok b" and "1 \<le> L" and "t \<le> now"
  shows "bucket_level now L (keep_bucket now b) \<le> bucket_level t L b + of_int (now - t) * of_int L / 60000"
  using bucket_level_keep [OF assms(1,2)] bucket_level_refill [OF assms(3), of L b] assms(2) by simp

text \<open>
  A stretch of time: the grants and the tokens granted in it, while every grant finds a rate of at
  most \<open>R\<close> requests and \<open>T\<close> tokens a minute in force. The other calls may change the policy.
\<close>

definition buckets_ok :: "scope \<Rightarrow> bool" where
  "buckets_ok s \<longleftrightarrow> bucket_ok (sp_rpm s) \<and> bucket_ok (sp_tpm s)"

inductive metered :: "int \<Rightarrow> int \<Rightarrow> millis \<Rightarrow> millis \<Rightarrow> scope \<Rightarrow> int \<Rightarrow> int \<Rightarrow> bool" for R T t0 where
  metered_start: "buckets_ok s \<Longrightarrow> metered R T t0 t0 s 0 0"
| metered_grant: "metered R T t0 t s n k \<Longrightarrow> t \<le> now
    \<Longrightarrow> acquire_script now lease ttl cost state_ttl s = (s', Numbers [1, a, e, x])
    \<Longrightarrow> sp_policy s' = Some p \<Longrightarrow> 0 < po_rpm p \<Longrightarrow> po_rpm p \<le> R \<Longrightarrow> 0 < po_tpm p \<Longrightarrow> po_tpm p \<le> T
    \<Longrightarrow> metered R T t0 now s' (n + 1) (k + cost)"
| metered_other: "metered R T t0 t s n k \<Longrightarrow> t \<le> now \<Longrightarrow> exec_call now c s = (s', r)
    \<Longrightarrow> \<nexists>a e x. r = Numbers [1, a, e, x] \<Longrightarrow> metered R T t0 now s' n k"

lemma other_buckets:
  assumes "exec_call now c s = (s', r)" and "\<nexists>a e x. r = Numbers [1, a, e, x]"
  shows "sp_rpm s' = keep_bucket now (sp_rpm s) \<and> sp_tpm s' = keep_bucket now (sp_tpm s)"
proof (cases "\<exists>lease ttl cost st. c = Acquire_Call lease ttl cost st")
  case True
  then obtain lease ttl cost st where "acquire_script now lease ttl cost st s = (s', r)" using assms(1) by auto
  then show ?thesis by (cases rule: acquire_result) (use assms(2) in auto)
next
  case False
  then show ?thesis using assms(1)
    by (cases c)
      (auto simp: release_script_def renew_script_def outcome_script_def limit_script_def register_script_def
        rollback_script_def forget_owners_def drop_health_def drop_policy_def Let_def split: option.splits if_splits)
qed

lemma metered_potential:
  assumes "metered R T t0 t s n k" and "1 \<le> R" and "1 \<le> T"
  shows "t0 \<le> t \<and> buckets_ok s
    \<and> of_int n + bucket_level t R (sp_rpm s) \<le> of_int R + of_int (t - t0) * of_int R / 60000
    \<and> of_int k + bucket_level t T (sp_tpm s) \<le> of_int T + of_int (t - t0) * of_int T / 60000"
  using assms(1)
proof (induction rule: metered.induct)
  case (metered_start s)
  then show ?case using bucket_level_le by simp
next
  case (metered_grant t s n k now lease ttl cost state_ttl s' a e x p)
  then have b: "bucket_ok (sp_rpm s)" "bucket_ok (sp_tpm s)" by (simp_all add: buckets_ok_def)
  from metered_grant(3) have paid: "can_pay now (po_tpm p) cost (keep_bucket now (sp_tpm s))"
      "can_pay now (po_rpm p) 1 (keep_bucket now (sp_rpm s))"
      "sp_tpm s' = spend now (po_tpm p) cost (keep_bucket now (sp_tpm s))"
      "sp_rpm s' = spend now (po_rpm p) 1 (keep_bucket now (sp_rpm s))"
    using metered_grant(4) by (cases rule: acquire_result; simp)+
  note r = spend_level [OF metered_grant(5,6) paid(2)] level_step [OF b(1) \<open>1 \<le> R\<close> metered_grant(2)]
    and k = spend_level [OF metered_grant(7,8) paid(1)] level_step [OF b(2) \<open>1 \<le> T\<close> metered_grant(2)]
  have time: "of_int (now - t0) * (of_int L :: rat) / 60000
      = of_int (t - t0) * of_int L / 60000 + of_int (now - t) * of_int L / 60000" for L
    by (simp add: field_simps)
  show ?case
    using metered_grant.IH r k metered_grant(2) unfolding paid(3,4) buckets_ok_def time [of R] time [of T] by auto
next
  case (metered_other t s n k now c s' r)
  then have b: "bucket_ok (sp_rpm s)" "bucket_ok (sp_tpm s)" by (simp_all add: buckets_ok_def)
  have time: "of_int (now - t0) * (of_int L :: rat) / 60000
      = of_int (t - t0) * of_int L / 60000 + of_int (now - t) * of_int L / 60000" for L
    by (simp add: field_simps)
  show ?case
    using metered_other.IH level_step [OF b(1) \<open>1 \<le> R\<close> metered_other(2)] level_step [OF b(2) \<open>1 \<le> T\<close> metered_other(2)]
      other_buckets [OF metered_other(3,4)] bucket_ok_keep [OF b(1)] bucket_ok_keep [OF b(2)] metered_other(2)
    unfolding buckets_ok_def time [of R] time [of T] by auto
qed

text \<open>
  C19. Over any stretch of time in which the limits in force are at most \<open>R\<close> requests and \<open>T\<close>
  tokens a minute, the scripts grant at most one full bucket and what flows in at that rate,
  plus a billionth: however the calls are spread over the workers, whatever other calls come
  between, and also when a bucket was forgotten by the server after two idle minutes.
\<close>

theorem granted_rate_is_bounded:
  assumes "metered R T t0 t s n k" and "1 \<le> R" and "1 \<le> T"
  shows "of_int n \<le> of_int R + of_int (t - t0) * of_int R / 60000 + tolerance
    \<and> of_int k \<le> of_int T + of_int (t - t0) * of_int T / 60000 + tolerance"
  using metered_potential [OF assms] bucket_level_ge [of "sp_rpm s" R t] bucket_level_ge [of "sp_tpm s" T t] assms(2,3)
  by (auto simp: buckets_ok_def)

lemma sample_metered: "metered 60 1000 1 10
    (fst (acquire_script 10 11 30000 5 state_ttl_ms (fst (register_script 1 7 2 60 1000 3600000 4096 empty_scope)))) 1 5"
proof -
  let ?s1 = "fst (register_script 1 7 2 60 1000 3600000 4096 empty_scope)"
  have "metered 60 1000 1 1 ?s1 0 0" by (rule metered_start) code_simp
  moreover have "snd (acquire_script 10 11 30000 5 state_ttl_ms ?s1) = Numbers [1, 1, 2, 30010]"
    "sp_policy (fst (acquire_script 10 11 30000 5 state_ttl_ms ?s1)) = Some \<lparr>po_base = 2, po_rpm = 60, po_tpm = 1000\<rparr>"
    by code_simp+
  ultimately show ?thesis
    using metered_grant [of 60 1000 1 1 ?s1 0 0 10 11 30000 5 state_ttl_ms] by (simp add: prod_eq_iff)
qed

theorem granted_rate_is_bounded_witness:
  "(5 :: rat) \<le> of_int 1000 + of_int (10 - 1) * of_int 1000 / 60000 + tolerance"
  using granted_rate_is_bounded [OF sample_metered] by simp

end
