(* ===== verification/Capacity_Registry.thy ===== *)
theory Capacity_Registry
  imports Capacity_Admission
begin

text \<open>
  The policy of a scope, kept by the scripts in five keys, as the strictest of the registrations
  that count: the scripts refine a map from workers to what they registered.
\<close>

section \<open>The abstract registry\<close>

type_synonym registration = "millis \<times> scope_policy"
type_synonym registry = "uuid \<rightharpoonup> registration"

text \<open>The least of the values, where \<open>z\<close> says that zero means unlimited and does not count.\<close>

definition least :: "bool \<Rightarrow> int set \<Rightarrow> int" where
  "least z V = (let W = {v \<in> V. \<not> z \<or> v \<noteq> 0} in if W = {} then 0 else Min W)"

definition strictest :: "registry \<Rightarrow> scope_policy" where
  "strictest reg = \<lparr>po_base = least False ((\<lambda>(_, p). po_base p) ` ran reg),
     po_rpm = least True ((\<lambda>(_, p). po_rpm p) ` ran reg), po_tpm = least True ((\<lambda>(_, p). po_tpm p) ` ran reg)\<rparr>"

definition current :: "millis \<Rightarrow> registry \<Rightarrow> registry" where
  "current now reg = (\<lambda>w. case reg w of None \<Rightarrow> None | Some (x, p) \<Rightarrow> if now < x then Some (x, p) else None)"

definition spec_register :: "millis \<Rightarrow> uuid \<Rightarrow> scope_policy \<Rightarrow> millis \<Rightarrow> registry \<Rightarrow> registry" where
  "spec_register now w p ttl reg = (current now reg)(w \<mapsto> (now + ttl, p))"

section \<open>The abstraction\<close>

definition registry_of :: "scope \<Rightarrow> registry" where
  "registry_of s = (\<lambda>w. map_option (\<lambda>x. (x, \<lparr>po_base = the (map_of (sp_bases s) w),
     po_rpm = the (map_of (sp_rpms s) w), po_tpm = the (map_of (sp_tpms s) w)\<rparr>)) (map_of (sp_expires s) w))"

definition keys_agree :: "scope \<Rightarrow> bool" where
  "keys_agree s \<longleftrightarrow> dict_ok (sp_expires s) \<and> dict_ok (sp_bases s) \<and> dict_ok (sp_rpms s) \<and> dict_ok (sp_tpms s)
     \<and> distinct (sp_owners s) \<and> fst ` set (sp_bases s) = fst ` set (sp_expires s)
     \<and> fst ` set (sp_rpms s) = fst ` set (sp_expires s) \<and> fst ` set (sp_tpms s) = fst ` set (sp_expires s)
     \<and> set (sp_owners s) = fst ` set (sp_expires s)"

text \<open>Workers whose time is over may still be there; a failed registration purges them without
  writing the policy again.\<close>

definition registry_ok :: "scope \<Rightarrow> bool" where
  "registry_ok s \<longleftrightarrow> keys_agree s \<and> (\<forall>w x. map_of (sp_expires s) w = Some x \<longrightarrow> x \<le> sp_policy_until s)"

lemma minimum_least: "minimum z vs = least z (set vs)"
proof -
  have "filter (\<lambda>v. \<not> z \<or> v \<noteq> 0) vs = [] \<longleftrightarrow> {v \<in> set vs. \<not> z \<or> v \<noteq> 0} = {}"
    by (auto simp: filter_empty_conv)
  then show ?thesis by (simp only: minimum_def least_def Let_def set_filter)
qed

lemma ran_registry:
  assumes "keys_agree s"
  shows "(\<lambda>(_, p). po_base p) ` ran (registry_of s) = snd ` set (sp_bases s)"
    and "(\<lambda>(_, p). po_rpm p) ` ran (registry_of s) = snd ` set (sp_rpms s)"
    and "(\<lambda>(_, p). po_tpm p) ` ran (registry_of s) = snd ` set (sp_tpms s)"
proof -
  have vals: "f ` ran (registry_of s) = snd ` set d"
    if "dict_ok d" "fst ` set d = fst ` set (sp_expires s)"
      "\<And>w x p. registry_of s w = Some (x, p) \<Longrightarrow> f (x, p) = the (map_of d w)" for f d
  proof -
    have dom: "dom (registry_of s) = fst ` set d"
      using that(2) by (auto simp: registry_of_def dom_map_of_conv_image_fst [symmetric] split: option.splits)
    have "f ` ran (registry_of s) = (\<lambda>w. the (map_of d w)) ` dom (registry_of s)"
      using that(3) by (force simp: ran_def dom_def image_iff)
    also have "\<dots> = snd ` set d"
      unfolding dom image_image using that(1) by (intro image_cong) (auto simp: dict_ok_def)
    finally show ?thesis .
  qed
  show "(\<lambda>(_, p). po_base p) ` ran (registry_of s) = snd ` set (sp_bases s)"
    "(\<lambda>(_, p). po_rpm p) ` ran (registry_of s) = snd ` set (sp_rpms s)"
    "(\<lambda>(_, p). po_tpm p) ` ran (registry_of s) = snd ` set (sp_tpms s)"
    by (rule vals; use assms in \<open>auto simp: keys_agree_def registry_of_def split: option.splits\<close>)+
qed

lemma owned_strictest: "keys_agree s \<Longrightarrow> owned_policy s = strictest (registry_of s)"
  by (simp add: owned_policy_def strictest_def minimum_least ran_registry)

section \<open>The scripts keep it\<close>

lemma keys_agree_drop [simp]: "keys_agree (drop_policy s)" "registry_ok (drop_policy s)" "registry_ok (drop_health s) = registry_ok s"
  by (simp_all add: keys_agree_def registry_ok_def drop_policy_def drop_health_def owned_policy_def latest_expiry_def dict_ok_def)

lemma dict_get_filter: "map_of (filter (\<lambda>(k, _). P k) d) k = (if P k then map_of d k else None)"
  by (induction d) auto

lemma keys_filter: "fst ` set (filter (\<lambda>(k, _). P k) d) = {k \<in> fst ` set d. P k}"
  by (induction d) auto

lemma latest_expiry_ge: "map_of (sp_expires s) w = Some x \<Longrightarrow> x \<le> latest_expiry s"
  unfolding latest_expiry_def by (intro Max_ge) (auto dest!: map_of_SomeD simp: rev_image_eqI)

lemma registry_ok_tidy: "registry_ok s \<Longrightarrow> registry_ok (tidy now s)"
  by (auto simp: registry_ok_def keys_agree_def dict_ok_def)

lemma current_tidy:
  assumes "registry_ok s"
  shows "current now (registry_of (tidy now s)) = current now (registry_of s)"
proof (cases "sp_policy_until s < now")
  case True
  then have "\<not> now < x" if "map_of (sp_expires s) w = Some x" for w x
    using assms that by (fastforce simp: registry_ok_def)
  then show ?thesis using True by (auto simp: current_def registry_of_def fun_eq_iff split: option.splits)
qed (simp add: registry_of_def)

text \<open>A key filter of the five keys.\<close>

lemma keep_workers:
  assumes "keys_agree s" and "sp_expires s' = filter (\<lambda>(w, _). P w) (sp_expires s)"
    and "sp_bases s' = filter (\<lambda>(w, _). P w) (sp_bases s)" and "sp_rpms s' = filter (\<lambda>(w, _). P w) (sp_rpms s)"
    and "sp_tpms s' = filter (\<lambda>(w, _). P w) (sp_tpms s)" and "sp_owners s' = filter P (sp_owners s)"
  shows "keys_agree s'" and "registry_of s' = (\<lambda>w. if P w then registry_of s w else None)"
proof -
  show "keys_agree s'"
    using assms(1) unfolding keys_agree_def assms(2-6) keys_filter by (simp add: keys_filter)
  show "registry_of s' = (\<lambda>w. if P w then registry_of s w else None)"
    unfolding registry_of_def assms(2-6) by (rule ext) (simp add: dict_get_filter)
qed

lemma purge_owners_registry:
  assumes "keys_agree s"
  shows "keys_agree (purge_owners now s)" and "registry_of (purge_owners now s) = current now (registry_of s)"
proof -
  let ?P = "\<lambda>w. w \<notin> expired_owners now s"
  have d: "dict_ok (sp_expires s)" using assms by (simp add: keys_agree_def)
  then have mem: "w \<in> expired_owners now s \<longleftrightarrow> (\<exists>x. map_of (sp_expires s) w = Some x \<and> x \<le> now)" for w
    by (force simp: expired_owners_def dict_mem_iff)
  have "filter (\<lambda>(_, e). \<not> e \<le> now) (sp_expires s) = filter (\<lambda>(w, _). ?P w) (sp_expires s)"
    using d by (intro filter_cong refl) (auto simp: mem dict_mem_iff)
  then have *: "sp_expires (purge_owners now s) = filter (\<lambda>(w, _). ?P w) (sp_expires s)"
    by (simp add: purge_owners_def)
  note kept = keep_workers [OF assms *]
  show "keys_agree (purge_owners now s)"
    by (rule kept) (simp_all add: purge_owners_def forget_owners_def)
  have "registry_of (purge_owners now s) = (\<lambda>w. if ?P w then registry_of s w else None)"
    by (rule kept) (simp_all add: purge_owners_def forget_owners_def)
  also have "\<dots> = current now (registry_of s)"
    by (rule ext) (auto simp: mem current_def registry_of_def split: option.split)
  finally show "registry_of (purge_owners now s) = current now (registry_of s)" .
qed

lemma put_owner_registry:
  assumes "keys_agree s"
  shows "keys_agree (put_owner w b r m x s)"
    and "registry_of (put_owner w b r m x s) = (registry_of s)(w \<mapsto> (x, \<lparr>po_base = b, po_rpm = r, po_tpm = m\<rparr>))"
    and "latest_expiry (put_owner w b r m x s) \<ge> x"
proof -
  show "keys_agree (put_owner w b r m x s)"
    using assms by (auto simp: keys_agree_def put_owner_def dom_update image_Un)
  show "registry_of (put_owner w b r m x s) = (registry_of s)(w \<mapsto> (x, \<lparr>po_base = b, po_rpm = r, po_tpm = m\<rparr>))"
    by (rule ext) (simp add: registry_of_def put_owner_def)
  show "latest_expiry (put_owner w b r m x s) \<ge> x"
    by (rule latest_expiry_ge [of _ w]) (simp add: put_owner_def)
qed

lemma publish_registry:
  assumes "keys_agree s" and "sp_expires s \<noteq> []"
  shows "registry_ok (publish_policy now s)"
    and "now < latest_expiry s \<Longrightarrow> registry_of (publish_policy now s) = registry_of s
      \<and> sp_policy (publish_policy now s) = Some (strictest (registry_of s))"
proof -
  have own: "owned_policy s = strictest (registry_of s)" using assms(1) by (rule owned_strictest)
  show "registry_ok (publish_policy now s)"
    using assms latest_expiry_ge [of s]
    by (auto simp: publish_policy_def lower_health_def registry_ok_def keys_agree_def
        drop_policy_def drop_health_def dict_ok_def Let_def split: option.split)
  assume later: "now < latest_expiry s"
  then have "registry_of (publish_policy now s) = registry_of s"
    by (simp add: publish_policy_def lower_health_def registry_of_def Let_def split: option.split)
  moreover have "sp_policy (publish_policy now s) = Some (strictest (registry_of s))"
    using later by (simp add: own publish_policy_def lower_health_def Let_def split: option.split)
  ultimately show "registry_of (publish_policy now s) = registry_of s
      \<and> sp_policy (publish_policy now s) = Some (strictest (registry_of s))" ..
qed

lemma delete_filter: "AList.delete w d = filter (\<lambda>(w', _). w' \<noteq> w) d"
  by (induction d) auto

lemma register_result:
  assumes "register_script now w base rpm tpm ttl max_owners s = (s', Numbers vs)" and "registry_ok s"
  shows "registry_ok s'"
    and "registry_of s' = spec_register now w \<lparr>po_base = base, po_rpm = rpm, po_tpm = tpm\<rparr> ttl (registry_of s)"
    and "sp_policy s' = Some (strictest (registry_of s'))"
proof -
  let ?s1 = "purge_owners now (tidy now s)" and ?s2 = "put_owner w base rpm tpm (now + ttl) (purge_owners now (tidy now s))"
  have checks: "register_checks base rpm tpm ttl max_owners" and s': "s' = publish_policy now ?s2"
    using assms(1) by (auto simp: register_script_def Let_def split: if_splits)
  have "keys_agree (tidy now s)" using registry_ok_tidy [OF assms(2)] by (simp add: registry_ok_def)
  note purged = purge_owners_registry [OF this, of now]
  note put = put_owner_registry [OF purged(1), where w = w and b = base and r = rpm and m = tpm and x = "now + ttl"]
  have "sp_expires ?s2 \<noteq> []" by (simp add: put_owner_def update_nonempty)
  note published = publish_registry [OF put(1) this, of now]
  have later: "now < latest_expiry ?s2" using put(3) checks by (simp add: register_checks_def)
  show "registry_ok s'" unfolding s' by (rule published(1))
  show "registry_of s' = spec_register now w \<lparr>po_base = base, po_rpm = rpm, po_tpm = tpm\<rparr> ttl (registry_of s)"
    using published(2) [OF later] put(2) purged(2) current_tidy [OF assms(2), of now]
    by (simp add: s' spec_register_def)
  show "sp_policy s' = Some (strictest (registry_of s'))"
    unfolding s' using published(2) [OF later] by simp
qed

lemma current_none: "sp_expires s = [] \<or> latest_expiry s \<le> now \<Longrightarrow> current now (registry_of s) = Map.empty"
proof -
  assume over: "sp_expires s = [] \<or> latest_expiry s \<le> now"
  have "\<not> now < x" if "map_of (sp_expires s) w = Some x" for w x
    using latest_expiry_ge [OF that] over that by auto
  then show ?thesis by (auto simp: current_def registry_of_def fun_eq_iff split: option.splits)
qed

lemma rollback_result:
  assumes "rollback_script now w s = (s', r)" and "registry_ok s"
  shows "registry_ok s'" and "current now (registry_of s') = (current now (registry_of s))(w := None)"
proof -
  let ?s1 = "(forget_owners {w} (tidy now s))\<lparr>sp_expires := AList.delete w (sp_expires (tidy now s))\<rparr>"
  have s': "s' = (if sp_expires ?s1 = [] then drop_health (drop_policy ?s1) else publish_policy now ?s1)"
    using assms(1) by (auto simp: rollback_script_def Let_def)
  have agree: "keys_agree (tidy now s)" using registry_ok_tidy [OF assms(2)] by (simp add: registry_ok_def)
  have kept: "keys_agree ?s1" "registry_of ?s1 = (\<lambda>w'. if w' \<noteq> w then registry_of (tidy now s) w' else None)"
    by (rule keep_workers [OF agree]; simp add: forget_owners_def delete_filter)+
  then have reg: "current now (registry_of ?s1) = (current now (registry_of s))(w := None)"
    using current_tidy [OF assms(2), of now] by (auto simp: current_def fun_eq_iff split: option.splits)
  have gone: "current now (registry_of (drop_health (drop_policy t))) = Map.empty" for t
    by (simp add: current_def registry_of_def drop_health_def drop_policy_def)
  show "registry_ok s'" unfolding s' using publish_registry(1) [OF kept(1)] by simp
  show "current now (registry_of s') = (current now (registry_of s))(w := None)"
  proof (cases "sp_expires ?s1 \<noteq> [] \<and> now < latest_expiry ?s1")
    case True
    then show ?thesis using publish_registry(2) [OF kept(1)] reg by (simp add: s')
  next
    case False
    then have "current now (registry_of ?s1) = Map.empty"
      by (intro current_none) auto
    moreover have "\<exists>t. s' = drop_health (drop_policy t)" using False by (auto simp: s' publish_policy_def Let_def)
    ultimately show ?thesis using gone reg by auto
  qed
qed

lemma rollback_policy:
  assumes "rollback_script now w s = (s', r)" and "registry_ok s"
  shows "registry_of s' = Map.empty \<or> sp_policy s' = Some (strictest (registry_of s'))"
proof -
  let ?s1 = "(forget_owners {w} (tidy now s))\<lparr>sp_expires := AList.delete w (sp_expires (tidy now s))\<rparr>"
  have s': "s' = (if sp_expires ?s1 = [] then drop_health (drop_policy ?s1) else publish_policy now ?s1)"
    using assms(1) by (auto simp: rollback_script_def Let_def)
  have agree: "keys_agree (tidy now s)" using registry_ok_tidy [OF assms(2)] by (simp add: registry_ok_def)
  have kept: "keys_agree ?s1" by (rule keep_workers [OF agree]; simp add: forget_owners_def delete_filter)
  show ?thesis
  proof (cases "sp_expires ?s1 \<noteq> [] \<and> now < latest_expiry ?s1")
    case True
    then show ?thesis using publish_registry(2) [OF kept] by (simp add: s')
  next
    case False
    then have "\<exists>t. s' = drop_health (drop_policy t)" by (auto simp: s' publish_policy_def Let_def)
    then show ?thesis by (auto simp: registry_of_def drop_health_def drop_policy_def)
  qed
qed

lemma same_registry:
  assumes "sp_expires s' = sp_expires s" "sp_bases s' = sp_bases s" "sp_rpms s' = sp_rpms s" "sp_tpms s' = sp_tpms s"
    and "sp_owners s' = sp_owners s" "sp_policy s' = sp_policy s" "sp_policy_until s' = sp_policy_until s"
  shows "registry_ok s' = registry_ok s" and "registry_of s' = registry_of s"
  using assms by (simp_all add: registry_ok_def keys_agree_def owned_policy_def latest_expiry_def registry_of_def)

lemma purge_owners_ok:
  assumes "registry_ok s"
  shows "registry_ok (purge_owners now s)"
proof -
  have agree: "keys_agree s" and le: "\<And>w x. map_of (sp_expires s) w = Some x \<Longrightarrow> x \<le> sp_policy_until s"
    using assms by (simp_all add: registry_ok_def)
  then have "dict_ok (sp_expires s)" by (simp add: keys_agree_def)
  then have "x \<le> sp_policy_until s" if "map_of (filter (\<lambda>(_, e). \<not> e \<le> now) (sp_expires s)) w = Some x" for w x
    using that le by (auto dest!: map_of_SomeD simp: dict_mem_iff)
  then show ?thesis
    using purge_owners_registry(1) [OF agree] by (simp add: registry_ok_def purge_owners_def forget_owners_def)
qed

lemma current_again: "current now (current now reg) = current now reg"
  by (auto simp: current_def fun_eq_iff split: option.split)

text \<open>The other calls, and registrations that fail, only forget workers whose time is over.\<close>

lemma other_scripts:
  assumes "exec_call now c s = (s', r)" and "\<nexists>w. c = Rollback_Call w"
    and "r = Script_Error \<or> (\<nexists>w b rp tp ttl m. c = Register_Call w b rp tp ttl m)"
  shows "registry_ok s' = registry_ok (tidy now s) \<and> registry_of s' = registry_of (tidy now s)
     \<or> s' = purge_owners now (tidy now s)"
proof (cases "\<exists>w b rp tp ttl m. c = Register_Call w b rp tp ttl m")
  case True
  then show ?thesis using assms by (auto simp: register_script_def Let_def simp del: tidy_simps split: if_splits)
next
  case False
  then have "sp_expires s' = sp_expires (tidy now s)" "sp_bases s' = sp_bases (tidy now s)"
      "sp_rpms s' = sp_rpms (tidy now s)" "sp_tpms s' = sp_tpms (tidy now s)"
      "sp_owners s' = sp_owners (tidy now s)" "sp_policy_until s' = sp_policy_until (tidy now s)"
    using assms(1,2)
    by (cases c; auto simp: acquire_script_def release_script_def renew_script_def outcome_script_def
        limit_script_def Let_def simp del: tidy_simps split: option.splits if_splits)+
  then show ?thesis by (simp add: registry_ok_def keys_agree_def registry_of_def del: tidy_simps)
qed

lemma other_registry:
  assumes "exec_call now c s = (s', r)" and "registry_ok s" and "\<nexists>w. c = Rollback_Call w"
    and "r = Script_Error \<or> (\<nexists>w b rp tp ttl m. c = Register_Call w b rp tp ttl m)"
  shows "registry_ok s' \<and> current now (registry_of s') = current now (registry_of s)"
proof -
  have tidied: "registry_ok (tidy now s)" "current now (registry_of (tidy now s)) = current now (registry_of s)"
    using assms(2) registry_ok_tidy current_tidy by blast+
  then have "registry_ok (purge_owners now (tidy now s))"
      "registry_of (purge_owners now (tidy now s)) = current now (registry_of s)"
    using purge_owners_ok purge_owners_registry(2) by (auto simp: registry_ok_def simp del: tidy_simps)
  then show ?thesis using other_scripts [OF assms(1,3,4)] tidied by (auto simp: current_again simp del: tidy_simps)
qed

section \<open>Refinement\<close>

fun spec_step :: "millis \<Rightarrow> scope_call \<Rightarrow> reply \<Rightarrow> registry \<Rightarrow> registry" where
  "spec_step now (Register_Call w base rpm tpm ttl _) (Numbers _) reg =
     spec_register now w \<lparr>po_base = base, po_rpm = rpm, po_tpm = tpm\<rparr> ttl reg"
| "spec_step now (Rollback_Call w) _ reg = (current now reg)(w := None)"
| "spec_step now _ _ reg = current now reg"

lemma exec_call_registry:
  assumes "exec_call now c s = (s', r)" and "registry_ok s"
  shows "registry_ok s' \<and> current now (registry_of s') = current now (spec_step now c r (registry_of s))"
proof -
  consider w b rp tp ttl m vs where "c = Register_Call w b rp tp ttl m" "r = Numbers vs"
    | w where "c = Rollback_Call w"
    | "\<nexists>w. c = Rollback_Call w" "r = Script_Error \<or> (\<nexists>w b rp tp ttl m. c = Register_Call w b rp tp ttl m)"
    by (cases r; cases c) auto
  then show ?thesis
  proof cases
    case 1
    then show ?thesis using register_result assms by fastforce
  next
    case 2
    have "(current now reg)(w := None) = current now ((current now reg)(w := None))" for reg
      by (auto simp: current_def fun_eq_iff split: option.split)
    then show ?thesis using rollback_result assms 2 by auto
  next
    case 3
    then have "spec_step now c r (registry_of s) = current now (registry_of s)" by (cases c; cases r) auto
    then show ?thesis using other_registry [OF assms 3] by (simp add: current_again)
  qed
qed

lemma serving_registry: "serving B t s held \<Longrightarrow> registry_ok s"
proof (induction rule: serving.induct)
  case (serving_start t)
  show ?case by (simp add: registry_ok_def keys_agree_def empty_scope_def dict_ok_def)
next
  case (serving_call t s held now c s' r)
  then show ?case using exec_call_registry by blast
qed

subsection \<open>The policy in force\<close>

text \<open>One policy is at least as strict as another; zero is no limit on requests or tokens.\<close>

definition as_strict :: "scope_policy \<Rightarrow> scope_policy \<Rightarrow> bool" where
  "as_strict p q \<longleftrightarrow> po_base p \<le> po_base q \<and> (po_rpm q \<noteq> 0 \<longrightarrow> po_rpm p \<noteq> 0 \<and> po_rpm p \<le> po_rpm q)
     \<and> (po_tpm q \<noteq> 0 \<longrightarrow> po_tpm p \<noteq> 0 \<and> po_tpm p \<le> po_tpm q)"

definition policy_covers :: "scope \<Rightarrow> bool" where
  "policy_covers s \<longleftrightarrow> (\<forall>w x q. registry_of s w = Some (x, q) \<longrightarrow> (\<exists>p. sp_policy s = Some p \<and> as_strict p q))"

lemma least_le: "finite V \<Longrightarrow> v \<in> V \<Longrightarrow> (z \<longrightarrow> v \<noteq> 0) \<Longrightarrow> least z V \<le> v"
  by (auto simp: least_def Let_def intro: Min_le)

lemma least_nonzero: "finite V \<Longrightarrow> v \<in> V \<Longrightarrow> v \<noteq> 0 \<Longrightarrow> least True V \<noteq> 0"
proof -
  assume *: "finite V" "v \<in> V" "v \<noteq> 0"
  then have "Min {v \<in> V. v \<noteq> 0} \<in> {v \<in> V. v \<noteq> 0}" by (intro Min_in) auto
  with * show ?thesis by (auto simp: least_def Let_def)
qed

lemma strictest_covers:
  assumes "registry_of s w = Some (x, q)"
  shows "as_strict (strictest (registry_of s)) q"
proof -
  have fin: "finite (ran (registry_of s))"
  proof (rule finite_ran)
    have "dom (registry_of s) \<subseteq> fst ` set (sp_expires s)"
      by (auto simp: registry_of_def dom_map_of_conv_image_fst [symmetric])
    then show "finite (dom (registry_of s))" by (rule finite_subset) simp
  qed
  have mem: "(x, q) \<in> ran (registry_of s)" using assms by (rule ranI)
  have le: "(z \<longrightarrow> f (x, q) \<noteq> 0) \<longrightarrow> least z (f ` ran (registry_of s)) \<le> f (x, q)" for z f
    using least_le [OF finite_imageI [OF fin] imageI [OF mem]] by blast
  have nz: "f (x, q) \<noteq> 0 \<longrightarrow> least True (f ` ran (registry_of s)) \<noteq> 0" for f
    using least_nonzero [OF finite_imageI [OF fin] imageI [OF mem]] by blast
  show ?thesis
    using le [of False "\<lambda>(_, p). po_base p"] le [of True "\<lambda>(_, p). po_rpm p"] le [of True "\<lambda>(_, p). po_tpm p"]
      nz [of "\<lambda>(_, p). po_rpm p"] nz [of "\<lambda>(_, p). po_tpm p"]
    unfolding as_strict_def strictest_def scope_policy.simps prod.case by blast
qed

lemma covers_tidy: "policy_covers s \<Longrightarrow> policy_covers (tidy now s)"
  by (auto simp: policy_covers_def registry_of_def split: if_splits)

lemma covers_fewer:
  "policy_covers s \<Longrightarrow> sp_policy s' = sp_policy s \<Longrightarrow> (\<And>w v. registry_of s' w = Some v \<Longrightarrow> registry_of s w = Some v)
     \<Longrightarrow> policy_covers s'"
  unfolding policy_covers_def by metis

lemma other_policy:
  assumes "exec_call now c s = (s', r)" and "\<nexists>w. c = Rollback_Call w"
    and "r = Script_Error \<or> (\<nexists>w b rp tp ttl m. c = Register_Call w b rp tp ttl m)"
  shows "sp_policy s' = sp_policy (tidy now s)"
proof (cases "\<exists>w b rp tp ttl m. c = Register_Call w b rp tp ttl m")
  case True
  then show ?thesis using assms
    by (auto simp: register_script_def purge_owners_def forget_owners_def Let_def simp del: tidy_simps split: if_splits)
next
  case False
  then show ?thesis using assms(1,2)
    by (cases c; auto simp: acquire_script_def release_script_def renew_script_def outcome_script_def
        limit_script_def Let_def simp del: tidy_simps split: option.splits if_splits)
qed

lemma exec_call_covers:
  assumes "exec_call now c s = (s', r)" and "registry_ok s" and "policy_covers s"
  shows "policy_covers s'"
proof -
  consider w b rp tp ttl m vs where "c = Register_Call w b rp tp ttl m" "r = Numbers vs"
    | w where "c = Rollback_Call w"
    | "\<nexists>w. c = Rollback_Call w" "r = Script_Error \<or> (\<nexists>w b rp tp ttl m. c = Register_Call w b rp tp ttl m)"
    by (cases r; cases c) auto
  then show ?thesis
  proof cases
    case 1
    with register_result(3) assms have "sp_policy s' = Some (strictest (registry_of s'))" by auto
    then show ?thesis using strictest_covers by (auto simp: policy_covers_def)
  next
    case 2
    with rollback_policy assms have "registry_of s' = Map.empty \<or> sp_policy s' = Some (strictest (registry_of s'))" by auto
    then show ?thesis using strictest_covers by (auto simp: policy_covers_def)
  next
    case 3
    have agree: "keys_agree (tidy now s)" using registry_ok_tidy [OF assms(2)] by (simp add: registry_ok_def)
    have "registry_of s' w = Some v \<Longrightarrow> registry_of (tidy now s) w = Some v" for w v
      using other_scripts [OF assms(1) 3] purge_owners_registry(2) [OF agree, of now]
      by (auto simp: current_def simp del: tidy_simps split: option.splits if_splits)
    with covers_fewer [OF covers_tidy [OF assms(3)] other_policy [OF assms(1) 3]] show ?thesis by blast
  qed
qed

lemma serving_covers: "serving B t s held \<Longrightarrow> policy_covers s"
proof (induction rule: serving.induct)
  case (serving_start t)
  show ?case by (simp add: policy_covers_def registry_of_def empty_scope_def)
next
  case (serving_call t s held now c s' r)
  then show ?case using exec_call_covers serving_registry by blast
qed

text \<open>
  C20. The scripts implement the registry of the workers: whatever was called before, a call changes
  the registrations in time exactly as the registry says (a registration replaces the worker's
  own, a rollback removes it, any other call changes none). After a successful registration
  the policy in force is the strictest of all registrations in time, after a rollback that of all that are
  still recorded, where zero means no limit on requests or tokens; and after every call it is at least as
  strict as each registration that is still recorded.
\<close>

theorem scripts_refine_the_registry:
  assumes "serving B t s held" and "exec_call now c s = (s', r)"
  shows "current now (registry_of s') = current now (spec_step now c r (registry_of s))
    \<and> (\<forall>w base rpm tpm ttl m vs. c = Register_Call w base rpm tpm ttl m \<and> r = Numbers vs \<longrightarrow>
         sp_policy s' = Some (strictest (spec_step now c r (registry_of s))))
    \<and> (\<forall>w. c = Rollback_Call w \<longrightarrow> registry_of s' = Map.empty \<or> sp_policy s' = Some (strictest (registry_of s')))
    \<and> (\<forall>w x q. registry_of s' w = Some (x, q) \<longrightarrow> (\<exists>p. sp_policy s' = Some p \<and> as_strict p q))"
proof -
  note ok = serving_registry [OF assms(1)]
  have "current now (registry_of s') = current now (spec_step now c r (registry_of s))"
    using exec_call_registry [OF assms(2) ok] by simp
  moreover have "sp_policy s' = Some (strictest (spec_step now c r (registry_of s)))"
    if "c = Register_Call w base rpm tpm ttl m \<and> r = Numbers vs" for w base rpm tpm ttl m vs
    using register_result [of now w base rpm tpm ttl m s s' vs] assms(2) ok that by simp
  moreover have "registry_of s' = Map.empty \<or> sp_policy s' = Some (strictest (registry_of s'))"
    if "c = Rollback_Call w" for w
    using rollback_policy [of now w s s' r] assms(2) ok that by simp
  ultimately show ?thesis
    using exec_call_covers [OF assms(2) ok serving_covers [OF assms(1)]] unfolding policy_covers_def by blast
qed

theorem scripts_refine_the_registry_witness:
  "sp_policy (fst (register_script 30 8 1 0 500 3600000 4096 sample_scope))
     = Some (strictest ((current 30 (registry_of sample_scope))(8 \<mapsto> (3600030, \<lparr>po_base = 1, po_rpm = 0, po_tpm = 500\<rparr>))))"
proof -
  have "snd (exec_call 30 (Register_Call 8 1 0 500 3600000 4096) sample_scope) = Numbers [1, 0, 500, 1, 2]" by code_simp
  then have "exec_call 30 (Register_Call 8 1 0 500 3600000 4096) sample_scope
      = (fst (register_script 30 8 1 0 500 3600000 4096 sample_scope), Numbers [1, 0, 500, 1, 2])"
    by (simp add: prod_eq_iff)
  from scripts_refine_the_registry [OF sample_serving this] show ?thesis by (simp add: spec_register_def)
qed

end
