(* ===== verification/Capacity_Guarantees.thy ===== *)
theory Capacity_Guarantees
  imports Capacity_Operations Capacity_Registry
begin

text \<open>
  What the capacity pool guarantees: the turns of the deployments of a scope, that no grant is
  lost, that a failed registration is undone, and where the pool's settings let a lease outlive
  the keys that record it.
\<close>

section \<open>The turns of the deployments of a scope\<close>

fun choose_rounds :: "nat \<Rightarrow> deployment list \<Rightarrow> (string \<times> int) list \<Rightarrow> (string \<times> int) list \<times> deployment list" where
  "choose_rounds 0 ds w = (w, [])"
| "choose_rounds (Suc n) ds w = (case choose_rounds n ds w of
      (w1, chosen) \<Rightarrow> (case weighted_choice ds w1 of
         (w2, None) \<Rightarrow> (w2, chosen)
       | (w2, Some d) \<Rightarrow> (w2, chosen @ [d])))"

definition total_weight :: "deployment list \<Rightarrow> int" where
  "total_weight ds = sum_list (map dp_weight ds)"

lemma weight_of_update [simp]: "weight_of (AList.update i x w) j = (if j = i then x else weight_of w j)"
  by (simp add: weight_of_def)

lemma add_weights_other: "i \<notin> dp_id ` set ds \<Longrightarrow> weight_of (add_weights ds w) i = weight_of w i"
  by (induction ds arbitrary: w) auto

lemma add_weights_own:
  "distinct (map dp_id ds) \<Longrightarrow> d \<in> set ds \<Longrightarrow> weight_of (add_weights ds w) (dp_id d) = weight_of w (dp_id d) + dp_weight d"
proof (induction ds arbitrary: w)
  case (Cons e ds)
  show ?case
  proof (cases "d = e")
    case True
    then show ?thesis using Cons.prems add_weights_other [of "dp_id e" ds] by simp
  next
    case False
    then have "d \<in> set ds" "dp_id d \<noteq> dp_id e" using Cons.prems by (auto simp: image_iff)
    then show ?thesis using Cons by simp
  qed
qed simp

lemma heaviest_Some: "heaviest w ds = Some d \<Longrightarrow> d \<in> set ds \<and> (\<forall>e \<in> set ds. weight_of w (dp_id e) \<le> weight_of w (dp_id d))"
proof (induction ds arbitrary: d)
  case (Cons e ds)
  show ?case
  proof (cases "heaviest w ds")
    case None
    then have "ds = []" by (cases ds) (auto split: option.splits)
    then show ?thesis using Cons.prems by simp
  next
    case (Some f)
    then show ?thesis using Cons.IH [OF Some] Cons.prems by (auto split: if_splits)
  qed
qed simp

lemma heaviest_None [simp]: "heaviest w ds = None \<longleftrightarrow> ds = []"
  by (cases ds) (auto split: option.splits)

text \<open>One turn: every weight grows by its own, the chosen one, which is positive, falls by the total.\<close>

lemma weighted_choice_turn:
  assumes "distinct (map dp_id ds)" and "ds \<noteq> []" and "0 < total_weight ds"
    and "(\<Sum>d \<in> set ds. weight_of w (dp_id d)) = 0"
  obtains w' c where "weighted_choice ds w = (w', Some c)" "c \<in> set ds"
    "0 < weight_of w (dp_id c) + dp_weight c"
    "\<And>d. d \<in> set ds \<Longrightarrow> weight_of w' (dp_id d)
      = weight_of w (dp_id d) + dp_weight d - (if d = c then total_weight ds else 0)"
proof -
  let ?os = "sort_key dp_id ds"
  have os: "distinct (map dp_id ?os)" "set ?os = set ds"
    using assms(1) by (simp_all add: distinct_map)
  have tot: "sum_list (map dp_weight ?os) = total_weight ds"
    using os assms(1) by (simp add: total_weight_def sum_list_distinct_conv_sum_set distinct_map)
  obtain c where c: "heaviest (add_weights ?os w) ?os = Some c"
    using assms(2) heaviest_None os(2) by (metis not_Some_eq set_empty)
  have own: "weight_of (add_weights ?os w) (dp_id d) = weight_of w (dp_id d) + dp_weight d" if "d \<in> set ds" for d
    using add_weights_own [OF os(1)] that os(2) by simp
  have "c \<in> set ds" and max: "\<forall>e \<in> set ds. weight_of w (dp_id e) + dp_weight e \<le> weight_of w (dp_id c) + dp_weight c"
    using heaviest_Some [OF c] own unfolding os(2) by (auto simp: own)
  have "(\<Sum>d \<in> set ds. weight_of w (dp_id d) + dp_weight d) = total_weight ds"
    using assms(1,4) by (simp add: sum.distrib total_weight_def sum_list_distinct_conv_sum_set distinct_map)
  moreover have "(\<Sum>d \<in> set ds. weight_of w (dp_id d) + dp_weight d) \<le> 0"
    if "weight_of w (dp_id c) + dp_weight c \<le> 0"
    using max that by (intro sum_nonpos) fastforce
  ultimately have pos: "0 < weight_of w (dp_id c) + dp_weight c" using assms(3) by linarith
  have inj: "dp_id d = dp_id c \<longleftrightarrow> d = c" if "d \<in> set ds" for d
    using assms(1) that \<open>c \<in> set ds\<close> by (auto simp: distinct_map inj_on_def)
  show ?thesis
    by (rule that [OF _ \<open>c \<in> set ds\<close> pos])
      (auto simp: weighted_choice_def Let_def c tot own inj \<open>c \<in> set ds\<close>)
qed

lemma total_weight_pos: "\<forall>d \<in> set ds. 0 < dp_weight d \<Longrightarrow> ds \<noteq> [] \<Longrightarrow> 0 < total_weight ds"
proof (induction ds)
  case (Cons d ds)
  then show ?case by (cases ds) (auto simp: total_weight_def)
qed simp

lemma choose_rounds_inv:
  assumes "distinct (map dp_id ds)" and "\<forall>d \<in> set ds. 0 < dp_weight d" and "ds \<noteq> []"
    and "\<forall>d \<in> set ds. weight_of w (dp_id d) = 0"
  shows "\<exists>w' chosen. choose_rounds n ds w = (w', chosen) \<and> length chosen = n \<and> set chosen \<subseteq> set ds
    \<and> (\<forall>d \<in> set ds. weight_of w' (dp_id d) = int n * dp_weight d - total_weight ds * int (count_list chosen d)
        \<and> - total_weight ds < weight_of w' (dp_id d))"
proof -
  have pos: "0 < total_weight ds" using total_weight_pos assms(2,3) by blast
  show ?thesis
  proof (induction n)
    case 0
    then show ?case using assms(4) pos by simp
  next
    case (Suc n)
    then obtain w1 chosen where r: "choose_rounds n ds w = (w1, chosen)" "length chosen = n" "set chosen \<subseteq> set ds"
      and inv: "\<forall>d \<in> set ds. weight_of w1 (dp_id d) = int n * dp_weight d - total_weight ds * int (count_list chosen d)
        \<and> - total_weight ds < weight_of w1 (dp_id d)" by blast
    have "(\<Sum>d \<in> set ds. int (count_list chosen d)) = int n"
      using sum_count_set [OF r(3)] r(2) by (simp flip: of_nat_sum)
    moreover have "(\<Sum>d \<in> set ds. dp_weight d) = total_weight ds"
      using assms(1) by (simp add: total_weight_def sum_list_distinct_conv_sum_set distinct_map)
    ultimately have zero: "(\<Sum>d \<in> set ds. weight_of w1 (dp_id d)) = 0"
      using inv by (simp add: sum_subtractf flip: sum_distrib_left)
    obtain w2 c where c: "weighted_choice ds w1 = (w2, Some c)" "c \<in> set ds" "0 < weight_of w1 (dp_id c) + dp_weight c"
      "\<And>d. d \<in> set ds \<Longrightarrow> weight_of w2 (dp_id d)
        = weight_of w1 (dp_id d) + dp_weight d - (if d = c then total_weight ds else 0)"
      using weighted_choice_turn [OF assms(1,3) pos zero] by metis
    have "weight_of w2 (dp_id d) = int (Suc n) * dp_weight d - total_weight ds * int (count_list (chosen @ [c]) d)
        \<and> - total_weight ds < weight_of w2 (dp_id d)" if "d \<in> set ds" for d
    proof -
      have "0 < dp_weight d" "- total_weight ds < weight_of w1 (dp_id d)"
        "weight_of w1 (dp_id d) = int n * dp_weight d - total_weight ds * int (count_list chosen d)"
        using inv assms(2) that by auto
      then show ?thesis using c(3) c(4) [OF that] by (auto simp: distrib_right distrib_left)
    qed
    moreover have "choose_rounds (Suc n) ds w = (w2, chosen @ [c])" "length (chosen @ [c]) = Suc n"
        "set (chosen @ [c]) \<subseteq> set ds"
      using r c(1,2) by simp_all
    ultimately show ?case by blast
  qed
qed

text \<open>
  The deployments of a scope take turns by weight: starting from equal credit, in as many
  choices as the weights sum up to each deployment is chosen exactly as often as its weight says,
  and then all have equal credit again.
\<close>

theorem turns_follow_the_weights:
  assumes "distinct (map dp_id ds)" and "\<forall>d \<in> set ds. 0 < dp_weight d" and "ds \<noteq> []"
    and "\<forall>d \<in> set ds. weight_of w (dp_id d) = 0"
  shows "\<exists>w' chosen. choose_rounds (nat (total_weight ds)) ds w = (w', chosen)
    \<and> (\<forall>d \<in> set ds. int (count_list chosen d) = dp_weight d \<and> weight_of w' (dp_id d) = 0)"
proof -
  let ?W = "total_weight ds"
  have pos: "0 < ?W" using total_weight_pos assms(2,3) by blast
  obtain w' chosen where r: "choose_rounds (nat ?W) ds w = (w', chosen)" "length chosen = nat ?W" "set chosen \<subseteq> set ds"
    and inv: "\<forall>d \<in> set ds. weight_of w' (dp_id d) = ?W * dp_weight d - ?W * int (count_list chosen d)
        \<and> - ?W < weight_of w' (dp_id d)"
    using choose_rounds_inv [OF assms, of "nat ?W"] pos by auto
  have le: "int (count_list chosen d) \<le> dp_weight d" if "d \<in> set ds" for d
  proof -
    have "weight_of w' (dp_id d) = ?W * (dp_weight d - int (count_list chosen d))" "- ?W < weight_of w' (dp_id d)"
      using inv that by (auto simp: right_diff_distrib)
    then have "- ?W < ?W * (dp_weight d - int (count_list chosen d))" by simp
    then have "?W * (- 1) < ?W * (dp_weight d - int (count_list chosen d))" by simp
    then show ?thesis using pos by (simp only: mult_less_cancel_left_pos)
  qed
  have "(\<Sum>d \<in> set ds. int (count_list chosen d)) = (\<Sum>d \<in> set ds. dp_weight d)"
    using sum_count_set [OF r(3)] r(2) pos assms(1)
    by (simp add: total_weight_def sum_list_distinct_conv_sum_set distinct_map flip: of_nat_sum)
  then have "int (count_list chosen d) = dp_weight d" if "d \<in> set ds" for d
    using that le sum_mono_inv [of "\<lambda>d. int (count_list chosen d)" "set ds" dp_weight d] by simp
  then show ?thesis using r(1) inv by auto
qed

definition sample_deployment :: "string \<Rightarrow> int \<Rightarrow> deployment" where
  "sample_deployment i weight = \<lparr>dp_id = i, dp_logical = ''chat'', dp_provider = ''openai/gpt'', dp_request = None,
     dp_api_base = ''http://litellm:4000/v1'', dp_secret = ''key'', dp_scope = ''account'', dp_concurrency = 10,
     dp_utilization = 4 / 5, dp_reserved = 1, dp_rpm = None, dp_tpm = None, dp_weight = weight,
     dp_price_in = None, dp_price_out = None, dp_capabilities = [Cap_Text]\<rparr>"

theorem turns_follow_the_weights_witness:
  "\<exists>w' chosen. choose_rounds 4 [sample_deployment ''a'' 3, sample_deployment ''b'' 1] [] = (w', chosen)
     \<and> int (count_list chosen (sample_deployment ''a'' 3)) = 3"
proof -
  let ?ds = "[sample_deployment ''a'' 3, sample_deployment ''b'' 1]"
  have h: "distinct (map dp_id ?ds)" "\<forall>d \<in> set ?ds. 0 < dp_weight d" "?ds \<noteq> []"
      "\<forall>d \<in> set ?ds. weight_of [] (dp_id d) = 0"
    by (simp_all add: sample_deployment_def weight_of_def)
  have "nat (total_weight ?ds) = 4" by (simp add: total_weight_def sample_deployment_def)
  then obtain w' chosen where "choose_rounds 4 ?ds [] = (w', chosen)"
      "\<forall>d \<in> set ?ds. int (count_list chosen d) = dp_weight d \<and> weight_of w' (dp_id d) = 0"
    using turns_follow_the_weights [OF h] by auto
  then show ?thesis by (auto simp: sample_deployment_def)
qed

section \<open>No grant is lost\<close>

text \<open>
  The leases Redis may hold for a stretch of the log: those of acquire calls that were neither
  refused in so many words nor left without an answer, until a release was sent. So a script that ran
  while its answer was lost counts as no grant, and a release counts when it is sent, whatever comes of
  it: what is settled is what the code owes, not what Redis holds.
\<close>

definition refused :: "redis_result \<Rightarrow> bool" where
  "refused r \<longleftrightarrow> (\<exists>d a e f. r = Answered d \<and> integer_result d 4 = Some [0, a, e, f] \<and> (f = 1 \<or> f = 2))"

fun settle :: "redis_request \<times> redis_result \<Rightarrow> uuid set \<Rightarrow> uuid set" where
  "settle (Acquire_Script _ lid _ _, r) S = (if refused r \<or> r = Not_Answered then S else insert lid S)"
| "settle (Release_Script _ lid, r) S = S - {lid}"
| "settle _ S = S"

definition unsettled :: "redis_log \<Rightarrow> uuid set" where
  "unsettled l = fold settle l {}"

definition asked :: "pool \<Rightarrow> pool \<Rightarrow> redis_log" where
  "asked p p' = drop (length (pl_log p)) (pl_log p')"

definition extends :: "pool \<Rightarrow> pool \<Rightarrow> bool" where
  "extends p p' \<longleftrightarrow> (\<exists>l. pl_log p' = pl_log p @ l) \<and> pl_waiters p' = pl_waiters p"

lemma extends_refl [simp]: "extends p p"
  by (simp add: extends_def)

lemma extends_trans [trans]: "extends p q \<Longrightarrow> extends q r \<Longrightarrow> extends p r"
  by (auto simp: extends_def)

lemma asked_trans: "extends p q \<Longrightarrow> extends q r \<Longrightarrow> asked p r = asked p q @ asked q r"
  by (auto simp: extends_def asked_def)

lemma asked_refl [simp]: "asked p p = []"
  by (simp add: asked_def)

lemma unsettled_append: "unsettled l = {} \<Longrightarrow> unsettled (l @ l') = unsettled l'"
  by (simp add: unsettled_def)

lemma clock_read_same: "clock_read orc p = (p', r) \<Longrightarrow> pl_log p' = pl_log p \<and> pl_waiters p' = pl_waiters p"
  by (auto simp: clock_read_def)

lemma delay_same: "safe_renewal_delay orc ps started p = (p', r) \<Longrightarrow> pl_log p' = pl_log p \<and> pl_waiters p' = pl_waiters p"
  by (auto simp: safe_renewal_delay_def split: prod.splits sum.splits dest: clock_read_same)

lemma outcome_same: "acquire_outcome sc d p = (p', r) \<Longrightarrow> pl_log p' = pl_log p \<and> pl_waiters p' = pl_waiters p"
  by (auto simp: acquire_outcome_def set_load_def split: option.splits list.splits if_splits)

lemma outcome_refused: "acquire_outcome sc d p = (p', r) \<Longrightarrow> r = Inr None \<longleftrightarrow> refused (Answered d)"
  by (auto simp: acquire_outcome_def refused_def split: option.splits list.splits if_splits)

lemma eval_log: "redis_eval orc q p = (p', r) \<Longrightarrow> pl_log p' = pl_log p @ [(q, r)] \<and> pl_waiters p' = pl_waiters p"
  by (auto simp: redis_eval_def Let_def)

lemma release_log: "\<exists>r. pl_log (release_ignoring_errors orc sc lid p) = pl_log p @ [(Release_Script sc lid, r)]
    \<and> pl_waiters (release_ignoring_errors orc sc lid p) = pl_waiters p"
  by (auto simp: release_ignoring_errors_def redis_eval_def Let_def)

text \<open>What one attempt leaves behind.\<close>

fun held_by :: "capacity_error + lease option \<Rightarrow> uuid set" where
  "held_by (Inr (Some l)) = {ls_id l}"
| "held_by _ = {}"

lemma try_acquire_settles:
  assumes "try_acquire orc ps d tokens p = (p', r)" and "r \<noteq> Inl Time_Range"
  shows "extends p p' \<and> unsettled (asked p p') = held_by r"
proof -
  let ?lid = "or_uuid orc (pl_ids p)" and ?p0 = "p\<lparr>pl_ids := Suc (pl_ids p)\<rparr>"
  let ?q = "Acquire_Script (dp_scope d) (or_uuid orc (pl_ids p)) (ps_lease_ms ps) tokens"
  show ?thesis
  proof (cases "clock_read orc ?p0")
    case (Pair p1 r1)
    note clock = clock_read_same [OF Pair]
    show ?thesis
    proof (cases r1)
      case (Inl e)
      then show ?thesis using assms Pair clock by (auto simp: try_acquire_def extends_def asked_def unsettled_def)
    next
      case (Inr started)
      obtain p2 a where ev: "redis_eval orc ?q p1 = (p2, a)" by (cases "redis_eval orc ?q p1")
      note evl = eval_log [OF ev]
      have freed: "extends p x \<and> unsettled (asked p x) = {}"
        if "x = release_ignoring_errors orc (dp_scope d) ?lid y" "pl_log y = pl_log p2" "pl_waiters y = pl_waiters p2" for x y
        using that evl clock release_log [of orc "dp_scope d" ?lid y]
        by (auto simp: extends_def asked_def unsettled_def split: if_splits)
      show ?thesis
      proof (cases a)
        case (Answered dt)
        obtain p3 oc where oc: "acquire_outcome (dp_scope d) dt p2 = (p3, oc)" by (cases "acquire_outcome (dp_scope d) dt p2")
        note ocl = outcome_same [OF oc]
        have refusal: "oc = Inr None \<longleftrightarrow> refused a" using outcome_refused [OF oc] Answered by simp
        consider e where "oc = Inl e" | "oc = Inr None" | final where "oc = Inr (Some final)"
          by (cases oc) auto
        then show ?thesis
        proof cases
          case 1
          then show ?thesis using assms Pair Inr ev Answered oc freed ocl by (auto simp: try_acquire_def)
        next
          case 2
          then have "refused a" using refusal by simp
          then show ?thesis using 2 assms Pair Inr ev Answered oc ocl evl clock
            by (auto simp: try_acquire_def extends_def asked_def unsettled_def)
        next
          case (3 final)
          obtain p4 dl where dl: "safe_renewal_delay orc ps started p3 = (p4, dl)"
            by (cases "safe_renewal_delay orc ps started p3")
          note dll = delay_same [OF dl]
          have run: "try_acquire orc ps d tokens p = (case dl of
              Inl e \<Rightarrow> (release_ignoring_errors orc (dp_scope d) ?lid p4, Inl e)
            | Inr delay \<Rightarrow> (p4, if timestamp_ok final then Inr (Some \<lparr>ls_id = ?lid, ls_deployment = dp_id d,
                ls_scope = dp_scope d, ls_expires = final, ls_renew = delay\<rparr>) else Inl Time_Range))"
            using Pair Inr ev Answered oc 3 dl by (simp add: try_acquire_def Let_def split: sum.split)
          show ?thesis
          proof (cases dl)
            case (Inl e)
            then show ?thesis using run assms(1) freed [OF refl, of p4] ocl dll by auto
          next
            case (Inr delay)
            have "\<not> refused a" "a \<noteq> Not_Answered" using refusal 3 Answered by simp_all
            then have "unsettled [(?q, a)] = {?lid}" by (simp add: unsettled_def)
            then show ?thesis
              using run assms Inr ocl dll evl clock by (auto simp: extends_def asked_def split: if_splits)
          qed
        qed
      next
        case Not_Answered
        then have "p' = p2" "r = Inl Backend_Error" using assms(1) Pair Inr ev by (simp_all add: try_acquire_def Let_def)
        then show ?thesis using Not_Answered evl clock by (simp add: extends_def asked_def unsettled_def)
      next
        case (Answered_Late dt)
        then have "p' = release_ignoring_errors orc (dp_scope d) ?lid p2" "r = Inl Cancelled_Error"
          using assms(1) Pair Inr ev by (simp_all add: try_acquire_def Let_def)
        then show ?thesis using freed [OF refl refl refl] by simp
      next
        case Call_Cancelled
        then have "p' = release_ignoring_errors orc (dp_scope d) ?lid p2" "r = Inl Cancelled_Error"
          using assms(1) Pair Inr ev by (simp_all add: try_acquire_def Let_def)
        then show ?thesis using freed [OF refl refl refl] by simp
      qed
    qed
  qed
qed

lemma try_each_settles:
  "try_each orc ps ds tokens p = (p', r) \<Longrightarrow> r \<noteq> Inl Time_Range \<Longrightarrow> extends p p' \<and> unsettled (asked p p') = held_by r"
proof (induction ds arbitrary: p)
  case Nil
  then show ?case by (auto simp: unsettled_def)
next
  case (Cons d ds)
  obtain p1 r1 where one: "try_acquire orc ps d tokens p = (p1, r1)" by (cases "try_acquire orc ps d tokens p")
  show ?case
  proof (cases "r1 = Inr None")
    case True
    then have rest: "try_each orc ps ds tokens p1 = (p', r)" using Cons.prems(1) one by simp
    note first = try_acquire_settles [OF one] and more = Cons.IH [OF rest Cons.prems(2)]
    then show ?thesis using True asked_trans [of p p1 p'] extends_trans [of p p1 p'] by (simp add: unsettled_append)
  next
    case False
    then have "p' = p1" "r = r1" using Cons.prems(1) one by (auto split: sum.splits option.splits)
    then show ?thesis using try_acquire_settles [OF one] Cons.prems(2) by simp
  qed
qed

fun held_in :: "(capacity_error + lease) option \<Rightarrow> uuid set" where
  "held_in (Some (Inr l)) = {ls_id l}"
| "held_in _ = {}"

lemma quiet_steps:
  "ordered_candidates ds p = (p', c) \<Longrightarrow> extends p p' \<and> asked p p' = []"
  "loop_time orc p = (p', t) \<Longrightarrow> extends p p' \<and> asked p p' = []"
  "sleep_cancelled orc p = (p', b) \<Longrightarrow> extends p p' \<and> asked p p' = []"
  by (auto simp: ordered_candidates_def loop_time_def sleep_cancelled_def extends_def asked_def Let_def split: prod.splits)

lemma acquire_loop_settles:
  "acquire_loop n orc ps ds tokens deadline p = (p', r) \<Longrightarrow> r \<noteq> Some (Inl Time_Range)
    \<Longrightarrow> extends p p' \<and> unsettled (asked p p') = held_in r"
proof (induction n arbitrary: p)
  case 0
  then show ?case by (auto simp: unsettled_def)
next
  case (Suc n)
  obtain p1 order where o: "ordered_candidates ds p = (p1, order)" by (cases "ordered_candidates ds p")
  obtain p2 r2 where t: "try_each orc ps order tokens p1 = (p2, r2)" by (cases "try_each orc ps order tokens p1")
  obtain p3 now where l: "loop_time orc p2 = (p3, now)" by (cases "loop_time orc p2")
  obtain p4 b where s: "sleep_cancelled orc p3 = (p4, b)" by (cases "sleep_cancelled orc p3")
  have fine: "r2 \<noteq> Inl Time_Range" using Suc.prems o t by auto
  note tried = try_each_settles [OF t fine] and q1 = quiet_steps(1) [OF o] and q3 = quiet_steps(2) [OF l]
    and q4 = quiet_steps(3) [OF s]
  have upto2: "extends p p2 \<and> unsettled (asked p p2) = held_by r2"
    using tried q1 extends_trans [of p p1 p2] asked_trans [of p p1 p2] by simp
  have upto4: "extends p p3" "extends p p4" "asked p p3 = asked p p2" "asked p p4 = asked p p2"
    using upto2 q3 q4 extends_trans [of p p2 p3] extends_trans [of p p3 p4] asked_trans [of p p2 p3]
      asked_trans [of p p3 p4] by simp_all
  consider e where "r2 = Inl e" | k where "r2 = Inr (Some k)" | "r2 = Inr None" by (cases r2) auto
  then show ?case
  proof cases
    case 1
    then have "p' = p2" "r = Some (Inl e)" using Suc.prems(1) o t by simp_all
    then show ?thesis using upto2 1 by simp
  next
    case 2
    then have "p' = p2" "r = Some (Inr k)" using Suc.prems(1) o t by simp_all
    then show ?thesis using upto2 2 by simp
  next
    case 3
    show ?thesis
    proof (cases "deadline - now \<le> 0 \<or> b")
      case True
      then show ?thesis using Suc.prems o t l s 3 upto2 upto4 by (auto split: if_splits)
    next
      case False
      then have rest: "acquire_loop n orc ps ds tokens deadline p4 = (p', r)" using Suc.prems(1) o t l s 3 by auto
      have "unsettled (asked p p4) = {}" using upto2 upto4(4) 3 by simp
      then show ?thesis
        using Suc.IH [OF rest Suc.prems(2)] upto4(2) extends_trans [of p p4 p'] asked_trans [of p p4 p']
        by (simp add: unsettled_append)
    qed
  qed
qed

lemma require_same:
  "require_initialized orc v p = (p', r) \<Longrightarrow> extends p p' \<and> asked p p' = []"
  by (auto simp: require_initialized_def set_registration_def extends_def asked_def Let_def
      split: if_splits prod.splits sum.splits view.splits dest!: clock_read_same)

lemma acquire_settles:
  assumes "acquire n orc ps v ds timeout tokens p = (p', r)" and "r \<noteq> Some (Inl Time_Range)"
  shows "extends p p' \<and> unsettled (asked p p') = held_in r"
proof -
  obtain p1 e where req: "require_initialized orc v p = (p1, e)" by (cases "require_initialized orc v p")
  note q1 = require_same [OF req]
  let ?up = "p1\<lparr>pl_waiters := pl_waiters p1 + 1\<rparr>"
  obtain p2 now where l: "loop_time orc ?up = (p2, now)" by (cases "loop_time orc ?up")
  obtain p3 r3 where run: "acquire_loop n orc ps ds tokens (now + timeout) p2 = (p3, r3)"
    by (cases "acquire_loop n orc ps ds tokens (now + timeout) p2")
  consider "p' = p \<and> held_in r = {}" | "p' = p1 \<and> held_in r = {}"
    | "p' = p3\<lparr>pl_waiters := pl_waiters p3 - 1\<rparr>" "r = r3"
    using assms(1) req l run by (auto simp: acquire_def split: if_splits option.splits)
  then show ?thesis
  proof cases
    case 3
    then have loop: "extends p2 p3 \<and> unsettled (asked p2 p3) = held_in r"
      using acquire_loop_settles [OF run] assms(2) by simp
    have "pl_log p2 = pl_log p" "pl_waiters p2 = pl_waiters p + 1"
      using quiet_steps(2) [OF l] q1 by (auto simp: extends_def asked_def)
    then show ?thesis using 3 loop by (auto simp: extends_def asked_def)
  qed (use q1 in \<open>auto simp: extends_def asked_def unsettled_def\<close>)
qed

text \<open>
  C21. Waiting for capacity loses nothing it was told of. However Redis, the clocks and the cancellation of
  the caller behave, when \<open>acquire\<close> ends, a release has been requested, whatever its result, for every
  lease that an answer of Redis granted during the call, in time or late, except the one lease it
  returns; and the number of waiters is what it was before. Two calls are left out: a script whose
  answer never arrived may have granted a lease that runs out by itself, and an expiry beyond the year
  9999 ends the call with a lease it was granted.
\<close>

theorem acquire_settles_every_grant:
  assumes "acquire n orc ps v ds timeout tokens p = (p', r)" and "r \<noteq> Some (Inl Time_Range)"
  shows "(\<exists>l. pl_log p' = pl_log p @ l \<and> unsettled l = held_in r) \<and> pl_waiters p' = pl_waiters p"
  using acquire_settles [OF assms] by (auto simp: extends_def asked_def)

definition sample_oracle :: "int \<Rightarrow> outside" where
  "sample_oracle expires = \<lparr>or_eval = (\<lambda>_ q. case q of
      Acquire_Script _ _ _ _ \<Rightarrow> Answered (Many_Values [R_Int 1, R_Int 1, R_Int 8, R_Int expires])
    | Claim_Script _ _ _ _ \<Rightarrow> Answered (Many_Values [R_Int 1, R_Int 1, R_Int 1])
    | _ \<Rightarrow> Answered (One_Value (R_Int 1))),
    or_clock = (\<lambda>_. Some 0), or_loop = (\<lambda>_. 0), or_sleep = (\<lambda>_. False), or_uuid = (\<lambda>_. 7),
    or_resolve = (\<lambda>_ _. Resolve_Failed)\<rparr>"

definition sample_settings :: pool_settings where
  "sample_settings = \<lparr>ps_lease_ms = 30000, ps_poll = 1 / 20, ps_max_waiters = 4, ps_cooldown_ms = 30000,
     ps_latency_ms = 30000, ps_window = 20, ps_metadata_ms = 3600000, ps_refresh = 900, ps_owner = 5\<rparr>"

definition sample_pool :: pool where
  "sample_pool = (fst (validate_configuration [sample_deployment ''a'' 3] empty_pool))
     \<lparr>pl_root := \<lparr>rg_initialized = True, rg_valid_until = 3240, rg_refreshing = False, rg_next = 900\<rparr>\<rparr>"

theorem acquire_settles_every_grant_witness:
  "\<exists>l. pl_log (fst (acquire 1 (sample_oracle 60000) sample_settings Root [sample_deployment ''a'' 3] 5 10 sample_pool))
       = pl_log sample_pool @ l \<and> unsettled l = {7}"
proof -
  let ?run = "acquire 1 (sample_oracle 60000) sample_settings Root [sample_deployment ''a'' 3] 5 10 sample_pool"
  have "snd ?run = Some (Inr \<lparr>ls_id = 7, ls_deployment = ''a'', ls_scope = ''account'', ls_expires = 60000, ls_renew = 15\<rparr>)"
    by code_simp
  moreover have "?run = (fst ?run, snd ?run)" by simp
  ultimately show ?thesis using acquire_settles_every_grant [of 1 _ _ _ _ _ _ _ "fst ?run" "snd ?run"] by simp
qed

section \<open>A failed registration is undone\<close>

text \<open>What a worker may have registered in a stretch of the log.\<close>

fun register_step :: "redis_request \<times> redis_result \<Rightarrow> (string + string) set \<Rightarrow> (string + string) set" where
  "register_step (Claim_Script fp _ _ _, _) S = insert (Inl fp) S"
| "register_step (Register_Script sc _ _ _ _ _, _) S = insert (Inr sc) S"
| "register_step (Rollback_Claim_Script fp _, _) S = S - {Inl fp}"
| "register_step (Rollback_Scope_Script sc _, _) S = S - {Inr sc}"
| "register_step _ S = S"

definition registered :: "redis_log \<Rightarrow> (string + string) set" where
  "registered l = fold register_step l {}"

lemma registration_eval_log:
  "registration_eval orc q p = (p', r) \<Longrightarrow> \<exists>a. pl_log p' = pl_log p @ [(q, a)]"
  by (auto simp: registration_eval_def redis_eval_def Let_def split: redis_result.splits)

lemma claim_log:
  "claim_fingerprints orc ps pairs claimed p = (p', c, e) \<Longrightarrow>
    \<exists>l. pl_log p' = pl_log p @ l \<and> fold register_step l S \<subseteq> S \<union> Inl ` snd ` set pairs"
proof (induction pairs arbitrary: claimed p S)
  case (Cons pr pairs)
  obtain d fp where pr: "pr = (d, fp)" by (cases pr)
  let ?q = "Claim_Script fp (ps_owner ps) (dp_scope d) (ps_metadata_ms ps)"
  obtain p1 r where r: "registration_eval orc ?q p = (p1, r)" by (cases "registration_eval orc ?q p")
  then obtain a where a: "pl_log p1 = pl_log p @ [(?q, a)]" using registration_eval_log by blast
  have stop: ?case if "p' = p1" using that a pr by (intro exI [of _ "[(?q, a)]"]) auto
  have more: ?case if go: "claim_fingerprints orc ps pairs c1 p1 = (p', c, e)" for c1
  proof -
    obtain l where "pl_log p' = pl_log p1 @ l" "fold register_step l (insert (Inl fp) S) \<subseteq> insert (Inl fp) S \<union> Inl ` snd ` set pairs"
      using Cons.IH [OF go, of "insert (Inl fp) S"] by blast
    then show ?thesis using a pr by (intro exI [of _ "(?q, a) # l"]) auto
  qed
  show ?case using Cons.prems r pr stop more by (auto simp: Let_def split: sum.splits prod.splits if_splits)
qed auto

lemma policies_log:
  "register_policies orc ps l made p = (p', m, e) \<Longrightarrow>
    \<exists>k. pl_log p' = pl_log p @ k \<and> fold register_step k S \<subseteq> S \<union> Inr ` fst ` set l"
proof (induction l arbitrary: made p S)
  case (Cons pr l)
  obtain sc lim where pr: "pr = (sc, lim)" by (cases pr)
  let ?q = "Register_Script sc (ps_owner ps) (sl_base lim) (zero_or (sl_rpm lim)) (zero_or (sl_tpm lim)) (ps_metadata_ms ps)"
  obtain p1 r where r: "registration_eval orc ?q p = (p1, r)" by (cases "registration_eval orc ?q p")
  then obtain a where a: "pl_log p1 = pl_log p @ [(?q, a)]" using registration_eval_log by blast
  have stop: ?case if "p' = p1" using that a pr by (intro exI [of _ "[(?q, a)]"]) auto
  have more: ?case if go: "register_policies orc ps l c1 p1 = (p', m, e)" for c1
  proof -
    obtain k where "pl_log p' = pl_log p1 @ k" "fold register_step k (insert (Inr sc) S) \<subseteq> insert (Inr sc) S \<union> Inr ` fst ` set l"
      using Cons.IH [OF go, of "insert (Inr sc) S"] by blast
    then show ?thesis using a pr by (intro exI [of _ "(?q, a) # k"]) auto
  qed
  show ?case using Cons.prems r pr stop more by (auto simp: Let_def split: sum.splits prod.splits if_splits)
qed auto

lemma evals_log:
  "\<exists>k. pl_log (fold (\<lambda>q p. fst (redis_eval orc q p)) qs p) = pl_log p @ k \<and> map fst k = qs"
proof (induction qs arbitrary: p)
  case (Cons q qs)
  obtain k where "pl_log (fold (\<lambda>q p. fst (redis_eval orc q p)) qs (fst (redis_eval orc q p)))
      = pl_log (fst (redis_eval orc q p)) @ k" "map fst k = qs" using Cons.IH by blast
  then show ?case by (intro exI [of _ "(q, or_eval orc (pl_log p) q) # k"]) (simp add: redis_eval_def Let_def)
qed simp

lemma rollback_steps:
  "map fst k = map (\<lambda>fp. Rollback_Claim_Script fp w) fps @ map (\<lambda>sc. Rollback_Scope_Script sc w) scs
    \<Longrightarrow> fold register_step k S = S - Inl ` set fps - Inr ` set scs"
proof (induction k arbitrary: fps scs S)
  case (Cons x k)
  obtain q a where x: "x = (q, a)" by (cases x)
  show ?case
  proof (cases fps)
    case Nil
    then obtain sc rest where "scs = sc # rest" "q = Rollback_Scope_Script sc w" using Cons.prems x by (cases scs) auto
    then show ?thesis using Cons.prems Cons.IH [of "[]" rest] x Nil by auto
  next
    case (Cons fp rest)
    then show ?thesis using Cons.prems Cons.IH [of rest scs] x by auto
  qed
qed auto

lemma rollback_log:
  "\<exists>k. pl_log (rollback_registration orc w fps scs p) = pl_log p @ k
     \<and> (\<forall>S. fold register_step k S = S - Inl ` set fps - Inr ` set scs)"
proof -
  obtain k where "pl_log (rollback_registration orc w fps scs p) = pl_log p @ k"
      "map fst k = map (\<lambda>fp. Rollback_Claim_Script fp w) (rev fps) @ map (\<lambda>sc. Rollback_Scope_Script sc w) (rev scs)"
    using evals_log unfolding rollback_registration_def by blast
  then show ?thesis using rollback_steps [of k w "rev fps" "rev scs"] by auto
qed

lemma resolve_refs_log: "resolve_refs orc refs found p = (p', r) \<Longrightarrow> pl_log p' = pl_log p"
  by (induction refs arbitrary: found p)
    (auto simp: Let_def split: if_splits resolve_result.splits)

lemma resolved_credentials_log: "resolved_credentials orc creds ds p = (p', r) \<Longrightarrow> pl_log p' = pl_log p"
  by (auto simp: resolved_credentials_def Let_def split: option.splits if_splits prod.splits sum.splits
      dest: resolve_refs_log)

lemma undone_after:
  assumes "pl_log p3 = pl_log p @ l" and "fold register_step l {} \<subseteq> Inl ` set fps \<union> Inr ` set scs"
    and "p' = rollback_registration orc w fps scs p3"
  shows "\<exists>l. pl_log p' = pl_log p @ l \<and> registered l = {}"
proof -
  obtain k where "pl_log p' = pl_log p3 @ k" "\<forall>S. fold register_step k S = S - Inl ` set fps - Inr ` set scs"
    using rollback_log [of orc w fps scs p3] assms(3) by blast
  then show ?thesis using assms(1,2) by (intro exI [of _ "l @ k"]) (auto simp: registered_def)
qed

lemma failed_claims_are_undone:
  assumes claims: "claim_fingerprints orc ps pairs [] p2 = (p3, claimed, e3)"
    and log: "pl_log p2 = pl_log p"
    and p': "p' = (case e3 of
        Some e \<Rightarrow> rollback_registration orc (ps_owner ps) (uniq (map snd pairs)) scs p3
      | None \<Rightarrow> rollback_registration orc (ps_owner ps) (uniq (map snd pairs)) scs
          (fst (register_policies orc ps l [] p3)))"
    and scs: "scs = map fst l"
  shows "\<exists>k. pl_log p' = pl_log p @ k \<and> registered k = {}"
proof -
  have fps: "set (uniq (map snd pairs)) = snd ` set pairs" by (simp add: uniq_def)
  obtain k3 where k3: "pl_log p3 = pl_log p @ k3" "fold register_step k3 {} \<subseteq> Inl ` snd ` set pairs"
    using claim_log [OF claims, of "{}"] log by auto
  show ?thesis
  proof (cases e3)
    case (Some e)
    have "fold register_step k3 {} \<subseteq> Inl ` set (uniq (map snd pairs)) \<union> Inr ` set scs"
      using k3(2) unfolding fps by blast
    then show ?thesis using undone_after [OF k3(1)] p' Some by auto
  next
    case None
    obtain p4 made e4 where po: "register_policies orc ps l [] p3 = (p4, made, e4)"
      by (cases "register_policies orc ps l [] p3") auto
    obtain k4 where k4: "pl_log p4 = pl_log p3 @ k4"
        "fold register_step k4 (fold register_step k3 {}) \<subseteq> fold register_step k3 {} \<union> Inr ` fst ` set l"
      using policies_log [OF po, of "fold register_step k3 {}"] by auto
    have "pl_log p4 = pl_log p @ k3 @ k4" using k3(1) k4(1) by simp
    moreover have "fold register_step (k3 @ k4) {} \<subseteq> Inl ` set (uniq (map snd pairs)) \<union> Inr ` set scs"
      using k3(2) k4(2) unfolding fps scs fold_append o_apply set_map by blast
    moreover have "p' = rollback_registration orc (ps_owner ps) (uniq (map snd pairs)) scs p4"
      using p' None po by simp
    ultimately show ?thesis using undone_after by blast
  qed
qed

text \<open>
  When a worker without a valid registration fails to register its catalog, at whatever step
  and for whatever reason, all the fingerprints and scopes it may have claimed on the way are
  rolled back: nothing it asked Redis to record is left unrevoked.
\<close>

theorem failed_registration_is_undone:
  assumes "register_metadata orc ps creds c l False p = (p', Inl e)"
  shows "\<exists>k. pl_log p' = pl_log p @ k \<and> registered k = {}"
proof -
  obtain p1 t where clock: "clock_read orc p = (p1, t)" by (cases "clock_read orc p")
  then have log1: "pl_log p1 = pl_log p" using clock_read_same by blast
  obtain p2 cr where cr: "resolved_credentials orc creds (map snd c) p1 = (p2, cr)"
    by (cases "resolved_credentials orc creds (map snd c) p1")
  then have log2: "pl_log p2 = pl_log p" using resolved_credentials_log log1 by simp
  show ?thesis
  proof (cases "\<exists>t0 found pairs. t = Inr t0 \<and> cr = Inr found \<and> pair_fingerprints found (map snd c) [] = Some pairs")
    case False
    then have "p' = p1 \<or> p' = p2" using assms clock cr
      by (cases t) (auto simp: register_metadata_def split: sum.splits option.splits)
    then have "pl_log p' = pl_log p" using log1 log2 by auto
    then show ?thesis by (simp add: registered_def)
  next
    case True
    then obtain t0 found pairs where
      f: "t = Inr t0" "cr = Inr found" "pair_fingerprints found (map snd c) [] = Some pairs" by blast
    obtain p3 claimed e3 where cl: "claim_fingerprints orc ps pairs [] p2 = (p3, claimed, e3)"
      by (cases "claim_fingerprints orc ps pairs [] p2") auto
    from assms clock cr f cl show ?thesis
      by (intro failed_claims_are_undone [OF cl log2 _ refl])
        (auto simp: register_metadata_def split: option.splits prod.splits)
  qed
qed

theorem failed_registration_is_undone_witness:
  "\<exists>k. pl_log (fst (register_metadata (sample_oracle 60000) sample_settings
         (Some [(''key'', ''f'')]) (pl_catalog sample_pool) (pl_limits sample_pool) False sample_pool))
       = pl_log sample_pool @ k \<and> registered k = {}"
proof -
  let ?run = "register_metadata (sample_oracle 60000) sample_settings (Some [(''key'', ''f'')])
     (pl_catalog sample_pool) (pl_limits sample_pool) False sample_pool"
  have "snd ?run = Inl Backend_Error" by code_simp
  then have "?run = (fst ?run, Inl Backend_Error)" by (simp only: prod_eq_iff fst_conv snd_conv simp_thms)
  then show ?thesis by (rule failed_registration_is_undone)
qed

section \<open>Where it goes wrong\<close>

text \<open>
  A malformed fingerprint is remembered before it is checked. After a resolver once returned
  one, every later registration of the catalog fails, whatever the resolver would answer then.
\<close>

theorem malformed_fingerprint_sticks:
  assumes "pl_fingerprints p = []" and "or_resolve orc (pl_resolves p) (dp_secret d) = Resolved fp"
    and "\<not> descriptor_ok (dp_secret d) fp"
  shows "\<exists>p'. resolved_credentials orc None [d] p = (p', Inl Configuration_Error)
    \<and> (\<forall>orc' ds. d \<in> set ds \<longrightarrow> resolved_credentials orc' None ds p' = (p', Inl Configuration_Error))"
proof -
  let ?p = "p\<lparr>pl_resolves := Suc (pl_resolves p), pl_fingerprints := [(dp_secret d, fp)]\<rparr>"
  have "resolved_credentials orc None [d] p = (?p, Inl Configuration_Error)"
    using assms by (simp add: resolved_credentials_def uniq_def)
  moreover have "resolved_credentials orc' None ds ?p = (?p, Inl Configuration_Error)" if "d \<in> set ds" for orc' ds
  proof -
    have "\<exists>r \<in> set (uniq (map dp_secret ds)). r = dp_secret d" using that by (auto simp: uniq_def)
    then show ?thesis using assms(3) by (auto simp: resolved_credentials_def list_ex_iff)
  qed
  ultimately show ?thesis by blast
qed

theorem malformed_fingerprint_sticks_witness:
  "\<exists>p'. resolved_credentials (sample_oracle 60000\<lparr>or_resolve := \<lambda>_ _. Resolved ''short''\<rparr>) None
       [sample_deployment ''a'' 3] empty_pool = (p', Inl Configuration_Error)
     \<and> resolved_credentials (sample_oracle 60000\<lparr>or_resolve := \<lambda>_ _. Resolved (replicate 64 CHR ''a'')\<rparr>) None
       [sample_deployment ''a'' 3] p' = (p', Inl Configuration_Error)"
proof -
  have "\<not> descriptor_ok (dp_secret (sample_deployment ''a'' 3)) ''short''" by code_simp
  then show ?thesis
    using malformed_fingerprint_sticks [of empty_pool "sample_oracle 60000\<lparr>or_resolve := \<lambda>_ _. Resolved ''short''\<rparr>"
        "sample_deployment ''a'' 3" "''short''"] by (auto simp: empty_pool_def)
qed

text \<open>
  The keys of a scope are kept for an hour, but the pool accepts longer leases. With a limit
  of one, a lease of four thousand seconds and an hour without a call, the key of the leases runs
  out before the lease: a second lease is granted while the first has minutes to go.
\<close>

theorem long_leases_exceed_the_limit:
  "\<exists>ps s1 s2 s3. mk_settings ''hub:'' 4000 (1 / 20) 1024 30 30 20 12000 None 5 = Some ps
     \<and> register_script 1 5 1 0 0 (ps_metadata_ms ps) max_owner_records empty_scope = (s1, Numbers [1, 0, 0, 1, 1])
     \<and> acquire_script 10 11 (ps_lease_ms ps) 5 state_ttl_ms s1 = (s2, Numbers [1, 1, 1, 4000010])
     \<and> acquire_script 3600020 12 (ps_lease_ms ps) 5 state_ttl_ms s2 = (s3, Numbers [1, 1, 1, 7600020])"
proof -
  let ?s1 = "fst (register_script 1 5 1 0 0 12000000 4096 empty_scope)"
  let ?s2 = "fst (acquire_script 10 11 4000000 5 3600000 ?s1)"
  have "map_option (\<lambda>ps. (ps_metadata_ms ps, ps_lease_ms ps)) (mk_settings ''hub:'' 4000 (1 / 20) 1024 30 30 20 12000 None 5)
      = Some (12000000, 4000000)" by code_simp
  then obtain ps where "mk_settings ''hub:'' 4000 (1 / 20) 1024 30 30 20 12000 None 5 = Some ps"
      "ps_metadata_ms ps = 12000000" "ps_lease_ms ps = 4000000" by auto
  moreover have "snd (register_script 1 5 1 0 0 12000000 4096 empty_scope) = Numbers [1, 0, 0, 1, 1]"
    "snd (acquire_script 10 11 4000000 5 3600000 ?s1) = Numbers [1, 1, 1, 4000010]"
    "snd (acquire_script 3600020 12 4000000 5 3600000 ?s2) = Numbers [1, 1, 1, 7600020]"
    by code_simp+
  ultimately show ?thesis
    by (intro exI [of _ ps] exI [of _ ?s1] exI [of _ ?s2] exI [of _ "fst (acquire_script 3600020 12 4000000 5 3600000 ?s2)"])
      (simp add: prod_eq_iff state_ttl_ms_def max_owner_records_def)
qed

section \<open>Well-formed pools\<close>

text \<open>
  Every deployment of the catalog stands under its id, and its scope has limits whose base is a
  positive number of slots within the deployment's.
\<close>

definition pool_ok :: "pool \<Rightarrow> bool" where
  "pool_ok p \<longleftrightarrow> (\<forall>i d. map_of (pl_catalog p) i = Some d \<longrightarrow> dp_id d = i
     \<and> (\<exists>l. map_of (pl_limits p) (dp_scope d) = Some l \<and> sl_base l \<le> dp_concurrency d - dp_reserved d))
     \<and> (\<forall>sc l. map_of (pl_limits p) sc = Some l \<longrightarrow> 1 \<le> sl_base l)"

definition keeps_catalog :: "pool \<Rightarrow> pool \<Rightarrow> bool" where
  "keeps_catalog p p' \<longleftrightarrow> pl_catalog p' = pl_catalog p \<and> pl_limits p' = pl_limits p"

lemma limit_range:
  assumes "deployment_ok bracket_ok d"
  obtains base where "safe_operational_limit (dp_concurrency d) (dp_utilization d) (dp_reserved d) = Some base"
    "1 \<le> base" "base \<le> dp_concurrency d - dp_reserved d"
proof -
  have "to_double (9 / 10) \<le> 1" by code_simp
  then show ?thesis using assms that by (simp add: safe_operational_limit_def deployment_ok_def)
qed

text \<open>One deployment more, with limits no laxer than those its scope had.\<close>

lemma add_deployment_ok:
  assumes ok: "pool_ok p" and base: "1 \<le> sl_base l" "sl_base l \<le> dp_concurrency d - dp_reserved d"
    and old: "\<And>o'. map_of (pl_limits p) (dp_scope d) = Some o' \<Longrightarrow> sl_base l \<le> sl_base o'"
    and cat: "pl_catalog p' = AList.update (dp_id d) d (pl_catalog p)"
    and lim: "pl_limits p' = AList.update (dp_scope d) l (pl_limits p)"
  shows "pool_ok p'"
  unfolding pool_ok_def
proof (intro allI impI conjI)
  fix sc k
  assume "map_of (pl_limits p') sc = Some k"
  then show "1 \<le> sl_base k" using ok base by (auto simp: lim pool_ok_def split: if_splits)
next
  fix i e
  assume e: "map_of (pl_catalog p') i = Some e"
  have "dp_id e = i \<and> (\<exists>k. map_of (pl_limits p') (dp_scope e) = Some k \<and> sl_base k \<le> dp_concurrency e - dp_reserved e)"
  proof (cases "i = dp_id d")
    case True
    then show ?thesis using e base by (simp add: cat lim)
  next
    case False
    then have "map_of (pl_catalog p) i = Some e" using e by (simp add: cat)
    then obtain k where k: "dp_id e = i" "map_of (pl_limits p) (dp_scope e) = Some k"
        "sl_base k \<le> dp_concurrency e - dp_reserved e"
      using ok unfolding pool_ok_def by blast
    then show ?thesis using old [of k] by (cases "dp_scope e = dp_scope d") (auto simp: lim)
  qed
  then show "dp_id e = i" "\<exists>k. map_of (pl_limits p') (dp_scope e) = Some k \<and> sl_base k \<le> dp_concurrency e - dp_reserved e"
    by blast+
qed

lemma configure_ok:
  assumes "\<forall>d \<in> set ds. deployment_ok bracket_ok d" and "pool_ok p"
  shows "pool_ok (fst (validate_configuration ds p))"
  using assms
proof (induction ds arbitrary: p)
  case (Cons d ds)
  obtain base where base: "safe_operational_limit (dp_concurrency d) (dp_utilization d) (dp_reserved d) = Some base"
      "1 \<le> base" "base \<le> dp_concurrency d - dp_reserved d"
    using limit_range Cons.prems(1) by auto
  define l where "l = \<lparr>sl_base = base, sl_rpm = dp_rpm d, sl_tpm = dp_tpm d\<rparr>"
  define l1 where "l1 = (case map_of (pl_limits p) (dp_scope d) of None \<Rightarrow> l | Some old \<Rightarrow> merge_limits old l)"
  define q where "q = p\<lparr>pl_catalog := AList.update (dp_id d) d (pl_catalog p), pl_limits := AList.update (dp_scope d) l1 (pl_limits p)\<rparr>"
  have step: "fst (validate_configuration (d # ds) p) = p \<or> validate_configuration (d # ds) p = validate_configuration ds q"
    unfolding validate_configuration.simps(2) Let_def base(1) q_def l1_def l_def by simp
  have l1: "1 \<le> sl_base l1" "sl_base l1 \<le> dp_concurrency d - dp_reserved d"
      "\<And>o'. map_of (pl_limits p) (dp_scope d) = Some o' \<Longrightarrow> sl_base l1 \<le> sl_base o'"
    using Cons.prems(2) base
    by (auto simp: l1_def l_def merge_limits_def pool_ok_def split: option.split)
  have "pool_ok q" by (rule add_deployment_ok [OF Cons.prems(2) l1]) (simp_all add: q_def)
  then show ?case using step Cons by auto
qed simp

subsection \<open>The operations leave the catalog alone\<close>

lemma outside_keeps [simp]:
  "keeps_catalog p (fst (redis_eval orc q p))" "keeps_catalog p (fst (clock_read orc p))"
  "keeps_catalog p (set_registration v r p)" "keeps_catalog p (set_load sc n p)"
  "keeps_catalog p (release_ignoring_errors orc sc lid p)"
  by (simp_all add: keeps_catalog_def redis_eval_def clock_read_def set_registration_def set_load_def
      release_ignoring_errors_def Let_def split: view.split)

lemma keeps_step: "f p = (p', r) \<Longrightarrow> keeps_catalog p (fst (f p)) \<Longrightarrow> pl_catalog p' = pl_catalog p \<and> pl_limits p' = pl_limits p"
  by (simp add: keeps_catalog_def)

lemmas small_keeps = keeps_step [of "redis_eval orc q" for orc q, OF _ outside_keeps(1)]
  keeps_step [of "clock_read orc" for orc, OF _ outside_keeps(2)]

lemma set_keeps [simp]:
  "pl_catalog (set_registration v r p) = pl_catalog p" "pl_limits (set_registration v r p) = pl_limits p"
  "pl_catalog (set_load sc n p) = pl_catalog p" "pl_limits (set_load sc n p) = pl_limits p"
  "pl_catalog (release_ignoring_errors orc sc lid p) = pl_catalog p"
  "pl_limits (release_ignoring_errors orc sc lid p) = pl_limits p"
  using outside_keeps(3-5) by (simp_all add: keeps_catalog_def)

lemma resolve_refs_keeps: "resolve_refs orc refs found p = (p', r) \<Longrightarrow> pl_catalog p' = pl_catalog p \<and> pl_limits p' = pl_limits p"
  by (induction refs arbitrary: found p) (auto simp: Let_def split: if_splits resolve_result.splits)

lemma resolved_keeps: "resolved_credentials orc creds ds p = (p', r) \<Longrightarrow> pl_catalog p' = pl_catalog p \<and> pl_limits p' = pl_limits p"
  by (auto simp: resolved_credentials_def Let_def split: option.splits if_splits prod.splits sum.splits
      dest: resolve_refs_keeps)

lemma registration_eval_keeps: "registration_eval orc q p = (p', r) \<Longrightarrow> pl_catalog p' = pl_catalog p \<and> pl_limits p' = pl_limits p"
  by (auto simp: registration_eval_def split: prod.splits redis_result.splits dest: small_keeps)

lemma claims_keep: "claim_fingerprints orc ps pairs cl p = (p', c, e) \<Longrightarrow> pl_catalog p' = pl_catalog p \<and> pl_limits p' = pl_limits p"
  by (induction pairs arbitrary: cl p)
    (auto simp: Let_def split: prod.splits sum.splits if_splits dest!: registration_eval_keeps)

lemma policies_keep: "register_policies orc ps l m p = (p', c, e) \<Longrightarrow> pl_catalog p' = pl_catalog p \<and> pl_limits p' = pl_limits p"
  by (induction l arbitrary: m p)
    (auto simp: Let_def split: prod.splits sum.splits if_splits dest!: registration_eval_keeps)

lemma rollback_keeps [simp]: "pl_catalog (rollback_registration orc w fps scs p) = pl_catalog p
    \<and> pl_limits (rollback_registration orc w fps scs p) = pl_limits p"
proof -
  have "pl_catalog (fold (\<lambda>q p. fst (redis_eval orc q p)) qs p) = pl_catalog p
      \<and> pl_limits (fold (\<lambda>q p. fst (redis_eval orc q p)) qs p) = pl_limits p" for qs p
    by (induction qs arbitrary: p) (simp_all add: redis_eval_def Let_def)
  then show ?thesis by (simp add: rollback_registration_def)
qed

lemma register_metadata_keeps:
  "register_metadata orc ps creds c l prior p = (p', r) \<Longrightarrow> pl_catalog p' = pl_catalog p \<and> pl_limits p' = pl_limits p"
  by (auto simp: register_metadata_def split: prod.splits sum.splits option.splits
      dest!: small_keeps resolved_keeps claims_keep policies_keep)

lemma refresh_keeps: "refresh_registration orc ps creds v now p = (p', r) \<Longrightarrow> pl_catalog p' = pl_catalog p \<and> pl_limits p' = pl_limits p"
  by (auto simp: refresh_registration_def Let_def split: prod.splits sum.splits
      dest!: small_keeps register_metadata_keeps)

lemma ensure_keeps: "ensure_registration orc ps creds hr v force p = (p', r) \<Longrightarrow> pl_catalog p' = pl_catalog p \<and> pl_limits p' = pl_limits p"
  by (auto simp: ensure_registration_def split: if_splits prod.splits sum.splits dest!: small_keeps refresh_keeps)

lemma require_keeps: "require_initialized orc v p = (p', r) \<Longrightarrow> pl_catalog p' = pl_catalog p \<and> pl_limits p' = pl_limits p"
  by (auto simp: require_initialized_def Let_def split: if_splits prod.splits sum.splits dest!: small_keeps)

lemma ordered_keeps: "ordered_candidates ds p = (p', r) \<Longrightarrow> pl_catalog p' = pl_catalog p \<and> pl_limits p' = pl_limits p"
  by (auto simp: ordered_candidates_def Let_def split: prod.splits)

lemma delay_keeps: "safe_renewal_delay orc ps started p = (p', r) \<Longrightarrow> pl_catalog p' = pl_catalog p \<and> pl_limits p' = pl_limits p"
  by (auto simp: safe_renewal_delay_def split: prod.splits sum.splits dest!: small_keeps)

lemma outcome_keeps: "acquire_outcome sc d p = (p', r) \<Longrightarrow> pl_catalog p' = pl_catalog p \<and> pl_limits p' = pl_limits p"
  by (auto simp: acquire_outcome_def split: option.splits list.splits)

lemma try_acquire_keeps: "try_acquire orc ps d tokens p = (p', r) \<Longrightarrow> pl_catalog p' = pl_catalog p \<and> pl_limits p' = pl_limits p"
  by (auto simp: try_acquire_def Let_def split: prod.splits sum.splits redis_result.splits option.splits
      dest!: small_keeps outcome_keeps delay_keeps)

lemma try_each_keeps: "try_each orc ps ds tokens p = (p', r) \<Longrightarrow> pl_catalog p' = pl_catalog p \<and> pl_limits p' = pl_limits p"
  by (induction ds arbitrary: p) (auto split: prod.splits sum.splits option.splits dest!: try_acquire_keeps)

lemma acquire_loop_keeps: "acquire_loop n orc ps ds tokens dl p = (p', r) \<Longrightarrow> pl_catalog p' = pl_catalog p \<and> pl_limits p' = pl_limits p"
proof (induction n arbitrary: p)
  case (Suc n)
  then show ?case
    by (auto simp: loop_time_def sleep_cancelled_def split: prod.splits sum.splits option.splits bool.splits if_splits
        dest!: ordered_keeps try_each_keeps)
qed simp

lemma acquire_keeps: "acquire n orc ps v ds t tokens p = (p', r) \<Longrightarrow> pl_catalog p' = pl_catalog p \<and> pl_limits p' = pl_limits p"
  by (auto simp: acquire_def loop_time_def split: if_splits prod.splits option.splits
      dest!: require_keeps acquire_loop_keeps)

lemma release_keeps: "release orc l p = (p', r) \<Longrightarrow> pl_catalog p' = pl_catalog p \<and> pl_limits p' = pl_limits p"
  by (auto simp: release_def split: prod.splits redis_result.splits option.splits if_splits dest!: small_keeps)

lemma renew_keeps: "renew orc ps creds hr v l p = (p', r) \<Longrightarrow> pl_catalog p' = pl_catalog p \<and> pl_limits p' = pl_limits p"
  by (auto simp: renew_def split: prod.splits redis_result.splits option.splits if_splits sum.splits
      dest!: small_keeps ensure_keeps delay_keeps)

lemma health_keeps:
  "record_outcome orc sc status latency ok p = (p', r1) \<Longrightarrow> pl_catalog p' = pl_catalog p \<and> pl_limits p' = pl_limits p"
  "effective_limit orc sc p = (p', r2) \<Longrightarrow> pl_catalog p' = pl_catalog p \<and> pl_limits p' = pl_limits p"
  by (auto simp: record_outcome_def effective_limit_def split: prod.splits redis_result.splits if_splits dest!: small_keeps)

lemma scoped_keeps: "scoped ds p = Inr (p', v) \<Longrightarrow> pl_catalog p' = pl_catalog p \<and> pl_limits p' = pl_limits p"
  by (auto simp: scoped_def Let_def split: if_splits)

text \<open>The pools a program can reach: configured with valid deployments and used in any way.\<close>

inductive pool_reachable :: "(string \<Rightarrow> bool) \<Rightarrow> pool \<Rightarrow> bool" for bracket_ok where
  pool_new: "pool_reachable bracket_ok empty_pool"
| pool_configured: "pool_reachable bracket_ok p \<Longrightarrow> \<forall>d \<in> set ds. deployment_ok bracket_ok d
    \<Longrightarrow> validate_configuration ds p = (p', e) \<Longrightarrow> pool_reachable bracket_ok p'"
| pool_scoped: "pool_reachable bracket_ok p \<Longrightarrow> scoped ds p = Inr (p', v) \<Longrightarrow> pool_reachable bracket_ok p'"
| pool_registered: "pool_reachable bracket_ok p \<Longrightarrow> ensure_registration orc ps creds hr v force p = (p', e)
    \<Longrightarrow> pool_reachable bracket_ok p'"
| pool_acquired: "pool_reachable bracket_ok p \<Longrightarrow> acquire n orc ps v ds t tokens p = (p', l) \<Longrightarrow> pool_reachable bracket_ok p'"
| pool_released: "pool_reachable bracket_ok p \<Longrightarrow> release orc ls p = (p', b) \<Longrightarrow> pool_reachable bracket_ok p'"
| pool_renewed: "pool_reachable bracket_ok p \<Longrightarrow> renew orc ps creds hr v ls p = (p', l') \<Longrightarrow> pool_reachable bracket_ok p'"
| pool_reported: "pool_reachable bracket_ok p \<Longrightarrow> record_outcome orc sc status latency ok p = (p', e)
    \<Longrightarrow> pool_reachable bracket_ok p'"
| pool_asked: "pool_reachable bracket_ok p \<Longrightarrow> effective_limit orc sc p = (p', i) \<Longrightarrow> pool_reachable bracket_ok p'"

lemma pool_ok_same: "pool_ok p \<Longrightarrow> pl_catalog p' = pl_catalog p \<and> pl_limits p' = pl_limits p \<Longrightarrow> pool_ok p'"
  by (simp add: pool_ok_def)

text \<open>
  C22. A pool configured with valid deployments stays well-formed whatever is done with it: every
  deployment of the catalog stands under its own id, its scope has limits, and their base limit
  is at least one and no more than the slots the deployment does not reserve. So the lookups and
  the division in the order of the candidates never fail.
\<close>

theorem reachable_pools_are_well_formed:
  assumes "pool_reachable bracket_ok p" and "map_of (pl_catalog p) i = Some d"
  shows "dp_id d = i \<and> (\<exists>l. map_of (pl_limits p) (dp_scope d) = Some l
    \<and> 1 \<le> sl_base l \<and> sl_base l \<le> dp_concurrency d - dp_reserved d)"
proof -
  from assms(1) have "pool_ok p"
  proof (induction rule: pool_reachable.induct)
    case pool_new
    show ?case by (simp add: pool_ok_def empty_pool_def)
  next
    case (pool_configured p ds p' e)
    then show ?case using configure_ok [of ds bracket_ok p] by simp
  qed (blast intro: pool_ok_same dest: scoped_keeps ensure_keeps acquire_keeps release_keeps renew_keeps health_keeps)+
  then show ?thesis using assms(2) unfolding pool_ok_def by blast
qed

theorem reachable_pools_are_well_formed_witness:
  "\<exists>l. map_of (pl_limits (fst (validate_configuration [sample_deployment ''a'' 3] empty_pool))) ''account'' = Some l
     \<and> 1 \<le> sl_base l \<and> sl_base l \<le> 9"
proof -
  let ?p = "fst (validate_configuration [sample_deployment ''a'' 3] empty_pool)"
  have "deployment_ok (\<lambda>_. True) (sample_deployment ''a'' 3)" by code_simp
  then have "pool_reachable (\<lambda>_. True) ?p"
    using pool_configured [OF pool_new, of "[sample_deployment ''a'' 3]" "\<lambda>_. True" ?p] by (simp add: prod_eq_iff)
  moreover have "map_of (pl_catalog ?p) ''a'' = Some (sample_deployment ''a'' 3)" by code_simp
  ultimately show ?thesis
    using reachable_pools_are_well_formed by (fastforce simp: sample_deployment_def)
qed

end
