(* ===== verification/Model_Gateway.thy ===== *)
theory Model_Gateway
  imports Capacity_Operations Json_Value
begin

text \<open>
  The model gateway of \<open>models/gateway.py\<close>: it takes a request along a chain of logical models,
  leases capacity for each, runs the transport beside a heartbeat that renews the lease, reports
  the outcome and releases the lease. The capacity controller is a record of operations, as the
  code has it a protocol; the secret resolver, the transport, the token estimator and the clock
  are outside. Requests and responses are those of \<open>models/types.py\<close>.
\<close>

section \<open>Requests and responses\<close>

definition schema_name_ok :: "string \<Rightarrow> bool" where
  "schema_name_ok n \<longleftrightarrow> n \<noteq> [] \<and> length n \<le> 64 \<and> list_all (\<lambda>c. c \<in> set (upper_alpha @ lower_alnum @ ''_-'')) n"

datatype message_content = Plain string | Parts "(string \<times> json) list list"

record model_message =
  ms_role :: string
  ms_content :: message_content

definition has_exactly :: "string list \<Rightarrow> (string \<times> json) list \<Rightarrow> bool" where
  "has_exactly ks part \<longleftrightarrow> set (map fst part) = set ks"

definition image_url_ok :: "json option \<Rightarrow> bool" where
  "image_url_ok j = (case j of
      Some (JObj kvs) \<Rightarrow> set (map fst kvs) \<subseteq> {''url'', ''detail''}
        \<and> (case map_of kvs ''url'' of Some (JStr u) \<Rightarrow> u \<noteq> [] \<and> u = py_strip u | _ \<Rightarrow> False)
        \<and> map_of kvs ''detail'' \<in> {None, Some JNull, Some (JStr ''auto''), Some (JStr ''low''), Some (JStr ''high'')}
    | _ \<Rightarrow> False)"

definition content_part_ok :: "(string \<times> json) list \<Rightarrow> bool" where
  "content_part_ok part =
     (if map_of part ''type'' = Some (JStr ''text'')
      then has_exactly [''type'', ''text''] part \<and> (case map_of part ''text'' of Some (JStr _) \<Rightarrow> True | _ \<Rightarrow> False)
      else map_of part ''type'' = Some (JStr ''image_url'') \<and> has_exactly [''type'', ''image_url''] part
        \<and> image_url_ok (map_of part ''image_url''))"

definition message_ok :: "model_message \<Rightarrow> bool" where
  "message_ok m \<longleftrightarrow> unpadded 64 (ms_role m)
     \<and> (case ms_content m of Plain _ \<Rightarrow> True | Parts ps \<Rightarrow> ps \<noteq> [] \<and> list_all content_part_ok ps)"

record response_schema =
  rs_name :: string
  rs_schema :: "(string \<times> json) list"

record tool_definition =
  td_name :: string
  td_description :: string
  td_parameters :: "(string \<times> json) list"

definition tool_definition_ok :: "tool_definition \<Rightarrow> bool" where
  "tool_definition_ok t \<longleftrightarrow> schema_name_ok (td_name t) \<and> unpadded 1024 (td_description t)"

record model_request =
  rq_logical :: string
  rq_messages :: "model_message list"
  rq_required :: "model_capability list"
  rq_timeout :: pyfloat
  rq_fallback :: bool
  rq_max_tokens :: int
  rq_schema :: "response_schema option"
  rq_tools :: "tool_definition list"

definition request_ok :: "model_request \<Rightarrow> bool" where
  "request_ok r \<longleftrightarrow> safe_model_id (rq_logical r) \<and> 0 < rq_timeout r
     \<and> 1 \<le> rq_max_tokens r \<and> rq_max_tokens r \<le> 1000000
     \<and> list_all message_ok (rq_messages r) \<and> list_all tool_definition_ok (rq_tools r)
     \<and> (case rq_schema r of None \<Rightarrow> True
        | Some s \<Rightarrow> schema_name_ok (rs_name s) \<and> Cap_Structured_Output \<in> set (rq_required r))
     \<and> (rq_tools r = [] \<or> Cap_Tool_Calling \<in> set (rq_required r))"

record tool_call =
  tc_id :: string
  tc_name :: string
  tc_arguments :: "(string \<times> json) list"

definition tool_call_ok :: "tool_call \<Rightarrow> bool" where
  "tool_call_ok t \<longleftrightarrow> unpadded 512 (tc_id t) \<and> unpadded 512 (tc_name t)"

record token_usage =
  us_prompt :: int
  us_completion :: int
  us_total :: int

definition usage_ok :: "token_usage \<Rightarrow> bool" where
  "usage_ok u \<longleftrightarrow> 0 \<le> us_prompt u \<and> 0 \<le> us_completion u \<and> 0 \<le> us_total u"

record model_response =
  re_text :: "string option"
  re_tools :: "tool_call list"
  re_usage :: "token_usage option"
  re_metadata :: "(string \<times> json) list"

definition metadata_text_ok :: "string \<Rightarrow> bool" where
  "metadata_text_ok t \<longleftrightarrow> t \<noteq> [] \<and> length t \<le> 256
     \<and> list_all (\<lambda>c. c \<in> set (upper_alpha @ lower_alnum @ ''_./:-'')) t"

definition metadata_ok :: "string \<times> json \<Rightarrow> bool" where
  "metadata_ok kv = (case kv of (k, v) \<Rightarrow>
     k \<in> {''request_id'', ''model'', ''created'', ''system_fingerprint'', ''finish_reason''}
     \<and> (if k = ''created'' then (case v of JInt i \<Rightarrow> 0 \<le> i \<and> i < 2 ^ 63 | _ \<Rightarrow> False)
        else (case v of JStr t \<Rightarrow> metadata_text_ok t | _ \<Rightarrow> False)))"

definition response_ok :: "model_response \<Rightarrow> bool" where
  "response_ok r \<longleftrightarrow> list_all tool_call_ok (re_tools r) \<and> list_all metadata_ok (re_metadata r)
     \<and> (case re_usage r of None \<Rightarrow> True | Some u \<Rightarrow> usage_ok u)"

section \<open>Failures\<close>

text \<open>\<open>Request_Cancelled\<close> is \<open>CancelledError\<close>; a capacity error that is neither handled nor
  redacted leaves as it came.\<close>

datatype model_error =
  Gateway_Error string
| Transport_Error "int option"
| Capacity_Failure capacity_error
| Capacity_Unavailable string
| No_Capable_Deployment
| Request_Cancelled
| Bad_Estimate
| Bad_Completion

record failure =
  mf_error :: model_error
  mf_models :: "string list"
  mf_deployments :: "string list"

type_synonym candidate_groups = "(string \<times> deployment list) list"

definition model_failure_context :: "candidate_groups \<Rightarrow> string list \<times> string list" where
  "model_failure_context gs = (map fst gs, map dp_id (concat (map snd gs)))"

definition attach_model_failure_context :: "model_error \<Rightarrow> candidate_groups \<Rightarrow> failure" where
  "attach_model_failure_context e gs = (case model_failure_context gs of
     (models, deployments) \<Rightarrow> \<lparr>mf_error = e, mf_models = models, mf_deployments = deployments\<rparr>)"

definition bare :: "model_error \<Rightarrow> failure" where
  "bare e = \<lparr>mf_error = e, mf_models = [], mf_deployments = []\<rparr>"

definition raised :: "capacity_error \<Rightarrow> model_error" where
  "raised e = (if e = Cancelled_Error then Request_Cancelled else Capacity_Failure e)"

fun retryable_model_failure :: "model_error \<Rightarrow> bool" where
  "retryable_model_failure (Transport_Error status) =
     (case status of None \<Rightarrow> True | Some s \<Rightarrow> s \<in> {408, 409, 425, 429, 500, 502, 503, 504})"
| "retryable_model_failure (Gateway_Error m) =
     (m \<in> {''model transport failed'', ''model response text is empty'', ''model response is empty''})"
| "retryable_model_failure _ = False"

section \<open>Configuration\<close>

datatype fallback_error = Unsafe_Identifier | Unknown_Source | Unknown_Target | Self_Reference | Fallback_Cycle

type_synonym fallbacks = "(string \<times> string) list"

fun fallback_pairs :: "model_registry \<Rightarrow> fallbacks \<Rightarrow> fallback_error option" where
  "fallback_pairs reg [] = None"
| "fallback_pairs reg ((source, target) # fb) =
     (if \<not> safe_model_id source \<or> \<not> safe_model_id target then Some Unsafe_Identifier
      else if source \<notin> fst ` set (mr_models reg) then Some Unknown_Source
      else if target \<notin> fst ` set (mr_models reg) then Some Unknown_Target
      else if source = target then Some Self_Reference
      else fallback_pairs reg fb)"

text \<open>The walk from one source stops at a model without a fallback or at one it has seen.\<close>

function cyclic_from :: "fallbacks \<Rightarrow> string list \<Rightarrow> string \<Rightarrow> bool" where
  "cyclic_from fb seen current =
     (case map_of fb current of
        None \<Rightarrow> False
      | Some following \<Rightarrow> if current \<in> set seen then True else cyclic_from fb (current # seen) following)"
  by pat_completeness auto

termination cyclic_from
proof (relation "measure (\<lambda>(fb, seen, _). card (fst ` set fb - set seen))")
  fix fb :: fallbacks and seen current following
  assume "map_of fb current = Some following" and "current \<notin> set seen"
  then have "current \<in> fst ` set fb - set seen" by (force dest: map_of_SomeD)
  then have "fst ` set fb - set (current # seen) \<subset> fst ` set fb - set seen" by auto
  then show "((fb, current # seen, following), fb, seen, current) \<in>
      measure (\<lambda>(fb, seen, _). card (fst ` set fb - set seen))"
    by (auto intro: psubset_card_mono)
qed simp

declare cyclic_from.simps [simp del]

definition validate_fallbacks :: "model_registry \<Rightarrow> fallbacks \<Rightarrow> fallback_error option" where
  "validate_fallbacks reg fb = (case fallback_pairs reg fb of
      Some e \<Rightarrow> Some e
    | None \<Rightarrow> if list_ex (cyclic_from fb [] \<circ> fst) fb then Some Fallback_Cycle else None)"

record deployment_pricing =
  dq_input :: decimal
  dq_output :: decimal

definition pricing_ok :: "deployment_pricing \<Rightarrow> bool" where
  "pricing_ok q \<longleftrightarrow> price_ok (dq_input q) \<and> price_ok (dq_output q)"

record gateway =
  gw_registry :: model_registry
  gw_fallbacks :: fallbacks
  gw_pricing :: "(string \<times> deployment_pricing) list"
  gw_wait :: pyfloat
  gw_interval :: pyfloat

datatype gateway_fault = Bad_Interval | Bad_Fallbacks fallback_error | Bad_Pricing | Bad_Capacity capacity_error

definition mk_gateway ::
  "(deployment list \<Rightarrow> 's \<Rightarrow> 's \<times> capacity_error option) \<Rightarrow> model_registry \<Rightarrow> fallbacks \<Rightarrow> pyfloat \<Rightarrow> pyfloat \<Rightarrow> pyfloat
     \<Rightarrow> (string \<times> deployment_pricing) list \<Rightarrow> 's \<Rightarrow> 's \<times> (gateway_fault + gateway)" where
  "mk_gateway validate reg fb wait interval safety pricing s =
     (if wait \<le> 0 \<or> interval \<le> 0 \<or> \<not> (0 < safety \<and> safety \<le> 1 / 2) then (s, Inl Bad_Interval)
      else case validate_fallbacks reg fb of
        Some e \<Rightarrow> (s, Inl (Bad_Fallbacks e))
      | None \<Rightarrow>
          if \<not> list_all (\<lambda>(i, q). safe_model_id i \<and> i \<in> dp_id ` set (mr_deployments reg) \<and> pricing_ok q) pricing
          then (s, Inl Bad_Pricing)
          else (case validate (mr_deployments reg) s of
              (s1, Some e) \<Rightarrow> (s1, Inl (Bad_Capacity e))
            | (s1, None) \<Rightarrow> (s1, Inr \<lparr>gw_registry = reg, gw_fallbacks = fb, gw_pricing = pricing,
                gw_wait = wait, gw_interval = interval\<rparr>)))"

text \<open>The chain of a request follows the fallbacks as long as there are any.\<close>

partial_function (option) follow_fallbacks :: "fallbacks \<Rightarrow> string \<Rightarrow> string list option" where
  "follow_fallbacks fb current = (case map_of fb current of
      None \<Rightarrow> Some []
    | Some following \<Rightarrow> Option.bind (follow_fallbacks fb following) (\<lambda>chain. Some (following # chain)))"

declare follow_fallbacks.simps [code]

definition fallback_chain :: "fallbacks \<Rightarrow> string \<Rightarrow> bool \<Rightarrow> string list option" where
  "fallback_chain fb primary allow =
     (if allow then Option.bind (follow_fallbacks fb primary) (\<lambda>chain. Some (primary # chain)) else Some [primary])"

fun candidate_groups :: "model_registry \<Rightarrow> model_capability list \<Rightarrow> string \<Rightarrow> string list \<Rightarrow> candidate_groups option" where
  "candidate_groups reg required primary [] = Some []"
| "candidate_groups reg required primary (m # ms) =
     (case candidates reg m required of
        None \<Rightarrow> if m = primary then None else Some []
      | Some ds \<Rightarrow> Option.bind (candidate_groups reg required primary ms) (\<lambda>gs. Some ((m, ds) # gs)))"

section \<open>What surrounds the gateway\<close>

text \<open>
  A call of the transport has an answer, the number of renewals the heartbeat completes meanwhile
  unless it fails, and whether the heartbeat is cut off in the middle of one more. The transport
  is taken to end by itself, as the client's own timeout makes it.
\<close>

datatype transport_answer = Responded model_response | Transport_Failed "int option" | Transport_Raised | Caller_Cancelled

record transport_call =
  tr_answer :: transport_answer
  tr_beats :: nat
  tr_cut :: bool

record surroundings =
  su_resolve :: "nat \<Rightarrow> string \<Rightarrow> resolve_result"
  su_transport :: "nat \<Rightarrow> deployment \<Rightarrow> model_request \<Rightarrow> string \<Rightarrow> transport_call"
  su_clock :: "nat \<Rightarrow> pyfloat"
  su_interrupted :: "nat \<Rightarrow> bool"
  su_estimate :: "model_request \<Rightarrow> int"

text \<open>An operation of the controller works on its state \<open>'s\<close>; \<open>'v\<close> is the scoped view it is asked
  through. Acquiring may wait for ever.\<close>

record ('v, 's) controller =
  ct_scoped :: "deployment list \<Rightarrow> 's \<Rightarrow> capacity_error + ('s \<times> 'v)"
  ct_initialize :: "'v \<Rightarrow> 's \<Rightarrow> 's \<times> capacity_error option"
  ct_acquire :: "'v \<Rightarrow> deployment list \<Rightarrow> pyfloat \<Rightarrow> int \<Rightarrow> 's \<Rightarrow> 's \<times> (capacity_error + lease) option"
  ct_renew :: "'v \<Rightarrow> lease \<Rightarrow> 's \<Rightarrow> 's \<times> (capacity_error + lease option)"
  ct_release :: "'v \<Rightarrow> lease \<Rightarrow> 's \<Rightarrow> 's \<times> (capacity_error + bool)"
  ct_record :: "'v \<Rightarrow> string \<Rightarrow> int option \<Rightarrow> pyfloat \<Rightarrow> bool \<Rightarrow> 's \<Rightarrow> 's \<times> capacity_error option"

text \<open>\<open>gs_uses\<close> counts the uses of the surroundings, \<open>gs_attempts\<close> the leased attempts so far with
  what became of them.\<close>

record 's gateway_state =
  gs_capacity :: 's
  gs_uses :: nat
  gs_attempts :: "(string \<times> (model_error + model_response)) list"

definition on_capacity :: "('s \<Rightarrow> 's \<times> 'r) \<Rightarrow> 's gateway_state \<Rightarrow> 's gateway_state \<times> 'r" where
  "on_capacity f st = (case f (gs_capacity st) of (s, r) \<Rightarrow> (st\<lparr>gs_capacity := s\<rparr>, r))"

definition used :: "'s gateway_state \<Rightarrow> 's gateway_state" where
  "used st = st\<lparr>gs_uses := Suc (gs_uses st)\<rparr>"

section \<open>A leased attempt\<close>

text \<open>
  The release is shielded: a cancellation that comes meanwhile is noted once it is done. Only a
  release that is cancelled itself makes the clean up raise.
\<close>

datatype cleanup = Cleanup_Raises | Cleaned "capacity_error option"

definition release_cleanup ::
  "('v, 's) controller \<Rightarrow> surroundings \<Rightarrow> 'v \<Rightarrow> lease \<Rightarrow> 's gateway_state \<Rightarrow> 's gateway_state \<times> cleanup" where
  "release_cleanup ct su v l st = (case on_capacity (ct_release ct v l) st of
     (st1, r) \<Rightarrow> (used st1,
        if r = Inl Cancelled_Error then Cleanup_Raises
        else if su_interrupted su (gs_uses st1) then Cleaned (Some Cancelled_Error)
        else Cleaned (case r of Inl e \<Rightarrow> Some e | Inr _ \<Rightarrow> None)))"

fun heartbeat ::
  "('v, 's) controller \<Rightarrow> pyfloat \<Rightarrow> 'v \<Rightarrow> nat \<Rightarrow> nat \<Rightarrow> lease \<Rightarrow> 's gateway_state
     \<Rightarrow> 's gateway_state \<times> (capacity_error + lease)" where
  "heartbeat ct interval v 0 immediate l st = (st, Inr l)"
| "heartbeat ct interval v (Suc beats) immediate l st =
     (let immediate' = (if min interval (ls_renew l) = 0 then immediate + 1 else 0) in
      if 3 < immediate' then (st, Inl Backend_Error)
      else case on_capacity (ct_renew ct v l) st of
        (st1, Inl e) \<Rightarrow> (st1, Inl e)
      | (st1, Inr None) \<Rightarrow> (st1, Inl Backend_Error)
      | (st1, Inr (Some l')) \<Rightarrow> heartbeat ct interval v beats immediate' l' st1)"

datatype invocation = Finished model_response | Safe_Failure model_error | Raised capacity_error

fun call_transport_safely :: "transport_answer \<Rightarrow> invocation" where
  "call_transport_safely (Responded r) = Finished r"
| "call_transport_safely (Transport_Failed status) = Safe_Failure (Transport_Error status)"
| "call_transport_safely Transport_Raised = Safe_Failure (Gateway_Error ''model transport failed'')"
| "call_transport_safely Caller_Cancelled = Raised Cancelled_Error"

text \<open>Whichever ends first, the transport or the heartbeat, stops the other.\<close>

definition invoke_with_heartbeat ::
  "('v, 's) controller \<Rightarrow> surroundings \<Rightarrow> pyfloat \<Rightarrow> 'v \<Rightarrow> deployment \<Rightarrow> model_request \<Rightarrow> string \<Rightarrow> lease
     \<Rightarrow> 's gateway_state \<Rightarrow> 's gateway_state \<times> invocation" where
  "invoke_with_heartbeat ct su interval v d rq key l st =
     (let call = su_transport su (gs_uses st) d rq key in
      case heartbeat ct interval v (tr_beats call) 0 l (used st) of
        (st1, Inl e) \<Rightarrow> (st1, Raised e)
      | (st1, Inr l') \<Rightarrow>
          (if tr_cut call then fst (on_capacity (ct_renew ct v l') st1) else st1,
           call_transport_safely (tr_answer call)))"

text \<open>The judgement: the result so far, the status code and whether the outcome is recorded.\<close>

fun judge :: "invocation \<Rightarrow> (model_error + model_response) \<times> int option \<times> bool" where
  "judge (Finished r) =
     (if re_text r \<noteq> None \<and> py_strip (the (re_text r)) = [] \<and> re_tools r = []
      then Inl (Gateway_Error ''model response text is empty'')
      else if re_text r = None \<and> re_tools r = [] then Inl (Gateway_Error ''model response is empty'')
      else Inr r, Some 200, True)"
| "judge (Safe_Failure e) = (Inl e, case e of Transport_Error s \<Rightarrow> s | _ \<Rightarrow> None, True)"
| "judge (Raised e) =
     (if e = Cancelled_Error then (Inl Request_Cancelled, None, False)
      else if e = Backend_Error \<or> e = Configuration_Error then (Inl (Capacity_Failure e), None, False)
      else (Inl (Gateway_Error ''model transport failed''), None, True))"

text \<open>A later error only counts when there is none yet.\<close>

definition later_error :: "string \<Rightarrow> capacity_error option \<Rightarrow> model_error + model_response \<Rightarrow> model_error + model_response" where
  "later_error message e r = (case (e, r) of
      (Some e', Inr _) \<Rightarrow> Inl (if e' = Cancelled_Error then Request_Cancelled else Gateway_Error message)
    | _ \<Rightarrow> r)"

definition leased_call ::
  "('v, 's) controller \<Rightarrow> surroundings \<Rightarrow> pyfloat \<Rightarrow> 'v \<Rightarrow> deployment \<Rightarrow> lease \<Rightarrow> model_request
     \<Rightarrow> 's gateway_state \<Rightarrow> 's gateway_state \<times> (model_error + model_response)" where
  "leased_call ct su interval v d l rq st =
     (case su_resolve su (gs_uses st) (dp_secret d) of
        Resolve_Cancelled \<Rightarrow> (used st, Inl Request_Cancelled)
      | Resolve_Failed \<Rightarrow> (used st, Inl (Gateway_Error ''model credential resolution failed''))
      | Resolved key \<Rightarrow>
          let started = su_clock su (gs_uses (used st)) in
          (case invoke_with_heartbeat ct su interval v d rq key l (used (used st)) of
             (st1, ended) \<Rightarrow> (case judge ended of
                (r, status, record_it) \<Rightarrow>
                  if record_it
                  then (case on_capacity (ct_record ct v (ls_scope l) status
                             (max 0 (su_clock su (gs_uses st1) - started)) (\<not> isl r)) (used st1) of
                      (st2, e) \<Rightarrow> (st2, later_error ''model outcome recording failed'' e r))
                  else (st1, r))))"

definition complete_leased ::
  "('v, 's) controller \<Rightarrow> surroundings \<Rightarrow> pyfloat \<Rightarrow> 'v \<Rightarrow> deployment \<Rightarrow> lease \<Rightarrow> model_request
     \<Rightarrow> 's gateway_state \<Rightarrow> 's gateway_state \<times> (model_error + model_response)" where
  "complete_leased ct su interval v d l rq st =
     (case leased_call ct su interval v d l rq st of
        (st1, r) \<Rightarrow> (case release_cleanup ct su v l st1 of
           (st2, Cleanup_Raises) \<Rightarrow> (st2, Inl Request_Cancelled)
         | (st2, Cleaned e) \<Rightarrow> (st2, later_error ''model capacity release failed'' e r)))"

section \<open>The request\<close>

definition capacity_unavailable_reason :: "candidate_groups \<Rightarrow> string" where
  "capacity_unavailable_reason gs = (case model_failure_context gs of (models, deployments) \<Rightarrow>
     let ms = join_with (CHR '','') models; ds = join_with (CHR '','') deployments in
     if ms = [] \<or> ds = [] then ''model capacity unavailable''
     else ''model capacity unavailable (logical_models='' @ ms @ ''; deployments='' @ ds @ '')'')"

definition deployment_prices :: "gateway \<Rightarrow> deployment \<Rightarrow> deployment_pricing option" where
  "deployment_prices g d = (case map_of (gw_pricing g) (dp_id d) of
      Some q \<Rightarrow> Some q
    | None \<Rightarrow> (case (dp_price_in d, dp_price_out d) of
         (Some i, Some j) \<Rightarrow> Some \<lparr>dq_input = i, dq_output = j\<rparr> | _ \<Rightarrow> None))"

text \<open>Decimals are exact here; Python's default context keeps 28 digits, enough for 10^15 tokens.\<close>

definition cost_usd :: "gateway \<Rightarrow> deployment \<Rightarrow> model_response \<Rightarrow> decimal option" where
  "cost_usd g d r = (case re_usage r of
      None \<Rightarrow> None
    | Some u \<Rightarrow> (case deployment_prices g d of
         None \<Rightarrow> Some 0
       | Some q \<Rightarrow>
           let cost = (of_int (us_prompt u) * dq_input q + of_int (us_completion u) * dq_output q) / 1000000 in
           Some (of_int \<lceil>cost * 1000000\<rceil> / 1000000)))"

record gateway_completion =
  gc_response :: model_response
  gc_deployment :: string
  gc_logical :: string
  gc_provider :: string
  gc_model :: string
  gc_cost :: "decimal option"

definition completion_ok :: "gateway_completion \<Rightarrow> bool" where
  "completion_ok c \<longleftrightarrow> safe_model_id (gc_deployment c) \<and> safe_model_id (gc_logical c) \<and> safe_model_id (gc_provider c)
     \<and> unpadded 512 (gc_model c) \<and> cut_at ''/'' (gc_model c) = gc_provider c
     \<and> (case gc_cost c of None \<Rightarrow> True | Some v \<Rightarrow> price_ok v)"

definition mk_completion :: "gateway \<Rightarrow> deployment \<Rightarrow> model_response \<Rightarrow> failure + gateway_completion" where
  "mk_completion g d r =
     (let c = \<lparr>gc_response = r, gc_deployment = dp_id d, gc_logical = dp_logical d,
            gc_provider = cut_at ''/'' (dp_provider d), gc_model = dp_provider d, gc_cost = cost_usd g d r\<rparr> in
      if completion_ok c then Inr c else Inl (bare Bad_Completion))"

text \<open>A lease for a deployment that was not asked for, or in another scope, is given back.\<close>

definition refuse_lease ::
  "('v, 's) controller \<Rightarrow> surroundings \<Rightarrow> 'v \<Rightarrow> candidate_groups \<Rightarrow> lease \<Rightarrow> 's gateway_state
     \<Rightarrow> 's gateway_state \<times> failure" where
  "refuse_lease ct su v gs l st = (case release_cleanup ct su v l st of
      (st1, c) \<Rightarrow> (st1,
         if c = Cleanup_Raises \<or> c = Cleaned (Some Cancelled_Error) then bare Request_Cancelled
         else attach_model_failure_context (Capacity_Failure Backend_Error) gs))"

definition selected_deployment :: "deployment list \<Rightarrow> lease \<Rightarrow> deployment option" where
  "selected_deployment ds l = (case find (\<lambda>d. dp_id d = ls_deployment l) ds of
      None \<Rightarrow> None
    | Some d \<Rightarrow> if dp_scope d = ls_scope l then Some d else None)"

definition lease_capacity ::
  "('v, 's) controller \<Rightarrow> 'v \<Rightarrow> deployment list \<Rightarrow> pyfloat \<Rightarrow> int \<Rightarrow> 's gateway_state
     \<Rightarrow> 's gateway_state \<times> (capacity_error + lease) option" where
  "lease_capacity ct v ds wait tokens st = (case on_capacity (ct_initialize ct v) st of
      (st1, Some e) \<Rightarrow> (st1, Some (Inl e))
    | (st1, None) \<Rightarrow> on_capacity (ct_acquire ct v ds wait tokens) st1)"

definition is_redacted :: "model_error \<Rightarrow> bool" where
  "is_redacted e \<longleftrightarrow> (case e of Transport_Error _ \<Rightarrow> True | Gateway_Error _ \<Rightarrow> True | _ \<Rightarrow> False)"

fun try_groups ::
  "('v, 's) controller \<Rightarrow> surroundings \<Rightarrow> gateway \<Rightarrow> 'v \<Rightarrow> model_request \<Rightarrow> int \<Rightarrow> candidate_groups \<Rightarrow> candidate_groups
     \<Rightarrow> failure option \<Rightarrow> 's gateway_state \<Rightarrow> 's gateway_state \<times> (failure + gateway_completion) option" where
  "try_groups ct su g v rq tokens gs [] retryable st = (st, Some (Inl (case retryable of
      Some f \<Rightarrow> f
    | None \<Rightarrow> attach_model_failure_context (Capacity_Unavailable (capacity_unavailable_reason gs)) gs)))"
| "try_groups ct su g v rq tokens gs ((m, ds) # rest) retryable st =
     (case lease_capacity ct v ds (gw_wait g) tokens st of
        (st1, None) \<Rightarrow> (st1, None)
      | (st1, Some (Inl e)) \<Rightarrow>
          if e = Wait_Timeout \<or> e = Queue_Full then try_groups ct su g v rq tokens gs rest retryable st1
          else if e = Configuration_Error \<or> e = Backend_Error
          then (st1, Some (Inl (attach_model_failure_context (Capacity_Failure e) gs)))
          else (st1, Some (Inl (bare (raised e))))
      | (st1, Some (Inr l)) \<Rightarrow>
          (case selected_deployment ds l of
             None \<Rightarrow> (case refuse_lease ct su v gs l st1 of (st2, f) \<Rightarrow> (st2, Some (Inl f)))
           | Some d \<Rightarrow>
               (case complete_leased ct su (gw_interval g) v d l rq st1 of
                  (st2, r) \<Rightarrow>
                    let st3 = st2\<lparr>gs_attempts := gs_attempts st2 @ [(dp_id d, r)]\<rparr> in
                    (case r of
                       Inr response \<Rightarrow> (st3, Some (mk_completion g d response))
                     | Inl e \<Rightarrow>
                         if \<not> is_redacted e then (st3, Some (Inl (bare e)))
                         else let f = attach_model_failure_context e gs in
                           if \<not> retryable_model_failure e then (st3, Some (Inl f))
                           else try_groups ct su g v rq tokens gs rest (Some f) st3))))"

definition complete_with_context ::
  "('v, 's) controller \<Rightarrow> surroundings \<Rightarrow> gateway \<Rightarrow> model_request \<Rightarrow> 's gateway_state
     \<Rightarrow> 's gateway_state \<times> (failure + gateway_completion) option" where
  "complete_with_context ct su g rq st =
     (let tokens = su_estimate su rq in
      if tokens \<le> 0 then (st, Some (Inl (bare Bad_Estimate)))
      else case fallback_chain (gw_fallbacks g) (rq_logical rq) (rq_fallback rq) of
        None \<Rightarrow> (st, None)
      | Some models \<Rightarrow>
          (case candidate_groups (gw_registry g) (rq_required rq) (rq_logical rq) models of
             None \<Rightarrow> (st, Some (Inl (bare No_Capable_Deployment)))
           | Some gs \<Rightarrow>
               (case ct_scoped ct (concat (map snd gs)) (gs_capacity st) of
                  Inl e \<Rightarrow> (st, Some (Inl (bare (raised e))))
                | Inr (s, v) \<Rightarrow> try_groups ct su g v rq tokens gs gs None (st\<lparr>gs_capacity := s\<rparr>))))"

definition complete_request ::
  "('v, 's) controller \<Rightarrow> surroundings \<Rightarrow> gateway \<Rightarrow> model_request \<Rightarrow> 's gateway_state
     \<Rightarrow> 's gateway_state \<times> (failure + model_response) option" where
  "complete_request ct su g rq st = (case complete_with_context ct su g rq st of
     (st1, r) \<Rightarrow> (st1, map_option (map_sum id gc_response) r))"

text \<open>The capacity pool as the controller of the gateway.\<close>

definition pool_controller ::
  "nat \<Rightarrow> outside \<Rightarrow> pool_settings \<Rightarrow> (string \<times> string) list option \<Rightarrow> bool \<Rightarrow> (catalog \<times> limits, pool) controller" where
  "pool_controller n orc ps creds has_resolver =
     \<lparr>ct_scoped = (\<lambda>ds p. case scoped ds p of
          Inl e \<Rightarrow> Inl e
        | Inr (p', Scoped c l) \<Rightarrow> Inr (p', (c, l))
        | Inr (p', Root) \<Rightarrow> Inl Configuration_Error),
      ct_initialize = (\<lambda>(c, l). scoped_initialize orc ps creds has_resolver c l),
      ct_acquire = (\<lambda>(c, l). scoped_acquire n orc ps c l),
      ct_renew = (\<lambda>(c, l). scoped_renew orc ps creds has_resolver c l),
      ct_release = (\<lambda>_. release orc),
      ct_record = (\<lambda>(c, l). scoped_record_outcome orc c l)\<rparr>"

end
