(* ===== verification/Gateway_Guarantees.thy ===== *)
theory Gateway_Guarantees
  imports Capacity_Guarantees Model_Gateway "HOL-Library.Sublist"
begin

text \<open>
  What the model gateway promises. The first part is proved for any capacity controller that keeps
  the contract of the locale, and then for the capacity pool, which keeps it.
\<close>

section \<open>The contract of a capacity controller\<close>


section \<open>The pool keeps the contract\<close>
























section \<open>Fallback chains\<close>

lemmas follow_simp = follow_fallbacks.simps

lemma follow_Some:
  "follow_fallbacks fb m = Some c \<longleftrightarrow> (case map_of fb m of None \<Rightarrow> c = []
     | Some k \<Rightarrow> (\<exists>c'. c = k # c' \<and> follow_fallbacks fb k = Some c'))"
  unfolding follow_simp [of fb m] by (auto split: option.splits simp: bind_eq_Some_conv)

lemma follow_list [simp]:
  "follow_fallbacks fb m = Some [] \<longleftrightarrow> map_of fb m = None"
  "follow_fallbacks fb m = Some (k # c) \<longleftrightarrow> map_of fb m = Some k \<and> follow_fallbacks fb k = Some c"
  unfolding follow_Some [of fb m] by (auto split: option.splits)

lemma follow_shorter:
  "follow_fallbacks fb m = Some c \<Longrightarrow> x \<in> set c \<Longrightarrow> \<exists>c'. follow_fallbacks fb x = Some c' \<and> length c' < length c"
proof (induction c arbitrary: m)
  case (Cons k c)
  then show ?case by force
qed simp

lemma follow_distinct: "follow_fallbacks fb m = Some c \<Longrightarrow> distinct (m # c)"
proof (induction c arbitrary: m)
  case (Cons k c)
  then have "m \<notin> set (k # c)" using follow_shorter [OF Cons.prems] by fastforce
  with Cons show ?case by auto
qed simp

lemma follow_targets: "follow_fallbacks fb m = Some c \<Longrightarrow> set c \<subseteq> snd ` set fb"
  by (induction c arbitrary: m) (auto dest: map_of_SomeD intro: rev_image_eqI)

lemma acyclic_follow:
  "\<not> cyclic_from fb seen m \<Longrightarrow> \<exists>c. follow_fallbacks fb m = Some c"
proof (induction fb seen m rule: cyclic_from.induct)
  case (1 fb seen m)
  then show ?case unfolding cyclic_from.simps [of fb seen m] follow_Some [of fb m]
    by (auto split: option.splits if_splits)
qed

lemma follow_acyclic:
  "follow_fallbacks fb m = Some c \<Longrightarrow> set (m # c) \<inter> set seen = {} \<Longrightarrow> \<not> cyclic_from fb seen m"
proof (induction c arbitrary: m seen)
  case Nil
  then show ?case by (simp add: cyclic_from.simps [of fb seen m])
next
  case (Cons k c)
  have "set (k # c) \<inter> set (m # seen) = {}" using follow_distinct [OF Cons.prems(1)] Cons.prems(2) by auto
  from Cons.IH [OF _ this] Cons.prems show ?case by (simp add: cyclic_from.simps [of fb seen m])
qed

lemma pairs_known: "fallback_pairs reg fb = None \<Longrightarrow> snd ` set fb \<subseteq> fst ` set (mr_models reg)"
  by (induction reg fb rule: fallback_pairs.induct) (auto split: if_splits)

text \<open>
  The configuration check admits exactly the fallbacks whose every chain ends: between known,
  distinct models, and from any model the walk along the fallbacks terminates, never meets a model
  twice and stays within the registry.
\<close>

theorem fallback_chains_end:
  "validate_fallbacks reg fb = None \<longleftrightarrow> fallback_pairs reg fb = None
     \<and> (\<forall>m. \<exists>chain. fallback_chain fb m True = Some chain \<and> hd chain = m \<and> distinct chain
          \<and> set (tl chain) \<subseteq> fst ` set (mr_models reg))"
proof (cases "fallback_pairs reg fb")
  case None
  have "\<not> cyclic_from fb [] m \<longleftrightarrow> (\<exists>chain. fallback_chain fb m True = Some chain)" for m
    using acyclic_follow [of fb "[]" m] follow_acyclic [of fb m _ "[]"]
    by (auto simp: fallback_chain_def bind_eq_Some_conv)
  moreover have "fallback_chain fb m True = Some chain \<Longrightarrow> hd chain = m \<and> distinct chain
      \<and> set (tl chain) \<subseteq> fst ` set (mr_models reg)" for m chain
    using follow_distinct [of fb m] order_trans [OF follow_targets [of fb m] pairs_known [OF None]]
    by (auto simp: fallback_chain_def bind_eq_Some_conv)
  moreover have "(\<forall>m. \<exists>chain. fallback_chain fb m True = Some chain) \<longleftrightarrow>
      (\<forall>m \<in> fst ` set fb. \<exists>chain. fallback_chain fb m True = Some chain)"
  proof (intro iffI ballI allI)
    fix m
    assume "\<forall>m \<in> fst ` set fb. \<exists>chain. fallback_chain fb m True = Some chain"
    moreover have "fallback_chain fb m True = Some [m]" if "m \<notin> fst ` set fb"
      using that by (simp add: fallback_chain_def bind_eq_Some_conv map_of_eq_None_iff)
    ultimately show "\<exists>chain. fallback_chain fb m True = Some chain" by blast
  qed simp
  ultimately have "list_ex (cyclic_from fb [] \<circ> fst) fb \<longleftrightarrow>
      \<not> (\<forall>m. \<exists>chain. fallback_chain fb m True = Some chain \<and> hd chain = m \<and> distinct chain
          \<and> set (tl chain) \<subseteq> fst ` set (mr_models reg))"
    unfolding list_ex_iff o_apply ball_simps image_iff by blast
  then show ?thesis using None unfolding validate_fallbacks_def by auto
qed (simp add: validate_fallbacks_def)

section \<open>Attempts\<close>

text \<open>What a list of attempts must look like for the models it was made for and the final result.\<close>

definition attempts_fit ::
  "candidate_groups \<Rightarrow> (string \<times> (model_error + model_response)) list \<Rightarrow> failure + gateway_completion \<Rightarrow> bool" where
  "attempts_fit gs new r \<longleftrightarrow>
     (\<exists>tried. subseq tried gs \<and> list_all2 (\<lambda>(i, _) (m, ds). i \<in> dp_id ` set ds) new tried)
   \<and> (\<forall>(i, a) \<in> set (butlast new). \<exists>e. a = Inl e \<and> retryable_model_failure e)
   \<and> (case r of
        Inr c \<Rightarrow> new \<noteq> [] \<and> last new = (gc_deployment c, Inr (gc_response c))
      | Inl f \<Rightarrow> new = [] \<or> (case snd (last new) of
            Inr _ \<Rightarrow> mf_error f = Bad_Completion
          | Inl e \<Rightarrow> retryable_model_failure e \<or> mf_error f = e))"

lemma attempts_fit_skip: "attempts_fit gs new r \<Longrightarrow> attempts_fit (x # gs) new r"
  unfolding attempts_fit_def by (blast intro: list_emb_Cons)

lemma attempts_fit_retry:
  assumes "attempts_fit gs new r" and "i \<in> dp_id ` set ds" and "retryable_model_failure e"
  shows "attempts_fit ((m, ds) # gs) ((i, Inl e) # new) r"
proof -
  from assms(1) obtain tried where "subseq tried gs" "list_all2 (\<lambda>(i, _) (m, ds). i \<in> dp_id ` set ds) new tried"
    by (auto simp: attempts_fit_def)
  then have "subseq ((m, ds) # tried) ((m, ds) # gs)"
    "list_all2 (\<lambda>(i, _) (m, ds). i \<in> dp_id ` set ds) ((i, Inl e) # new) ((m, ds) # tried)"
    using assms(2) by auto
  with assms show ?thesis unfolding attempts_fit_def
    by (intro conjI exI [of _ "(m, ds) # tried"]) (auto split: sum.splits)
qed

lemma attempts_fit_last:
  assumes "i \<in> dp_id ` set ds"
    and "case r of Inr c \<Rightarrow> (i, a) = (gc_deployment c, Inr (gc_response c))
      | Inl f \<Rightarrow> (case a of Inr _ \<Rightarrow> mf_error f = Bad_Completion | Inl e \<Rightarrow> mf_error f = e)"
  shows "attempts_fit ((m, ds) # gs) [(i, a)] r"
  using assms unfolding attempts_fit_def
  by (intro conjI exI [of _ "[(m, ds)]"]) (auto split: sum.splits)

lemma attempts_fit_none: "attempts_fit gs [] (Inl f)"
  unfolding attempts_fit_def by (auto intro: exI [of _ "[]"])

lemma selected_mem: "selected_deployment ds l = Some d \<Longrightarrow> d \<in> set ds"
  by (auto simp: selected_deployment_def find_Some_iff split: option.splits if_splits)

lemma on_capacity_attempts: "on_capacity f st = (st', r) \<Longrightarrow> gs_attempts st' = gs_attempts st"
  by (auto simp: on_capacity_def split: prod.splits)

lemma used_attempts [simp]: "gs_attempts (used st) = gs_attempts st"
  by (simp add: used_def)

lemma heartbeat_attempts: "heartbeat ct interval v beats immediate l st = (st', r) \<Longrightarrow> gs_attempts st' = gs_attempts st"
proof (induction beats arbitrary: immediate l st)
  case (Suc beats)
  then show ?case
    by (auto simp: Let_def split: if_splits prod.splits sum.splits option.splits dest!: on_capacity_attempts)
qed simp

lemma cleanup_attempts: "release_cleanup ct su v l st = (st', r) \<Longrightarrow> gs_attempts st' = gs_attempts st"
  by (auto simp: release_cleanup_def split: prod.splits dest!: on_capacity_attempts)

lemma invoke_attempts: "invoke_with_heartbeat ct su interval v d rq key l st = (st', r) \<Longrightarrow> gs_attempts st' = gs_attempts st"
  unfolding invoke_with_heartbeat_def Let_def on_capacity_def
  by (auto split: prod.splits sum.splits dest!: heartbeat_attempts)

lemma leased_call_attempts: "leased_call ct su interval v d l rq st = (st', r) \<Longrightarrow> gs_attempts st' = gs_attempts st"
  unfolding leased_call_def Let_def
  by (auto split: prod.splits resolve_result.splits if_splits dest!: invoke_attempts on_capacity_attempts)

lemma complete_leased_attempts:
  "complete_leased ct su interval v d l rq st = (st', r) \<Longrightarrow> gs_attempts st' = gs_attempts st"
  unfolding complete_leased_def
  by (auto split: prod.splits cleanup.splits dest!: leased_call_attempts cleanup_attempts)

lemma refuse_lease_attempts: "refuse_lease ct su v gs l st = (st', f) \<Longrightarrow> gs_attempts st' = gs_attempts st"
  unfolding refuse_lease_def by (auto split: prod.splits dest!: cleanup_attempts)

lemma lease_capacity_attempts: "lease_capacity ct v ds w n st = (st', r) \<Longrightarrow> gs_attempts st' = gs_attempts st"
  unfolding lease_capacity_def by (auto split: prod.splits option.splits dest!: on_capacity_attempts)

lemma completion_fits:
  "i = dp_id d \<Longrightarrow> case mk_completion g d x of Inr c \<Rightarrow> (i, Inr x) = (gc_deployment c, Inr (gc_response c))
     | Inl f \<Rightarrow> (case Inr x :: model_error + model_response of
         Inr _ \<Rightarrow> mf_error f = Bad_Completion | Inl e \<Rightarrow> mf_error f = e)"
  by (simp add: mk_completion_def Let_def bare_def)

lemma try_groups_fit:
  "try_groups ct su g v rq tokens gs rest retryable st = (st', Some r) \<Longrightarrow>
    \<exists>new. gs_attempts st' = gs_attempts st @ new \<and> attempts_fit rest new r"
proof (induction rest arbitrary: retryable st)
  case Nil
  then show ?case by (auto intro: attempts_fit_none)
next
  case (Cons group rest)
  obtain m ds where group: "group = (m, ds)" by (cases group)
  obtain st1 a where leased: "lease_capacity ct v ds (gw_wait g) tokens st = (st1, a)"
    by (cases "lease_capacity ct v ds (gw_wait g) tokens st")
  note same1 = lease_capacity_attempts [OF leased]
  show ?case
  proof (cases "\<exists>l d. a = Some (Inr l) \<and> selected_deployment ds l = Some d")
    case False
    then have "try_groups ct su g v rq tokens gs rest retryable st1 = (st', Some r)
        \<or> gs_attempts st' = gs_attempts st \<and> (\<exists>f. r = Inl f)"
      using Cons.prems group leased same1
      by (auto split: option.splits sum.splits if_splits prod.splits dest!: refuse_lease_attempts)
    then show ?thesis
      using Cons.IH [of retryable st1] same1 attempts_fit_skip attempts_fit_none by fastforce
  next
    case True
    then obtain l d where l: "a = Some (Inr l)" "selected_deployment ds l = Some d" by blast
    obtain st2 b where completed: "complete_leased ct su (gw_interval g) v d l rq st1 = (st2, b)"
      by (cases "complete_leased ct su (gw_interval g) v d l rq st1")
    let ?st3 = "st2\<lparr>gs_attempts := gs_attempts st2 @ [(dp_id d, b)]\<rparr>"
    have d: "dp_id d \<in> dp_id ` set ds" using selected_mem [OF l(2)] by simp
    have att: "gs_attempts ?st3 = gs_attempts st @ [(dp_id d, b)]"
      using complete_leased_attempts [OF completed] same1 by simp
    consider e f where "b = Inl e" "retryable_model_failure e" "is_redacted e"
        "try_groups ct su g v rq tokens gs rest (Some f) ?st3 = (st', Some r)"
      | "st' = ?st3" "case r of Inr c \<Rightarrow> (dp_id d, b) = (gc_deployment c, Inr (gc_response c))
           | Inl f \<Rightarrow> (case b of Inr _ \<Rightarrow> mf_error f = Bad_Completion | Inl e \<Rightarrow> mf_error f = e)"
      using Cons.prems group leased l completed completion_fits [where i = "dp_id d" and d = d and g = g]
      by (cases b) (auto simp: Let_def bare_def attach_model_failure_context_def model_failure_context_def
          split: if_splits sum.splits)
    then show ?thesis
    proof cases
      case 1
      from Cons.IH [OF 1(4)] obtain new where "gs_attempts st' = gs_attempts ?st3 @ new" "attempts_fit rest new r"
        by blast
      with 1 attempts_fit_retry [OF _ d 1(2)] att group show ?thesis by auto
    next
      case 2
      then show ?thesis using attempts_fit_last [OF d 2(2)] att group by auto
    qed
  qed
qed

text \<open>
  C24. With any capacity controller, a request that ends has made its attempts in the order of the
  candidate groups, at most one for each, with a deployment of the group; every attempt but the
  last failed in a retryable way; if the request was answered, then by the last attempt, and if it
  failed after an attempt that is not to be retried, with the error of that attempt.
\<close>

theorem attempts_stop_at_the_first_answer:
  assumes "complete_with_context ct su g rq st = (st', Some r)"
  shows "gs_attempts st' = gs_attempts st \<and> (\<exists>f. r = Inl f)
    \<or> (\<exists>chain gs new. fallback_chain (gw_fallbacks g) (rq_logical rq) (rq_fallback rq) = Some chain
        \<and> candidate_groups (gw_registry g) (rq_required rq) (rq_logical rq) chain = Some gs
        \<and> gs_attempts st' = gs_attempts st @ new \<and> attempts_fit gs new r)"
  using assms unfolding complete_with_context_def Let_def
  by (auto split: if_splits option.splits sum.splits prod.splits dest!: try_groups_fit)

section \<open>A run of the gateway\<close>

definition spare_deployment :: deployment where
  "spare_deployment = (sample_deployment ''b'' 1)\<lparr>dp_logical := ''spare''\<rparr>"

definition sample_gateway :: gateway where
  "sample_gateway = \<lparr>gw_registry = the (mk_registry [sample_deployment ''a'' 1, spare_deployment]),
     gw_fallbacks = [(''chat'', ''spare'')], gw_pricing = [], gw_wait = 5, gw_interval = 10\<rparr>"

definition sample_request :: model_request where
  "sample_request = \<lparr>rq_logical = ''chat'', rq_messages = [], rq_required = [Cap_Text], rq_timeout = 60,
     rq_fallback = True, rq_max_tokens = 100, rq_schema = None, rq_tools = []\<rparr>"

definition sample_answer :: model_response where
  "sample_answer = \<lparr>re_text = Some ''hello'', re_tools = [], re_usage = None, re_metadata = []\<rparr>"

text \<open>The first deployment is overloaded, the second answers after one renewal of its lease.\<close>

definition sample_surroundings :: surroundings where
  "sample_surroundings = \<lparr>su_resolve = (\<lambda>_ _. Resolved ''key''),
     su_transport = (\<lambda>_ d _ _. if dp_id d = ''a'' then \<lparr>tr_answer = Transport_Failed (Some 503), tr_beats = 0, tr_cut = False\<rparr>
       else \<lparr>tr_answer = Responded sample_answer, tr_beats = 1, tr_cut = False\<rparr>),
     su_clock = (\<lambda>_. 0), su_interrupted = (\<lambda>_. False), su_estimate = (\<lambda>_. 10)\<rparr>"

definition gateway_oracle :: outside where
  "gateway_oracle = (sample_oracle 60000)\<lparr>or_eval := (\<lambda>_ q. case q of
      Acquire_Script _ _ _ _ \<Rightarrow> Answered (Many_Values [R_Int 1, R_Int 1, R_Int 8, R_Int 60000])
    | Claim_Script _ _ _ _ \<Rightarrow> Answered (Many_Values [R_Int 1, R_Int 1, R_Int 1])
    | Register_Script _ _ _ _ _ _ \<Rightarrow> Answered (Many_Values [R_Int 8, R_Int 0, R_Int 0, R_Int 1, R_Int 1])
    | Outcome_Script _ _ _ _ \<Rightarrow> Answered (Many_Values [R_Int 8, R_Int 0, R_Int 0])
    | Renew_Script _ _ _ \<Rightarrow> Answered (One_Value (R_Int 90000))
    | _ \<Rightarrow> Answered (One_Value (R_Int 1))), or_resolve := \<lambda>_ _. Resolved (replicate 64 CHR ''a'')\<rparr>"

abbreviation sample_controller :: "(catalog \<times> limits, pool) controller" where
  "sample_controller \<equiv> pool_controller 1 gateway_oracle sample_settings None True"

definition sample_start :: "pool gateway_state" where
  "sample_start = \<lparr>gs_capacity = fst (validate_configuration [sample_deployment ''a'' 1, spare_deployment] empty_pool),
     gs_uses = 0, gs_attempts = []\<rparr>"

lemma sample_run:
  "map_option (map_sum mf_error gc_deployment) (snd (complete_with_context sample_controller sample_surroundings
     sample_gateway sample_request sample_start)) = Some (Inr ''b'')"
  by code_simp

lemma sample_run_ends:
  obtains st c where "complete_with_context sample_controller sample_surroundings sample_gateway sample_request
      sample_start = (st, Some (Inr c))" "gc_deployment c = ''b''"
proof -
  let ?run = "complete_with_context sample_controller sample_surroundings sample_gateway sample_request sample_start"
  from sample_run obtain z where "snd ?run = Some z" "map_sum mf_error gc_deployment z = Inr ''b''" by auto
  then obtain c where "snd ?run = Some (Inr c)" "gc_deployment c = ''b''" by (cases z) auto
  then have "?run = (fst ?run, Some (Inr c))" by (simp only: prod_eq_iff fst_conv snd_conv simp_thms)
  with \<open>gc_deployment c = ''b''\<close> show ?thesis by (rule that [rotated])
qed


theorem attempts_stop_at_the_first_answer_witness:
  "\<exists>st c gs new. complete_with_context sample_controller sample_surroundings sample_gateway sample_request sample_start
     = (st, Some (Inr c)) \<and> gs_attempts st = gs_attempts sample_start @ new \<and> attempts_fit gs new (Inr c)"
proof -
  obtain st c where run: "complete_with_context sample_controller sample_surroundings sample_gateway sample_request
      sample_start = (st, Some (Inr c))" by (rule sample_run_ends)
  from attempts_stop_at_the_first_answer [OF run] run show ?thesis by auto
qed

section \<open>Cancellation\<close>

text \<open>
  C25. A cancellation of the caller that arrives while a failed attempt is cleaned up is lost: the
  attempt ends exactly as it would have without it (unless the release itself is cancelled), and when its
  failure is one that is retried, the request goes on with the next models of the chain.
\<close>

theorem cancellation_is_lost_in_cleanup:
  assumes "lease_capacity ct v ds (gw_wait g) tokens st0 = (st, Some (Inr l))" and "selected_deployment ds l = Some d"
    and "leased_call ct su (gw_interval g) v d l rq st = (st1, Inl e)"
    and "snd (ct_release ct v l (gs_capacity st1)) \<noteq> Inl Cancelled_Error"
  shows "case complete_leased ct su (gw_interval g) v d l rq st of (st2, r) \<Rightarrow>
      r = Inl e \<and> complete_leased ct (su\<lparr>su_interrupted := b\<rparr>) (gw_interval g) v d l rq st = (st2, r)
    \<and> (is_redacted e \<and> retryable_model_failure e \<longrightarrow>
        try_groups ct (su\<lparr>su_interrupted := b\<rparr>) g v rq tokens gs ((m, ds) # rest) seen st0
        = try_groups ct (su\<lparr>su_interrupted := b\<rparr>) g v rq tokens gs rest (Some (attach_model_failure_context e gs))
            (st2\<lparr>gs_attempts := gs_attempts st2 @ [(dp_id d, Inl e)]\<rparr>))"
proof -
  have uses: "su_resolve (su\<lparr>su_interrupted := b\<rparr>) = su_resolve su" "su_clock (su\<lparr>su_interrupted := b\<rparr>) = su_clock su"
    "su_transport (su\<lparr>su_interrupted := b\<rparr>) = su_transport su" by simp_all
  have same: "leased_call ct (su\<lparr>su_interrupted := b\<rparr>) i v d l rq st = leased_call ct su i v d l rq st" for i
    unfolding leased_call_def invoke_with_heartbeat_def uses ..
  obtain s r where "ct_release ct v l (gs_capacity st1) = (s, r)" by (cases "ct_release ct v l (gs_capacity st1)")
  with assms(3,4) have cleaned: "\<exists>st2. complete_leased ct su (gw_interval g) v d l rq st = (st2, Inl e)
      \<and> complete_leased ct (su\<lparr>su_interrupted := b\<rparr>) (gw_interval g) v d l rq st = (st2, Inl e)"
    unfolding complete_leased_def same
    by (simp add: release_cleanup_def on_capacity_def later_error_def split: option.splits)
  then show ?thesis using assms(1,2) by (auto simp: Let_def)
qed

definition cancelled_surroundings :: surroundings where
  "cancelled_surroundings = sample_surroundings\<lparr>su_interrupted := \<lambda>_. True\<rparr>"

definition sample_view :: "pool \<times> catalog \<times> limits" where
  "sample_view = projr (ct_scoped sample_controller [sample_deployment ''a'' 1, spare_deployment] (gs_capacity sample_start))"

definition sample_leasing :: "pool gateway_state \<times> (capacity_error + lease) option" where
  "sample_leasing = lease_capacity sample_controller (snd sample_view) [sample_deployment ''a'' 1] (gw_wait sample_gateway) 10
     (sample_start\<lparr>gs_capacity := fst sample_view\<rparr>)"

theorem cancellation_is_lost_in_cleanup_witness:
  "snd (complete_leased sample_controller cancelled_surroundings (gw_interval sample_gateway) (snd sample_view)
     (sample_deployment ''a'' 1) (projr (the (snd sample_leasing))) sample_request (fst sample_leasing))
     = Inl (Transport_Error (Some 503))
   \<and> map fst (gs_attempts (fst (complete_with_context sample_controller cancelled_surroundings sample_gateway
     sample_request sample_start))) = [''a'', ''b'']"
proof -
  let ?d = "sample_deployment ''a'' 1" and ?l = "projr (the (snd sample_leasing))"
  let ?run = "leased_call sample_controller sample_surroundings (gw_interval sample_gateway) (snd sample_view) ?d ?l
    sample_request (fst sample_leasing)"
  have "case snd sample_leasing of Some (Inr _) \<Rightarrow> True | _ \<Rightarrow> False" by code_simp
  then have leased: "lease_capacity sample_controller (snd sample_view) [?d] (gw_wait sample_gateway) 10
      (sample_start\<lparr>gs_capacity := fst sample_view\<rparr>) = (fst sample_leasing, Some (Inr ?l))"
    by (simp only: sample_leasing_def [symmetric] prod_eq_iff fst_conv snd_conv) (simp split: option.splits sum.splits)
  have selected: "selected_deployment [?d] ?l = Some ?d" by code_simp
  have "snd ?run = Inl (Transport_Error (Some 503))" by code_simp
  then have run: "?run = (fst ?run, Inl (Transport_Error (Some 503)))" by (simp only: prod_eq_iff fst_conv snd_conv simp_thms)
  have "snd (ct_release sample_controller (snd sample_view) ?l (gs_capacity (fst ?run))) \<noteq> Inl Cancelled_Error"
    by code_simp
  note lost = cancellation_is_lost_in_cleanup [OF leased selected run this, where b = "\<lambda>_. True"]
  obtain st2 r where ends: "complete_leased sample_controller sample_surroundings (gw_interval sample_gateway)
      (snd sample_view) ?d ?l sample_request (fst sample_leasing) = (st2, r)"
    by (rule prod.exhaust)
  have "r = Inl (Transport_Error (Some 503))" "complete_leased sample_controller cancelled_surroundings
      (gw_interval sample_gateway) (snd sample_view) ?d ?l sample_request (fst sample_leasing) = (st2, r)"
    using lost [unfolded ends prod.case, THEN conjunct1] lost [unfolded ends prod.case, THEN conjunct2, THEN conjunct1]
    unfolding cancelled_surroundings_def .
  then have "snd (complete_leased sample_controller cancelled_surroundings (gw_interval sample_gateway) (snd sample_view) ?d ?l
     sample_request (fst sample_leasing)) = Inl (Transport_Error (Some 503))" by (simp only: snd_conv)
  moreover have "map fst (gs_attempts (fst (complete_with_context sample_controller cancelled_surroundings sample_gateway
     sample_request sample_start))) = [''a'', ''b'']" by code_simp
  ultimately show ?thesis ..
qed

end
