(* ===== verification/Access_Control.thy ===== *)
theory Access_Control
  imports Capability_Policy
begin

text \<open>
  Roles and permissions of \<open>auth/models.py\<close>, the rules for user names and passwords of
  \<open>auth/service.py\<close>, \<open>auth/user_admin.py\<close> and \<open>auth/passwords.py\<close>, and the admission of
  password work to the worker threads.
\<close>

section \<open>Permissions\<close>

fun permissions :: "role \<Rightarrow> string list" where
  "permissions Super_Admin = [''*'']"
| "permissions Admin = [''config:*'', ''agent:*'', ''skill:read'', ''skill:use'', ''skill:write'', ''skill:approve'',
     ''mcp:read'', ''mcp:use'', ''mcp:write'', ''memory:*'', ''hermes:*'', ''run:*'', ''plugin:read'', ''plugin:use'',
     ''plugin:write'', ''user:read'', ''user:write'', ''audit:read'']"
| "permissions Operator = [''run:create'', ''run:read'', ''run:pause'', ''run:resume'', ''run:cancel'', ''config:read'',
     ''skill:read'', ''skill:use'', ''mcp:read'', ''mcp:use'', ''plugin:read'', ''plugin:use'']"
| "permissions Viewer = [''run:read'', ''config:read'', ''skill:read'', ''skill:use'', ''mcp:read'', ''mcp:use'',
     ''plugin:read'', ''plugin:use'']"

record principal =
  pr_user :: uuid
  pr_tenant :: uuid
  pr_role :: role

definition name_space :: "string \<Rightarrow> string" where
  "name_space p = takeWhile (\<lambda>c. c \<noteq> CHR '':'') p"

definition permission_word :: "string \<Rightarrow> bool" where
  "permission_word w \<longleftrightarrow> ident_match lower_alpha (lower_alnum @ ''_-'') 63 w"

definition is_safe_permission :: "string \<Rightarrow> bool" where
  "is_safe_permission p \<longleftrightarrow> length p \<le> 129 \<and> length (name_space p) < length p
     \<and> permission_word (name_space p) \<and> permission_word (drop (Suc (length (name_space p))) p)"

definition is_allowed :: "principal \<Rightarrow> string \<Rightarrow> bool" where
  "is_allowed pr p \<longleftrightarrow> is_safe_permission p
     \<and> (let grants = permissions (pr_role pr) in
        ''*'' \<in> set grants \<or> p \<in> set grants \<or> (name_space p @ '':*'') \<in> set grants)"

definition require_permission :: "principal \<Rightarrow> string \<Rightarrow> principal option" where
  "require_permission pr p = (if is_allowed pr p then Some pr else None)"

section \<open>Names and passwords\<close>

definition is_valid_username :: "string \<Rightarrow> bool" where
  "is_valid_username n \<longleftrightarrow> ident_match lower_alpha (lower_alnum @ ''_-'') 63 n \<and> 3 \<le> length n
     \<and> \<not> contains_text ''..'' n \<and> \<not> contains_text ''--'' n \<and> \<not> contains_text ''__'' n"

definition is_valid_password :: "string \<Rightarrow> bool" where
  "is_valid_password p \<longleftrightarrow> 12 \<le> length p \<and> length p \<le> 1024 \<and> \<not> py_isblank p \<and> utf8_len p \<le> 4096"

section \<open>Admission to the password workers\<close>

text \<open>
  Work is admitted up to the number of slots and waiters; an admitted job takes a slot, or gives
  up when none came free in time, and leaves. \<open>ga_waiting\<close> are the jobs without a slot.
\<close>

record admission =
  ga_slots :: nat
  ga_waiters :: nat
  ga_waiting :: nat
  ga_working :: nat
  ga_admitted :: nat

definition mk_admission :: "int \<Rightarrow> int \<Rightarrow> pyfloat \<Rightarrow> admission option" where
  "mk_admission max_concurrency max_waiters timeout =
     (if max_concurrency < 1 \<or> max_waiters < 0 \<or> \<not> (0 < timeout \<and> timeout \<le> 5) then None
      else Some \<lparr>ga_slots = nat max_concurrency, ga_waiters = nat max_waiters, ga_waiting = 0, ga_working = 0,
        ga_admitted = 0\<rparr>)"

definition try_admit :: "admission \<Rightarrow> admission \<times> bool" where
  "try_admit a = (if ga_slots a + ga_waiters a \<le> ga_admitted a then (a, False)
     else (a\<lparr>ga_admitted := Suc (ga_admitted a), ga_waiting := Suc (ga_waiting a)\<rparr>, True))"

text \<open>The steps of the thread of an admitted job: it gets a slot, finds none in time, or finishes.\<close>

datatype job_step = Takes_Slot | Times_Out | Finishes

definition run_admitted :: "job_step \<Rightarrow> admission \<Rightarrow> admission option" where
  "run_admitted step a = (case step of
      Takes_Slot \<Rightarrow> if 0 < ga_waiting a \<and> ga_working a < ga_slots a
        then Some (a\<lparr>ga_waiting := ga_waiting a - 1, ga_working := Suc (ga_working a)\<rparr>) else None
    | Times_Out \<Rightarrow> if 0 < ga_waiting a
        then Some (a\<lparr>ga_waiting := ga_waiting a - 1, ga_admitted := ga_admitted a - 1\<rparr>) else None
    | Finishes \<Rightarrow> if 0 < ga_working a
        then Some (a\<lparr>ga_working := ga_working a - 1, ga_admitted := ga_admitted a - 1\<rparr>) else None)"

inductive admission_step :: "admission \<Rightarrow> admission \<Rightarrow> bool" where
  Asks: "try_admit a = (a', b) \<Longrightarrow> admission_step a a'"
| Runs: "run_admitted step a = Some a' \<Longrightarrow> admission_step a a'"

section \<open>What the roles may do\<close>

definition allowed_to :: "role \<Rightarrow> string set" where
  "allowed_to r = {p. is_allowed \<lparr>pr_user = 0, pr_tenant = 0, pr_role = r\<rparr> p}"

definition no_wildcard :: "role \<Rightarrow> bool" where
  "no_wildcard r \<longleftrightarrow> list_all (\<lambda>g. g \<noteq> ''*'' \<and> drop (length g - 2) g \<noteq> '':*'' \<and> is_safe_permission g) (permissions r)"

lemma allowed_listed: "no_wildcard r \<Longrightarrow> allowed_to r = set (permissions r)"
  by (fastforce simp: no_wildcard_def list_all_iff allowed_to_def is_allowed_def Let_def)

lemma listed_allowed:
  assumes "list_all (\<lambda>g. is_allowed \<lparr>pr_user = 0, pr_tenant = 0, pr_role = r\<rparr> g) (permissions r')" and "no_wildcard r'"
  shows "allowed_to r' \<subseteq> allowed_to r"
  using assms allowed_listed [OF assms(2)] by (auto simp: list_all_iff allowed_to_def)

text \<open>
  The four roles form a chain: what a viewer may do an operator may do, then an administrator,
  then a super administrator, each more than the one before; viewers and operators may do exactly
  what is listed for them, and a super administrator everything that is a well-formed permission.
\<close>

theorem roles_form_a_chain:
  "allowed_to Viewer = set (permissions Viewer) \<and> allowed_to Operator = set (permissions Operator)
   \<and> allowed_to Super_Admin = {p. is_safe_permission p}
   \<and> allowed_to Viewer \<subset> allowed_to Operator \<and> allowed_to Operator \<subset> allowed_to Admin
   \<and> allowed_to Admin \<subset> allowed_to Super_Admin"
proof -
  have listed: "no_wildcard Viewer" "no_wildcard Operator" by code_simp+
  have "list_all (\<lambda>g. is_allowed \<lparr>pr_user = 0, pr_tenant = 0, pr_role = Operator\<rparr> g) (permissions Viewer)"
    "list_all (\<lambda>g. is_allowed \<lparr>pr_user = 0, pr_tenant = 0, pr_role = Admin\<rparr> g) (permissions Operator)"
    by code_simp+
  note mono = listed_allowed [OF this(1) listed(1)] listed_allowed [OF this(2) listed(2)]
  have super: "allowed_to Super_Admin = {p. is_safe_permission p}" by (simp add: allowed_to_def is_allowed_def)
  then have "allowed_to Admin \<subseteq> allowed_to Super_Admin" by (auto simp: allowed_to_def is_allowed_def)
  moreover have "is_allowed \<lparr>pr_user = 0, pr_tenant = 0, pr_role = Operator\<rparr> ''run:create''
      \<and> \<not> is_allowed \<lparr>pr_user = 0, pr_tenant = 0, pr_role = Viewer\<rparr> ''run:create''
      \<and> is_allowed \<lparr>pr_user = 0, pr_tenant = 0, pr_role = Admin\<rparr> ''config:write''
      \<and> \<not> is_allowed \<lparr>pr_user = 0, pr_tenant = 0, pr_role = Operator\<rparr> ''config:write''
      \<and> is_allowed \<lparr>pr_user = 0, pr_tenant = 0, pr_role = Super_Admin\<rparr> ''tenant:write''
      \<and> \<not> is_allowed \<lparr>pr_user = 0, pr_tenant = 0, pr_role = Admin\<rparr> ''tenant:write''"
    by code_simp
  then have "''run:create'' \<in> allowed_to Operator - allowed_to Viewer" "''config:write'' \<in> allowed_to Admin - allowed_to Operator"
    "''tenant:write'' \<in> allowed_to Super_Admin - allowed_to Admin" by (auto simp: allowed_to_def)
  ultimately show ?thesis using allowed_listed listed mono super by blast
qed

section \<open>Bounded password work\<close>

definition admission_ok :: "admission \<Rightarrow> bool" where
  "admission_ok a \<longleftrightarrow> ga_waiting a + ga_working a = ga_admitted a \<and> ga_working a \<le> ga_slots a
     \<and> ga_admitted a \<le> ga_slots a + ga_waiters a"

inductive_cases admission_stepE: "admission_step a a'"

lemma admission_step_ok:
  "admission_step a a' \<Longrightarrow> admission_ok a \<Longrightarrow> admission_ok a' \<and> ga_slots a' = ga_slots a \<and> ga_waiters a' = ga_waiters a"
  by (erule admission_stepE)
    (auto simp: admission_ok_def try_admit_def run_admitted_def split: if_splits job_step.splits)

text \<open>
  However the jobs come and go, never more of them hash at once than there are slots, never
  more are in the service than slots and waiters, and every admitted job is waiting or working, so
  that once all have left the service is free again.
\<close>

theorem password_work_is_bounded:
  assumes "mk_admission slots waiters timeout = Some a0" and "admission_step\<^sup>*\<^sup>* a0 a"
  shows "int (ga_working a) \<le> slots \<and> int (ga_admitted a) \<le> slots + waiters
    \<and> ga_waiting a + ga_working a = ga_admitted a"
proof -
  have start: "admission_ok a0 \<and> int (ga_slots a0) = slots \<and> int (ga_waiters a0) = waiters"
    using assms(1) by (auto simp: mk_admission_def admission_ok_def split: if_splits)
  have "admission_ok a \<and> ga_slots a = ga_slots a0 \<and> ga_waiters a = ga_waiters a0"
    using assms(2) by (induction rule: rtranclp_induct) (use start admission_step_ok in auto)
  then show ?thesis using start by (auto simp: admission_ok_def)
qed

theorem password_work_is_bounded_witness:
  "\<exists>a. admission_step\<^sup>*\<^sup>* \<lparr>ga_slots = 2, ga_waiters = 4, ga_waiting = 0, ga_working = 0, ga_admitted = 0\<rparr> a
     \<and> ga_working a = 1 \<and> ga_waiting a = 0 \<and> ga_admitted a = 1"
proof -
  let ?a0 = "\<lparr>ga_slots = 2, ga_waiters = 4, ga_waiting = 0, ga_working = 0, ga_admitted = 0\<rparr>"
  let ?a1 = "fst (try_admit ?a0)"
  let ?a2 = "the (run_admitted Takes_Slot ?a1)"
  have "admission_step ?a0 ?a1" by (rule Asks [of _ _ True]) (simp add: try_admit_def)
  moreover have "admission_step ?a1 ?a2" by (rule Runs [of Takes_Slot]) (simp add: try_admit_def run_admitted_def)
  ultimately have reach: "admission_step\<^sup>*\<^sup>* ?a0 ?a2" by (rule converse_rtranclp_into_rtranclp [OF _ r_into_rtranclp])
  have "mk_admission 2 4 (1 / 10) = Some ?a0" by (simp add: mk_admission_def)
  from password_work_is_bounded [OF this reach] have "ga_waiting ?a2 + ga_working ?a2 = ga_admitted ?a2" by blast
  moreover have "ga_working ?a2 = 1" "ga_admitted ?a2 = 1" by (simp_all add: try_admit_def run_admitted_def)
  ultimately show ?thesis using reach by (intro exI [of _ ?a2]) simp
qed

end
