(* ===== verification/Access_Tokens.thy ===== *)
theory Access_Tokens
  imports Access_Control Json_Value
begin

text \<open>
  The signing keys and access tokens of \<open>auth/tokens.py\<close> and the text form of the bootstrap codes of
  \<open>auth/service.py\<close>. The JWT library is outside: an encoder and a decoder are arguments. Instants
  are microseconds, timestamps in a token seconds, rounded down; \<open>int(timestamp())\<close> rounds towards zero,
  which differs before 1970 only.
\<close>

section \<open>Base 64 without padding\<close>

type_synonym byte = "8 word"

definition b64_alphabet :: string where
  "b64_alphabet = upper_alpha @ lower_alpha @ digits @ ''-_''"

definition byte_bits :: "byte \<Rightarrow> bool list" where
  "byte_bits w = map (\<lambda>i. bit w (7 - i)) [0..<8]"

definition bits_value :: "bool list \<Rightarrow> nat" where
  "bits_value bs = foldl (\<lambda>n b. 2 * n + of_bool b) 0 bs"

definition value_bits :: "nat \<Rightarrow> nat \<Rightarrow> bool list" where
  "value_bits k n = map (\<lambda>i. odd (n div 2 ^ (k - Suc i))) [0..<k]"

function sixes :: "bool list \<Rightarrow> bool list list" where
  "sixes bs = (if bs = [] then [] else take 6 (bs @ replicate 5 False) # sixes (drop 6 bs))"
  by pat_completeness auto

termination sixes
  by (relation "measure length") auto

function eights :: "bool list \<Rightarrow> bool list list" where
  "eights bs = (if length bs < 8 then [] else take 8 bs # eights (drop 8 bs))"
  by pat_completeness auto

termination eights
  by (relation "measure length") auto

declare sixes.simps [simp del] eights.simps [simp del]

text \<open>\<open>urlsafe_b64encode\<close> with the padding stripped, and its decoding with the padding restored; a
  text of a length that is one above a multiple of four has none.\<close>

definition b64_encode :: "byte list \<Rightarrow> string" where
  "b64_encode bs = map (\<lambda>g. b64_alphabet ! bits_value g) (sixes (concat (map byte_bits bs)))"

definition b64_index :: "char \<Rightarrow> nat" where
  "b64_index c = length (takeWhile (\<lambda>d. d \<noteq> c) b64_alphabet)"

definition b64_decode :: "string \<Rightarrow> byte list option" where
  "b64_decode t =
     (if \<not> list_all (\<lambda>c. c \<in> set b64_alphabet) t \<or> length t mod 4 = 1 then None
      else Some (map (\<lambda>g. of_nat (bits_value g)) (eights (concat (map (\<lambda>c. value_bits 6 (b64_index c)) t)))))"

section \<open>Bootstrap codes and signing keys\<close>

definition encode_bootstrap_code :: "byte list \<Rightarrow> string" where
  "encode_bootstrap_code raw = b64_encode raw"

definition try_hash_canonical_bootstrap_code :: "(string \<Rightarrow> string) \<Rightarrow> string \<Rightarrow> string option" where
  "try_hash_canonical_bootstrap_code sha256 code =
     (if length code \<noteq> 43 \<or> \<not> list_all (\<lambda>c. c \<in> set b64_alphabet) code then None
      else case b64_decode code of
        None \<Rightarrow> None
      | Some raw \<Rightarrow>
          if length raw \<noteq> 32 \<or> encode_bootstrap_code raw \<noteq> code then None else Some (sha256 code))"

definition hex_value :: "char \<Rightarrow> nat" where
  "hex_value c = (let n = (of_char c :: nat) in if n < 58 then n - 48 else n - 87)"

fun hex_bytes :: "string \<Rightarrow> byte list" where
  "hex_bytes (a # b # t) = of_nat (16 * hex_value a + hex_value b) # hex_bytes t"
| "hex_bytes _ = []"

definition try_decode_text_key :: "string \<Rightarrow> byte list option" where
  "try_decode_text_key k =
     (if starts_with ''base64url:'' k
      then (let encoded = drop 10 k in
        if encoded = [] then None
        else case b64_decode encoded of
          None \<Rightarrow> None
        | Some key \<Rightarrow> if b64_encode key = encoded then Some key else None)
      else if starts_with ''hex:'' k
      then (let encoded = drop 4 k in
        if encoded = [] \<or> odd (length encoded) \<or> \<not> list_all (\<lambda>c. c \<in> set (digits @ ''abcdef'')) encoded then None
        else Some (hex_bytes encoded))
      else None)"

datatype key_material = Raw_Key "byte list" | Text_Key string

text \<open>\<open>structured\<close> says which bytes are a certificate or an asymmetric key, for the parsers of the
  cryptography package and the markers of such files.\<close>

definition try_validated_key :: "(byte list \<Rightarrow> bool) \<Rightarrow> key_material \<Rightarrow> byte list option" where
  "try_validated_key structured m =
     (case (case m of Raw_Key b \<Rightarrow> Some b | Text_Key t \<Rightarrow> try_decode_text_key t) of
        None \<Rightarrow> None
      | Some key \<Rightarrow> if \<not> (32 \<le> length key \<and> length key \<le> 64) \<or> structured key then None else Some key)"

section \<open>Tokens\<close>

record token_service =
  to_key :: "byte list"
  to_issuer :: string
  to_audience :: string
  to_leeway :: int

definition mk_token_service ::
  "(byte list \<Rightarrow> bool) \<Rightarrow> key_material \<Rightarrow> string \<Rightarrow> string \<Rightarrow> string \<Rightarrow> int \<Rightarrow> token_service option" where
  "mk_token_service structured m algorithm issuer audience leeway =
     (if algorithm \<noteq> ''HS256'' \<or> issuer = [] \<or> audience = [] \<or> \<not> (0 \<le> leeway \<and> leeway \<le> 60) then None
      else map_option (\<lambda>key. \<lparr>to_key = key, to_issuer = issuer, to_audience = audience, to_leeway = leeway\<rparr>)
        (try_validated_key structured m))"

fun role_text :: "role \<Rightarrow> string" where
  "role_text Super_Admin = ''super_admin''"
| "role_text Admin = ''admin''"
| "role_text Operator = ''operator''"
| "role_text Viewer = ''viewer''"

definition parse_role :: "string \<Rightarrow> role option" where
  "parse_role t = find (\<lambda>r. role_text r = t) [Super_Admin, Admin, Operator, Viewer]"

definition token_claims :: "token_service \<Rightarrow> uuid \<Rightarrow> uuid \<Rightarrow> role \<Rightarrow> int \<Rightarrow> instant \<Rightarrow> uuid \<Rightarrow> (string \<times> json) list" where
  "token_claims sv user tenant r ttl now jti =
     [(''sub'', JStr (uuid_text user)), (''tenant_id'', JStr (uuid_text tenant)), (''role'', JStr (role_text r)),
      (''iat'', JInt (now div 1000000)), (''exp'', JInt ((now + ttl * 1000000) div 1000000)),
      (''iss'', JStr (to_issuer sv)), (''aud'', JStr (to_audience sv)), (''jti'', JStr (uuid_text jti))]"

datatype issue_error = Bad_Ttl | Token_Backend

type_synonym jwt_encoder = "(string \<times> json) list \<Rightarrow> byte list \<Rightarrow> string option"
type_synonym jwt_decoder = "string \<Rightarrow> byte list \<Rightarrow> string \<Rightarrow> string \<Rightarrow> (string \<times> json) list option"

definition encode_token ::
  "jwt_encoder \<Rightarrow> token_service \<Rightarrow> uuid \<Rightarrow> uuid \<Rightarrow> role \<Rightarrow> int \<Rightarrow> instant \<Rightarrow> uuid \<Rightarrow> issue_error + string" where
  "encode_token enc sv user tenant r ttl now jti =
     (if \<not> (60 \<le> ttl \<and> ttl \<le> 3600) then Inl Bad_Ttl
      else case enc (token_claims sv user tenant r ttl now jti) (to_key sv) of
        None \<Rightarrow> Inl Token_Backend | Some t \<Rightarrow> Inr t)"

record decoded_token =
  dt_user :: uuid
  dt_tenant :: uuid
  dt_role :: role
  dt_issued :: int
  dt_expires :: int
  dt_id :: uuid

definition token_principal :: "decoded_token \<Rightarrow> principal" where
  "token_principal t = \<lparr>pr_user = dt_user t, pr_tenant = dt_tenant t, pr_role = dt_role t\<rparr>"

text \<open>A UUID claim must be written as \<open>str\<close> writes it.\<close>

definition canonical_uuid :: "string \<Rightarrow> uuid option" where
  "canonical_uuid t =
     (let u = of_nat (foldl (\<lambda>n c. 16 * n + hex_value c) 0 (filter (\<lambda>c. c \<noteq> CHR ''-'') t)) in
      if uuid_text u = t then Some u else None)"

definition uuid_claim :: "(string \<times> json) list \<Rightarrow> string \<Rightarrow> uuid option" where
  "uuid_claim payload k = (case map_of payload k of Some (JStr t) \<Rightarrow> canonical_uuid t | _ \<Rightarrow> None)"

definition role_claim :: "(string \<times> json) list \<Rightarrow> role option" where
  "role_claim payload = (case map_of payload ''role'' of Some (JStr t) \<Rightarrow> parse_role t | _ \<Rightarrow> None)"

definition required_claims :: "string list" where
  "required_claims = [''sub'', ''tenant_id'', ''role'', ''iat'', ''exp'', ''iss'', ''aud'', ''jti'']"

text \<open>\<open>datetime.fromtimestamp\<close> knows the years 1 to 9999.\<close>

definition datetime_ok :: "int \<Rightarrow> bool" where
  "datetime_ok s \<longleftrightarrow> - 62135596800 \<le> s \<and> s \<le> 253402300799"

definition try_materialize :: "token_service \<Rightarrow> instant \<Rightarrow> (string \<times> json) list \<Rightarrow> decoded_token option" where
  "try_materialize sv now payload =
     (if set (map fst payload) \<noteq> set required_claims then None
      else case (map_of payload ''iat'', map_of payload ''exp'') of
        (Some (JInt issued), Some (JInt expires)) \<Rightarrow>
          if map_of payload ''aud'' \<noteq> Some (JStr (to_audience sv)) then None
          else if \<not> (60 \<le> expires - issued \<and> expires - issued \<le> 3600) then None
          else if \<not> datetime_ok issued \<or> \<not> datetime_ok expires then None
          else if now + to_leeway sv * 1000000 < issued * 1000000
              \<or> expires * 1000000 \<le> now - to_leeway sv * 1000000 then None
          else (case (uuid_claim payload ''sub'', uuid_claim payload ''tenant_id'', role_claim payload,
                      uuid_claim payload ''jti'') of
              (Some user, Some tenant, Some r, Some i) \<Rightarrow>
                Some \<lparr>dt_user = user, dt_tenant = tenant, dt_role = r, dt_issued = issued, dt_expires = expires,
                  dt_id = i\<rparr>
            | _ \<Rightarrow> None)
      | _ \<Rightarrow> None)"

definition decode_token :: "jwt_decoder \<Rightarrow> token_service \<Rightarrow> instant \<Rightarrow> string \<Rightarrow> decoded_token option" where
  "decode_token dec sv now t =
     (if t = [] \<or> 8192 < length t then None
      else case dec t (to_key sv) (to_issuer sv) (to_audience sv) of
        None \<Rightarrow> None
      | Some payload \<Rightarrow> try_materialize sv now payload)"

definition authenticate_token :: "jwt_decoder \<Rightarrow> token_service \<Rightarrow> instant \<Rightarrow> string \<Rightarrow> principal option" where
  "authenticate_token dec sv now t = map_option token_principal (decode_token dec sv now t)"

section \<open>The codec\<close>

lemma bits_value_bounds: "bits_value bs < 2 ^ length bs"
proof (induction bs rule: rev_induct)
  case (snoc b bs)
  then show ?case by (cases b) (simp_all add: bits_value_def)
qed (simp add: bits_value_def)

lemma value_bits_value: "length bs = k \<Longrightarrow> value_bits k (bits_value bs) = bs"
proof (induction bs arbitrary: k rule: rev_induct)
  case (snoc b bs)
  let ?n = "bits_value bs"
  have v: "bits_value (bs @ [b]) = 2 * ?n + of_bool b" by (simp add: bits_value_def)
  have k: "k = Suc (length bs)" using snoc.prems by simp
  have "odd ((2 * ?n + of_bool b) div 2 ^ (Suc (length bs) - Suc i)) = odd (?n div 2 ^ (length bs - Suc i))"
    if "i < length bs" for i
  proof -
    have "Suc (length bs) - Suc i = Suc (length bs - Suc i)" using that by simp
    then show ?thesis by (simp add: div_mult2_eq)
  qed
  then have "value_bits k (2 * ?n + of_bool b) = value_bits (length bs) ?n @ [b]"
    unfolding value_bits_def k by (auto simp: upt_Suc)
  then show ?case using snoc.IH v by simp
qed (simp add: value_bits_def)

lemma byte_of_bits: "of_nat (bits_value (byte_bits w)) = (w :: byte)"
proof (rule bit_word_eqI)
  fix i
  assume "i < LENGTH(8)"
  then have i: "7 - i < 8" "i < 8" by simp_all
  let ?n = "bits_value (byte_bits w)"
  have "value_bits 8 ?n = byte_bits w" by (rule value_bits_value) (simp add: byte_bits_def)
  then have "value_bits 8 ?n ! (7 - i) = byte_bits w ! (7 - i)" by simp
  then have "odd (?n div 2 ^ i) = bit w i" using i by (simp add: value_bits_def byte_bits_def Suc_diff_Suc diff_diff_cancel)
  then have "bit ?n i = bit w i" by (simp add: bit_nat_def)
  then show "bit (of_nat ?n :: byte) i = bit w i" using i by (simp add: bit_of_nat_iff)
qed

lemma b64_index_nth: "n < 64 \<Longrightarrow> b64_index (b64_alphabet ! n) = n"
proof -
  have "list_all (\<lambda>n. b64_index (b64_alphabet ! n) = n) [0..<64]" by code_simp
  then show "n < 64 \<Longrightarrow> b64_index (b64_alphabet ! n) = n" by (simp add: list_all_iff)
qed

lemma length_b64_alphabet: "length b64_alphabet = 64"
  by code_simp

lemma sixes_groups: "g \<in> set (sixes bs) \<Longrightarrow> length g = 6"
proof (induction bs rule: sixes.induct)
  case (1 bs)
  then show ?case by (subst (asm) (2) sixes.simps) (cases bs; auto split: if_splits)
qed

lemma concat_sixes: "\<exists>k < 6. concat (sixes bs) = bs @ replicate k False"
proof (induction bs rule: sixes.induct)
  case (1 bs)
  show ?case
  proof (cases "length bs \<le> 6")
    case True
    then have "concat (sixes bs) = (if bs = [] then [] else bs @ replicate (6 - length bs) False)"
      by (subst sixes.simps) (cases bs; simp add: sixes.simps)
    then show ?thesis using True by (intro exI [of _ "if bs = [] then 0 else 6 - length bs"]) auto
  next
    case False
    then have ne: "bs \<noteq> []" by auto
    from 1 [OF ne] obtain k where "k < 6" "concat (sixes (drop 6 bs)) = drop 6 bs @ replicate k False" by blast
    moreover have "concat (sixes bs) = take 6 bs @ concat (sixes (drop 6 bs))"
      using False ne by (subst sixes.simps) simp
    ultimately show ?thesis by (metis append_assoc append_take_drop_id)
  qed
qed

lemma eights_bytes:
  "length pad < 8 \<Longrightarrow> eights (concat (map byte_bits bs) @ pad) = map byte_bits bs"
proof (induction bs)
  case Nil
  then show ?case by (simp add: eights.simps)
next
  case (Cons b bs)
  have l: "length (byte_bits b) = 8" by (simp add: byte_bits_def)
  with Cons show ?case by (subst eights.simps) simp
qed

lemma b64_decode_encode: "b64_decode (b64_encode bs) = (if length (b64_encode bs) mod 4 = 1 then None else Some bs)"
proof -
  let ?groups = "sixes (concat (map byte_bits bs))"
  have small: "bits_value g < 64 \<and> value_bits 6 (bits_value g) = g" if "g \<in> set ?groups" for g
    using sixes_groups [OF that] bits_value_bounds [of g] value_bits_value [of g 6] by simp
  have "map (\<lambda>c. value_bits 6 (b64_index c)) (b64_encode bs) = ?groups"
    unfolding b64_encode_def map_map using small by (intro map_idI) (simp add: b64_index_nth)
  moreover obtain k where "k < 6" "concat ?groups = concat (map byte_bits bs) @ replicate k False"
    using concat_sixes by blast
  moreover have "list_all (\<lambda>c. c \<in> set b64_alphabet) (b64_encode bs)"
    using small by (auto simp: b64_encode_def list_all_iff length_b64_alphabet intro!: nth_mem)
  ultimately show ?thesis by (simp add: b64_decode_def eights_bytes o_def byte_of_bits)
qed

lemma length_sixes: "length (sixes bs) = (length bs + 5) div 6"
proof (induction bs rule: sixes.induct)
  case (1 bs)
  show ?case
  proof (cases "bs = []")
    case False
    then have "length (sixes bs) = Suc ((length bs - 6 + 5) div 6)" using 1 by (subst sixes.simps) simp
    then show ?thesis using False by (cases "length bs \<le> 6") (auto simp: Suc_le_eq div_le_mono le_div_geq not_le)
  qed (simp add: sixes.simps)
qed

lemma length_concat_bytes: "length (concat (map byte_bits bs)) = 8 * length bs"
  by (induction bs) (simp_all add: byte_bits_def)

lemma length_b64_encode: "length (b64_encode bs) = (8 * length bs + 5) div 6"
  by (simp add: b64_encode_def length_sixes length_concat_bytes)

lemma canonical_bootstrap_code:
  "try_hash_canonical_bootstrap_code sha256 code = Some h \<longleftrightarrow>
     (\<exists>raw. length raw = 32 \<and> code = encode_bootstrap_code raw \<and> h = sha256 code)"
proof
  assume "try_hash_canonical_bootstrap_code sha256 code = Some h"
  then show "\<exists>raw. length raw = 32 \<and> code = encode_bootstrap_code raw \<and> h = sha256 code"
    by (auto simp: try_hash_canonical_bootstrap_code_def split: if_splits option.splits)
next
  assume "\<exists>raw. length raw = 32 \<and> code = encode_bootstrap_code raw \<and> h = sha256 code"
  then obtain raw where raw: "length raw = 32" "code = encode_bootstrap_code raw" "h = sha256 code" by blast
  then have l: "length code = 43" by (simp add: encode_bootstrap_code_def length_b64_encode)
  with raw b64_decode_encode [of raw] have d: "b64_decode code = Some raw" by (simp add: encode_bootstrap_code_def)
  then have "list_all (\<lambda>c. c \<in> set b64_alphabet) code" by (simp add: b64_decode_def split: if_splits)
  with d l raw show "try_hash_canonical_bootstrap_code sha256 code = Some h"
    by (simp add: try_hash_canonical_bootstrap_code_def)
qed

lemma encode_bootstrap_code_inject:
  assumes "length raw = 32" and "length raw' = 32"
  shows "encode_bootstrap_code raw = encode_bootstrap_code raw' \<longleftrightarrow> raw = raw'"
proof
  assume "encode_bootstrap_code raw = encode_bootstrap_code raw'"
  then have "b64_decode (b64_encode raw) = b64_decode (b64_encode raw')" by (simp add: encode_bootstrap_code_def)
  then show "raw = raw'" using assms by (simp add: b64_decode_encode length_b64_encode)
qed simp

text \<open>
  A bootstrap code is accepted as one exactly when it is the text of thirty-two bytes as the
  service issues it: no other spelling of the same bytes passes, every issued code does, and
  different bytes have different codes.
\<close>

theorem bootstrap_codes_are_canonical:
  "(try_hash_canonical_bootstrap_code sha256 code = Some h \<longleftrightarrow>
      (\<exists>raw. length raw = 32 \<and> code = encode_bootstrap_code raw \<and> h = sha256 code))
   \<and> inj_on encode_bootstrap_code {raw. length raw = 32}"
  using canonical_bootstrap_code encode_bootstrap_code_inject by (auto simp: inj_on_def)

section \<open>Reading back a token\<close>

lemma horner_shift: "foldl (\<lambda>n d. 16 * n + d) (a :: nat) ds = a * 16 ^ length ds + foldl (\<lambda>n d. 16 * n + d) 0 ds"
proof (induction ds arbitrary: a)
  case (Cons d ds)
  have "foldl (\<lambda>n d. 16 * n + d) a (d # ds) = (16 * a + d) * 16 ^ length ds + foldl (\<lambda>n d. 16 * n + d) 0 ds"
    using Cons.IH [of "16 * a + d"] by simp
  moreover have "foldl (\<lambda>n d. 16 * n + d) 0 (d # ds) = d * 16 ^ length ds + foldl (\<lambda>n d. 16 * n + d) 0 ds"
    using Cons.IH [of d] by simp
  ultimately show ?case by (simp add: algebra_simps)
qed simp

lemma horner_nibbles: "foldl (\<lambda>n d. 16 * n + d) 0 (map (\<lambda>i. (m div 16 ^ (k - Suc i)) mod 16) [0..<k]) = m mod 16 ^ k"
  for m :: nat
proof (induction k)
  case (Suc k)
  have "[0..<Suc k] = 0 # map Suc [0..<k]" by (simp add: map_Suc_upt upt_conv_Cons)
  then have "map (\<lambda>i. (m div 16 ^ (Suc k - Suc i)) mod 16) [0..<Suc k]
      = (m div 16 ^ k) mod 16 # map (\<lambda>i. (m div 16 ^ (k - Suc i)) mod 16) [0..<k]" by (simp add: o_def)
  then have "foldl (\<lambda>n d. 16 * n + d) 0 (map (\<lambda>i. (m div 16 ^ (Suc k - Suc i)) mod 16) [0..<Suc k])
      = (m div 16 ^ k) mod 16 * 16 ^ k + m mod 16 ^ k"
    using Suc horner_shift [of "(m div 16 ^ k) mod 16"] by simp
  also have "\<dots> = m mod 16 ^ Suc k"
    using mod_mult2_eq [of m "16 ^ k" 16] by (simp add: mult.commute)
  finally show ?case .
qed simp

lemma hex_value_digit: "n < 16 \<Longrightarrow> hex_value (digit_char n) = n \<and> digit_char n \<noteq> CHR ''-''"
proof -
  have "list_all (\<lambda>n. hex_value (digit_char n) = n \<and> digit_char n \<noteq> CHR ''-'') [0..<16]" by code_simp
  then show "n < 16 \<Longrightarrow> hex_value (digit_char n) = n \<and> digit_char n \<noteq> CHR ''-''" by (simp add: list_all_iff)
qed

lemma uuid_hex_chars: "c \<in> set (uuid_hex u) \<Longrightarrow> c \<noteq> CHR ''-''"
  using hex_value_digit by (auto simp: uuid_hex_def uuid_nibble_def)

lemma uuid_text_hex: "filter (\<lambda>c. c \<noteq> CHR ''-'') (uuid_text u) = uuid_hex u"
proof -
  let ?h = "uuid_hex u"
  have keep: "filter (\<lambda>c. c \<noteq> CHR ''-'') xs = xs" if "set xs \<subseteq> set ?h" for xs
    using that uuid_hex_chars by (intro filter_True) blast
  have parts: "set (take 8 ?h) \<subseteq> set ?h" "set (take 4 (drop 8 ?h)) \<subseteq> set ?h" "set (take 4 (drop 12 ?h)) \<subseteq> set ?h"
    "set (take 4 (drop 16 ?h)) \<subseteq> set ?h" "set (drop 20 ?h) \<subseteq> set ?h"
    by (auto dest: in_set_takeD in_set_dropD)
  have "?h = take 8 ?h @ take 4 (drop 8 ?h) @ take 4 (drop 12 ?h) @ take 4 (drop 16 ?h) @ drop 20 ?h"
    using append_take_drop_id [of 8 ?h] append_take_drop_id [of 4 "drop 8 ?h"] append_take_drop_id [of 4 "drop 12 ?h"]
      append_take_drop_id [of 4 "drop 16 ?h"] by simp
  with parts [THEN keep] show ?thesis by (simp add: uuid_text_def Let_def)
qed

lemma canonical_uuid_text [simp]: "canonical_uuid (uuid_text u) = Some u"
proof -
  have "foldl (\<lambda>n c. 16 * n + hex_value c) 0 (uuid_hex u) = foldl (\<lambda>n d. 16 * n + d) 0 (map hex_value (uuid_hex u))"
    by (simp add: foldl_map)
  also have "map hex_value (uuid_hex u) = map (\<lambda>i. (unat u div 16 ^ (32 - Suc i)) mod 16) [0..<32]"
    by (simp add: uuid_hex_def uuid_nibble_def hex_value_digit)
  also have "foldl (\<lambda>n d. 16 * n + d) 0 \<dots> = unat u mod 16 ^ 32" by (rule horner_nibbles)
  also have "\<dots> = unat u"
  proof (rule mod_less)
    show "unat u < 16 ^ 32" using unsigned_less [of u] by simp
  qed
  finally show ?thesis by (simp add: canonical_uuid_def uuid_text_hex)
qed

lemma parse_role_text [simp]: "parse_role (role_text r) = Some r"
  by (cases r) (simp_all add: parse_role_def)

text \<open>
  C30. A token that was issued is read back as the same user, tenant and role, exactly between its
  second of issue and its expiry, each stretched by the leeway, and refused at any other time. The
  JWT library is taken to return the claims it encoded.
\<close>

theorem tokens_round_trip:
  assumes "encode_token enc sv user tenant r ttl now jti = Inr t"
    and "dec t (to_key sv) (to_issuer sv) (to_audience sv) = Some (token_claims sv user tenant r ttl now jti)"
    and "t \<noteq> []" and "length t \<le> 8192"
    and "datetime_ok (now div 1000000)" and "datetime_ok (now div 1000000 + ttl)"
  shows "authenticate_token dec sv later t =
    (if now div 1000000 * 1000000 \<le> later + to_leeway sv * 1000000
        \<and> later - to_leeway sv * 1000000 < (now div 1000000 + ttl) * 1000000
     then Some \<lparr>pr_user = user, pr_tenant = tenant, pr_role = r\<rparr> else None)"
proof -
  have ttl: "60 \<le> ttl" "ttl \<le> 3600" using assms(1) by (auto simp: encode_token_def split: if_splits)
  have expires: "(now + ttl * 1000000) div 1000000 = now div 1000000 + ttl" by simp
  have "try_materialize sv later (token_claims sv user tenant r ttl now jti) =
    (if now div 1000000 * 1000000 \<le> later + to_leeway sv * 1000000
        \<and> later - to_leeway sv * 1000000 < (now div 1000000 + ttl) * 1000000
     then Some \<lparr>dt_user = user, dt_tenant = tenant, dt_role = r, dt_issued = now div 1000000,
       dt_expires = now div 1000000 + ttl, dt_id = jti\<rparr> else None)"
    using ttl assms(5,6) unfolding try_materialize_def token_claims_def expires
    by (auto simp: required_claims_def uuid_claim_def role_claim_def)
  then show ?thesis using assms(2,3,4) by (simp add: authenticate_token_def decode_token_def token_principal_def)
qed

definition sample_tokens :: token_service where
  "sample_tokens = \<lparr>to_key = replicate 32 7, to_issuer = ''agent-hub'', to_audience = ''agent-hub'', to_leeway = 5\<rparr>"

theorem tokens_round_trip_witness:
  "authenticate_token (\<lambda>_ _ _ _. Some (token_claims sample_tokens 1 2 Admin 900 1700000000000000 3)) sample_tokens
     1700000600000000 ''token'' = Some \<lparr>pr_user = 1, pr_tenant = 2, pr_role = Admin\<rparr>"
proof -
  have "encode_token (\<lambda>_ _. Some ''token'') sample_tokens 1 2 Admin 900 1700000000000000 3 = Inr ''token''"
    by (simp add: encode_token_def)
  from tokens_round_trip [OF this, of "\<lambda>_ _ _ _. Some (token_claims sample_tokens 1 2 Admin 900 1700000000000000 3)"]
  show ?thesis by (simp add: datetime_ok_def sample_tokens_def)
qed

end
