(* ===== verification/Account_Service.thy ===== *)
theory Account_Service
  imports Access_Tokens
begin

text \<open>
  The accounts: \<open>AuthService\<close> of \<open>auth/service.py\<close> with bootstrap and login, and the
  administration of users of \<open>auth/user_admin.py\<close>, over the tables of users and bootstrap codes of
  \<open>db/models.py\<close>. Every operation is one transaction. Password hashing, SHA-256, the JWT encoder and
  the random values are arguments.
\<close>

section \<open>Tables\<close>

record user_row =
  ur_id :: uuid
  ur_tenant :: uuid
  ur_name :: string
  ur_hash :: "string option"
  ur_open_id :: "string option"
  ur_role :: role
  ur_disabled :: bool
  ur_protected :: bool

record bootstrap_code_row =
  bc_id :: uuid
  bc_hash :: string
  bc_tenant :: uuid
  bc_expires :: instant
  bc_consumed :: "instant option"

record account_db =
  ac_users :: "user_row list"
  ac_codes :: "bootstrap_code_row list"

text \<open>The unique constraints and the checks of the two tables.\<close>

definition insert_user :: "user_row \<Rightarrow> account_db \<Rightarrow> account_db option" where
  "insert_user row db =
     (if \<not> is_valid_username (ur_name row)
         \<or> list_ex (\<lambda>r. ur_id r = ur_id row \<or> ur_tenant r = ur_tenant row \<and> ur_name r = ur_name row) (ac_users db)
      then None else Some (db\<lparr>ac_users := ac_users db @ [row]\<rparr>))"

definition write_user :: "user_row \<Rightarrow> account_db \<Rightarrow> account_db option" where
  "write_user row db =
     (if \<not> is_valid_username (ur_name row)
         \<or> list_ex (\<lambda>r. ur_id r \<noteq> ur_id row \<and> ur_tenant r = ur_tenant row \<and> ur_name r = ur_name row) (ac_users db)
      then None else Some (db\<lparr>ac_users := map (\<lambda>r. if ur_id r = ur_id row then row else r) (ac_users db)\<rparr>))"

definition insert_code :: "bootstrap_code_row \<Rightarrow> account_db \<Rightarrow> account_db option" where
  "insert_code row db =
     (if list_ex (\<lambda>r. bc_id r = bc_id row \<or> bc_hash r = bc_hash row) (ac_codes db) then None
      else Some (db\<lparr>ac_codes := ac_codes db @ [row]\<rparr>))"

definition write_code :: "bootstrap_code_row \<Rightarrow> account_db \<Rightarrow> account_db" where
  "write_code row db = db\<lparr>ac_codes := map (\<lambda>r. if bc_id r = bc_id row then row else r) (ac_codes db)\<rparr>"

section \<open>Passwords\<close>

datatype hash_result = Hashed string | Hash_Invalid | Hash_Busy | Hash_Failed | Hash_Cancelled
datatype verify_result = Verified bool | Verify_Busy | Verify_Cancelled

record password_service =
  pw_hash :: "string \<Rightarrow> hash_result"
  pw_verify :: "string \<Rightarrow> string \<Rightarrow> verify_result"
  pw_dummy :: string
  pw_outdated :: "string \<Rightarrow> bool"

definition number_within :: "string \<Rightarrow> nat \<Rightarrow> nat \<Rightarrow> bool" where
  "number_within t low high \<longleftrightarrow> t \<noteq> [] \<and> list_all (\<lambda>c. c \<in> set digits) t \<and> low \<le> nat_value t \<and> nat_value t \<le> high"

definition labelled :: "string \<Rightarrow> string \<Rightarrow> nat \<Rightarrow> nat \<Rightarrow> bool" where
  "labelled label t low high \<longleftrightarrow> starts_with label t \<and> number_within (drop (length label) t) low high"

definition base64_field :: "string \<Rightarrow> bool" where
  "base64_field t \<longleftrightarrow> 8 \<le> length t \<and> length t \<le> 128
     \<and> list_all (\<lambda>c. c \<in> set (upper_alpha @ lower_alnum @ ''+/'')) t"

definition is_safe_argon2id_encoding :: "string \<Rightarrow> bool" where
  "is_safe_argon2id_encoding h \<longleftrightarrow> length h \<le> 512
     \<and> (case split_on (CHR ''$'') h of
          [blank, kind, version, costs, salt, digest] \<Rightarrow>
            blank = [] \<and> kind = ''argon2id'' \<and> labelled ''v='' version 19 19
            \<and> (case split_on (CHR '','') costs of
                 [m, t, p] \<Rightarrow> labelled ''m='' m 8 65536 \<and> labelled ''t='' t 1 5 \<and> labelled ''p='' p 1 4
               | _ \<Rightarrow> False)
            \<and> base64_field salt \<and> base64_field digest
        | _ \<Rightarrow> False)"

definition hash_async :: "password_service \<Rightarrow> string \<Rightarrow> hash_result" where
  "hash_async ps password = (if is_valid_password password then pw_hash ps password else Hash_Invalid)"

definition verify_async :: "password_service \<Rightarrow> string \<Rightarrow> string \<Rightarrow> verify_result" where
  "verify_async ps stored password =
     (if is_safe_argon2id_encoding stored \<and> is_valid_password password then pw_verify ps stored password
      else Verified False)"

definition needs_rehash :: "password_service \<Rightarrow> string \<Rightarrow> bool" where
  "needs_rehash ps stored \<longleftrightarrow> is_safe_argon2id_encoding stored \<and> pw_outdated ps stored"

section \<open>Bootstrap and login\<close>

datatype auth_failure =
  Bad_Code_Ttl | Bootstrap_Closed | Invalid_Bootstrap | Invalid_Credentials | Invalid_Password | Invalid_Username
| Auth_Busy | Auth_Cancelled | Operation_Failed | Persistence_Failed

record auth_service =
  au_tenant :: uuid
  au_passwords :: password_service
  au_tokens :: token_service
  au_jwt :: jwt_encoder
  au_sha256 :: "string \<Rightarrow> string"

record auth_result =
  ar_principal :: principal
  ar_token :: string

definition has_super_admin :: "account_db \<Rightarrow> bool" where
  "has_super_admin db \<longleftrightarrow> list_ex (\<lambda>r. ur_role r = Super_Admin) (ac_users db)"

definition issue_bootstrap_code ::
  "auth_service \<Rightarrow> int \<Rightarrow> instant \<Rightarrow> byte list \<Rightarrow> uuid \<Rightarrow> account_db \<Rightarrow> account_db \<times> (auth_failure + string)" where
  "issue_bootstrap_code sv ttl now raw rid db =
     (if \<not> (60 \<le> ttl \<and> ttl \<le> 3600) then (db, Inl Bad_Code_Ttl)
      else if has_super_admin db then (db, Inl Bootstrap_Closed)
      else let code = encode_bootstrap_code raw in
        case insert_code \<lparr>bc_id = rid, bc_hash = au_sha256 sv code, bc_tenant = au_tenant sv,
               bc_expires = now + ttl * 1000000, bc_consumed = None\<rparr> db of
          None \<Rightarrow> (db, Inl Persistence_Failed)
        | Some db1 \<Rightarrow> (db1, Inr code))"

definition try_encode_token :: "auth_service \<Rightarrow> principal \<Rightarrow> instant \<Rightarrow> uuid \<Rightarrow> string option" where
  "try_encode_token sv pr now jti =
     (case encode_token (au_jwt sv) (au_tokens sv) (pr_user pr) (pr_tenant pr) (pr_role pr) 900 now jti of
        Inl _ \<Rightarrow> None | Inr t \<Rightarrow> Some t)"

definition consume_bootstrap_code ::
  "auth_service \<Rightarrow> string \<Rightarrow> string \<Rightarrow> string \<Rightarrow> instant \<Rightarrow> uuid \<Rightarrow> uuid \<Rightarrow> account_db
     \<Rightarrow> account_db \<times> (auth_failure + auth_result)" where
  "consume_bootstrap_code sv code username password now uid jti db =
     (if \<not> is_valid_username username then (db, Inl Invalid_Username)
      else let lookup = (case try_hash_canonical_bootstrap_code (au_sha256 sv) code of
               None \<Rightarrow> au_sha256 sv ''invalid-bootstrap-code'' | Some h \<Rightarrow> h) in
        if has_super_admin db then (db, Inl Invalid_Bootstrap)
        else case find (\<lambda>r. bc_tenant r = au_tenant sv \<and> bc_hash r = lookup) (ac_codes db) of
          None \<Rightarrow> (db, Inl Invalid_Bootstrap)
        | Some row \<Rightarrow>
            if bc_consumed row \<noteq> None \<or> bc_expires row \<le> now then (db, Inl Invalid_Bootstrap)
            else (case hash_async (au_passwords sv) password of
              Hash_Invalid \<Rightarrow> (db, Inl Invalid_Password)
            | Hash_Busy \<Rightarrow> (db, Inl Auth_Busy)
            | Hash_Failed \<Rightarrow> (db, Inl Operation_Failed)
            | Hash_Cancelled \<Rightarrow> (db, Inl Auth_Cancelled)
            | Hashed h \<Rightarrow>
                let pr = \<lparr>pr_user = uid, pr_tenant = au_tenant sv, pr_role = Super_Admin\<rparr> in
                (case try_encode_token sv pr now jti of
                   None \<Rightarrow> (db, Inl Operation_Failed)
                 | Some t \<Rightarrow>
                     (case insert_user \<lparr>ur_id = uid, ur_tenant = au_tenant sv, ur_name = username, ur_hash = Some h,
                             ur_open_id = None, ur_role = Super_Admin, ur_disabled = False, ur_protected = True\<rparr>
                             (write_code (row\<lparr>bc_consumed := Some now\<rparr>) db) of
                        None \<Rightarrow> (db, Inl Persistence_Failed)
                      | Some db1 \<Rightarrow> (db1, Inr \<lparr>ar_principal = pr, ar_token = t\<rparr>)))))"

text \<open>The hash the password is verified against: the stored one, or the dummy.\<close>

definition login_row :: "uuid \<Rightarrow> string \<Rightarrow> account_db \<Rightarrow> user_row option" where
  "login_row tenant username db =
     (if is_valid_username username
      then find (\<lambda>r. ur_tenant r = tenant \<and> ur_name r = username) (ac_users db) else None)"

definition login_hash :: "auth_service \<Rightarrow> user_row option \<Rightarrow> string" where
  "login_hash sv row = (case row of Some r \<Rightarrow> (case ur_hash r of Some h \<Rightarrow> h | None \<Rightarrow> pw_dummy (au_passwords sv))
     | None \<Rightarrow> pw_dummy (au_passwords sv))"

definition login ::
  "auth_service \<Rightarrow> uuid \<Rightarrow> string \<Rightarrow> string \<Rightarrow> instant \<Rightarrow> uuid \<Rightarrow> account_db
     \<Rightarrow> account_db \<times> (auth_failure + auth_result)" where
  "login sv tenant username password now jti db =
     (let row = login_row tenant username db; old = login_hash sv row in
      case verify_async (au_passwords sv) old password of
        Verify_Busy \<Rightarrow> (db, Inl Auth_Busy)
      | Verify_Cancelled \<Rightarrow> (db, Inl Auth_Cancelled)
      | Verified ok \<Rightarrow>
          (case row of
             None \<Rightarrow> (db, Inl Invalid_Credentials)
           | Some r \<Rightarrow>
               if ur_hash r = None \<or> ur_disabled r \<or> \<not> ok then (db, Inl Invalid_Credentials)
               else let pr = \<lparr>pr_user = ur_id r, pr_tenant = ur_tenant r, pr_role = ur_role r\<rparr> in
                 (case try_encode_token sv pr now jti of
                    None \<Rightarrow> (db, Inl Operation_Failed)
                  | Some t \<Rightarrow>
                      let result = \<lparr>ar_principal = pr, ar_token = t\<rparr> in
                      if \<not> needs_rehash (au_passwords sv) old then (db, Inr result)
                      else (case hash_async (au_passwords sv) password of
                          Hash_Invalid \<Rightarrow> (db, Inl Auth_Busy)
                        | Hash_Busy \<Rightarrow> (db, Inl Auth_Busy)
                        | Hash_Failed \<Rightarrow> (db, Inl Operation_Failed)
                        | Hash_Cancelled \<Rightarrow> (db, Inl Auth_Cancelled)
                        | Hashed h \<Rightarrow>
                            (db\<lparr>ac_users := map (\<lambda>u. if ur_id u = ur_id r \<and> ur_hash u = Some old
                               then u\<lparr>ur_hash := Some h\<rparr> else u) (ac_users db)\<rparr>, Inr result)))))"

section \<open>Administration of users\<close>

datatype admin_error =
  Permission_Error | Username_Error | Hash_Error hash_result | User_Exists | User_Missing | Protected_User
| Last_Super_Admin | Binding_Error

record managed_user =
  mu_id :: uuid
  mu_name :: string
  mu_role :: role
  mu_disabled :: bool
  mu_open_id :: "string option"
  mu_protected :: bool

definition managed_user_from_row :: "user_row \<Rightarrow> managed_user" where
  "managed_user_from_row r = \<lparr>mu_id = ur_id r, mu_name = ur_name r, mu_role = ur_role r, mu_disabled = ur_disabled r,
     mu_open_id = ur_open_id r, mu_protected = ur_protected r\<rparr>"

type_synonym admin_result = "account_db \<times> (admin_error + managed_user)"

definition require_admin :: "principal \<Rightarrow> bool" where
  "require_admin actor \<longleftrightarrow> pr_role actor \<in> {Super_Admin, Admin}"

definition select_user :: "principal \<Rightarrow> uuid \<Rightarrow> account_db \<Rightarrow> user_row option" where
  "select_user actor uid db = find (\<lambda>r. ur_tenant r = pr_tenant actor \<and> ur_id r = uid) (ac_users db)"

text \<open>Whether another super administrator of the tenant remains, counting the disabled or not.\<close>

definition another_super_admin :: "bool \<Rightarrow> principal \<Rightarrow> uuid \<Rightarrow> account_db \<Rightarrow> bool" where
  "another_super_admin enabled_only actor uid db =
     list_ex (\<lambda>r. ur_tenant r = pr_tenant actor \<and> ur_id r \<noteq> uid \<and> ur_role r = Super_Admin
       \<and> (enabled_only \<longrightarrow> \<not> ur_disabled r)) (ac_users db)"

definition list_users :: "principal \<Rightarrow> account_db \<Rightarrow> admin_error + managed_user list" where
  "list_users actor db = (if \<not> require_admin actor then Inl Permission_Error
     else Inr (map managed_user_from_row
       (sort_key ur_name (filter (\<lambda>r. ur_tenant r = pr_tenant actor) (ac_users db)))))"

definition store_user :: "user_row \<Rightarrow> account_db \<Rightarrow> admin_result" where
  "store_user row db = (case write_user row db of
      None \<Rightarrow> (db, Inl User_Exists) | Some db1 \<Rightarrow> (db1, Inr (managed_user_from_row row)))"

definition create_user ::
  "password_service \<Rightarrow> principal \<Rightarrow> string \<Rightarrow> string \<Rightarrow> role \<Rightarrow> uuid \<Rightarrow> account_db \<Rightarrow> admin_result" where
  "create_user ps actor username password r uid db =
     (if \<not> require_admin actor then (db, Inl Permission_Error)
      else if pr_role actor \<noteq> Super_Admin \<and> r = Super_Admin then (db, Inl Permission_Error)
      else if \<not> is_valid_username username then (db, Inl Username_Error)
      else case hash_async ps password of
        Hashed h \<Rightarrow>
          let row = \<lparr>ur_id = uid, ur_tenant = pr_tenant actor, ur_name = username, ur_hash = Some h, ur_open_id = None,
                ur_role = r, ur_disabled = False, ur_protected = False\<rparr> in
          (case insert_user row db of
             None \<Rightarrow> (db, Inl User_Exists) | Some db1 \<Rightarrow> (db1, Inr (managed_user_from_row row)))
      | e \<Rightarrow> (db, Inl (Hash_Error e)))"

definition change_role :: "principal \<Rightarrow> uuid \<Rightarrow> role \<Rightarrow> account_db \<Rightarrow> admin_result" where
  "change_role actor uid r db =
     (if \<not> require_admin actor then (db, Inl Permission_Error)
      else if pr_role actor \<noteq> Super_Admin \<and> r = Super_Admin then (db, Inl Permission_Error)
      else case select_user actor uid db of
        None \<Rightarrow> (db, Inl User_Missing)
      | Some row \<Rightarrow>
          if ur_protected row \<and> r \<noteq> Super_Admin then (db, Inl Protected_User)
          else if ur_role row = Super_Admin \<and> r \<noteq> Super_Admin \<and> \<not> another_super_admin False actor uid db
          then (db, Inl Last_Super_Admin)
          else store_user (row\<lparr>ur_role := r\<rparr>) db)"

definition update_user ::
  "principal \<Rightarrow> uuid \<Rightarrow> string option \<Rightarrow> role option \<Rightarrow> bool option \<Rightarrow> account_db \<Rightarrow> admin_result" where
  "update_user actor uid username r disabled db =
     (if \<not> require_admin actor then (db, Inl Permission_Error)
      else if (case username of None \<Rightarrow> False | Some n \<Rightarrow> \<not> is_valid_username n) then (db, Inl Username_Error)
      else if pr_role actor \<noteq> Super_Admin \<and> r = Some Super_Admin then (db, Inl Permission_Error)
      else if uid = pr_user actor \<and> disabled = Some True then (db, Inl Protected_User)
      else case select_user actor uid db of
        None \<Rightarrow> (db, Inl User_Missing)
      | Some row \<Rightarrow>
          let next_name = (case username of None \<Rightarrow> ur_name row | Some n \<Rightarrow> n);
              next_role = (case r of None \<Rightarrow> ur_role row | Some x \<Rightarrow> x);
              next_disabled = (case disabled of None \<Rightarrow> ur_disabled row | Some b \<Rightarrow> b) in
          if ur_protected row \<and> (next_name \<noteq> ur_name row \<or> next_role \<noteq> Super_Admin \<or> next_disabled)
          then (db, Inl Protected_User)
          else if ur_role row = Super_Admin \<and> (next_role \<noteq> Super_Admin \<or> next_disabled)
              \<and> \<not> another_super_admin True actor uid db
          then (db, Inl Last_Super_Admin)
          else store_user (row\<lparr>ur_name := next_name, ur_role := next_role, ur_disabled := next_disabled\<rparr>) db)"

definition set_disabled :: "principal \<Rightarrow> uuid \<Rightarrow> bool \<Rightarrow> account_db \<Rightarrow> admin_result" where
  "set_disabled actor uid disabled db =
     (if \<not> require_admin actor then (db, Inl Permission_Error)
      else if uid = pr_user actor \<and> disabled then (db, Inl Protected_User)
      else case select_user actor uid db of
        None \<Rightarrow> (db, Inl User_Missing)
      | Some row \<Rightarrow>
          if ur_protected row \<and> disabled then (db, Inl Protected_User)
          else if ur_role row = Super_Admin \<and> disabled \<and> \<not> another_super_admin True actor uid db
          then (db, Inl Last_Super_Admin)
          else store_user (row\<lparr>ur_disabled := disabled\<rparr>) db)"

definition reset_password :: "password_service \<Rightarrow> principal \<Rightarrow> uuid \<Rightarrow> string \<Rightarrow> account_db \<Rightarrow> admin_result" where
  "reset_password ps actor uid password db =
     (if \<not> require_admin actor then (db, Inl Permission_Error)
      else case hash_async ps password of
        Hashed h \<Rightarrow>
          (case select_user actor uid db of
             None \<Rightarrow> (db, Inl User_Missing)
           | Some row \<Rightarrow>
               if ur_protected row then (db, Inl Protected_User)
               else store_user (row\<lparr>ur_hash := Some h\<rparr>) db)
      | e \<Rightarrow> (db, Inl (Hash_Error e)))"

definition delete_user :: "principal \<Rightarrow> uuid \<Rightarrow> account_db \<Rightarrow> admin_result" where
  "delete_user actor uid db =
     (if \<not> require_admin actor then (db, Inl Permission_Error)
      else if uid = pr_user actor then (db, Inl Protected_User)
      else case select_user actor uid db of
        None \<Rightarrow> (db, Inl User_Missing)
      | Some row \<Rightarrow>
          if ur_protected row then (db, Inl Protected_User)
          else if ur_role row = Super_Admin \<and> \<not> another_super_admin True actor uid db
          then (db, Inl Last_Super_Admin)
          else (db\<lparr>ac_users := filter (\<lambda>r. ur_id r \<noteq> uid) (ac_users db)\<rparr>, Inr (managed_user_from_row row)))"

definition bind_feishu_open_id :: "principal \<Rightarrow> uuid \<Rightarrow> string \<Rightarrow> account_db \<Rightarrow> admin_result" where
  "bind_feishu_open_id actor uid open_id db =
     (if \<not> require_admin actor then (db, Inl Permission_Error)
      else if list_ex (\<lambda>r. ur_tenant r = pr_tenant actor \<and> ur_open_id r = Some open_id \<and> ur_id r \<noteq> uid) (ac_users db)
      then (db, Inl Binding_Error)
      else case select_user actor uid db of
        None \<Rightarrow> (db, Inl User_Missing)
      | Some row \<Rightarrow> store_user (row\<lparr>ur_open_id := Some open_id\<rparr>) db)"

definition unbind_feishu_open_id :: "principal \<Rightarrow> uuid \<Rightarrow> account_db \<Rightarrow> admin_result" where
  "unbind_feishu_open_id actor uid db =
     (if \<not> require_admin actor then (db, Inl Permission_Error)
      else case select_user actor uid db of
        None \<Rightarrow> (db, Inl User_Missing)
      | Some row \<Rightarrow> store_user (row\<lparr>ur_open_id := None\<rparr>) db)"

end
