(* ===== verification/Account_Guarantees.thy ===== *)
theory Account_Guarantees
  imports Account_Service
begin

text \<open>
  What the accounts promise: the tables stay sound, the bootstrap happens once, tenants are kept
  apart, a login admits the rightful user only; and where the rules for administrators fail.
\<close>

section \<open>Histories\<close>

datatype account_op =
  Op_Issue_Code int instant "byte list" uuid
| Op_Consume_Code string string string instant uuid uuid
| Op_Login uuid string string instant uuid
| Op_Create_User principal string string role uuid
| Op_Change_Role principal uuid role
| Op_Update_User principal uuid "string option" "role option" "bool option"
| Op_Set_Disabled principal uuid bool
| Op_Reset_Password principal uuid string
| Op_Delete_User principal uuid
| Op_Bind_Feishu principal uuid string
| Op_Unbind_Feishu principal uuid

fun exec_account :: "auth_service \<Rightarrow> account_op \<Rightarrow> account_db \<Rightarrow> account_db" where
  "exec_account sv (Op_Issue_Code ttl now raw rid) db = fst (issue_bootstrap_code sv ttl now raw rid db)"
| "exec_account sv (Op_Consume_Code code n p now uid jti) db = fst (consume_bootstrap_code sv code n p now uid jti db)"
| "exec_account sv (Op_Login t n p now jti) db = fst (login sv t n p now jti db)"
| "exec_account sv (Op_Create_User a n p r uid) db = fst (create_user (au_passwords sv) a n p r uid db)"
| "exec_account sv (Op_Change_Role a uid r) db = fst (change_role a uid r db)"
| "exec_account sv (Op_Update_User a uid n r d) db = fst (update_user a uid n r d db)"
| "exec_account sv (Op_Set_Disabled a uid d) db = fst (set_disabled a uid d db)"
| "exec_account sv (Op_Reset_Password a uid p) db = fst (reset_password (au_passwords sv) a uid p db)"
| "exec_account sv (Op_Delete_User a uid) db = fst (delete_user a uid db)"
| "exec_account sv (Op_Bind_Feishu a uid o1) db = fst (bind_feishu_open_id a uid o1 db)"
| "exec_account sv (Op_Unbind_Feishu a uid) db = fst (unbind_feishu_open_id a uid db)"

text \<open>The tenant an operation works for; issuing and consuming codes concern the bootstrap tenant.\<close>

fun account_tenant :: "auth_service \<Rightarrow> account_op \<Rightarrow> uuid" where
  "account_tenant sv (Op_Issue_Code _ _ _ _) = au_tenant sv"
| "account_tenant sv (Op_Consume_Code _ _ _ _ _ _) = au_tenant sv"
| "account_tenant sv (Op_Login t _ _ _ _) = t"
| "account_tenant sv (Op_Create_User a _ _ _ _) = pr_tenant a"
| "account_tenant sv (Op_Change_Role a _ _) = pr_tenant a"
| "account_tenant sv (Op_Update_User a _ _ _ _) = pr_tenant a"
| "account_tenant sv (Op_Set_Disabled a _ _) = pr_tenant a"
| "account_tenant sv (Op_Reset_Password a _ _) = pr_tenant a"
| "account_tenant sv (Op_Delete_User a _) = pr_tenant a"
| "account_tenant sv (Op_Bind_Feishu a _ _) = pr_tenant a"
| "account_tenant sv (Op_Unbind_Feishu a _) = pr_tenant a"

section \<open>What an operation can do\<close>

text \<open>An enabled super administrator, and the rule that one other remains.\<close>

definition rules :: "uuid \<Rightarrow> user_row \<Rightarrow> bool" where
  "rules t r \<longleftrightarrow> ur_tenant r = t \<and> ur_role r = Super_Admin \<and> \<not> ur_disabled r"

definition spared :: "uuid \<Rightarrow> uuid \<Rightarrow> account_db \<Rightarrow> bool" where
  "spared t uid db \<longleftrightarrow> (\<exists>r \<in> set (ac_users db). rules t r \<and> ur_id r \<noteq> uid)"

inductive account_effect :: "bool \<Rightarrow> uuid \<Rightarrow> account_db \<Rightarrow> account_db \<Rightarrow> bool" for strict t where
  Nothing: "account_effect strict t db db"
| Code_Issued: "insert_code c db = Some db' \<Longrightarrow> bc_consumed c = None \<Longrightarrow> account_effect strict t db db'"
| Bootstrapped: "\<not> has_super_admin db \<Longrightarrow> c \<in> set (ac_codes db) \<Longrightarrow> bc_consumed c = None \<Longrightarrow>
    insert_user row (write_code (c\<lparr>bc_consumed := Some now\<rparr>) db) = Some db' \<Longrightarrow>
    rules t row \<Longrightarrow> ur_protected row \<Longrightarrow> account_effect strict t db db'"
| User_Created: "insert_user row db = Some db' \<Longrightarrow> ur_tenant row = t \<Longrightarrow> \<not> ur_protected row \<Longrightarrow> account_effect strict t db db'"
| User_Written: "row \<in> set (ac_users db) \<Longrightarrow> ur_tenant row = t \<Longrightarrow> write_user row' db = Some db' \<Longrightarrow>
    ur_id row' = ur_id row \<Longrightarrow> ur_tenant row' = t \<Longrightarrow> ur_protected row' = ur_protected row \<Longrightarrow>
    (ur_protected row \<Longrightarrow> ur_name row' = ur_name row \<and> (rules t row \<longrightarrow> rules t row')) \<Longrightarrow>
    (strict \<Longrightarrow> rules t row \<Longrightarrow> rules t row' \<or> spared t (ur_id row) db) \<Longrightarrow> account_effect strict t db db'"
| User_Deleted: "row \<in> set (ac_users db) \<Longrightarrow> ur_tenant row = t \<Longrightarrow> \<not> ur_protected row \<Longrightarrow>
    (rules t row \<Longrightarrow> spared t (ur_id row) db) \<Longrightarrow>
    account_effect strict t db (db\<lparr>ac_users := filter (\<lambda>r. ur_id r \<noteq> ur_id row) (ac_users db)\<rparr>)"
| Rehashed: "row \<in> set (ac_users db) \<Longrightarrow> ur_tenant row = t \<Longrightarrow>
    account_effect strict t db (db\<lparr>ac_users := map (\<lambda>u. if ur_id u = ur_id row \<and> ur_hash u = h0 then u\<lparr>ur_hash := h\<rparr> else u)
      (ac_users db)\<rparr>)"

lemma select_user_Some: "select_user a uid db = Some row \<Longrightarrow> row \<in> set (ac_users db) \<and> ur_tenant row = pr_tenant a \<and> ur_id row = uid"
  by (auto simp: select_user_def find_Some_iff)

lemma another_spared: "another_super_admin True a uid db \<longleftrightarrow> spared (pr_tenant a) uid db"
  by (auto simp: another_super_admin_def spared_def rules_def list_ex_iff)

lemma store_user_effect:
  assumes "row \<in> set (ac_users db)" "ur_tenant row = t" "ur_id row' = ur_id row" "ur_tenant row' = t"
    "ur_protected row' = ur_protected row"
    "ur_protected row \<Longrightarrow> ur_name row' = ur_name row \<and> (rules t row \<longrightarrow> rules t row')"
    "strict \<Longrightarrow> rules t row \<Longrightarrow> rules t row' \<or> spared t (ur_id row) db"
  shows "account_effect strict t db (fst (store_user row' db))"
  using User_Written [of row db t row' _ strict] assms by (auto simp: store_user_def Nothing split: option.splits)

lemma login_row_Some: "login_row t n db = Some r \<Longrightarrow> r \<in> set (ac_users db) \<and> ur_tenant r = t \<and> ur_name r = n"
  by (auto simp: login_row_def find_Some_iff split: if_splits)

lemma bootstrap_effects:
  "account_effect strict (au_tenant sv) db (fst (issue_bootstrap_code sv ttl now raw rid db))"
  "account_effect strict (au_tenant sv) db (fst (consume_bootstrap_code sv code n p now uid jti db))"
proof -
  show "account_effect strict (au_tenant sv) db (fst (issue_bootstrap_code sv ttl now raw rid db))"
    unfolding issue_bootstrap_code_def Let_def
    by (auto simp: Nothing split: option.splits intro: Code_Issued)
  show "account_effect strict (au_tenant sv) db (fst (consume_bootstrap_code sv code n p now uid jti db))"
    unfolding consume_bootstrap_code_def Let_def
    by (auto simp: Nothing find_Some_iff rules_def split: option.splits hash_result.splits intro!: Bootstrapped)
qed

lemma login_effect: "account_effect strict t db (fst (login sv t n p now jti db))"
  unfolding login_def Let_def
  by (auto simp: Nothing split: option.splits verify_result.splits hash_result.splits dest!: login_row_Some
      intro: Rehashed)

lemma exec_effect:
  "account_effect (\<forall>a uid r. op \<noteq> Op_Change_Role a uid r) (account_tenant sv op) db (exec_account sv op db)"
proof (cases op)
  case (Op_Create_User a n p r uid)
  show ?thesis unfolding Op_Create_User exec_account.simps account_tenant.simps create_user_def Let_def
    by (auto simp: Nothing split: hash_result.splits option.splits intro: User_Created)
next
  case (Op_Change_Role a uid r)
  show ?thesis unfolding Op_Change_Role exec_account.simps account_tenant.simps change_role_def
    by (auto simp: Nothing rules_def split: option.splits dest!: select_user_Some intro!: store_user_effect)
next
  case (Op_Update_User a uid n r d)
  show ?thesis unfolding Op_Update_User exec_account.simps account_tenant.simps update_user_def Let_def another_spared
    by (auto simp: Nothing rules_def split: option.splits dest!: select_user_Some intro!: store_user_effect)
next
  case (Op_Set_Disabled a uid d)
  show ?thesis unfolding Op_Set_Disabled exec_account.simps account_tenant.simps set_disabled_def another_spared
    by (auto simp: Nothing rules_def split: option.splits dest!: select_user_Some intro!: store_user_effect)
next
  case (Op_Reset_Password a uid p)
  show ?thesis unfolding Op_Reset_Password exec_account.simps account_tenant.simps reset_password_def
    by (auto simp: Nothing rules_def split: hash_result.splits option.splits dest!: select_user_Some intro!: store_user_effect)
next
  case (Op_Delete_User a uid)
  show ?thesis unfolding Op_Delete_User exec_account.simps account_tenant.simps delete_user_def another_spared
    by (auto simp: Nothing rules_def split: option.splits dest!: select_user_Some intro: User_Deleted)
next
  case (Op_Bind_Feishu a uid x)
  show ?thesis unfolding Op_Bind_Feishu exec_account.simps account_tenant.simps bind_feishu_open_id_def
    by (auto simp: Nothing rules_def split: option.splits dest!: select_user_Some intro!: store_user_effect)
next
  case (Op_Unbind_Feishu a uid)
  show ?thesis unfolding Op_Unbind_Feishu exec_account.simps account_tenant.simps unbind_feishu_open_id_def
    by (auto simp: Nothing rules_def split: option.splits dest!: select_user_Some intro!: store_user_effect)
qed (use bootstrap_effects login_effect in auto)

section \<open>The invariant\<close>

text \<open>
  Ids and names are unique, and so are the ids and the hashes of the codes; a protected user is an enabled super administrator; and there are
  as many consumed codes as protected users, at most one.
\<close>

definition accounts_ok :: "account_db \<Rightarrow> bool" where
  "accounts_ok db \<longleftrightarrow> distinct (map ur_id (ac_users db)) \<and> distinct (map bc_id (ac_codes db))
     \<and> distinct (map bc_hash (ac_codes db))
     \<and> (\<forall>r \<in> set (ac_users db). is_valid_username (ur_name r) \<and> (ur_protected r \<longrightarrow> rules (ur_tenant r) r))
     \<and> distinct (map (\<lambda>r. (ur_tenant r, ur_name r)) (ac_users db))
     \<and> length (filter (\<lambda>c. bc_consumed c \<noteq> None) (ac_codes db)) = length (filter ur_protected (ac_users db))
     \<and> length (filter ur_protected (ac_users db)) \<le> 1"

lemma accounts_ok_empty: "accounts_ok \<lparr>ac_users = [], ac_codes = []\<rparr>"
  by (simp add: accounts_ok_def)

lemma write_user_rows:
  assumes "write_user row' db = Some db'"
  shows "ac_users db' = map (\<lambda>r. if ur_id r = ur_id row' then row' else r) (ac_users db)" "ac_codes db' = ac_codes db"
    "is_valid_username (ur_name row')"
    "\<forall>r \<in> set (ac_users db). ur_tenant r = ur_tenant row' \<and> ur_name r = ur_name row' \<longrightarrow> ur_id r = ur_id row'"
  using assms by (auto simp: write_user_def list_ex_iff split: if_splits)

lemma insert_user_rows:
  assumes "insert_user row db = Some db'"
  shows "ac_users db' = ac_users db @ [row]" "ac_codes db' = ac_codes db" "is_valid_username (ur_name row)"
    "\<forall>r \<in> set (ac_users db). ur_id r \<noteq> ur_id row \<and> (ur_tenant r \<noteq> ur_tenant row \<or> ur_name r \<noteq> ur_name row)"
  using assms by (auto simp: insert_user_def list_ex_iff split: if_splits)

lemma insert_code_rows:
  assumes "insert_code c db = Some db'"
  shows "ac_codes db' = ac_codes db @ [c]" "ac_users db' = ac_users db" "bc_id c \<notin> bc_id ` set (ac_codes db)"
    "bc_hash c \<notin> bc_hash ` set (ac_codes db)"
  using assms by (auto simp: insert_code_def list_ex_iff split: if_splits)

lemma ac_users_write_code [simp]: "ac_users (write_code c db) = ac_users db"
  by (simp add: write_code_def)

lemma same_id: "distinct (map f xs) \<Longrightarrow> x \<in> set xs \<Longrightarrow> y \<in> set xs \<Longrightarrow> f x = f y \<Longrightarrow> x = y"
  by (auto simp: distinct_map inj_on_def)

lemma distinct_replace:
  assumes "distinct (map g xs)" and "distinct (map k xs)" and "\<forall>r \<in> set xs. g r \<noteq> g x \<longrightarrow> k r \<noteq> k x"
  shows "distinct (map k (map (\<lambda>r. if g r = g x then x else r) xs))"
proof -
  have "inj_on g (set xs)" "inj_on k (set xs)" "distinct xs" using assms(1,2) by (simp_all add: distinct_map)
  with assms(3) have "inj_on (k \<circ> (\<lambda>r. if g r = g x then x else r)) (set xs)"
    by (intro inj_onI) (auto split: if_splits dest: inj_onD intro: inj_onD [of g])
  with \<open>distinct xs\<close> show ?thesis by (simp add: distinct_map o_def)
qed

lemma length_filter_replace:
  assumes "\<And>x. x \<in> set xs \<Longrightarrow> P (f x) \<longleftrightarrow> P x"
  shows "length (filter P (map f xs)) = length (filter P xs)"
  using assms by (induction xs) auto

lemma length_filter_consumed:
  assumes "distinct (map g xs)" and "c \<in> set xs" and "\<not> P c" and "P c'" and "g c' = g c"
  shows "length (filter P (map (\<lambda>r. if g r = g c' then c' else r) xs)) = Suc (length (filter P xs))"
  using assms
proof (induction xs)
  case (Cons x xs)
  show ?case
  proof (cases "x = c")
    case True
    then have "g c \<notin> g ` set xs" using Cons.prems by simp
    then have "\<forall>y \<in> set xs. g y \<noteq> g c'" using Cons.prems(5) by (metis imageI)
    then have "map (\<lambda>r. if g r = g c' then c' else r) xs = xs" by (intro map_idI) auto
    then show ?thesis using True Cons.prems by simp
  next
    case False
    then have "c \<in> set xs" using Cons.prems by simp
    moreover then have "g x \<noteq> g c'" using Cons.prems by auto
    ultimately show ?thesis using Cons by simp
  qed
qed simp

lemma no_protected: "accounts_ok db \<Longrightarrow> \<not> has_super_admin db \<Longrightarrow> filter ur_protected (ac_users db) = []"
  by (auto simp: accounts_ok_def has_super_admin_def list_ex_iff rules_def filter_empty_conv)

lemma effect_ok:
  assumes "account_effect strict t db db'" and ok: "accounts_ok db"
  shows "accounts_ok db'"
  using assms(1)
proof cases
  case (Code_Issued c)
  note rows = insert_code_rows [OF Code_Issued(1)]
  show ?thesis using ok Code_Issued(2) unfolding accounts_ok_def rows(1,2) by (simp add: rows(3,4))
next
  case (Bootstrapped c row now)
  note rows = insert_user_rows [OF Bootstrapped(4)]
  have "length (filter (\<lambda>c. bc_consumed c \<noteq> None) (ac_codes (write_code (c\<lparr>bc_consumed := Some now\<rparr>) db)))
      = Suc (length (filter (\<lambda>c. bc_consumed c \<noteq> None) (ac_codes db)))"
    using length_filter_consumed [of bc_id "ac_codes db" c "\<lambda>c. bc_consumed c \<noteq> None" "c\<lparr>bc_consumed := Some now\<rparr>"]
      ok Bootstrapped(2,3) by (simp add: write_code_def accounts_ok_def)
  moreover have "map bc_id (ac_codes (write_code (c\<lparr>bc_consumed := Some now\<rparr>) db)) = map bc_id (ac_codes db)"
    by (simp add: write_code_def)
  moreover have "map bc_hash (ac_codes (write_code (c\<lparr>bc_consumed := Some now\<rparr>) db)) = map bc_hash (ac_codes db)"
    using same_id [of bc_id "ac_codes db" _ c] ok Bootstrapped(2) by (auto simp: write_code_def accounts_ok_def)
  ultimately show ?thesis using ok rows Bootstrapped no_protected [OF ok Bootstrapped(1)]
    by (auto simp: accounts_ok_def rules_def)
next
  case (User_Created row)
  note rows = insert_user_rows [OF User_Created(1)]
  show ?thesis using ok rows User_Created(3) by (auto simp: accounts_ok_def)
next
  case (User_Written row row')
  note rows = write_user_rows [OF User_Written(3)]
  have one: "r = row" if "r \<in> set (ac_users db)" "ur_id r = ur_id row'" for r
    using same_id [of ur_id "ac_users db" r row] ok that User_Written(1,4) by (auto simp: accounts_ok_def)
  have ids: "map ur_id (ac_users db') = map ur_id (ac_users db)" unfolding rows(1) by simp
  have prot: "length (filter ur_protected (ac_users db')) = length (filter ur_protected (ac_users db))"
    unfolding rows(1) by (rule length_filter_replace) (use one User_Written(6) in auto)
  have before: "\<forall>r \<in> set (ac_users db). is_valid_username (ur_name r) \<and> (ur_protected r \<longrightarrow> rules (ur_tenant r) r)"
    using ok by (simp add: accounts_ok_def)
  have mine: "ur_protected row' \<longrightarrow> rules (ur_tenant row') row'"
    using bspec [OF before User_Written(1)] User_Written(2,5,6,7) by simp
  have "\<forall>r \<in> set (ac_users db'). is_valid_username (ur_name r) \<and> (ur_protected r \<longrightarrow> rules (ur_tenant r) r)"
    unfolding rows(1) using before mine rows(3) by auto
  moreover have "distinct (map (\<lambda>r. (ur_tenant r, ur_name r)) (ac_users db'))"
    unfolding rows(1) by (rule distinct_replace) (use ok rows(4) in \<open>auto simp: accounts_ok_def\<close>)
  ultimately show ?thesis using ok ids prot rows(2) by (simp add: accounts_ok_def)
next
  case (User_Deleted row)
  have "filter ur_protected (filter (\<lambda>r. ur_id r \<noteq> ur_id row) (ac_users db)) = filter ur_protected (ac_users db)"
    using same_id [of ur_id "ac_users db" _ row] ok User_Deleted by (auto simp: accounts_ok_def filter_filter intro!: filter_cong)
  then show ?thesis using ok User_Deleted(1) by (auto simp: accounts_ok_def distinct_map_filter)
next
  case (Rehashed row h0 h)
  let ?f = "\<lambda>u. if ur_id u = ur_id row \<and> ur_hash u = h0 then u\<lparr>ur_hash := h\<rparr> else u"
  have "map ur_id (map ?f (ac_users db)) = map ur_id (ac_users db)" by simp
  moreover have "length (filter ur_protected (map ?f (ac_users db))) = length (filter ur_protected (ac_users db))"
    by (rule length_filter_replace) simp
  moreover have "map (\<lambda>r. (ur_tenant r, ur_name r)) (map ?f (ac_users db)) = map (\<lambda>r. (ur_tenant r, ur_name r)) (ac_users db)"
    by simp
  ultimately show ?thesis using ok Rehashed(1) by (auto simp: accounts_ok_def rules_def simp del: map_map)
qed (use ok in simp)

definition account_history :: "auth_service \<Rightarrow> account_op list \<Rightarrow> account_db \<Rightarrow> account_db" where
  "account_history sv ops db = fold (exec_account sv) ops db"

lemma exec_account_ok: "accounts_ok db \<Longrightarrow> accounts_ok (exec_account sv op db)"
  by (rule effect_ok [OF exec_effect])

lemma history_ok: "accounts_ok db \<Longrightarrow> accounts_ok (account_history sv ops db)"
  unfolding account_history_def by (induction ops arbitrary: db) (simp_all add: exec_account_ok)

text \<open>
  C26. From empty tables no sequence of operations, by whatever principals, leads to two users with one
  id or one name in a tenant, to two codes with one id or one hash, to a code used twice or a second code used, or to a protected user
  who is not an enabled super administrator: there is at most one protected user, and as many
  consumed codes.
\<close>

theorem accounts_stay_sound:
  "accounts_ok (account_history sv ops \<lparr>ac_users = [], ac_codes = []\<rparr>)"
  by (rule history_ok) (rule accounts_ok_empty)

section \<open>The bootstrap\<close>

text \<open>The bootstrapped administrator as the tables show him.\<close>

definition enthroned :: "uuid \<Rightarrow> uuid \<Rightarrow> string \<Rightarrow> account_db \<Rightarrow> bool" where
  "enthroned t uid n db \<longleftrightarrow> (\<exists>r \<in> set (ac_users db). ur_id r = uid \<and> ur_name r = n \<and> ur_protected r \<and> rules t r)"

lemma enthroned_kept:
  assumes "account_effect strict t' db db'" and ok: "accounts_ok db" and "enthroned t uid n db"
  shows "enthroned t uid n db'"
proof -
  from assms(3) obtain u where u: "u \<in> set (ac_users db)" "ur_id u = uid" "ur_name u = n" "ur_protected u" "rules t u"
    by (auto simp: enthroned_def)
  from assms(1) show ?thesis
  proof cases
    case (User_Written row row')
    note rows = write_user_rows [OF User_Written(3)]
    show ?thesis
    proof (cases "ur_id u = ur_id row'")
      case True
      then have "u = row" using same_id [of ur_id "ac_users db" u row] ok u(1) User_Written(1,4) by (auto simp: accounts_ok_def)
      then have "row' \<in> set (ac_users db')" using rows(1) u(1) User_Written(4) by auto
      then show ?thesis using User_Written u \<open>u = row\<close> by (auto simp: enthroned_def rules_def)
    next
      case False
      then show ?thesis using rows(1) u by (auto simp: enthroned_def)
    qed
  next
    case (User_Deleted row)
    then have "ur_id u \<noteq> ur_id row" using same_id [of ur_id "ac_users db" u row] ok u by (auto simp: accounts_ok_def)
    then show ?thesis using User_Deleted(1) u by (auto simp: enthroned_def)
  next
    case (Rehashed row h0 h)
    define u' where "u' = (if ur_id u = ur_id row \<and> ur_hash u = h0 then u\<lparr>ur_hash := h\<rparr> else u)"
    have "u' \<in> set (ac_users db')" unfolding Rehashed(1) u'_def using u(1) by simp
    moreover have "ur_id u' = uid \<and> ur_name u' = n \<and> ur_protected u' \<and> rules t u'"
      using u by (simp add: u'_def rules_def)
    ultimately show ?thesis unfolding enthroned_def by blast
  next
    case (Code_Issued c)
    show ?thesis using assms(3) unfolding enthroned_def insert_code_rows(2) [OF Code_Issued(1)] .
  next
    case (Bootstrapped c row now)
    have "set (ac_users db) \<subseteq> set (ac_users db')" unfolding insert_user_rows(1) [OF Bootstrapped(4)] by auto
    then show ?thesis using assms(3) unfolding enthroned_def by blast
  next
    case (User_Created row)
    have "set (ac_users db) \<subseteq> set (ac_users db')" unfolding insert_user_rows(1) [OF User_Created(1)] by auto
    then show ?thesis using assms(3) unfolding enthroned_def by blast
  qed (use assms(3) in simp)
qed

lemma enthroned_history:
  "accounts_ok db \<Longrightarrow> enthroned t uid n db \<Longrightarrow> enthroned t uid n (account_history sv ops db)"
  unfolding account_history_def
  by (induction ops arbitrary: db) (auto intro: exec_account_ok enthroned_kept [OF exec_effect])

lemma enthroned_super: "enthroned t uid n db \<Longrightarrow> has_super_admin db"
  by (auto simp: enthroned_def has_super_admin_def list_ex_iff rules_def)

text \<open>
  C27. The bootstrap happens once. After a code was turned into the first administrator, whatever is
  done by whomever, he stays an enabled, protected super administrator under his name, every code
  is refused and no new one is issued.
\<close>

theorem bootstrap_happens_once:
  assumes "accounts_ok db" and "consume_bootstrap_code sv code n p now uid jti db = (db1, Inr result)"
  shows "ar_principal result = \<lparr>pr_user = uid, pr_tenant = au_tenant sv, pr_role = Super_Admin\<rparr>
    \<and> (let db2 = account_history sv ops db1 in
       enthroned (au_tenant sv) uid n db2
     \<and> fst (consume_bootstrap_code sv' code' n' p' now' uid' jti' db2) = db2
     \<and> snd (consume_bootstrap_code sv' code' n' p' now' uid' jti' db2) \<in> {Inl Invalid_Username, Inl Invalid_Bootstrap}
     \<and> fst (issue_bootstrap_code sv' ttl now' raw rid db2) = db2
     \<and> snd (issue_bootstrap_code sv' ttl now' raw rid db2) \<in> {Inl Bad_Code_Ttl, Inl Bootstrap_Closed})"
proof -
  have "account_effect True (au_tenant sv) db db1"
    using bootstrap_effects(2) [of True sv db code n p now uid jti] assms(2) by simp
  then have ok: "accounts_ok db1" using effect_ok assms(1) by blast
  have made: "ar_principal result = \<lparr>pr_user = uid, pr_tenant = au_tenant sv, pr_role = Super_Admin\<rparr>
      \<and> enthroned (au_tenant sv) uid n db1"
    using assms(2) unfolding consume_bootstrap_code_def Let_def
    by (auto split: if_splits option.splits hash_result.splits dest!: insert_user_rows(1) simp: enthroned_def rules_def)
  then have "enthroned (au_tenant sv) uid n (account_history sv ops db1)" using enthroned_history ok by blast
  moreover from enthroned_super [OF this] have "has_super_admin (account_history sv ops db1)" .
  ultimately show ?thesis using made
    by (simp add: Let_def consume_bootstrap_code_def issue_bootstrap_code_def)
qed

text \<open>A service with a transparent hash, to run the operations on.\<close>

definition plain_hash :: string where
  "plain_hash = ''$argon2id$v=19$m=4096,t=3,p=1$c2FsdHNhbHQ$aGFzaGhhc2g''"

definition sample_service :: auth_service where
  "sample_service = \<lparr>au_tenant = 1,
     au_passwords = \<lparr>pw_hash = (\<lambda>_. Hashed plain_hash), pw_verify = (\<lambda>h _. Verified (h = plain_hash)),
       pw_dummy = ''dummy'', pw_outdated = (\<lambda>_. False)\<rparr>,
     au_tokens = sample_tokens, au_jwt = (\<lambda>_ _. Some ''token''), au_sha256 = (\<lambda>t. t)\<rparr>"

definition code_db :: account_db where
  "code_db = fst (issue_bootstrap_code sample_service 600 0 (replicate 32 7) 5 \<lparr>ac_users = [], ac_codes = []\<rparr>)"

definition sample_code :: string where
  "sample_code = encode_bootstrap_code (replicate 32 7)"

definition crowned :: "account_db \<times> (auth_failure + auth_result)" where
  "crowned = consume_bootstrap_code sample_service sample_code ''root'' ''correct horse battery'' 1000 9 10 code_db"

lemma crowned_works: "\<not> isl (snd crowned)"
  by code_simp

theorem bootstrap_happens_once_witness:
  "ar_principal (projr (snd crowned)) = \<lparr>pr_user = 9, pr_tenant = 1, pr_role = Super_Admin\<rparr>
   \<and> snd (consume_bootstrap_code sample_service sample_code ''other'' ''correct horse battery'' 2000 11 12 (fst crowned))
     \<in> {Inl Invalid_Username, Inl Invalid_Bootstrap}"
proof -
  have "accounts_ok (account_history sample_service [Op_Issue_Code 600 0 (replicate 32 7) 5] \<lparr>ac_users = [], ac_codes = []\<rparr>)"
    by (rule history_ok) (rule accounts_ok_empty)
  then have "accounts_ok code_db" by (simp add: account_history_def code_db_def)
  moreover have "consume_bootstrap_code sample_service sample_code ''root'' ''correct horse battery'' 1000 9 10 code_db
      = (fst crowned, Inr (projr (snd crowned)))"
    unfolding crowned_def [symmetric] using crowned_works by (simp add: prod_eq_iff)
  ultimately show ?thesis
    using bootstrap_happens_once [of code_db sample_service sample_code "''root''" "''correct horse battery''" 1000 9 10
        "fst crowned" "projr (snd crowned)" "[]" sample_service sample_code "''other''" "''correct horse battery''" 2000 11 12]
    by (simp add: account_history_def Let_def sample_service_def)
qed

section \<open>Tenants\<close>

definition elsewhere :: "uuid \<Rightarrow> account_db \<Rightarrow> user_row list" where
  "elsewhere t db = filter (\<lambda>r. ur_tenant r \<noteq> t) (ac_users db)"

lemma filter_replace_other:
  assumes "\<And>x. x \<in> set xs \<Longrightarrow> (P x \<longrightarrow> f x = x) \<and> (P (f x) \<longleftrightarrow> P x)"
  shows "filter P (map f xs) = filter P xs"
  using assms by (induction xs) auto

lemma effect_elsewhere:
  assumes "account_effect strict t db db'" and ok: "accounts_ok db"
  shows "elsewhere t db' = elsewhere t db"
  using assms(1)
proof cases
  case (Code_Issued c)
  show ?thesis by (simp add: elsewhere_def insert_code_rows(2) [OF Code_Issued(1)])
next
  case (Bootstrapped c row now)
  then show ?thesis by (simp add: elsewhere_def insert_user_rows(1) [OF Bootstrapped(4)] rules_def)
next
  case (User_Created row)
  then show ?thesis by (simp add: elsewhere_def insert_user_rows(1) [OF User_Created(1)])
next
  case (User_Written row row')
  let ?f = "\<lambda>r. if ur_id r = ur_id row' then row' else r"
  have "(ur_tenant r \<noteq> t \<longrightarrow> ?f r = r) \<and> (ur_tenant (?f r) \<noteq> t \<longleftrightarrow> ur_tenant r \<noteq> t)"
    if "r \<in> set (ac_users db)" for r
  proof (cases "ur_id r = ur_id row'")
    case True
    then have "r = row"
      using same_id [of ur_id "ac_users db" r row] ok that User_Written(1,4) by (simp add: accounts_ok_def)
    then show ?thesis using User_Written(2,4,5) by simp
  qed simp
  then show ?thesis unfolding elsewhere_def write_user_rows(1) [OF User_Written(3)] by (rule filter_replace_other)
next
  case (User_Deleted row)
  have "ur_id r \<noteq> ur_id row" if "r \<in> set (ac_users db)" "ur_tenant r \<noteq> t" for r
    using same_id [of ur_id "ac_users db" r row] ok that User_Deleted(2,3) by (auto simp: accounts_ok_def)
  then have "filter (\<lambda>r. ur_tenant r \<noteq> t \<and> ur_id r \<noteq> ur_id row) (ac_users db) = filter (\<lambda>r. ur_tenant r \<noteq> t) (ac_users db)"
    by (intro filter_cong) auto
  then show ?thesis unfolding elsewhere_def User_Deleted(1) by (simp add: conj_commute)
next
  case (Rehashed row h0 h)
  have "ur_id r \<noteq> ur_id row" if "r \<in> set (ac_users db)" "ur_tenant r \<noteq> t" for r
    using same_id [of ur_id "ac_users db" r row] ok that Rehashed(2,3) by (auto simp: accounts_ok_def)
  then show ?thesis unfolding elsewhere_def Rehashed(1) by (simp, intro filter_replace_other) simp
qed simp

text \<open>
  C28. Tenants are kept apart. In every reachable state, whatever operation is tried next, by whatever
  principal and on whatever user id, the rows of all tenants but the one it works for are the same
  afterwards, with their names, hashes, roles and order.
\<close>

theorem tenants_are_kept_apart:
  "let db = account_history sv ops \<lparr>ac_users = [], ac_codes = []\<rparr> in
   elsewhere (account_tenant sv op) (exec_account sv op db) = elsewhere (account_tenant sv op) db"
  unfolding Let_def by (rule effect_elsewhere [OF exec_effect history_ok [OF accounts_ok_empty]])

section \<open>Logging in\<close>

lemma verified_async: "verify_async ps h p = Verified True \<Longrightarrow>
    is_safe_argon2id_encoding h \<and> is_valid_password p \<and> pw_verify ps h p = Verified True"
  by (auto simp: verify_async_def split: if_splits)

text \<open>
  C29. A login succeeds only for the enabled user of that tenant and name whose stored hash the
  password was verified against, and for his own id, tenant and role; and it changes nothing but,
  when the parameters of the hash are outdated, the hash of that user.
\<close>

theorem login_admits_the_rightful_user:
  assumes "accounts_ok db" and "login sv t n p now jti db = (db', Inr result)"
  shows "\<exists>r h. r \<in> set (ac_users db) \<and> ur_tenant r = t \<and> ur_name r = n \<and> \<not> ur_disabled r
    \<and> ur_hash r = Some h \<and> is_safe_argon2id_encoding h \<and> pw_verify (au_passwords sv) h p = Verified True
    \<and> ar_principal result = \<lparr>pr_user = ur_id r, pr_tenant = t, pr_role = ur_role r\<rparr>
    \<and> (db' = db \<or> needs_rehash (au_passwords sv) h
        \<and> (\<exists>h'. db' = db\<lparr>ac_users := map (\<lambda>u. if u = r then u\<lparr>ur_hash := Some h'\<rparr> else u) (ac_users db)\<rparr>))"
proof -
  obtain r where row: "login_row t n db = Some r"
    using assms(2) by (cases "login_row t n db") (auto simp: login_def Let_def split: verify_result.splits)
  note r = login_row_Some [OF row]
  have only: "ur_id u = ur_id r \<longleftrightarrow> u = r" if "u \<in> set (ac_users db)" for u
    using same_id [of ur_id "ac_users db" u r] assms(1) r that by (auto simp: accounts_ok_def)
  obtain h where h: "ur_hash r = Some h" "\<not> ur_disabled r" "verify_async (au_passwords sv) h p = Verified True"
    "ar_principal result = \<lparr>pr_user = ur_id r, pr_tenant = ur_tenant r, pr_role = ur_role r\<rparr>"
    using assms(2) unfolding login_def Let_def row
    by (auto simp: login_hash_def split: verify_result.splits if_splits option.splits hash_result.splits)
  have same: "map (\<lambda>u. if ur_id u = ur_id r \<and> ur_hash u = Some h then u\<lparr>ur_hash := Some h'\<rparr> else u) (ac_users db)
      = map (\<lambda>u. if u = r then u\<lparr>ur_hash := Some h'\<rparr> else u) (ac_users db)" for h'
    by (rule map_cong [OF refl]) (use only h(1) in auto)
  have "db' = db \<or> needs_rehash (au_passwords sv) h \<and> (\<exists>h'. db' = db\<lparr>ac_users :=
      map (\<lambda>u. if ur_id u = ur_id r \<and> ur_hash u = Some h then u\<lparr>ur_hash := Some h'\<rparr> else u) (ac_users db)\<rparr>)"
    using assms(2) h unfolding login_def Let_def row
    by (auto simp: login_hash_def split: verify_result.splits if_splits option.splits hash_result.splits)
  note this [unfolded same]
  with r h verified_async [OF h(3)] show ?thesis by blast
qed

definition staffed :: account_db where
  "staffed = \<lparr>ac_users = [\<lparr>ur_id = 2, ur_tenant = 1, ur_name = ''chief'', ur_hash = None, ur_open_id = None,
       ur_role = Super_Admin, ur_disabled = False, ur_protected = False\<rparr>], ac_codes = []\<rparr>"

definition taken_over :: account_db where
  "taken_over = fst (reset_password (au_passwords sample_service) \<lparr>pr_user = 7, pr_tenant = 1, pr_role = Admin\<rparr> 2
     ''correct horse battery'' staffed)"

definition entry :: "account_db \<times> (auth_failure + auth_result)" where
  "entry = login sample_service 1 ''chief'' ''correct horse battery'' 0 3 taken_over"

theorem login_admits_the_rightful_user_witness:
  "pr_role (ar_principal (projr (snd entry))) = Super_Admin \<and> pr_user (ar_principal (projr (snd entry))) = 2"
proof -
  have "accounts_ok taken_over" by code_simp
  moreover have "login sample_service 1 ''chief'' ''correct horse battery'' 0 3 taken_over = (fst entry, Inr (projr (snd entry)))"
  proof -
    have "\<not> isl (snd entry)" by code_simp
    then show ?thesis unfolding entry_def [symmetric] by (simp add: prod_eq_iff)
  qed
  from login_admits_the_rightful_user [OF calculation this] obtain r where
    "r \<in> set (ac_users taken_over)" "ar_principal (projr (snd entry)) = \<lparr>pr_user = ur_id r, pr_tenant = 1, pr_role = ur_role r\<rparr>"
    by blast
  moreover have "list_all (\<lambda>r. ur_id r = 2 \<and> ur_role r = Super_Admin) (ac_users taken_over)" by code_simp
  ultimately show ?thesis by (simp add: list_all_iff)
qed

text \<open>
  A failed login changes nothing, and where there is no such user, or he is disabled or has no
  password, the answer depends only on what became of the verification, never on which of these it was.
\<close>

theorem failed_logins_look_alike:
  assumes "case login_row t n db of None \<Rightarrow> True | Some r \<Rightarrow> ur_disabled r \<or> ur_hash r = None"
  shows "login sv t n p now jti db = (db, Inl (case verify_async (au_passwords sv) (login_hash sv (login_row t n db)) p of
    Verify_Busy \<Rightarrow> Auth_Busy | Verify_Cancelled \<Rightarrow> Auth_Cancelled | Verified ok \<Rightarrow> Invalid_Credentials))"
  using assms unfolding login_def Let_def by (auto split: option.splits verify_result.splits)

theorem failed_logins_look_alike_witness:
  "snd (login sample_service 1 ''chief'' ''correct horse battery'' 0 3 staffed) = Inl Invalid_Credentials"
  using failed_logins_look_alike [of 1 "''chief''" staffed sample_service "''correct horse battery''" 0 3]
  by (simp add: login_row_def staffed_def is_valid_username_def verify_async_def split: if_splits verify_result.splits) code_simp

section \<open>Where the rules for administrators fail\<close>

text \<open>
  An administrator becomes super administrator. The services forbid an administrator to assign
  that role, but let him set the password of any super administrator who is not protected; the
  login with it that follows gives a token for that super administrator.
\<close>

theorem admin_takes_over_super_admin:
  assumes "pr_role a = Admin" and "accounts_ok db" and "u \<in> set (ac_users db)" and "ur_tenant u = pr_tenant a"
    and "ur_role u = Super_Admin" and "\<not> ur_protected u" and "\<not> ur_disabled u"
    and "is_valid_password p" and "pw_hash (au_passwords sv) p = Hashed h" and "is_safe_argon2id_encoding h"
    and "pw_verify (au_passwords sv) h p = Verified True" and "\<not> pw_outdated (au_passwords sv) h"
    and "\<And>claims key. au_jwt sv claims key \<noteq> None"
  shows "\<exists>db1 token. reset_password (au_passwords sv) a (ur_id u) p db
      = (db1, Inr (managed_user_from_row (u\<lparr>ur_hash := Some h\<rparr>)))
    \<and> login sv (pr_tenant a) (ur_name u) p now jti db1 = (db1, Inr \<lparr>ar_principal =
        \<lparr>pr_user = ur_id u, pr_tenant = pr_tenant a, pr_role = Super_Admin\<rparr>, ar_token = token\<rparr>)"
proof -
  let ?row = "u\<lparr>ur_hash := Some h\<rparr>"
  let ?f = "\<lambda>r. if ur_id r = ur_id u then ?row else r"
  define db1 where "db1 = db\<lparr>ac_users := map ?f (ac_users db)\<rparr>"
  have ids: "r = u" if "r \<in> set (ac_users db)" "ur_id r = ur_id u" for r
    using same_id [of ur_id "ac_users db" r u] assms(2,3) that by (auto simp: accounts_ok_def)
  have names: "r = u" if "r \<in> set (ac_users db)" "ur_tenant r = ur_tenant u" "ur_name r = ur_name u" for r
    using same_id [of "\<lambda>r. (ur_tenant r, ur_name r)" "ac_users db" r u] assms(2,3) that by (auto simp: accounts_ok_def)
  have valid: "is_valid_username (ur_name u)" using assms(2,3) by (auto simp: accounts_ok_def)
  have found: "find P xs = Some x" if "x \<in> set xs" "P x" "\<And>y. y \<in> set xs \<Longrightarrow> P y \<Longrightarrow> y = x" for P xs and x :: user_row
    using that(1,3)
  proof (induction xs)
    case (Cons y ys)
    show ?case
    proof (cases "P y")
      case True
      then have "y = x" using Cons.prems(2) [of y] by simp
      with True show ?thesis by simp
    next
      case False
      then have "x \<in> set ys" using Cons.prems(1) that(2) by auto
      moreover have "z = x" if "z \<in> set ys" "P z" for z using Cons.prems(2) [of z] that by simp
      ultimately show ?thesis using Cons.IH False by simp
    qed
  qed simp
  have "select_user a (ur_id u) db = Some u"
    unfolding select_user_def by (rule found) (use assms(3,4) ids in auto)
  moreover have "write_user ?row db = Some db1"
    using valid names by (auto simp: write_user_def db1_def list_ex_iff)
  ultimately have reset: "reset_password (au_passwords sv) a (ur_id u) p db = (db1, Inr (managed_user_from_row ?row))"
    using assms(1,6,8,9) by (simp add: reset_password_def require_admin_def hash_async_def store_user_def)
  have "login_row (pr_tenant a) (ur_name u) db1 = Some ?row"
    unfolding login_row_def db1_def using valid by (simp, intro found) (use assms(3,4) names in \<open>auto split: if_splits\<close>)
  moreover obtain token where token: "au_jwt sv (token_claims (au_tokens sv) (ur_id u) (ur_tenant u) Super_Admin 900 now jti)
      (to_key (au_tokens sv)) = Some token"
    using assms(13) by blast
  then have "try_encode_token sv \<lparr>pr_user = ur_id u, pr_tenant = ur_tenant u, pr_role = Super_Admin\<rparr> now jti = Some token"
    by (simp add: try_encode_token_def encode_token_def)
  ultimately have "login sv (pr_tenant a) (ur_name u) p now jti db1 = (db1, Inr \<lparr>ar_principal =
        \<lparr>pr_user = ur_id u, pr_tenant = pr_tenant a, pr_role = Super_Admin\<rparr>, ar_token = token\<rparr>)"
    using assms(4,5,7,8,10,11,12)
    by (simp add: login_def login_hash_def verify_async_def needs_rehash_def)
  with reset show ?thesis by blast
qed

theorem admin_takes_over_super_admin_witness:
  "\<exists>token. login sample_service 1 ''chief'' ''correct horse battery'' 0 3 taken_over
     = (taken_over, Inr \<lparr>ar_principal = \<lparr>pr_user = 2, pr_tenant = 1, pr_role = Super_Admin\<rparr>, ar_token = token\<rparr>)"
proof -
  let ?a = "\<lparr>pr_user = 7, pr_tenant = 1, pr_role = Admin\<rparr>" and ?u = "hd (ac_users staffed)"
  let ?p = "''correct horse battery''"
  have facts: "accounts_ok staffed" "is_valid_password ?p" "is_safe_argon2id_encoding plain_hash"
    by code_simp+
  have row: "?u \<in> set (ac_users staffed)" "ur_tenant ?u = pr_tenant ?a" "ur_role ?u = Super_Admin" "\<not> ur_protected ?u"
    "\<not> ur_disabled ?u" "ur_id ?u = 2" "ur_name ?u = ''chief''"
    by (simp_all add: staffed_def)
  obtain db1 token where both: "reset_password (au_passwords sample_service) ?a (ur_id ?u) ?p staffed
      = (db1, Inr (managed_user_from_row (?u\<lparr>ur_hash := Some plain_hash\<rparr>)))"
    "login sample_service (pr_tenant ?a) (ur_name ?u) ?p 0 3 db1 = (db1, Inr \<lparr>ar_principal =
        \<lparr>pr_user = ur_id ?u, pr_tenant = pr_tenant ?a, pr_role = Super_Admin\<rparr>, ar_token = token\<rparr>)"
    using admin_takes_over_super_admin [of ?a staffed ?u ?p sample_service plain_hash 0 3] facts row
    by (auto simp: sample_service_def)
  from both(1) have "taken_over = db1" unfolding taken_over_def row(6) by simp
  with both(2) row(6,7) show ?thesis by auto
qed

text \<open>
  The last enabled super administrator can be demoted while a disabled one exists: the count that
  guards the demotion takes in disabled users, unlike the one for disabling and deleting.
\<close>

theorem demotion_counts_disabled_users:
  assumes "require_admin a" and "select_user a uid db = Some row" and "\<not> ur_protected row"
    and "r \<noteq> Super_Admin" and "another_super_admin False a uid db"
  shows "change_role a uid r db = store_user (row\<lparr>ur_role := r\<rparr>) db"
  using assms by (simp add: change_role_def)

end
