(* ===== verification/Task_Texts.thy ===== *)
theory Task_Texts
  imports Mode_Router
begin

text \<open>
  How \<open>runs/service.py\<close> reads a message: texts as code points, the lists of words it looks for, and
  the detectors built on them for a change of mode, a new conversation, the delivery of an artifact
  and the mode the main agent would choose itself. Lower case is that of the letters of ASCII; the
  stored form of a text is its UTF-8 string.
\<close>

section \<open>Texts\<close>

type_synonym utext = "int list"

definition ascii :: "string \<Rightarrow> utext" where
  "ascii s = map of_char s"

definition utf8_bytes :: "int \<Rightarrow> int list" where
  "utf8_bytes c =
     (if c < 128 then [c]
      else if c < 2048 then [192 + c div 64, 128 + c mod 64]
      else if c < 65536 then [224 + c div 4096, 128 + c div 64 mod 64, 128 + c mod 64]
      else [240 + c div 262144, 128 + c div 4096 mod 64, 128 + c div 64 mod 64, 128 + c mod 64])"

definition utf8 :: "utext \<Rightarrow> string" where
  "utf8 t = map char_of (concat (map utf8_bytes t))"

definition lowered :: "utext \<Rightarrow> utext" where
  "lowered t = map (\<lambda>c. if 65 \<le> c \<and> c \<le> 90 then c + 32 else c) t"

text \<open>The code points for which \<open>str.isspace\<close> holds.\<close>

definition blank :: "int \<Rightarrow> bool" where
  "blank c \<longleftrightarrow> (9 \<le> c \<and> c \<le> 13) \<or> (28 \<le> c \<and> c \<le> 32) \<or> (8192 \<le> c \<and> c \<le> 8202)
     \<or> c \<in> {133, 160, 5760, 8232, 8233, 8239, 8287, 12288}"

definition trim :: "utext \<Rightarrow> utext" where
  "trim t = rev (dropWhile blank (rev (dropWhile blank t)))"

text \<open>\<open>re.sub(r"\s+", " ", t)\<close>.\<close>

fun squeeze :: "utext \<Rightarrow> utext" where
  "squeeze [] = []"
| "squeeze [c] = [if blank c then 32 else c]"
| "squeeze (c # d # t) =
     (if blank c \<and> blank d then squeeze (d # t) else (if blank c then 32 else c) # squeeze (d # t))"

definition mentions :: "utext list \<Rightarrow> utext \<Rightarrow> bool" where
  "mentions ws t \<longleftrightarrow> list_ex (\<lambda>w. contains_text w t) ws"

section \<open>Conversations\<close>

definition same_conversation_markers :: "utext list" where
  "same_conversation_markers = [[0x4E0D, 0x662F, 0x65B0, 0x5BF9, 0x8BDD], [0x4E0D, 0x7528, 0x65B0, 0x5F00],
     [0x4E0D, 0x8981, 0x65B0, 0x5F00], [0x522B, 0x65B0, 0x5F00],
     [0x4E0D, 0x7528, 0x91CD, 0x65B0, 0x5F00, 0x59CB], [0x4E0D, 0x8981, 0x91CD, 0x65B0, 0x5F00, 0x59CB],
     [0x7EE7, 0x7EED, 0x5F53, 0x524D, 0x5BF9, 0x8BDD], [0x7EE7, 0x7EED, 0x8FD9, 0x4E2A, 0x5BF9, 0x8BDD],
     ascii ''not a new chat'', ascii ''do not start over'',
     [0x64, 0x6F, 0x6E, 0x27, 0x74, 0x20, 0x73, 0x74, 0x61, 0x72, 0x74, 0x20, 0x6F, 0x76, 0x65, 0x72],
     ascii ''keep this conversation'', ascii ''continue this conversation'']"

definition new_conversation_markers :: "utext list" where
  "new_conversation_markers = [[0x65B0, 0x5F00, 0x5BF9, 0x8BDD], [0x65B0, 0x5F00, 0x4E00, 0x4E2A, 0x5BF9, 0x8BDD],
     [0x65B0, 0x5EFA, 0x5BF9, 0x8BDD], [0x65B0, 0x5EFA, 0x4E00, 0x4E2A, 0x5BF9, 0x8BDD],
     [0x5F00, 0x542F, 0x65B0, 0x5BF9, 0x8BDD], [0x5F00, 0x4E00, 0x4E2A, 0x65B0, 0x5BF9, 0x8BDD],
     [0x53E6, 0x5F00, 0x4E00, 0x8F6E], [0x53E6, 0x8D77, 0x4E00, 0x8F6E], [0x53E6, 0x8D77, 0x8BDD, 0x9898],
     [0x6362, 0x4E2A, 0x8BDD, 0x9898], [0x91CD, 0x65B0, 0x5F00, 0x59CB], [0x91CD, 0x5F00, 0x5BF9, 0x8BDD],
     [0x4ECE, 0x5934, 0x5F00, 0x59CB], ascii ''start a new chat'', ascii ''new chat'',
     ascii ''new conversation'', ascii ''start over'', ascii ''different topic'', ascii ''change topic'']"

definition explicit_new_conversation_request :: "utext \<Rightarrow> bool" where
  "explicit_new_conversation_request message =
     (let normalized = lowered (trim (squeeze message)) in
      if normalized = [] then False
      else if mentions same_conversation_markers normalized then False
      else mentions new_conversation_markers normalized)"

definition no_switch_markers :: "utext list" where
  "no_switch_markers = [[0x4E0D, 0x8981, 0x5207, 0x6362], [0x4E0D, 0x7528, 0x5207, 0x6362], [0x522B, 0x5207, 0x6362],
     [0x4E0D, 0x5207, 0x6362], [0x65E0, 0x9700, 0x5207, 0x6362], [0x4E0D, 0x8981, 0x6362],
     [0x4E0D, 0x7528, 0x6362], [0x522B, 0x6362], ascii ''do not switch'', ascii ''dont switch'',
     [0x64, 0x6F, 0x6E, 0x27, 0x74, 0x20, 0x73, 0x77, 0x69, 0x74, 0x63, 0x68], ascii ''no switch'']"

definition switch_markers :: "utext list" where
  "switch_markers = [[0x5207, 0x6362], [0x5207, 0x5230], [0x6362, 0x6210], [0x6362, 0x4E3A], [0x6539, 0x6210], [0x6539, 0x4E3A],
     [0x6539, 0x7528], [0x4F7F, 0x7528], [0x9009, 0x62E9], [0x8BBE, 0x4E3A], [0x8D70], [0x7528],
     ascii ''switch'', ascii ''change to'', ascii ''use'', ascii ''select'', ascii ''set to'']"

definition hybrid_mode_markers :: "utext list" where
  "hybrid_mode_markers = [[0x6DF7, 0x5408, 0x6A21, 0x5F0F], [0x6DF7, 0x5408, 0x6A21, 0x578B], ascii ''hybrid mode'',
     ascii ''hybrid'', [0x5148, 0x8BA8, 0x8BBA, 0x518D, 0x6267, 0x884C], [0x8BA8, 0x8BBA, 0x540E, 0x6267, 0x884C]]"

definition discuss_mode_markers :: "utext list" where
  "discuss_mode_markers = [[0x8BA8, 0x8BBA, 0x6A21, 0x5F0F], [0x8BC4, 0x5BA1, 0x6A21, 0x5F0F], [0x5BA1, 0x67E5, 0x6A21, 0x5F0F],
     ascii ''discuss mode'', ascii ''discussion mode'']"

definition dispatch_mode_markers :: "utext list" where
  "dispatch_mode_markers = [[0x6D3E, 0x53D1, 0x6A21, 0x5F0F], [0x8C03, 0x5EA6, 0x6A21, 0x5F0F], [0x6267, 0x884C, 0x6A21, 0x5F0F],
     [0x5DE5, 0x4F5C, 0x6D41, 0x6A21, 0x5F0F], ascii ''dispatch mode'', ascii ''workflow mode'']"

definition direct_mode_markers :: "utext list" where
  "direct_mode_markers = [[0x76F4, 0x63A5, 0x6A21, 0x5F0F], [0x76F4, 0x63A5, 0x56DE, 0x590D], [0x76F4, 0x63A5, 0x56DE, 0x7B54],
     [0x666E, 0x901A, 0x5BF9, 0x8BDD], ascii ''direct mode'', ascii ''direct'']"

definition mode_markers :: "(task_mode \<times> utext list) list" where
  "mode_markers = [(Hybrid, hybrid_mode_markers), (Discuss, discuss_mode_markers), (Dispatch, dispatch_mode_markers),
     (Direct, direct_mode_markers)]"

definition explicit_conversation_mode_switch :: "utext \<Rightarrow> task_mode option" where
  "explicit_conversation_mode_switch message =
     (let normalized = lowered (trim (squeeze message)) in
      if normalized = [] then None
      else if mentions no_switch_markers normalized then None
      else if \<not> mentions switch_markers normalized then None
      else map_option fst (find (\<lambda>(m, markers). mentions markers normalized) mode_markers))"

section \<open>The mode of the main agent\<close>

definition execution_markers :: "utext list" where
  "execution_markers = [[0x6587, 0x6848], [0x811A, 0x672C], [0x526A, 0x8F91], [0x5BFC, 0x6F14], [0x8BBE, 0x8BA1], [0x62A5, 0x544A],
     [0x65B9, 0x6848], [0x8BA1, 0x5212], [0x7B56, 0x5212], [0x6D3B, 0x52A8], [0x751F, 0x6210], [0x5236, 0x4F5C],
     [0x5206, 0x6790], [0x6574, 0x7406], [0x64B0, 0x5199], [0x8C03, 0x7814], [0x4EE3, 0x7801], [0x5F00, 0x53D1],
     [0x843D, 0x5730], ascii ''github'', [0x4ED3, 0x5E93], ascii ''spreadsheet'', ascii ''presentation'']"

definition discussion_markers :: "utext list" where
  "discussion_markers = [[0x8BA8, 0x8BBA], [0x8BC4, 0x5BA1], [0x5BA1, 0x67E5], [0x590D, 0x6838], [0x4E89, 0x8BBA], [0x5206, 0x6B67],
     [0x51B3, 0x7B56], [0x88C1, 0x51B3], [0x5BF9, 0x6BD4], [0x4F18, 0x7F3A, 0x70B9], ascii ''review'',
     ascii ''debate'', ascii ''code review'']"

definition explicit_hybrid_markers :: "utext list" where
  "explicit_hybrid_markers = [[0x5148, 0x8BA8, 0x8BBA], [0x518D, 0x6267, 0x884C], [0x5B8C, 0x6574, 0x6D41, 0x7A0B],
     [0x7AEF, 0x5230, 0x7AEF], [0x8DE8, 0x9886, 0x57DF], ascii ''multi-step'', ascii ''end-to-end'']"

definition local_main_agent_auto_mode :: "utext \<Rightarrow> string list \<Rightarrow> task_mode" where
  "local_main_agent_auto_mode message attachment_ids =
     (let t = lowered message;
          has_execution = (attachment_ids \<noteq> [] \<or> mentions execution_markers t);
          has_discussion = mentions discussion_markers t in
      if mentions explicit_hybrid_markers t \<or> has_execution \<and> has_discussion then Hybrid
      else if has_discussion then Discuss
      else if has_execution then Dispatch
      else Direct)"

definition main_agent_adjusted_ready_mode :: "task_mode \<Rightarrow> utext \<Rightarrow> string list \<Rightarrow> task_mode" where
  "main_agent_adjusted_ready_mode router_mode message attachment_ids =
     (let local_mode = local_main_agent_auto_mode message attachment_ids in
      if local_mode = Hybrid then Hybrid
      else if {router_mode, local_mode} = {Dispatch, Discuss} then Hybrid
      else if router_mode = Direct \<and> local_mode \<noteq> Direct then local_mode
      else router_mode)"

definition delivery_actions :: "utext list" where
  "delivery_actions = [ascii ''generate'', ascii ''create'', ascii ''make'', ascii ''build'', ascii ''produce'', ascii ''render'',
     ascii ''export'', ascii ''download'', ascii ''deliver'', ascii ''execute'', [0x751F, 0x6210],
     [0x521B, 0x5EFA], [0x5236, 0x4F5C], [0x505A], [0x51FA], [0x753B], [0x7ED8, 0x5236], [0x6E32, 0x67D3],
     [0x5408, 0x6210], [0x8F93, 0x51FA], [0x5BFC, 0x51FA], [0x4EA4, 0x4ED8], [0x4EA7, 0x51FA], [0x6267, 0x884C],
     [0x5F00, 0x59CB], [0x786E, 0x8BA4]]"

definition delivery_terms :: "utext list" where
  "delivery_terms = [ascii ''image'', ascii ''picture'', ascii ''photo'', ascii ''poster'', ascii ''cover'', ascii ''video'',
     ascii ''animation'', ascii ''audio'', ascii ''speech'', ascii ''voiceover'', ascii ''music'',
     ascii ''bgm'', ascii ''multimedia'', ascii ''media artifact'', ascii ''word'', ascii ''docx'',
     ascii ''document file'', ascii ''ppt'', ascii ''pptx'', ascii ''powerpoint'', ascii ''presentation'',
     ascii ''spreadsheet'', ascii ''xlsx'', ascii ''excel'', ascii ''pdf'', ascii ''zip'', ascii ''archive'',
     [0x56FE, 0x7247], [0x7167, 0x7247], [0x56FE, 0x50CF], [0x6D77, 0x62A5], [0x5C01, 0x9762],
     [0x8BBE, 0x5B9A, 0x677F], [0x6982, 0x5FF5, 0x56FE], [0x5206, 0x955C, 0x56FE], [0x89C6, 0x9891],
     [0x77ED, 0x89C6, 0x9891], [0x52A8, 0x753B], [0x6210, 0x7247], [0x97F3, 0x9891], [0x8BED, 0x97F3],
     [0x914D, 0x97F3], [0x65C1, 0x767D], [0x97F3, 0x4E50], [0x591A, 0x5A92, 0x4F53],
     [0x591A, 0x5A92, 0x4F53, 0x4EA7, 0x7269], [0x5A92, 0x4F53, 0x4EA7, 0x7269],
     [0x6700, 0x7EC8, 0x4EA7, 0x7269], [0x6700, 0x7EC8, 0x6587, 0x4EF6], [0x4E0B, 0x8F7D, 0x94FE, 0x63A5],
     [0x77, 0x6F, 0x72, 0x64, 0x6587, 0x6863], [0x64, 0x6F, 0x63, 0x78, 0x6587, 0x6863], [0x6587, 0x6863],
     ascii ''ppt'', ascii ''pptx'', [0x6F14, 0x793A, 0x7A3F], [0x5E7B, 0x706F, 0x7247], [0x8868, 0x683C],
     ascii ''excel'', ascii ''xlsx'', ascii ''pdf'', [0x538B, 0x7F29, 0x5305], [0x9879, 0x76EE, 0x5305]]"

definition delivery_negations :: "utext list" where
  "delivery_negations = [[0x6682, 0x4E0D, 0x751F, 0x6210], [0x4E0D, 0x8981, 0x751F, 0x6210], [0x4E0D, 0x7528, 0x751F, 0x6210],
     [0x65E0, 0x9700, 0x751F, 0x6210], [0x4E0D, 0x9700, 0x8981, 0x751F, 0x6210], [0x4E0D, 0x751F, 0x6210],
     [0x53EA, 0x5199, 0x63D0, 0x793A, 0x8BCD], [0x53EA, 0x751F, 0x6210, 0x63D0, 0x793A, 0x8BCD],
     [0x53EA, 0x7ED9, 0x63D0, 0x793A, 0x8BCD], [0x4EC5, 0x5199, 0x63D0, 0x793A, 0x8BCD],
     [0x4EC5, 0x751F, 0x6210, 0x63D0, 0x793A, 0x8BCD], [0x53EA, 0x5206, 0x6790], [0x4EC5, 0x5206, 0x6790],
     ascii ''do not generate'',
     [0x64, 0x6F, 0x6E, 0x27, 0x74, 0x20, 0x67, 0x65, 0x6E, 0x65, 0x72, 0x61, 0x74, 0x65],
     ascii ''dont generate'', ascii ''without generating'', ascii ''prompt only'', ascii ''analysis only'']"

definition current_artifact_delivery_mode :: "detectors \<Rightarrow> utext \<Rightarrow> task_mode option" where
  "current_artifact_delivery_mode det message =
     (let rule = assess_rules det (utf8 message); normalized = lowered message in
      if rl_mode rule = Some Dispatch \<and> rl_reason rule = Some ''multimedia_generation_rule'' then Some Dispatch
      else if mentions delivery_negations normalized then None
      else if \<not> mentions delivery_actions normalized then None
      else if mentions delivery_terms normalized then Some Dispatch
      else None)"

lemma local_mode_executable [simp]: "local_main_agent_auto_mode message ids \<noteq> Auto"
  by (simp add: local_main_agent_auto_mode_def Let_def)

lemma adjusted_mode_executable: "m \<noteq> Auto \<Longrightarrow> main_agent_adjusted_ready_mode m message ids \<noteq> Auto"
  by (simp add: main_agent_adjusted_ready_mode_def Let_def)

lemma switch_executable: "explicit_conversation_mode_switch message = Some m \<Longrightarrow> m \<noteq> Auto"
  by (auto simp: explicit_conversation_mode_switch_def Let_def find_Some_iff mode_markers_def nth_Cons'
      split: if_splits)

lemma delivery_executable: "current_artifact_delivery_mode det message = Some m \<Longrightarrow> m = Dispatch"
  by (auto simp: current_artifact_delivery_mode_def Let_def split: if_splits)

end
