(* ===== verification/Run_Proposals.thy ===== *)
theory Run_Proposals
  imports Task_Texts Run_Execution
begin

text \<open>
  The proposals \<open>runs/service.py\<close> finds in a message itself: to evolve or create a skill, to operate a
  computer, and to plan a schedule. Each is detected by regular expressions, which are written out
  here as searches, and stored as a JSON object in the decision of the run that waits for approval.
  \<open>letters\<close> tells the letters and digits beyond ASCII; the digits of a time or a date are those of ASCII,
  where \<open>\d\<close> also takes those of other scripts.
\<close>

section \<open>Searching\<close>

definition starts_any :: "utext list \<Rightarrow> utext \<Rightarrow> bool" where
  "starts_any ws t \<longleftrightarrow> list_ex (\<lambda>w. starts_with w t) ws"

fun search :: "(utext \<Rightarrow> 'b option) \<Rightarrow> utext \<Rightarrow> 'b option" where
  "search f [] = f []"
| "search f (c # t) = (case f (c # t) of Some y \<Rightarrow> Some y | None \<Rightarrow> search f t)"

definition somewhere :: "(utext \<Rightarrow> bool) \<Rightarrow> utext \<Rightarrow> bool" where
  "somewhere p t \<longleftrightarrow> search (\<lambda>u. if p u then Some () else None) t \<noteq> None"

text \<open>After at most \<open>n\<close> characters, none a newline.\<close>

fun near :: "nat \<Rightarrow> (utext \<Rightarrow> bool) \<Rightarrow> utext \<Rightarrow> bool" where
  "near 0 p t \<longleftrightarrow> p t"
| "near (Suc n) p t \<longleftrightarrow> p t \<or> (case t of [] \<Rightarrow> False | c # u \<Rightarrow> c \<noteq> 10 \<and> near n p u)"

definition followed_by :: "utext list \<Rightarrow> nat \<Rightarrow> utext list \<Rightarrow> utext \<Rightarrow> bool" where
  "followed_by ws n us t \<longleftrightarrow> list_ex (\<lambda>w. starts_with w t \<and> near n (starts_any us) (drop (length w) t)) ws"

section \<open>Evolution\<close>

definition evolution_actions :: "utext list" where
  "evolution_actions = [[0x8FDB, 0x5316], [0x84B8, 0x998F], [0x8FBE, 0x5C14, 0x6587], ascii ''darwin'', ascii ''evolve'',
     ascii ''evolution'', ascii ''distill'']"

definition evolution_iterations :: "utext list" where
  "evolution_iterations = [[0x957F, 0x671F, 0x8FED, 0x4EE3], [0x591A, 0x8F6E, 0x8FED, 0x4EE3], [0x8FED, 0x4EE3], [0x4F18, 0x5316],
     ascii ''optimise'', ascii ''optimize'', ascii ''iteration'']"

definition evolution_assets :: "utext list" where
  "evolution_assets = [ascii ''skill'', [0x6280, 0x80FD], ascii ''agent'', [0x667A, 0x80FD, 0x4F53], [0x5DE5, 0x5177],
     [0x5DE5, 0x4F5C, 0x6D41], [0x6D41, 0x7A0B], ascii ''prompt'', [0x63D0, 0x793A, 0x8BCD],
     [0x77E5, 0x8BC6, 0x5E93], [0x80FD, 0x529B], [0x4EA7, 0x7269], [0x6A21, 0x677F]]"

definition evolution_requests :: "utext list" where
  "evolution_requests = [[0x5E2E, 0x6211], [0x8BF7], [0x9700, 0x8981], [0x6211, 0x8981], [0x6211, 0x60F3], [0x7ED9, 0x6211],
     [0x4E3A, 0x6211], [0x628A], [0x5C06], [0x7528], [0x4F7F, 0x7528], [0x542F, 0x52A8], [0x5F00, 0x59CB],
     [0x521B, 0x5EFA], [0x65B0, 0x5EFA], [0x751F, 0x6210], [0x6267, 0x884C], [0x8FD0, 0x884C], [0x52A0, 0x5165],
     [0x5EFA, 0x7ACB], [0x5F00, 0x542F], [0x8FDB, 0x884C], ascii ''run'', ascii ''start'', ascii ''create'',
     ascii ''launch'', ascii ''execute'', ascii ''use'', ascii ''apply'']"

definition evolution_repairs :: "utext list" where
  "evolution_repairs = [[0x95EE, 0x9898], [0x62A5, 0x9519], [0x5931, 0x8D25], [0x8BEF, 0x89E6, 0x53D1], [0x4E0D, 0x8BE5],
     [0x4E0D, 0x662F], [0x4E0D, 0x8981], [0x4E0D, 0x80FD], [0x7F3A, 0x5C11], [0x4FEE, 0x590D], [0x4FEE, 0x6B63],
     [0x8C03, 0x6574], [0x68C0, 0x67E5], [0x6392, 0x67E5], [0x54A8, 0x8BE2], [0x95EE, 0x4E00, 0x4E0B],
     [0x4E3A, 0x4EC0, 0x4E48], [0x600E, 0x4E48], [0x5982, 0x4F55], [0x6709, 0x6CA1, 0x6709], [0x5F53, 0x524D],
     [0x73B0, 0x5728], [0x540E, 0x7EED], [0x754C, 0x9762], [0x6309, 0x94AE], [0x6587, 0x6848], [0x6587, 0x5B57],
     [0x5E03, 0x5C40], ascii ''issue'', ascii ''bug'', ascii ''error'', ascii ''fail'', ascii ''broken'',
     ascii ''fix'', ascii ''debug'', ascii ''why'', ascii ''how'']"

definition evolution_negations :: "utext list" where
  "evolution_negations = [[0x4E0D, 0x8981], [0x522B], [0x4E0D, 0x9700, 0x8981], [0x65E0, 0x9700], [0x5148, 0x4E0D], [0x6682, 0x4E0D],
     ascii ''not'', ascii ''do not'', [0x64, 0x6F, 0x6E, 0x27, 0x74]]"

definition skill_verbs :: "utext list" where
  "skill_verbs = [[0x751F, 0x6210], [0x521B, 0x5EFA], [0x65B0, 0x5EFA], [0x5236, 0x4F5C], [0x6784, 0x5EFA], [0x5F00, 0x53D1],
     [0x6C89, 0x6DC0], [0x6253, 0x5305], ascii ''create'', ascii ''build'', ascii ''generate'', ascii ''make'']"

definition skill_nouns :: "utext list" where
  "skill_nouns = [ascii ''skill'', [0x6280, 0x80FD]]"

definition mentions_skill_creation :: "utext \<Rightarrow> bool" where
  "mentions_skill_creation t \<longleftrightarrow>
     somewhere (\<lambda>u. followed_by skill_verbs 24 skill_nouns u \<or> followed_by skill_nouns 24 skill_verbs u) t"

definition evolution_intent :: "utext \<Rightarrow> string option" where
  "evolution_intent message =
     (let t = lowered message in
      if mentions evolution_negations t then None
      else if mentions_skill_creation t then Some ''skill_creation''
      else if mentions evolution_repairs t then None
      else if \<not> mentions evolution_assets t \<or> \<not> mentions evolution_requests t then None
      else if mentions evolution_actions t then Some ''evolution''
      else if mentions evolution_iterations t then Some ''evolution''
      else None)"

text \<open>An identifier that ends in \<open>-skill\<close>, between word boundaries, with the longest body first.\<close>

definition id_char :: "int \<Rightarrow> bool" where
  "id_char c \<longleftrightarrow> (48 \<le> c \<and> c \<le> 57) \<or> (97 \<le> c \<and> c \<le> 122)"

definition word_char :: "(int \<Rightarrow> bool) \<Rightarrow> int \<Rightarrow> bool" where
  "word_char letters c \<longleftrightarrow> (if c < 128 then id_char c \<or> c = 95 else letters c)"

definition skill_id_at :: "(int \<Rightarrow> bool) \<Rightarrow> int option \<Rightarrow> utext \<Rightarrow> utext option" where
  "skill_id_at letters prev t =
     (if t = [] \<or> \<not> id_char (hd t) \<or> (case prev of None \<Rightarrow> False | Some b \<Rightarrow> word_char letters b) then None
      else map_option (\<lambda>n. take (n + 7) t)
        (find (\<lambda>n. list_all (\<lambda>c. id_char c \<or> c \<in> {45, 95}) (take n (tl t)) \<and> n \<le> length (tl t)
             \<and> starts_with (ascii ''-skill'') (drop n (tl t))
             \<and> (case drop (n + 6) (tl t) of [] \<Rightarrow> True | c # _ \<Rightarrow> \<not> word_char letters c))
           (rev [1..<81])))"

fun skill_scan :: "(int \<Rightarrow> bool) \<Rightarrow> nat \<Rightarrow> int option \<Rightarrow> utext \<Rightarrow> utext list" where
  "skill_scan letters k prev [] = []"
| "skill_scan letters (Suc k) prev (c # t) = skill_scan letters k (Some c) t"
| "skill_scan letters 0 prev (c # t) = (case skill_id_at letters prev (c # t) of
      None \<Rightarrow> skill_scan letters 0 (Some c) t
    | Some m \<Rightarrow> m # skill_scan letters (length m - 1) (Some c) t)"

definition evolution_source_skill_ids :: "(int \<Rightarrow> bool) \<Rightarrow> utext \<Rightarrow> utext list" where
  "evolution_source_skill_ids letters message =
     take 8 (rev (remdups (rev (skill_scan letters 0 None (lowered message)))))"

record evolution_proposal =
  ep_kind :: string
  ep_title :: utext
  ep_objective :: utext
  ep_mode :: task_mode
  ep_sources :: "utext list"
  ep_conversation :: "string option"
  ep_artifact :: string
  ep_summary :: utext

definition creation_title :: utext where
  "creation_title =
     ascii ''Skill '' @ [0x521B, 0x5EFA, 0x4EFB, 0x52A1]"

definition distillation_title :: utext where
  "distillation_title =
     ascii ''Skill '' @ [0x84B8, 0x998F, 0x4EFB, 0x52A1]"

definition evolution_title :: utext where
  "evolution_title =
     ascii ''Skill '' @ [0x8FDB, 0x5316, 0x4EFB, 0x52A1]"

definition creation_summary :: utext where
  "creation_summary =
     [0x4E3B] @ ascii '' Agent '' @ [0x5224, 0x65AD, 0x8FD9, 0x6761, 0x6D88, 0x606F, 0x662F, 0x5728, 0x521B,
     0x5EFA, 0x53EF, 0x6C89, 0x6DC0, 0x7684] @ ascii '' Skill'' @ [0xFF1A, 0x5148, 0x6536, 0x655B, 0x76EE,
     0x6807, 0x548C, 0x8F93, 0x5165, 0x8D44, 0x6599, 0xFF0C, 0x518D, 0x751F,
     0x6210] @ ascii '' SKILL.md'' @ [0x3001] @ ascii ''references/scripts/assets'' @ [0xFF0C, 0x5E76, 0x7528,
     0x771F, 0x5B9E, 0x4EFB, 0x52A1, 0x9A8C, 0x6536, 0x3002]"

definition evolution_summary :: utext where
  "evolution_summary =
     [0x4E3B] @ ascii '' Agent '' @ [0x5224, 0x65AD, 0x8FD9, 0x6761, 0x6D88, 0x606F, 0x9002, 0x5408, 0x8FDB,
     0x5165, 0x8FDB, 0x5316, 0x4EFB, 0x52A1, 0xFF1A, 0x5148, 0x786E, 0x8BA4, 0x76EE, 0x6807, 0x3001, 0x57FA,
     0x51C6] @ ascii '' agent '' @ [0x548C, 0x8BC4, 0x6D4B, 0x53E3, 0x5F84, 0xFF0C, 0x518D, 0x542F, 0x52A8,
     0x591A, 0x8F6E, 0x8FED, 0x4EE3, 0x3002]"

definition distil_word :: utext where
  "distil_word =
     [0x84B8, 0x998F]"

definition darwin_word :: utext where
  "darwin_word =
     [0x8FBE, 0x5C14, 0x6587]"

definition skill_word :: utext where
  "skill_word =
     [0x6280, 0x80FD]"

definition local_evolution_proposal :: "(int \<Rightarrow> bool) \<Rightarrow> utext \<Rightarrow> task_mode \<Rightarrow> string \<Rightarrow> evolution_proposal option" where
  "local_evolution_proposal letters message m conversation_id = (case evolution_intent message of
      None \<Rightarrow> None
    | Some intent \<Rightarrow>
        let t = lowered message;
            kind = (if intent = ''skill_creation'' \<or> mentions [ascii ''distill'', distil_word] t
              then ''skill_distillation'' else ''skill_optimization'');
            artifact = (if intent = ''skill_creation'' \<or> contains_text (ascii ''skill'') t
                \<or> contains_text skill_word message \<or> contains_text distil_word message then ''skill'' else ''custom'');
            found = evolution_source_skill_ids letters message;
            sources = (if found = [] \<and> artifact = ''skill''
                \<and> (contains_text (ascii ''darwin'') t \<or> contains_text darwin_word message)
              then [ascii ''darwin-skill''] else found);
            titles = (if intent = ''skill_creation'' then (creation_title, creation_summary)
              else (if kind = ''skill_distillation'' then distillation_title else evolution_title, evolution_summary)) in
        Some \<lparr>ep_kind = kind, ep_title = fst titles, ep_objective = trim message,
          ep_mode = (if m \<noteq> Auto then m else Hybrid), ep_sources = sources, ep_conversation = Some conversation_id,
          ep_artifact = artifact, ep_summary = snd titles\<rparr>)"

definition proposal_metadata :: "string \<Rightarrow> json" where
  "proposal_metadata source = JObj [(''source'', JStr source), (''requires_user_confirmation'', JStr ''true'')]"

definition json_texts :: "utext list \<Rightarrow> json" where
  "json_texts ts = JArr (map (\<lambda>t. JStr (utf8 t)) ts)"

definition rubric_words :: "utext list" where
  "rubric_words = [[0x5B9E, 0x6D4B, 0x8868, 0x73B0], [0x53CD, 0x4F8B, 0x8986, 0x76D6], [0x4EBA, 0x5DE5, 0x9A8C, 0x6536]]"

definition evolution_payload :: "evolution_proposal \<Rightarrow> (string \<times> json) list" where
  "evolution_payload p =
     [(''kind'', JStr (ep_kind p)), (''title'', JStr (utf8 (ep_title p))), (''objective'', JStr (utf8 (ep_objective p))),
      (''mode'', JStr (mode_text (ep_mode p))), (''source_skill_ids'', json_texts (ep_sources p)),
      (''source_conversation_id'', json_opt JStr (ep_conversation p)), (''source_run_id'', JNull),
      (''target_artifact_type'', JStr (ep_artifact p)), (''baseline_agent_id'', JStr ''main-agent''),
      (''candidate_agent_ids'', JArr [JStr ''worker-agent'', JStr ''reviewer-agent'']),
      (''evaluator_agent_id'', JStr ''evaluator-agent''), (''approval_policy'', JStr ''ask''),
      (''iteration_policy'', JStr ''score_gated''), (''memory_policy'', JStr ''summarize_between_rounds''),
      (''max_rounds'', JInt 5), (''min_delta'', JFloat 2), (''budget_tokens'', JInt 200000),
      (''budget_minutes'', JInt 120), (''rubric'', json_texts rubric_words), (''summary'', JStr (utf8 (ep_summary p))),
      (''metadata'', proposal_metadata ''chat_evolution_proposal'')]"

section \<open>Operating a computer\<close>

definition openclaw_names :: "utext list" where
  "openclaw_names = [ascii ''openclaw'', [0x63A5, 0x7BA1, 0x7535, 0x8111], [0x64CD, 0x4F5C, 0x7535, 0x8111],
     [0x63A7, 0x5236, 0x7535, 0x8111], [0x670D, 0x52A1, 0x5668, 0x64CD, 0x4F5C],
     [0x7EC8, 0x7AEF, 0x63A7, 0x5236], [0x7535, 0x8111, 0x64CD, 0x4F5C]]"

definition openclaw_actions :: "utext list" where
  "openclaw_actions = [ascii ''execute'', ascii ''run'', ascii ''command'', ascii ''terminal'', ascii ''shell'', ascii ''click'',
     ascii ''screen'', ascii ''file'', [0x6267, 0x884C], [0x8FD0, 0x884C], [0x547D, 0x4EE4], [0x7EC8, 0x7AEF],
     [0x70B9, 0x51FB], [0x8BFB, 0x53D6, 0x5C4F, 0x5E55], [0x5C4F, 0x5E55], [0x6587, 0x4EF6], [0x63A5, 0x7BA1],
     [0x64CD, 0x4F5C]]"

definition openclaw_commands :: "utext list" where
  "openclaw_commands = [ascii ''execute'', ascii ''run'', ascii ''command'', ascii ''terminal'', ascii ''shell'', [0x6267, 0x884C],
     [0x8FD0, 0x884C], [0x547D, 0x4EE4], [0x7EC8, 0x7AEF]]"

definition openclaw_screens :: "utext list" where
  "openclaw_screens = [ascii ''screen'', ascii ''screenshot'', [0x8BFB, 0x53D6, 0x5C4F, 0x5E55], [0x5C4F, 0x5E55], [0x622A, 0x56FE]]"

definition openclaw_files :: "utext list" where
  "openclaw_files = [ascii ''file'', [0x6587, 0x4EF6]]"
definition computer_word :: utext where
  "computer_word =
     [0x7535, 0x8111]"

definition this_machine_word :: utext where
  "this_machine_word =
     [0x672C, 0x673A]"

definition server_word :: utext where
  "server_word =
     [0x670D, 0x52A1, 0x5668]"

record openclaw_proposal =
  op_kind :: string
  op_platform :: string
  op_target_type :: string
  op_target :: string
  op_operation :: utext
  op_conversation :: "string option"

definition openclaw_kind :: "utext \<Rightarrow> string" where
  "openclaw_kind message =
     (let t = lowered message in
      if mentions openclaw_screens t then ''screen_read''
      else if mentions openclaw_files t then ''file_read''
      else if mentions openclaw_commands t then ''server_command''
      else ''desktop_action'')"

definition openclaw_platform :: "utext \<Rightarrow> string" where
  "openclaw_platform message =
     (let t = lowered message in
      if mentions [ascii ''windows'', ascii ''win'', computer_word, this_machine_word] t then ''windows''
      else if mentions [ascii ''mac'', ascii ''macos''] t then ''macos''
      else if mentions [ascii ''linux'', ascii ''server'', server_word] t then ''linux''
      else ''windows'')"

definition openclaw_target_type :: "string \<Rightarrow> string \<Rightarrow> string" where
  "openclaw_target_type kind platform =
     (if kind = ''server_command'' \<and> platform = ''linux'' then ''server''
      else if kind = ''screen_read'' then ''screen''
      else if kind = ''file_read'' then ''filesystem''
      else ''computer'')"

definition openclaw_target :: "string \<Rightarrow> string \<Rightarrow> string" where
  "openclaw_target platform target_type =
     (if target_type = ''server'' then ''linux-server''
      else if platform = ''windows'' then ''windows-computer''
      else if platform = ''macos'' then ''macos-computer''
      else ''operator-selected'')"

definition local_openclaw_proposal :: "utext \<Rightarrow> string \<Rightarrow> openclaw_proposal option" where
  "local_openclaw_proposal message conversation_id =
     (let t = lowered message in
      if \<not> mentions openclaw_names t \<or> \<not> mentions openclaw_actions t then None
      else let kind = openclaw_kind message; platform = openclaw_platform message;
               target_type = openclaw_target_type kind platform in
        Some \<lparr>op_kind = kind, op_platform = platform, op_target_type = target_type,
          op_target = openclaw_target platform target_type, op_operation = trim message,
          op_conversation = Some conversation_id\<rparr>)"

definition openclaw_payload :: "openclaw_proposal \<Rightarrow> (string \<times> json) list" where
  "openclaw_payload p =
     [(''kind'', JStr (op_kind p)), (''platform'', JStr (op_platform p)), (''target_type'', JStr (op_target_type p)),
      (''target'', JStr (op_target p)), (''operation_text'', JStr (utf8 (op_operation p))),
      (''source_conversation_id'', json_opt JStr (op_conversation p)),
      (''summary'', JStr ''Main Agent detected an OpenClaw computer/server operation request. Confirm target, permissions, and risk before creating the controlled operation.''),
      (''metadata'', proposal_metadata ''chat_openclaw_proposal'')]"

section \<open>Schedules: time and date\<close>

definition digit_of :: "int \<Rightarrow> int option" where
  "digit_of c = (if 48 \<le> c \<and> c \<le> 57 then Some (c - 48) else None)"

text \<open>The ways to read a number in \<open>low..high\<close>, with one digit or with two, at the start of a text.\<close>

definition one_digit :: "int \<Rightarrow> int \<Rightarrow> utext \<Rightarrow> (int \<times> utext) list" where
  "one_digit low high t = (case t of
      c # u \<Rightarrow> (case digit_of c of Some d \<Rightarrow> if low \<le> d \<and> d \<le> high then [(d, u)] else [] | None \<Rightarrow> [])
    | [] \<Rightarrow> [])"

definition two_digits :: "int \<Rightarrow> int \<Rightarrow> utext \<Rightarrow> (int \<times> utext) list" where
  "two_digits low high t = (case t of
      c # d # u \<Rightarrow> (case (digit_of c, digit_of d) of
          (Some a, Some b) \<Rightarrow> if low \<le> 10 * a + b \<and> 10 * a + b \<le> high then [(10 * a + b, u)] else []
        | _ \<Rightarrow> [])
    | _ \<Rightarrow> [])"

definition hour_at :: "utext \<Rightarrow> (int \<times> utext) list" where
  "hour_at t = two_digits 0 19 t @ one_digit 0 9 t @ two_digits 20 23 t"

definition month_at :: "utext \<Rightarrow> (int \<times> utext) list" where
  "month_at t = two_digits 10 12 t @ two_digits 1 9 t @ one_digit 1 9 t"

definition day_at :: "utext \<Rightarrow> (int \<times> utext) list" where
  "day_at t = two_digits 30 31 t @ two_digits 10 29 t @ two_digits 1 9 t @ one_digit 1 9 t"

definition year_at :: "utext \<Rightarrow> (int \<times> utext) list" where
  "year_at t = concat (map (\<lambda>(a, u). map (\<lambda>(b, v). (2000 + b, v)) (two_digits 0 99 u)) (two_digits 20 20 t))"

text \<open>An alternation tries its branches in order: the first reading the rest of the pattern accepts.\<close>

definition first_some :: "('a \<Rightarrow> 'b option) \<Rightarrow> 'a list \<Rightarrow> 'b option" where
  "first_some f xs = (case concat (map (\<lambda>x. case f x of None \<Rightarrow> [] | Some y \<Rightarrow> [y]) xs) of [] \<Rightarrow> None | y # _ \<Rightarrow> Some y)"

datatype time_match = Clock_Time int "int option" | Half_Day int bool

definition clock_mark :: "utext \<Rightarrow> utext option" where
  "clock_mark t = (case dropWhile blank t of
      c # u \<Rightarrow> if c = 0x70B9 then Some u else (case t of d # v \<Rightarrow> if d = 58 then Some v else None | [] \<Rightarrow> None)
    | [] \<Rightarrow> None)"

definition half_day_mark :: "utext \<Rightarrow> bool option" where
  "half_day_mark t = (let u = dropWhile blank t in
      if starts_with (ascii ''am'') u then Some False else if starts_with (ascii ''pm'') u then Some True else None)"

definition time_at :: "utext \<Rightarrow> time_match option" where
  "time_at t = (case first_some (\<lambda>(h, u). map_option (\<lambda>v. Clock_Time h
        (case two_digits 0 59 v of [] \<Rightarrow> None | (m, _) # _ \<Rightarrow> Some m)) (clock_mark u)) (hour_at t) of
      Some x \<Rightarrow> Some x
    | None \<Rightarrow> first_some (\<lambda>(h, u). map_option (\<lambda>pm. Half_Day h pm) (half_day_mark u)) (hour_at t))"

definition schedule_time :: "utext \<Rightarrow> int \<times> int" where
  "schedule_time message = (case search time_at (lowered message) of
      None \<Rightarrow> (9, 0)
    | Some (Clock_Time h m) \<Rightarrow> (h, case m of None \<Rightarrow> 0 | Some n \<Rightarrow> n)
    | Some (Half_Day h pm) \<Rightarrow> (if pm \<and> h < 12 then h + 12 else h, 0))"

record date_match =
  dm_year :: "int option"
  dm_month :: int
  dm_day :: int

definition date_at :: "utext \<Rightarrow> date_match option" where
  "date_at t =
     (let dated = (\<lambda>y u. first_some (\<lambda>(m, v). case v of
              c # w \<Rightarrow> if c = 0x6708 then (case day_at w of [] \<Rightarrow> None
                  | (d, _) # _ \<Rightarrow> Some \<lparr>dm_year = y, dm_month = m, dm_day = d\<rparr>) else None
            | [] \<Rightarrow> None) (month_at u));
          with_year = first_some (\<lambda>(y, u). case u of c # v \<Rightarrow> if c = 0x5E74 then dated (Some y) v else None
            | [] \<Rightarrow> None) (year_at t);
          iso = first_some (\<lambda>(y, u). case u of
              c # v \<Rightarrow> if c = 45 then first_some (\<lambda>(m, w). case w of
                  e # x \<Rightarrow> if e = 45 then (case day_at x of [] \<Rightarrow> None
                      | (d, _) # _ \<Rightarrow> Some \<lparr>dm_year = Some y, dm_month = m, dm_day = d\<rparr>) else None
                | [] \<Rightarrow> None) (month_at v) else None
            | [] \<Rightarrow> None) (year_at t) in
      case with_year of Some x \<Rightarrow> Some x
      | None \<Rightarrow> (case dated None t of Some x \<Rightarrow> Some x | None \<Rightarrow> iso))"

text \<open>The calendar of \<open>datetime\<close>; a reading of the clock in UTC.\<close>

record civil =
  cv_year :: int
  cv_month :: int
  cv_day :: int

definition days_in_month :: "int \<Rightarrow> int \<Rightarrow> int" where
  "days_in_month y m =
     (if m = 2 then (if y mod 4 = 0 \<and> (y mod 100 \<noteq> 0 \<or> y mod 400 = 0) then 29 else 28)
      else if m \<in> {4, 6, 9, 11} then 30 else 31)"

definition civil_ok :: "civil \<Rightarrow> bool" where
  "civil_ok d \<longleftrightarrow> 1 \<le> cv_year d \<and> cv_year d \<le> 9999 \<and> 1 \<le> cv_month d \<and> cv_month d \<le> 12
     \<and> 1 \<le> cv_day d \<and> cv_day d \<le> days_in_month (cv_year d) (cv_month d)"

definition civil_before :: "civil \<Rightarrow> civil \<Rightarrow> bool" where
  "civil_before a b \<longleftrightarrow> cv_year a < cv_year b
     \<or> cv_year a = cv_year b \<and> (cv_month a < cv_month b \<or> cv_month a = cv_month b \<and> cv_day a < cv_day b)"

definition next_day :: "civil \<Rightarrow> civil" where
  "next_day d =
     (if cv_day d < days_in_month (cv_year d) (cv_month d) then d\<lparr>cv_day := cv_day d + 1\<rparr>
      else if cv_month d < 12 then d\<lparr>cv_month := cv_month d + 1, cv_day := 1\<rparr>
      else \<lparr>cv_year = cv_year d + 1, cv_month = 1, cv_day = 1\<rparr>)"

datatype date_result = No_Date | Dated civil | Date_Raises

definition schedule_date :: "civil \<Rightarrow> utext \<Rightarrow> date_result" where
  "schedule_date today message = (case search date_at (lowered message) of
      None \<Rightarrow> No_Date
    | Some m \<Rightarrow>
        let y = (case dm_year m of None \<Rightarrow> cv_year today | Some y \<Rightarrow> y);
            candidate = \<lparr>cv_year = y, cv_month = dm_month m, cv_day = dm_day m\<rparr> in
        if \<not> civil_ok candidate then No_Date
        else if dm_year m = None \<and> civil_before candidate today
        then (let later = candidate\<lparr>cv_year := y + 1\<rparr> in if civil_ok later then Dated later else Date_Raises)
        else Dated candidate)"

section \<open>Schedules: the proposal\<close>

definition schedule_triggers :: "utext list" where
  "schedule_triggers = [[0x5B9A, 0x65F6], [0x63D0, 0x9192], [0x95F9, 0x949F], [0x65E5, 0x7A0B], [0x6392, 0x7A0B],
     [0x8BA1, 0x5212, 0x4EFB, 0x52A1], [0x52A0, 0x5165, 0x8BA1, 0x5212], [0x5217, 0x5165, 0x8BA1, 0x5212],
     ascii ''schedule'', ascii ''scheduled'', ascii ''remind'', ascii ''reminder'', ascii ''alarm'']"

definition schedule_actions :: "utext list" where
  "schedule_actions = [[0x6267, 0x884C], [0x8FD0, 0x884C], [0x63D0, 0x4EA4], [0x53D1, 0x9001], [0x586B, 0x5199], [0x586B, 0x62A5],
     [0x6253, 0x5F00], [0x68C0, 0x67E5], [0x89E6, 0x53D1], [0x901A, 0x77E5], [0x751F, 0x6210], [0x521B, 0x5EFA],
     [0x66F4, 0x65B0], [0x5199], ascii ''execute'', ascii ''run'', ascii ''submit'', ascii ''send'',
     ascii ''fill'', ascii ''open'', ascii ''check'', ascii ''generate'', ascii ''create'', ascii ''update'']"

definition reminder_phrases :: "utext list" where
  "reminder_phrases = [[0x63D0, 0x9192, 0x6211], [0x901A, 0x77E5, 0x6211], [0x53EB, 0x6211]]"

definition schedule_negations :: "utext list" where
  "schedule_negations = [[0x4E0D, 0x8981], [0x4E0D, 0x9700, 0x8981], [0x4E0D, 0x7528], [0x65E0, 0x9700], [0x522B]]"

definition schedule_keepers :: "utext list" where
  "schedule_keepers = [[0x52A0, 0x5165], [0x521B, 0x5EFA], [0x4FDD, 0x5B58], [0x5217, 0x5165], [0x653E, 0x5165]]"

definition schedule_nouns :: "utext list" where
  "schedule_nouns = [[0x65E5, 0x7A0B], [0x8BA1, 0x5212, 0x4EFB, 0x52A1], [0x63D0, 0x9192], [0x95F9, 0x949F], ascii ''schedule'',
     ascii ''reminder'', ascii ''alarm'']"
definition forget_word :: utext where
  "forget_word =
     [0x5FD8]"

definition daily_words :: "utext list" where
  "daily_words = [[0x6BCF, 0x5929], [0x6BCF, 0x65E5], ascii ''daily'', ascii ''every day'']"

definition weekly_words :: "utext list" where
  "weekly_words = [[0x6BCF, 0x5468], ascii ''weekly'', ascii ''every week'']"

definition day_words :: "utext list" where
  "day_words = [[0x4ECA, 0x5929], [0x660E, 0x5929], [0x540E, 0x5929], ascii ''today'', ascii ''tomorrow'']"

definition weekday_by_text :: "(utext \<times> int) list" where
  "weekday_by_text = [([0x5468, 0x65E5], 0), ([0x661F, 0x671F, 0x65E5], 0), ([0x5468, 0x5929], 0), ([0x661F, 0x671F, 0x5929], 0),
     ([0x5468, 0x4E00], 1), ([0x661F, 0x671F, 0x4E00], 1), ([0x5468, 0x4E8C], 2), ([0x661F, 0x671F, 0x4E8C], 2),
     ([0x5468, 0x4E09], 3), ([0x661F, 0x671F, 0x4E09], 3), ([0x5468, 0x56DB], 4), ([0x661F, 0x671F, 0x56DB], 4),
     ([0x5468, 0x4E94], 5), ([0x661F, 0x671F, 0x4E94], 5), ([0x5468, 0x516D], 6), ([0x661F, 0x671F, 0x516D], 6)]"

definition weekday_labels :: "utext list" where
  "weekday_labels = [[0x65E5], [0x4E00], [0x4E8C], [0x4E09], [0x56DB], [0x4E94], [0x516D]]"

definition schedule_negated :: "utext \<Rightarrow> bool" where
  "schedule_negated t \<longleftrightarrow> somewhere (\<lambda>u. list_ex (\<lambda>w. starts_with w u
       \<and> (let r = drop (length w) u in \<not> starts_with forget_word r
          \<and> near 16 (\<lambda>v. starts_any schedule_nouns v
               \<or> list_ex (\<lambda>k. starts_with k v \<and> starts_any schedule_nouns (drop (length k) v)) schedule_keepers) r))
       schedule_negations) t"

definition reminder_action :: "utext \<Rightarrow> bool" where
  "reminder_action t \<longleftrightarrow> mentions reminder_phrases t
     \<or> somewhere (\<lambda>u. list_ex (\<lambda>w. starts_with w u
         \<and> (let r = drop (length w) u in r \<noteq> [] \<and> blank (hd r) \<and> starts_with (ascii ''me'') (dropWhile blank r)))
         [ascii ''remind'', ascii ''notify'', ascii ''ping'', ascii ''alarm'']) t"

definition looks_like_schedule_intent :: "utext \<Rightarrow> bool" where
  "looks_like_schedule_intent message =
     (let t = lowered message in
      if schedule_negated t then False
      else
        let recurrence = (mentions daily_words t \<or> mentions weekly_words t);
            specific_date = (search date_at t \<noteq> None);
            time_anchor = (recurrence \<or> specific_date \<or> search time_at t \<noteq> None \<or> mentions day_words t);
            cue = (mentions schedule_triggers t \<or> recurrence \<or> specific_date);
            execution = (mentions schedule_actions t \<or> reminder_action t) in
        cue \<and> time_anchor \<and> execution)"

definition schedule_weekday :: "utext \<Rightarrow> int" where
  "schedule_weekday message = (case find (\<lambda>(w, _). contains_text w message) weekday_by_text of
      None \<Rightarrow> 1 | Some (_, d) \<Rightarrow> d)"

record schedule_proposal =
  sp_name :: string
  sp_message :: utext
  sp_mode :: task_mode
  sp_workflow :: string
  sp_kind :: string
  sp_run_at :: "string option"
  sp_cron :: "string option"
  sp_summary :: utext

definition pad2 :: "int \<Rightarrow> string" where
  "pad2 n = (if n < 10 then ''0'' @ int_text n else int_text n)"

definition iso_text :: "civil \<Rightarrow> int \<Rightarrow> int \<Rightarrow> string" where
  "iso_text d h m = (let y = int_text (cv_year d) in
     replicate (4 - length y) CHR ''0'' @ y @ ''-'' @ pad2 (cv_month d) @ ''-'' @ pad2 (cv_day d) @ ''T'' @ pad2 h @ '':''
     @ pad2 m @ '':00+00:00'')"

definition cron_text :: "int \<Rightarrow> int \<Rightarrow> string \<Rightarrow> string" where
  "cron_text m h weekday = int_text m @ '' '' @ int_text h @ '' * * '' @ weekday"

definition clock_text :: "int \<Rightarrow> int \<Rightarrow> utext" where
  "clock_text h m = ascii (pad2 h @ '':'' @ pad2 m)"

definition weekly_prefix :: utext where
  "weekly_prefix =
     [0x6BCF, 0x5468]"

definition daily_prefix :: utext where
  "daily_prefix =
     [0x6BCF, 0x5929]"

definition once_prefix :: utext where
  "once_prefix =
     [0x5C06, 0x5728]"

definition runs_suffix :: utext where
  "runs_suffix =
     [0x6267, 0x884C, 0x3002]"

definition once_suffix :: utext where
  "once_suffix =
     [0x6267, 0x884C, 0x4E00, 0x6B21, 0x3002]"

datatype schedule_finding = No_Schedule | Schedule_Found schedule_proposal | Schedule_Raises

definition local_schedule_proposal :: "civil \<Rightarrow> utext \<Rightarrow> task_mode \<Rightarrow> string option \<Rightarrow> schedule_finding" where
  "local_schedule_proposal today message m workflow_id =
     (let t = lowered message in
      if \<not> looks_like_schedule_intent message then No_Schedule
      else
        let (h, mi) = schedule_time message;
            workflow = (case workflow_id of None \<Rightarrow> ''scheduled_task'' | Some w \<Rightarrow> if w = [] then ''scheduled_task'' else w);
            base = \<lparr>sp_name = ''chat-one-time-schedule'', sp_message = message, sp_mode = m, sp_workflow = workflow,
              sp_kind = ''cron'', sp_run_at = None, sp_cron = None, sp_summary = []\<rparr> in
        if mentions weekly_words t
        then let weekday = schedule_weekday message in
          Schedule_Found (base\<lparr>sp_name := ''chat-weekly-schedule'', sp_cron := Some (cron_text mi h (int_text weekday)),
            sp_summary := weekly_prefix @ weekday_labels ! nat weekday @ ascii '' '' @ clock_text h mi @ ascii '' '' @ runs_suffix\<rparr>)
        else if mentions daily_words t
        then Schedule_Found (base\<lparr>sp_name := ''chat-daily-schedule'', sp_cron := Some (cron_text mi h ''*''),
            sp_summary := daily_prefix @ ascii '' '' @ clock_text h mi @ ascii '' '' @ runs_suffix\<rparr>)
        else case schedule_date today message of
          Date_Raises \<Rightarrow> Schedule_Raises
        | found \<Rightarrow>
            let day = (case found of Dated d \<Rightarrow> d | _ \<Rightarrow> next_day today); run_at = iso_text day h mi in
            Schedule_Found (base\<lparr>sp_kind := ''one_time'', sp_run_at := Some run_at,
              sp_summary := once_prefix @ ascii ('' '' @ run_at @ '' '') @ once_suffix\<rparr>))"

definition schedule_payload :: "schedule_proposal \<Rightarrow> (string \<times> json) list" where
  "schedule_payload p =
     [(''name'', JStr (sp_name p)), (''message'', JStr (utf8 (sp_message p))), (''mode'', JStr (mode_text (sp_mode p))),
      (''workflow_id'', JStr (sp_workflow p)), (''kind'', JStr (sp_kind p)), (''timezone'', JStr ''Asia/Shanghai''),
      (''misfire_policy'', JStr ''fire_once''), (''budget'', JInt 16384), (''run_at'', json_opt JStr (sp_run_at p)),
      (''cron'', json_opt JStr (sp_cron p)), (''summary'', JStr (utf8 (sp_summary p))),
      (''metadata'', proposal_metadata ''chat_schedule_proposal'')]"

end
