(* ===== verification/Run_Submission.thy ===== *)
theory Run_Submission
  imports Run_Proposals
begin

text \<open>
  The submission of a run, \<open>RunService.submit\<close> of \<open>runs/service.py\<close>: the selection the operator made,
  the proposals the service finds itself, the choice of the mode by message, conversation, router,
  adviser or main agent, and the one run it creates. Router, Hermes adviser and temporary agent
  policy are collaborators the service knows by their protocols: functions here, whose \<open>None\<close> is an
  exception, a timeout or no answer.
\<close>

section \<open>The collaborators\<close>

record hermes_memory =
  hm_id :: string
  hm_summary :: string
  hm_type :: string
  hm_target :: string
  hm_score :: pyfloat
  hm_reason :: string

record hermes_skipped =
  hs_id :: string
  hs_summary :: string
  hs_reason :: string
  hs_score :: pyfloat

record hermes_advice =
  ha_mode :: task_mode
  ha_confidence :: pyfloat
  ha_reasons :: "string list"
  ha_skills :: "string list"
  ha_approval :: bool
  ha_injected :: "hermes_memory list"
  ha_skipped :: "hermes_skipped list"

record temporary_agent_proposal =
  tp_id :: string
  tp_name :: string
  tp_role :: string
  tp_prompt :: string
  tp_reason :: string
  tp_missing :: string
  tp_model :: "string option"
  tp_skills :: "string list"
  tp_permanent :: bool

record submission =
  sb_tenant :: uuid
  sb_actor :: uuid
  sb_message :: utext
  sb_mode :: task_mode
  sb_agents :: "string list"
  sb_workflow :: "string option"
  sb_adjust :: bool
  sb_conversation :: "string option"
  sb_reference :: "string option"
  sb_attachments :: "string list"
  sb_model :: "string option"
  sb_vibe :: bool
  sb_skip_evolution :: bool
  sb_context :: "(string \<times> string) list option"
  sb_key :: "string option"

record run_service =
  rs_router :: "(utext \<Rightarrow> decision option) option"
  rs_hermes :: "(submission \<Rightarrow> hermes_advice option) option"
  rs_policy :: "(submission \<Rightarrow> task_mode \<Rightarrow> temporary_agent_proposal option) option"
  rs_detectors :: detectors
  rs_letters :: "int \<Rightarrow> bool"
  rs_decimal :: "decimal \<Rightarrow> string"
  rs_render :: "json \<Rightarrow> string"

text \<open>What a call draws: identifiers, two halves of a token, the day and the time.\<close>

record draws =
  dr_run :: uuid
  dr_outbox :: uuid
  dr_conversation :: uuid
  dr_token1 :: uuid
  dr_token2 :: uuid
  dr_today :: civil
  dr_now :: instant

definition decision_token_text :: "draws \<Rightarrow> string" where
  "decision_token_text dr = ''decision-'' @ uuid_hex (dr_token1 dr) @ uuid_hex (dr_token2 dr)"

section \<open>Payloads\<close>

definition json_strings_of :: "string list \<Rightarrow> json" where
  "json_strings_of xs = JArr (map JStr xs)"

definition hermes_advice_payload :: "hermes_advice \<Rightarrow> json" where
  "hermes_advice_payload a = JObj
     [(''recommended_mode'', JStr (mode_text (ha_mode a))), (''confidence'', JFloat (ha_confidence a)),
      (''reasons'', json_strings_of (ha_reasons a)), (''recommended_skills'', json_strings_of (ha_skills a)),
      (''requires_approval'', JBool (ha_approval a)),
      (''injected_memories'', JArr (map (\<lambda>m. JObj [(''id'', JStr (hm_id m)), (''summary'', JStr (hm_summary m)),
         (''memory_type'', JStr (hm_type m)), (''target'', JStr (hm_target m)), (''score'', JFloat (hm_score m)),
         (''reason'', JStr (hm_reason m))]) (take 3 (ha_injected a)))),
      (''skipped_memories'', JArr (map (\<lambda>m. JObj [(''id'', JStr (hs_id m)), (''summary'', JStr (hs_summary m)),
         (''reason'', JStr (hs_reason m)), (''score'', JFloat (hs_score m))]) (take 5 (ha_skipped a))))]"

definition temporary_agent_payload :: "temporary_agent_proposal \<Rightarrow> json" where
  "temporary_agent_payload p = JObj
     ([(''id'', JStr (tp_id p)), (''name'', JStr (tp_name p)), (''role'', JStr (tp_role p)), (''prompt'', JStr (tp_prompt p)),
       (''reason'', JStr (tp_reason p)), (''missing_capability'', JStr (tp_missing p)),
       (''suggested_skills'', json_strings_of (tp_skills p)), (''permanentizable'', JBool (tp_permanent p))]
      @ (case tp_model p of None \<Rightarrow> [] | Some m \<Rightarrow> [(''recommended_model'', JStr m)]))"

fun risk_text :: "risk_level \<Rightarrow> string" where
  "risk_text Low = ''low''" | "risk_text Medium = ''medium''" | "risk_text High = ''high''"

fun source_text :: "route_source \<Rightarrow> string" where
  "source_text From_Explicit = ''explicit''" | "source_text From_Rule = ''rule''"
| "source_text From_Classifier = ''classifier''" | "source_text From_Verifier = ''verifier''"
| "source_text From_User = ''user''"

definition assessment_dump :: "(decimal \<Rightarrow> string) \<Rightarrow> assessment \<Rightarrow> json" where
  "assessment_dump dec a = JObj
     [(''mode'', JStr (mode_text (as_mode a))), (''confidence'', JFloat (as_confidence a)), (''reason'', JStr (as_reason a)),
      (''roles'', json_strings_of (as_roles a)), (''estimated_seconds'', JInt (as_seconds a)),
      (''estimated_cost_usd'', JStr (dec (as_cost a))), (''risk'', JStr (risk_text (as_risk a))),
      (''source'', JStr (source_text (as_source a))), (''logical_model'', JStr (as_logical a)),
      (''deployment_id'', JStr (as_deployment a)), (''provider_id'', JStr (as_provider a))]"

definition decision_dump :: "(decimal \<Rightarrow> string) \<Rightarrow> decision \<Rightarrow> (string \<times> json) list" where
  "decision_dump dec d =
     [(''mode'', json_opt (\<lambda>m. JStr (mode_text m)) (de_mode d)), (''needs_user_choice'', JBool (de_choice d)),
      (''status'', JStr (case de_status d of Ready \<Rightarrow> ''ready'' | Waiting_Mode \<Rightarrow> ''waiting_user_mode'')),
      (''assessments'', JArr (map (assessment_dump dec) (de_assessments d))),
      (''clarification_reason'', json_opt JStr (de_reason d)),
      (''options'', JArr (map (\<lambda>m. JStr (mode_text m)) (de_options d))),
      (''decision_token'', json_opt JStr (de_token d)), (''version'', JInt (de_version d)),
      (''risk'', JStr (risk_text (de_risk d))), (''requires_approval'', JBool (de_approval d)),
      (''permissions_still_apply'', JBool (de_permissions d))]"

definition allowed_context_keys :: "string list" where
  "allowed_context_keys = [''source_channel'', ''channel_tenant_external_id'', ''channel_sender_external_id'',
     ''channel_conversation_external_id'', ''channel_message_id'', ''channel_event_id'', ''channel_conversation_type'',
     ''channel_entry_policy'', ''requested_skills'', ''requested_mcp_servers'', ''requested_plugins'',
     ''requested_channel_features'']"

definition safe_channel_context :: "(string \<times> string) list \<Rightarrow> (string \<times> json) list" where
  "safe_channel_context ctx = map (\<lambda>(k, v). (k, JStr (take 512 v)))
     (filter (\<lambda>(k, v). k \<in> set allowed_context_keys \<and> v \<noteq> []) ctx)"

definition effective_conversation :: "submission \<Rightarrow> draws \<Rightarrow> string" where
  "effective_conversation sb dr = (case sb_conversation sb of
      Some c \<Rightarrow> if c = [] then ''conv-'' @ uuid_hex (dr_conversation dr) else c
    | None \<Rightarrow> ''conv-'' @ uuid_hex (dr_conversation dr))"

definition cleaned_direct_model :: "submission \<Rightarrow> string" where
  "cleaned_direct_model sb = (case sb_model sb of None \<Rightarrow> [] | Some m \<Rightarrow> py_strip m)"

definition base_selection :: "submission \<Rightarrow> draws \<Rightarrow> (string \<times> json) list" where
  "base_selection sb dr =
     [(''selected_agent_ids'', json_strings_of (sb_agents sb)), (''workflow_id'', json_opt JStr (sb_workflow sb)),
      (''allow_workflow_adjustment'', JBool (sb_adjust sb)),
      (''workflow_adjustment_policy'', JStr (if sb_adjust sb then ''ask_before_apply'' else ''strict_preset'')),
      (''conversation_id'', JStr (effective_conversation sb dr)),
      (''reference_conversation_id'', json_opt JStr (sb_reference sb)),
      (''attachment_ids'', json_strings_of (sb_attachments sb))]
     @ (if cleaned_direct_model sb = [] then [] else [(''direct_model'', JStr (cleaned_direct_model sb))])
     @ (if sb_vibe sb then [(''vibe_coding'', JBool True), (''capability'', JStr ''vibe_coding'')] else [])
     @ (if sb_skip_evolution sb then [(''skip_evolution_proposal'', JBool True)] else [])"

definition operator_selection :: "submission \<Rightarrow> draws \<Rightarrow> (string \<times> json) list" where
  "operator_selection sb dr = (case sb_context sb of
      None \<Rightarrow> base_selection sb dr
    | Some ctx \<Rightarrow> dict_merge (base_selection sb dr) (safe_channel_context ctx))"

section \<open>What becomes of a submission\<close>

text \<open>Every branch of \<open>submit\<close> ends in one call of \<open>create_run\<close>, with one of three statuses.\<close>

datatype plan =
  Enqueue task_mode "(string \<times> json) list"
| Ask_Approval task_mode "(string \<times> json) list"
| Ask_Mode "(string \<times> json) list"
| Refuse string

definition approval_payload :: "string \<Rightarrow> string \<Rightarrow> string \<Rightarrow> json \<Rightarrow> draws \<Rightarrow> (string \<times> json) list \<Rightarrow> (string \<times> json) list" where
  "approval_payload reason kind field proposal dr selection = dict_merge selection
     [(''reason'', JStr reason), (''decision_token'', JStr (decision_token_text dr)), (''approval_kind'', JStr kind),
      (field, proposal)]"

definition create_temporary_agent_approval ::
  "task_mode \<Rightarrow> temporary_agent_proposal \<Rightarrow> draws \<Rightarrow> (string \<times> json) list \<Rightarrow> plan" where
  "create_temporary_agent_approval m p dr selection = Ask_Approval m
     (approval_payload ''temporary_agent_requires_user_approval'' ''temporary_agent_creation'' ''temporary_agent_proposal''
       (temporary_agent_payload p) dr selection)"

definition create_evolution_approval :: "evolution_proposal \<Rightarrow> draws \<Rightarrow> (string \<times> json) list \<Rightarrow> plan" where
  "create_evolution_approval p dr selection = Ask_Approval (ep_mode p)
     (approval_payload ''evolution_requires_user_confirmation'' ''evolution_creation'' ''evolution_proposal''
       (JObj (evolution_payload p)) dr selection)"

definition create_schedule_approval :: "schedule_proposal \<Rightarrow> draws \<Rightarrow> (string \<times> json) list \<Rightarrow> plan" where
  "create_schedule_approval p dr selection = Ask_Approval (sp_mode p)
     (approval_payload ''schedule_requires_user_confirmation'' ''schedule_creation'' ''schedule_proposal''
       (JObj (schedule_payload p)) dr selection)"

definition create_openclaw_approval :: "task_mode \<Rightarrow> openclaw_proposal \<Rightarrow> draws \<Rightarrow> (string \<times> json) list \<Rightarrow> plan" where
  "create_openclaw_approval m p dr selection = Ask_Approval m
     (approval_payload ''openclaw_requires_user_confirmation'' ''openclaw_operation'' ''openclaw_proposal''
       (JObj (openclaw_payload p)) dr selection)"

definition safe_temporary_agent_proposal :: "run_service \<Rightarrow> submission \<Rightarrow> task_mode \<Rightarrow> temporary_agent_proposal option" where
  "safe_temporary_agent_proposal sv sb m = (case rs_policy sv of
      None \<Rightarrow> None
    | Some propose \<Rightarrow> if m \<notin> {Dispatch, Hybrid} then None else propose sb m)"

text \<open>Either the approval of a temporary agent, or the run at once.\<close>

definition enqueue_or_ask ::
  "run_service \<Rightarrow> submission \<Rightarrow> draws \<Rightarrow> task_mode \<Rightarrow> (string \<times> json) list \<Rightarrow> plan" where
  "enqueue_or_ask sv sb dr m payload = (case safe_temporary_agent_proposal sv sb m of
      Some p \<Rightarrow> create_temporary_agent_approval m p dr payload
    | None \<Rightarrow> Enqueue m payload)"

definition local_proposal :: "run_service \<Rightarrow> submission \<Rightarrow> draws \<Rightarrow> (string \<times> json) list \<Rightarrow> plan option" where
  "local_proposal sv sb dr selection =
     (let message = sb_message sb; conversation = effective_conversation sb dr;
          or_dispatch = (if sb_mode sb = Auto then Dispatch else sb_mode sb) in
      case (if sb_skip_evolution sb then None else local_evolution_proposal (rs_letters sv) message
              (if sb_mode sb = Auto then Hybrid else sb_mode sb) conversation) of
        Some p \<Rightarrow> Some (create_evolution_approval p dr selection)
      | None \<Rightarrow> (case local_schedule_proposal (dr_today dr) message or_dispatch (sb_workflow sb) of
          Schedule_Raises \<Rightarrow> Some (Refuse ''day is out of range for month'')
        | Schedule_Found p \<Rightarrow> Some (create_schedule_approval p dr selection)
        | No_Schedule \<Rightarrow> (case local_openclaw_proposal message conversation of
            Some p \<Rightarrow> Some (create_openclaw_approval or_dispatch p dr selection)
          | None \<Rightarrow> None)))"

definition conversation_continuation_mode :: "run_service \<Rightarrow> submission \<Rightarrow> draws \<Rightarrow> run_db \<Rightarrow> task_mode option" where
  "conversation_continuation_mode sv sb dr db =
     (if explicit_conversation_mode_switch (sb_message sb) \<noteq> None then None
      else if explicit_new_conversation_request (sb_message sb) then None
      else (case latest_resolved_mode_for_conversation (rs_render sv) (sb_tenant sb) (sb_actor sb)
              (effective_conversation sb dr) db of
          Some m \<Rightarrow> if m = Auto then None else Some m
        | None \<Rightarrow> None))"

definition mode_payload :: "string \<Rightarrow> task_mode \<Rightarrow> string \<Rightarrow> (string \<times> json) list \<Rightarrow> (string \<times> json) list" where
  "mode_payload reason m source selection = dict_merge
     [(''reason'', JStr reason), (''main_agent_selected_mode'', JStr (mode_text m)), (''mode_source'', JStr source)] selection"

definition auto_without_router ::
  "run_service \<Rightarrow> submission \<Rightarrow> draws \<Rightarrow> (string \<times> json) list \<Rightarrow> run_db \<Rightarrow> plan option" where
  "auto_without_router sv sb dr selection db =
     (case explicit_conversation_mode_switch (sb_message sb) of
        Some m \<Rightarrow> Some (Enqueue m (mode_payload ''conversation_mode_switch'' m ''explicit_user_request'' selection))
      | None \<Rightarrow> (case current_artifact_delivery_mode (rs_detectors sv) (sb_message sb) of
          Some m \<Rightarrow> Some (Enqueue m (mode_payload ''current_artifact_delivery_request'' m ''current_user_request'' selection))
        | None \<Rightarrow> (case conversation_continuation_mode sv sb dr db of
            Some m \<Rightarrow> Some (Enqueue m (mode_payload ''conversation_mode_continuation'' m ''previous_conversation_run'' selection))
          | None \<Rightarrow> None)))"

section \<open>Routing\<close>

definition usable_hermes_advice :: "hermes_advice option \<Rightarrow> bool" where
  "usable_hermes_advice advice \<longleftrightarrow> (case advice of None \<Rightarrow> False
     | Some a \<Rightarrow> \<not> ha_approval a \<and> 3 / 4 \<le> ha_confidence a \<and> ha_mode a \<noteq> Auto)"

definition local_resolvable_unavailable :: "decision option \<Rightarrow> bool" where
  "local_resolvable_unavailable d \<longleftrightarrow> (case d of None \<Rightarrow> False
     | Some x \<Rightarrow> de_status x = Waiting_Mode
         \<and> de_reason x \<in> {Some ''classification_unavailable'', Some ''main_agent_router_unavailable'',
             Some ''router_unavailable''}
         \<and> de_risk x \<noteq> High \<and> \<not> de_approval x)"

definition auto_resolvable :: "decision option \<Rightarrow> bool" where
  "auto_resolvable d \<longleftrightarrow> (case d of None \<Rightarrow> False
     | Some x \<Rightarrow> de_status x = Waiting_Mode \<and> de_reason x = Some ''routing_requires_user_choice''
         \<and> de_assessments x \<noteq> [] \<and> \<not> (de_risk x = High \<or> de_approval x)
         \<and> \<not> list_ex (\<lambda>a. 1 / 2 < as_cost a) (de_assessments x)
         \<and> sum_list (map as_cost (de_assessments x)) \<le> 3 / 4)"

text \<open>\<open>max\<close> keeps the first of the largest.\<close>

fun select_auto_assessment :: "assessment list \<Rightarrow> assessment" where
  "select_auto_assessment [a] = a"
| "select_auto_assessment (a # as) = (let b = select_auto_assessment as in
     if as_confidence a < as_confidence b then b else a)"

fun mode_choice_label :: "task_mode \<Rightarrow> utext" where
  "mode_choice_label Direct = [0x76F4, 0x63A5, 0x56DE, 0x7B54]"
| "mode_choice_label Dispatch = [0x5206, 0x6D3E, 0x7ED9, 0x89D2, 0x8272, 0x6267, 0x884C]"
| "mode_choice_label Discuss = [0x591A, 0x89D2, 0x8272, 0x8BA8, 0x8BBA]"
| "mode_choice_label Hybrid = [0x6DF7, 0x5408, 0x6267, 0x884C]"
| "mode_choice_label Auto = ascii ''auto''"

definition channel_mode_options :: "decision option \<Rightarrow> task_mode list" where
  "channel_mode_options d = (case d of Some x \<Rightarrow> if de_options x \<noteq> [] then de_options x else [Direct, Dispatch, Discuss, Hybrid]
     | None \<Rightarrow> [Direct, Dispatch, Discuss, Hybrid])"

definition channel_mode_choices :: "decision option \<Rightarrow> json" where
  "channel_mode_choices d =
     (let options = channel_mode_options d;
          assessments = (case d of None \<Rightarrow> [] | Some x \<Rightarrow> rev (de_assessments x)) in
      JArr (map (\<lambda>i. let m = options ! i in JObj
        ([(''key'', JStr (nat_text (Suc i))), (''type'', JStr ''mode''), (''value'', JStr (mode_text m)),
          (''label'', JStr (utf8 (mode_choice_label m)))]
         @ (case find (\<lambda>a. as_mode a = m) assessments of None \<Rightarrow> []
            | Some a \<Rightarrow> [(''confidence'', JFloat (as_confidence a)), (''risk'', JStr (risk_text (as_risk a))),
                (''reason'', JStr (as_reason a))])))
        [0..<length options]))"

definition hermes_part :: "hermes_advice option \<Rightarrow> (string \<times> json) list" where
  "hermes_part advice = (case advice of None \<Rightarrow> [] | Some a \<Rightarrow> [(''hermes'', hermes_advice_payload a)])"

definition ready_plan :: "run_service \<Rightarrow> submission \<Rightarrow> draws \<Rightarrow> (string \<times> json) list \<Rightarrow> decision \<Rightarrow> task_mode \<Rightarrow> plan" where
  "ready_plan sv sb dr selection d router_mode =
     (let m = main_agent_adjusted_ready_mode router_mode (sb_message sb) (sb_attachments sb) in
      enqueue_or_ask sv sb dr m (dict_merge (dict_merge (decision_dump (rs_decimal sv) d)
        [(''router_selected_mode'', JStr (mode_text router_mode)), (''main_agent_selected_mode'', JStr (mode_text m)),
         (''main_agent_adjusted'', JBool (m \<noteq> router_mode))]) selection))"

definition local_resolution :: "task_mode \<Rightarrow> bool \<Rightarrow> (string \<times> json) list \<Rightarrow> (string \<times> json) list \<Rightarrow> (string \<times> json) list" where
  "local_resolution m unavailable extra selection = dict_merge
     ([(''reason'', JStr ''main_agent_local_resolution''), (''main_agent_selected_mode'', JStr (mode_text m)),
       (''router_unavailable'', JBool unavailable)] @ extra) selection"

definition ask_mode_plan ::
  "draws \<Rightarrow> (decimal \<Rightarrow> string) \<Rightarrow> decision option \<Rightarrow> hermes_advice option \<Rightarrow> (string \<times> json) list \<Rightarrow> plan" where
  "ask_mode_plan dr dec d advice selection =
     (let token = (case d of None \<Rightarrow> decision_token_text dr
            | Some x \<Rightarrow> (case de_token x of None \<Rightarrow> decision_token_text dr | Some t \<Rightarrow> t));
          reason = (case d of None \<Rightarrow> ''routing_requires_user_choice''
            | Some x \<Rightarrow> (case de_reason x of None \<Rightarrow> ''routing_requires_user_choice'' | Some r \<Rightarrow> r)) in
      Ask_Mode (dict_merge
        ([(''reason'', JStr reason), (''decision_token'', JStr token), (''channel_choices'', channel_mode_choices d),
          (''decision'', json_opt (\<lambda>x. JObj (decision_dump dec x)) d)] @ hermes_part advice) selection))"

definition auto_advised ::
  "run_service \<Rightarrow> submission \<Rightarrow> draws \<Rightarrow> (string \<times> json) list \<Rightarrow> decision option \<Rightarrow> plan" where
  "auto_advised sv sb dr selection d =
     (let advice = (case rs_hermes sv of None \<Rightarrow> None | Some advise \<Rightarrow> advise sb);
          local_mode = local_main_agent_auto_mode (sb_message sb) (sb_attachments sb) in
      if usable_hermes_advice advice
      then let a = the advice in enqueue_or_ask sv sb dr (ha_mode a)
        (dict_merge [(''reason'', JStr ''hermes_recommendation''), (''hermes'', hermes_advice_payload a)] selection)
      else if local_resolvable_unavailable d
      then enqueue_or_ask sv sb dr local_mode (local_resolution local_mode False
        [(''router_clarification_reason'', json_opt JStr (de_reason (the d))),
         (''decision'', JObj (decision_dump (rs_decimal sv) (the d)))] selection)
      else if auto_resolvable d
      then let x = the d; selected = select_auto_assessment (de_assessments x) in
        enqueue_or_ask sv sb dr (as_mode selected) (dict_merge (dict_merge
          [(''reason'', JStr ''main_agent_auto_resolved''),
           (''auto_resolution_reason'', JStr (case de_reason x of None \<Rightarrow> ''routing_requires_user_choice''
              | Some r \<Rightarrow> if r = [] then ''routing_requires_user_choice'' else r)),
           (''auto_resolution_selected_mode'', JStr (mode_text (as_mode selected))),
           (''auto_resolution_selected_confidence'', JFloat (as_confidence selected)),
           (''auto_resolution_source_modes'', JArr (map (\<lambda>a. JStr (mode_text (as_mode a))) (de_assessments x))),
           (''decision'', JObj (decision_dump (rs_decimal sv) x))] selection) (hermes_part advice))
      else if d = None
      then Enqueue local_mode (local_resolution local_mode (Option.is_none (rs_router sv)) (hermes_part advice) selection)
      else ask_mode_plan dr (rs_decimal sv) d advice selection)"

definition auto_routed :: "run_service \<Rightarrow> submission \<Rightarrow> draws \<Rightarrow> (string \<times> json) list \<Rightarrow> plan" where
  "auto_routed sv sb dr selection =
     (let d = (case rs_router sv of None \<Rightarrow> None | Some route_text \<Rightarrow> route_text (sb_message sb));
          local_mode = local_main_agent_auto_mode (sb_message sb) (sb_attachments sb) in
      case d of
        Some x \<Rightarrow> (case (de_status x, de_mode x) of
            (Ready, Some m) \<Rightarrow> ready_plan sv sb dr selection x m
          | _ \<Rightarrow> auto_advised sv sb dr selection d)
      | None \<Rightarrow>
          if local_mode \<noteq> Direct
          then enqueue_or_ask sv sb dr local_mode (local_resolution local_mode (Option.is_none (rs_router sv)) [] selection)
          else auto_advised sv sb dr selection None)"

definition submission_plan :: "run_service \<Rightarrow> submission \<Rightarrow> draws \<Rightarrow> run_db \<Rightarrow> plan" where
  "submission_plan sv sb dr db =
     (if cleaned_direct_model sb \<noteq> [] \<and> \<not> safe_route_id (cleaned_direct_model sb)
      then Refuse ''direct_model must be a safe logical model identifier''
      else let selection = operator_selection sb dr in
        case local_proposal sv sb dr selection of
          Some p \<Rightarrow> p
        | None \<Rightarrow>
            if sb_mode sb = Auto
            then (case auto_without_router sv sb dr selection db of
                Some p \<Rightarrow> p | None \<Rightarrow> auto_routed sv sb dr selection)
            else enqueue_or_ask sv sb dr (sb_mode sb) selection)"

section \<open>Creating the run\<close>

definition place_run ::
  "submission \<Rightarrow> draws \<Rightarrow> task_mode option \<Rightarrow> run_status \<Rightarrow> (string \<times> json) list \<Rightarrow> bool \<Rightarrow> run_db
     \<Rightarrow> run_error + (run_db \<times> run_record)" where
  "place_run sb dr m status payload enqueue db =
     create_run (sb_tenant sb) (sb_actor sb) (utf8 (sb_message sb)) m status (sb_key sb) (Some payload) enqueue
       (dr_run dr) (dr_outbox dr) (dr_now dr) db"

definition submit ::
  "run_service \<Rightarrow> submission \<Rightarrow> draws \<Rightarrow> run_db \<Rightarrow> (string + run_error) + (run_db \<times> run_record)" where
  "submit sv sb dr db =
     (let stored = (\<lambda>r. case r of Inl e \<Rightarrow> Inl (Inr e) | Inr x \<Rightarrow> Inr x) in
      case submission_plan sv sb dr db of
        Refuse e \<Rightarrow> Inl (Inl e)
      | Enqueue m payload \<Rightarrow> stored (place_run sb dr (Some m) Queued payload True db)
      | Ask_Approval m payload \<Rightarrow> stored (place_run sb dr (Some m) Waiting_Approval payload False db)
      | Ask_Mode payload \<Rightarrow> stored (place_run sb dr None Waiting_User_Mode payload False db))"

section \<open>What the caller sees\<close>

record submitted_run =
  sr_id :: uuid
  sr_tenant :: uuid
  sr_status :: run_status
  sr_mode :: "task_mode option"
  sr_token :: "string option"
  sr_version :: int
  sr_reason :: "string option"
  sr_conversation :: string
  sr_reference :: "string option"
  sr_agent :: "json option"
  sr_schedule :: "json option"
  sr_evolution :: "json option"
  sr_openclaw :: "json option"

definition string_or_none :: "json option \<Rightarrow> string option" where
  "string_or_none j = (case j of Some (JStr s) \<Rightarrow> if s = [] then None else Some s | _ \<Rightarrow> None)"

definition object_or_none :: "json option \<Rightarrow> json option" where
  "object_or_none j = (case j of Some (JObj d) \<Rightarrow> Some (JObj d) | _ \<Rightarrow> None)"

text \<open>\<open>show\<close> is \<open>str\<close> on the values of a decision.\<close>

definition submitted :: "(json \<Rightarrow> string) \<Rightarrow> run_record \<Rightarrow> submitted_run" where
  "submitted py_str rc =
     (let d = (case rc_decision rc of None \<Rightarrow> [] | Some d \<Rightarrow> d);
          waits = (rc_status rc \<in> {Waiting_User_Mode, Waiting_Approval}) in
      \<lparr>sr_id = rc_id rc, sr_tenant = rc_tenant rc, sr_status = rc_status rc, sr_mode = rc_mode rc,
       sr_token = (case json_get d ''decision_token'' of
          Some j \<Rightarrow> if waits \<and> j \<noteq> JNull then Some (py_str j) else None | None \<Rightarrow> None),
       sr_version = rc_version rc,
       sr_reason = (if \<not> waits then None else Some (case json_get d ''reason'' of
          None \<Rightarrow> ''routing_requires_user_choice'' | Some j \<Rightarrow> py_str j)),
       sr_conversation = (case string_or_none (json_get d ''conversation_id'') of
          Some c \<Rightarrow> c | None \<Rightarrow> ''conv-'' @ uuid_text (rc_id rc)),
       sr_reference = string_or_none (json_get d ''reference_conversation_id''),
       sr_agent = object_or_none (json_get d ''temporary_agent_proposal''),
       sr_schedule = object_or_none (json_get d ''schedule_proposal''),
       sr_evolution = object_or_none (json_get d ''evolution_proposal''),
       sr_openclaw = object_or_none (json_get d ''openclaw_proposal'')\<rparr>)"

section \<open>Choosing by number\<close>

definition mode_of_text :: "string \<Rightarrow> task_mode option" where
  "mode_of_text t = find (\<lambda>m. mode_text m = t) [Auto, Direct, Dispatch, Discuss, Hybrid]"

fun choice_mode :: "(json \<Rightarrow> string) \<Rightarrow> string \<Rightarrow> json list \<Rightarrow> task_mode option" where
  "choice_mode py_str choice_key [] = None"
| "choice_mode py_str choice_key (JObj c # cs) =
     (if py_strip (case json_get c ''key'' of None \<Rightarrow> [] | Some k \<Rightarrow> py_str k) \<noteq> choice_key
      then choice_mode py_str choice_key cs
      else if json_get c ''type'' \<noteq> Some (JStr ''mode'') then None
      else (case json_get c ''value'' of
          Some (JStr v) \<Rightarrow> (case mode_of_text v of Some m \<Rightarrow> if m = Auto then None else Some m | None \<Rightarrow> None)
        | _ \<Rightarrow> None))"
| "choice_mode py_str choice_key (_ # cs) = choice_mode py_str choice_key cs"

definition mode_for_channel_choice :: "(json \<Rightarrow> string) \<Rightarrow> run_record \<Rightarrow> string \<Rightarrow> task_mode option" where
  "mode_for_channel_choice py_str rc choice_key =
     (case json_get (case rc_decision rc of None \<Rightarrow> [] | Some d \<Rightarrow> d) ''channel_choices'' of
        Some (JArr cs) \<Rightarrow> choice_mode py_str choice_key cs
      | _ \<Rightarrow> None)"

definition choose_latest_choice_for_conversation ::
  "run_service \<Rightarrow> (json \<Rightarrow> string) \<Rightarrow> uuid \<Rightarrow> uuid \<Rightarrow> string \<Rightarrow> string \<Rightarrow> string option \<Rightarrow> uuid \<Rightarrow> instant
     \<Rightarrow> run_db \<Rightarrow> run_error + (run_db \<times> run_record) option" where
  "choose_latest_choice_for_conversation sv py_str tenant actor conversation choice_key note oid now db =
     (case latest_waiting_choice_for_conversation (rs_render sv) tenant actor conversation db of
        None \<Rightarrow> Inr None
      | Some rc \<Rightarrow> (case mode_for_channel_choice py_str rc choice_key of
          None \<Rightarrow> Inr None
        | Some m \<Rightarrow>
            (case json_get (case rc_decision rc of None \<Rightarrow> [] | Some d \<Rightarrow> d) ''decision_token'' of
               Some (JStr token) \<Rightarrow>
                 if token = [] then Inr None
                 else res_bind (choose_mode tenant (rc_id rc) m token (rc_version rc) note oid now db)
                   (\<lambda>r. Inr (Some r))
             | _ \<Rightarrow> Inr None)))"

end
