(* ===== verification/Submission_Guarantees.thy ===== *)
theory Submission_Guarantees
  imports Run_Submission Run_Guarantees Mode_Confirmation Schedule_Types
begin

text \<open>
  What a submission promises: the run it creates is placed by its status, a repeated submission under
  a key finds the first run, the numbers offered to a channel choose the modes they stand for, the
  cron texts of schedule proposals are read back; and where the service passes over the approval the
  router asked for.
\<close>

section \<open>Payloads\<close>

lemma keys_update: "set (map fst (AList.update k v xs)) = insert k (set (map fst xs))"
  by (auto simp add: update_keys simp del: set_map)

lemma keys_dict_merge: "set (map fst (dict_merge a b)) = set (map fst a) \<union> set (map fst b)"
  unfolding dict_merge_def by (induction b arbitrary: a) (auto simp add: keys_update simp del: set_map split: prod.splits)

lemma distinct_dict_merge: "distinct (map fst a) \<Longrightarrow> distinct (map fst (dict_merge a b))"
  unfolding dict_merge_def by (induction b arbitrary: a) (auto simp: distinct_update split: prod.splits)

text \<open>The keys the selection of the operator may have, none of which the service uses itself.\<close>

definition selection_keys :: "string list" where
  "selection_keys = [''selected_agent_ids'', ''workflow_id'', ''allow_workflow_adjustment'', ''workflow_adjustment_policy'',
     ''conversation_id'', ''reference_conversation_id'', ''attachment_ids'', ''direct_model'', ''vibe_coding'',
     ''capability'', ''skip_evolution_proposal''] @ allowed_context_keys"

lemma base_keys: "distinct (map fst (base_selection sb dr))" "set (map fst (base_selection sb dr)) \<subseteq> set selection_keys"
  by (auto simp: base_selection_def selection_keys_def split: if_splits)

lemma selection_distinct: "distinct (map fst (operator_selection sb dr))"
  unfolding operator_selection_def by (auto intro!: distinct_dict_merge base_keys(1) split: option.splits)

lemma context_keys: "set (map fst (safe_channel_context ctx)) \<subseteq> set selection_keys"
  by (auto simp: safe_channel_context_def selection_keys_def)

lemma selection_known: "set (map fst (operator_selection sb dr)) \<subseteq> set selection_keys"
proof (cases "sb_context sb")
  case None
  then show ?thesis by (simp only: operator_selection_def option.case base_keys(2))
next
  case (Some ctx)
  then show ?thesis using base_keys(2) [of sb dr] context_keys [of ctx]
    by (simp only: operator_selection_def option.case keys_dict_merge Un_least)
qed

lemma selection_lookup:
  assumes "k \<notin> set selection_keys"
  shows "map_of (dict_merge a (operator_selection sb dr)) k = map_of a k"
proof -
  have "map_of (operator_selection sb dr) k = None"
    using selection_known [of sb dr] assms by (auto simp: map_of_eq_None_iff)
  then show ?thesis by (simp add: dict_get_merge [OF selection_distinct])
qed

lemma own_keys: "''decision_token'' \<notin> set selection_keys" "''reason'' \<notin> set selection_keys"
    "''channel_choices'' \<notin> set selection_keys"
  by code_simp+

section \<open>The plan of a submission\<close>

text \<open>What every plan has: a mode unless it asks for one, a token where it waits.\<close>

definition plan_sound :: "run_service \<Rightarrow> submission \<Rightarrow> draws \<Rightarrow> plan \<Rightarrow> bool" where
  "plan_sound sv sb dr p \<longleftrightarrow> (case p of
      Enqueue m d \<Rightarrow> m \<noteq> Auto
    | Ask_Approval m d \<Rightarrow> m \<noteq> Auto \<and> json_get d ''decision_token'' = Some (JStr (decision_token_text dr))
        \<and> (\<exists>r. json_get d ''reason'' = Some (JStr r))
    | Ask_Mode d \<Rightarrow> (\<exists>x t. rs_router sv = Some x \<and> json_get d ''decision_token'' = Some (JStr t)
          \<and> t \<in> insert (decision_token_text dr) (set_option (Option.bind (x (sb_message sb)) de_token))
          \<and> json_get d ''channel_choices'' = Some (channel_mode_choices (x (sb_message sb))))
    | Refuse e \<Rightarrow> True)"

lemma approval_payload_sound:
  "field \<notin> {''decision_token'', ''reason''} \<Longrightarrow>
   json_get (approval_payload reason kind field proposal dr selection) ''decision_token'' = Some (JStr (decision_token_text dr))
   \<and> json_get (approval_payload reason kind field proposal dr selection) ''reason'' = Some (JStr reason)"
  unfolding json_get_def approval_payload_def
  by (auto simp: dict_merge_def update_conv')

lemma asks_sound:
  "m \<noteq> Auto \<Longrightarrow> plan_sound sv sb dr (create_temporary_agent_approval m tp dr sel)"
  "ep_mode ep \<noteq> Auto \<Longrightarrow> plan_sound sv sb dr (create_evolution_approval ep dr sel)"
  "sp_mode sp \<noteq> Auto \<Longrightarrow> plan_sound sv sb dr (create_schedule_approval sp dr sel)"
  "m \<noteq> Auto \<Longrightarrow> plan_sound sv sb dr (create_openclaw_approval m op1 dr sel)"
  by (simp_all add: plan_sound_def create_temporary_agent_approval_def create_evolution_approval_def
      create_schedule_approval_def create_openclaw_approval_def approval_payload_sound)

lemma enqueue_or_ask_sound: "m \<noteq> Auto \<Longrightarrow> plan_sound sv sb dr (enqueue_or_ask sv sb dr m payload)"
  by (auto simp: enqueue_or_ask_def asks_sound split: option.splits) (simp add: plan_sound_def)

lemma proposal_modes:
  "local_evolution_proposal letters message m c = Some p \<Longrightarrow> ep_mode p \<noteq> Auto"
  "m \<noteq> Auto \<Longrightarrow> local_schedule_proposal today message m workflow = Schedule_Found q \<Longrightarrow> sp_mode q \<noteq> Auto"
  unfolding local_evolution_proposal_def local_schedule_proposal_def Let_def
  by (auto split: option.splits if_splits prod.splits date_result.splits)

lemma local_proposal_sound:
  assumes "local_proposal sv sb dr sel = Some p"
  shows "plan_sound sv sb dr p"
proof -
  define m where "m = (if sb_mode sb = Auto then Dispatch else sb_mode sb)"
  have m: "m \<noteq> Auto" by (simp add: m_def)
  show ?thesis using assms unfolding local_proposal_def Let_def m_def [symmetric]
    by (auto split: option.splits schedule_finding.splits if_splits
        intro!: asks_sound m dest: proposal_modes proposal_modes(2) [OF m]) (simp_all add: plan_sound_def)
qed

lemma without_router_sound: "auto_without_router sv sb dr sel db = Some p \<Longrightarrow> plan_sound sv sb dr p"
  unfolding auto_without_router_def
  by (auto split: option.splits if_splits simp: plan_sound_def conversation_continuation_mode_def
      dest: switch_executable delivery_executable)

text \<open>The router answers with valid decisions.\<close>

definition router_valid :: "run_service \<Rightarrow> bool" where
  "router_valid sv \<longleftrightarrow> (case rs_router sv of None \<Rightarrow> True
     | Some f \<Rightarrow> \<forall>m d. f m = Some d \<longrightarrow> decision_ok d)"

lemma select_auto_in: "as \<noteq> [] \<Longrightarrow> select_auto_assessment as \<in> set as"
  by (induction as rule: select_auto_assessment.induct) (auto simp: Let_def)

lemma decision_modes:
  assumes "decision_ok d"
  shows "\<forall>a \<in> set (de_assessments d). as_mode a \<noteq> Auto" and "\<forall>m \<in> set (de_options d). m \<noteq> Auto"
    and "de_mode d \<noteq> Some Auto"
  using assms by (auto simp: decision_ok_def list_all_iff assessment_ok_def executable_iff
      split: route_status.splits option.splits)

lemma ask_mode_sound:
  assumes "rs_router sv = Some f"
  shows "plan_sound sv sb dr (ask_mode_plan dr dec (f (sb_message sb)) advice (operator_selection sb dr))"
  unfolding plan_sound_def ask_mode_plan_def Let_def plan.case json_get_def selection_lookup [OF own_keys(1)]
    selection_lookup [OF own_keys(3)]
  using assms by (auto split: option.splits)

lemma advised_sound:
  assumes "router_valid sv" and "rs_router sv = Some f \<and> d = f (sb_message sb) \<or> d = None"
  shows "plan_sound sv sb dr (auto_advised sv sb dr (operator_selection sb dr) d)"
proof -
  have modes: "\<forall>a \<in> set (de_assessments x). as_mode a \<noteq> Auto" if "d = Some x" for x
  proof -
    have "rs_router sv = Some f" "f (sb_message sb) = Some x" using assms(2) that by auto
    then have "decision_ok x" using assms(1) by (simp add: router_valid_def)
    then show ?thesis by (rule decision_modes(1))
  qed
  show ?thesis
  proof (cases d)
    case None
    then show ?thesis unfolding auto_advised_def Let_def
      by (auto simp: usable_hermes_advice_def local_resolvable_unavailable_def auto_resolvable_def
          intro!: enqueue_or_ask_sound split: option.splits) (simp add: plan_sound_def)+
  next
    case (Some x)
    have "as_mode (select_auto_assessment (de_assessments x)) \<noteq> Auto" if "auto_resolvable d"
      using modes [OF Some] that select_auto_in [of "de_assessments x"] by (auto simp: Some auto_resolvable_def)
    moreover have "plan_sound sv sb dr (ask_mode_plan dr (rs_decimal sv) d advice (operator_selection sb dr))" for advice
      using assms(2) ask_mode_sound Some by auto
    ultimately show ?thesis unfolding auto_advised_def Let_def
      by (auto simp: Some usable_hermes_advice_def intro!: enqueue_or_ask_sound split: option.splits)
  qed
qed

lemma routed_sound:
  assumes "router_valid sv"
  shows "plan_sound sv sb dr (auto_routed sv sb dr (operator_selection sb dr))"
proof (cases "rs_router sv")
  case None
  then show ?thesis using advised_sound [OF assms, of undefined None]
    by (auto simp: auto_routed_def Let_def intro!: enqueue_or_ask_sound)
next
  case (Some f)
  show ?thesis
  proof (cases "f (sb_message sb)")
    case None
    then show ?thesis using advised_sound [OF assms, of undefined None] Some
      by (auto simp: auto_routed_def Let_def intro!: enqueue_or_ask_sound)
  next
    case ok: (Some x)
    have "decision_ok x" using assms Some ok by (auto simp: router_valid_def)
    from decision_modes(3) [OF this] have "plan_sound sv sb dr (ready_plan sv sb dr sel x m)" if "de_mode x = Some m" for m sel
      using that by (auto simp: ready_plan_def Let_def intro!: enqueue_or_ask_sound adjusted_mode_executable)
    then show ?thesis using advised_sound [OF assms, of f "f (sb_message sb)" sb dr] Some ok
      by (auto simp: auto_routed_def Let_def split: route_status.splits option.splits)
  qed
qed

lemma submission_plan_sound: "router_valid sv \<Longrightarrow> plan_sound sv sb dr (submission_plan sv sb dr db)"
  unfolding submission_plan_def Let_def
  by (auto simp: routed_sound local_proposal_sound without_router_sound plan_sound_def [of _ _ _ "Refuse _"]
      intro!: enqueue_or_ask_sound split: option.splits)

section \<open>Where a run is placed\<close>

lemma placed_new:
  assumes "place_run sb dr m st payload enqueue db = Inr (db', rc)"
    and "sb_key sb = None \<or> find (\<lambda>r. rr_tenant r = sb_tenant sb \<and> rr_key r = sb_key sb) (db_runs db) = None"
  shows "\<exists>row. db_runs db' = db_runs db @ [row] \<and> rc = to_record row \<and> rr_id row = dr_run dr
    \<and> rr_tenant row = sb_tenant sb \<and> rr_actor row = Some (sb_actor sb) \<and> rr_request row = utf8 (sb_message sb)
    \<and> rr_version row = 1 \<and> rr_mode row = m \<and> rr_status row = st \<and> rr_decision row = Some payload
    \<and> (if enqueue then \<exists>x. db_outbox db' = db_outbox db @ [x] \<and> or_run x = dr_run dr \<and> \<not> or_delivered x
       else db_outbox db' = db_outbox db)"
proof -
  define row where "row = \<lparr>rr_id = dr_run dr, rr_tenant = sb_tenant sb, rr_actor = Some (sb_actor sb),
    rr_request = utf8 (sb_message sb), rr_mode = m, rr_status = st, rr_key = sb_key sb, rr_decision = Some payload,
    rr_version = 1, rr_created = dr_now dr\<rparr>"
  have "(case sb_key sb of None \<Rightarrow> None
      | Some k \<Rightarrow> find (\<lambda>r. rr_tenant r = sb_tenant sb \<and> rr_key r = Some k) (db_runs db)) = None"
    using assms(2) by (cases "sb_key sb") auto
  with assms(1) have "db_runs db' = db_runs db @ [row] \<and> rc = to_record row
      \<and> (if enqueue then \<exists>x. db_outbox db' = db_outbox db @ [x] \<and> or_run x = dr_run dr \<and> \<not> or_delivered x
         else db_outbox db' = db_outbox db)"
    unfolding place_run_def create_run_def Let_def row_def [symmetric]
    by (auto simp: res_bind_Inr_iff insert_run_def insert_outbox_def new_outbox_def row_def split: if_splits)
  then show ?thesis by (intro exI [of _ row]) (simp add: row_def)
qed

text \<open>
  C31. A submission that finds no run under its key creates exactly one, with the identity of its tenant
  and actor and the text of the message: it is queued with an executable mode and one undelivered
  entry of the outbox, or it waits for an approval, with a mode, or for the choice of a mode, without
  one; and where it waits it has a decision token and nothing is handed to the workers.
\<close>

theorem submitted_runs_are_placed:
  assumes "router_valid sv" and "submit sv sb dr db = Inr (db', rc)"
    and "sb_key sb = None \<or> find (\<lambda>r. rr_tenant r = sb_tenant sb \<and> rr_key r = sb_key sb) (db_runs db) = None"
  shows "\<exists>row. db_runs db' = db_runs db @ [row] \<and> rc = to_record row \<and> rr_id row = dr_run dr
    \<and> rr_tenant row = sb_tenant sb \<and> rr_actor row = Some (sb_actor sb) \<and> rr_request row = utf8 (sb_message sb)
    \<and> rr_version row = 1
    \<and> (if rr_status row = Queued
       then executable (the (rr_mode row)) \<and> rr_mode row \<noteq> None
         \<and> (\<exists>x. db_outbox db' = db_outbox db @ [x] \<and> or_run x = dr_run dr \<and> \<not> or_delivered x)
       else (rr_status row = Waiting_Approval \<and> rr_mode row \<notin> {None, Some Auto}
           \<or> rr_status row = Waiting_User_Mode \<and> rr_mode row = None)
         \<and> db_outbox db' = db_outbox db \<and> (\<exists>t. json_get (decision_of row) ''decision_token'' = Some (JStr t)))"
proof -
  note sound = submission_plan_sound [OF assms(1), of sb dr db]
  show ?thesis
  proof (cases "submission_plan sv sb dr db")
    case (Enqueue m d)
    then have "place_run sb dr (Some m) Queued d True db = Inr (db', rc)"
      using assms(2) by (auto simp: submit_def Let_def split: sum.splits)
    from placed_new [OF this assms(3)] sound show ?thesis by (auto simp: Enqueue plan_sound_def executable_iff)
  next
    case (Ask_Approval m d)
    then have "place_run sb dr (Some m) Waiting_Approval d False db = Inr (db', rc)"
      using assms(2) by (auto simp: submit_def Let_def split: sum.splits)
    from placed_new [OF this assms(3)] sound show ?thesis
      by (auto simp: Ask_Approval plan_sound_def decision_of_def)
  next
    case (Ask_Mode d)
    then have "place_run sb dr None Waiting_User_Mode d False db = Inr (db', rc)"
      using assms(2) by (auto simp: submit_def Let_def split: sum.splits)
    from placed_new [OF this assms(3)] sound show ?thesis
      by (auto simp: Ask_Mode plan_sound_def decision_of_def)
  next
    case (Refuse e)
    then show ?thesis using assms(2) by (simp add: submit_def Let_def)
  qed
qed

text \<open>A service without router, adviser and policy, and a plain submission, to run them on.\<close>

definition plain_service :: run_service where
  "plain_service = \<lparr>rs_router = None, rs_hermes = None, rs_policy = None, rs_detectors = quiet, rs_letters = (\<lambda>_. False),
     rs_decimal = (\<lambda>_. ''0''), rs_render = (\<lambda>_. [])\<rparr>"

definition plain_submission :: "utext \<Rightarrow> submission" where
  "plain_submission message = \<lparr>sb_tenant = 1, sb_actor = 2, sb_message = message, sb_mode = Auto, sb_agents = [],
     sb_workflow = None, sb_adjust = False, sb_conversation = Some ''c1'', sb_reference = None, sb_attachments = [],
     sb_model = None, sb_vibe = False, sb_skip_evolution = False, sb_context = None, sb_key = Some ''k''\<rparr>"

lemma plain_fields [simp]: "sb_key (plain_submission m) = Some ''k''" "sb_tenant (plain_submission m) = 1"
    "sb_message (plain_submission m) = m"
  by (simp_all add: plain_submission_def)

definition plain_draws :: draws where
  "plain_draws = \<lparr>dr_run = 10, dr_outbox = 11, dr_conversation = 12, dr_token1 = 13, dr_token2 = 14,
     dr_today = \<lparr>cv_year = 2028, cv_month = 3, cv_day = 1\<rparr>, dr_now = 0\<rparr>"

definition greeting :: "(string + run_error) + (run_db \<times> run_record)" where
  "greeting = submit plain_service (plain_submission (ascii ''hello'')) plain_draws empty_db"

lemma greeting_works: "\<not> isl greeting \<and> map rr_mode (db_runs (fst (projr greeting))) = [Some Direct]"
  by code_simp

theorem submitted_runs_are_placed_witness:
  "length (db_runs (fst (projr greeting))) = 1 \<and> rc_version (snd (projr greeting)) = 1"
proof -
  have "submit plain_service (plain_submission (ascii ''hello'')) plain_draws empty_db
      = Inr (fst (projr greeting), snd (projr greeting))"
    unfolding greeting_def [symmetric] using greeting_works by simp
  from submitted_runs_are_placed [OF _ this] show ?thesis
    by (auto simp: router_valid_def plain_service_def plain_submission_def empty_db_def to_record_def)
qed

section \<open>Repeated submissions\<close>

lemma submit_cases:
  assumes "submit sv sb dr db = Inr x"
  shows "\<exists>m st d q. place_run sb dr m st d q db = Inr x"
  using assms by (auto simp: submit_def Let_def split: plan.splits sum.splits)

lemma submit_again:
  assumes "submit sv sb dr db = Inr (db1, rc)" and "sb_key sb = Some k"
    and "sb_key sb' = Some k" and "sb_tenant sb' = sb_tenant sb"
  shows "submit sv' sb' dr' db1 = (case submission_plan sv' sb' dr' db1 of Refuse e \<Rightarrow> Inl (Inl e) | _ \<Rightarrow> Inr (db1, rc))"
proof -
  from submit_cases [OF assms(1)] obtain m st d q where "place_run sb dr m st d q db = Inr (db1, rc)" by blast
  then have "create_run (sb_tenant sb) (sb_actor sb) (utf8 (sb_message sb)) m st (Some k) (Some d) q (dr_run dr)
      (dr_outbox dr) (dr_now dr) db = Inr (db1, rc)" by (simp add: place_run_def assms(2))
  from create_again [OF this] have "place_run sb' dr' m' st' d' q' db1 = Inr (db1, rc)" for m' st' d' q'
    by (simp add: place_run_def assms(3,4))
  then show ?thesis by (auto simp: submit_def Let_def split: plan.splits)
qed

text \<open>
  C32. Submissions are idempotent under their key. Whatever the second submission says, whatever router,
  adviser and policy answer and whatever is drawn, it gets the run of the first and changes nothing,
  unless it is refused before anything is stored.
\<close>

theorem submission_is_idempotent:
  assumes "submit sv sb dr db = Inr (db1, rc)" and "sb_key sb = Some k"
    and "sb_key sb' = Some k" and "sb_tenant sb' = sb_tenant sb"
  shows "submit sv' sb' dr' db1 = (case submission_plan sv' sb' dr' db1 of Refuse e \<Rightarrow> Inl (Inl e) | _ \<Rightarrow> Inr (db1, rc))"
  by (rule submit_again [OF assms])

theorem submission_is_idempotent_witness:
  "submit plain_service (plain_submission (ascii ''write a report for github'')) plain_draws (fst (projr greeting))
     = Inr (projr greeting)"
proof -
  let ?sb = "plain_submission (ascii ''write a report for github'')"
  have "submit plain_service (plain_submission (ascii ''hello'')) plain_draws empty_db
      = Inr (fst (projr greeting), snd (projr greeting))"
    unfolding greeting_def [symmetric] using greeting_works by simp
  from submission_is_idempotent [OF this, of "''k''" ?sb plain_service plain_draws]
  have "submit plain_service ?sb plain_draws (fst (projr greeting))
      = (case submission_plan plain_service ?sb plain_draws (fst (projr greeting)) of Refuse e \<Rightarrow> Inl (Inl e)
         | _ \<Rightarrow> Inr (projr greeting))" by (simp only: plain_fields prod.collapse)
  moreover have "(case submission_plan plain_service ?sb plain_draws (fst (projr greeting)) of Refuse e \<Rightarrow> False | _ \<Rightarrow> True)"
    by code_simp
  ultimately show ?thesis by (auto split: plan.splits)
qed

section \<open>The approval the router asks for\<close>

text \<open>
  The service passes over the approval a router asks for. A decision of high risk that demands an
  approval leads to a queued run, without any approval, when it is ready (an explicit command), and
  also when it waits for the choice of the user but the Hermes adviser is confident of a mode.
\<close>

theorem router_approval_is_not_asked:
  assumes "sb_mode sb = Auto" and "cleaned_direct_model sb = []"
    and "local_proposal sv sb dr (operator_selection sb dr) = None"
    and "auto_without_router sv sb dr (operator_selection sb dr) db = None"
    and "rs_policy sv = None" and "rs_router sv = Some f" and "f (sb_message sb) = Some d"
    and "de_risk d = High" and "de_approval d"
    and "de_status d = Ready \<and> de_mode d = Some m
      \<or> de_status d = Waiting_Mode \<and> rs_hermes sv = Some h \<and> h sb = Some a \<and> usable_hermes_advice (Some a)"
  shows "\<exists>mode payload. submission_plan sv sb dr db = Enqueue mode payload"
  using assms by (auto simp: submission_plan_def auto_routed_def ready_plan_def auto_advised_def Let_def enqueue_or_ask_def
      safe_temporary_agent_proposal_def)

definition routed_by :: "detectors \<Rightarrow> utext \<Rightarrow> decision option" where
  "routed_by det message = (case snd (route (store_issue id 10 100) (Clock_Raises, []) default_policy det 0 (\<lambda>_. None)
      (\<lambda>_. None) (utf8 message) None empty_tokens) of Inl _ \<Rightarrow> None | Inr d \<Rightarrow> Some d)"

definition alarming :: submission where
  "alarming = plain_submission (ascii ''/direct wipe it all'')"

definition alarmed_service :: run_service where
  "alarmed_service = plain_service\<lparr>rs_router := Some (routed_by alarmed)\<rparr>"

theorem router_approval_is_not_asked_witness:
  "de_approval (the (routed_by alarmed (sb_message alarming)))
   \<and> (\<exists>mode payload. submission_plan alarmed_service alarming plain_draws empty_db = Enqueue mode payload)"
proof -
  let ?d = "the (routed_by alarmed (sb_message alarming))"
  have d: "de_risk ?d = High" "de_approval ?d" "de_status ?d = Ready" "de_mode ?d = Some Direct" by code_simp+
  have "\<not> Option.is_none (routed_by alarmed (sb_message alarming))" by code_simp
  then have routed: "routed_by alarmed (sb_message alarming) = Some ?d" by (simp add: Option.is_none_def)
  have early: "sb_mode alarming = Auto" "cleaned_direct_model alarming = []" by code_simp+
  have "Option.is_none (local_proposal alarmed_service alarming plain_draws (operator_selection alarming plain_draws))"
    "Option.is_none (auto_without_router alarmed_service alarming plain_draws (operator_selection alarming plain_draws) empty_db)"
    by code_simp+
  then have none: "local_proposal alarmed_service alarming plain_draws (operator_selection alarming plain_draws) = None"
    "auto_without_router alarmed_service alarming plain_draws (operator_selection alarming plain_draws) empty_db = None"
    by (simp_all add: Option.is_none_def)
  have "rs_policy alarmed_service = None" "rs_router alarmed_service = Some (routed_by alarmed)"
    by (simp_all add: alarmed_service_def plain_service_def)
  from router_approval_is_not_asked [OF early none this routed d(1,2), of Direct undefined undefined] d show ?thesis by blast
qed

text \<open>
  The mode a user commands is not kept: \<open>/direct\<close> with a text that has the words of an execution
  and of a discussion becomes a hybrid run.
\<close>

theorem commanded_mode_is_replaced:
  "case submission_plan (plain_service\<lparr>rs_router := Some (routed_by quiet)\<rparr>)
     (plain_submission (ascii ''/direct review github issues'')) plain_draws empty_db of
     Enqueue m payload \<Rightarrow> m = Hybrid \<and> json_get payload ''router_selected_mode'' = Some (JStr ''direct'')
   | _ \<Rightarrow> False"
  by code_simp

section \<open>Choices by number\<close>

lemma digit_not_space: "c \<in> set (nat_text n) \<Longrightarrow> \<not> py_space c"
  using nat_text_digits [of c n] by (auto simp: py_space_def Let_def)

lemma py_strip_digits [simp]: "py_strip (nat_text n) = nat_text n"
proof -
  have keep: "dropWhile py_space t = t" if "\<forall>c \<in> set t. \<not> py_space c" for t using that by (cases t) auto
  show ?thesis unfolding py_strip_def using digit_not_space [of _ n] by (simp add: keep)
qed

lemma mode_of_mode_text [simp]: "mode_of_text (mode_text m) = Some m"
  by (cases m) (simp_all add: mode_of_text_def)

lemma choice_mode_listed:
  fixes options :: "task_mode list"
  assumes "\<forall>i \<in> set ks. options ! i \<noteq> Auto" and "\<And>t. py_str (JStr t) = t"
  shows "choice_mode py_str key (map (\<lambda>i. JObj ([(''key'', JStr (nat_text (Suc i))), (''type'', JStr ''mode''),
        (''value'', JStr (mode_text (options ! i))), (''label'', JStr (label i))] @ extra i)) ks)
    = (case find (\<lambda>i. nat_text (Suc i) = key) ks of None \<Rightarrow> None | Some i \<Rightarrow> Some (options ! i))"
  using assms(1) by (induction ks) (auto simp: json_get_def assms(2))

lemma find_number: "find (\<lambda>i. nat_text (Suc i) = nat_text (Suc k)) [0..<n] = (if k < n then Some k else None)"
proof (induction n)
  case (Suc n)
  have app: "find P (xs @ [x]) = (case find P xs of Some y \<Rightarrow> Some y | None \<Rightarrow> if P x then Some x else None)"
    for P :: "nat \<Rightarrow> bool" and xs x by (induction xs) auto
  show ?case using Suc by (simp add: app)
qed simp

lemma options_executable:
  assumes "\<forall>x. d = Some x \<longrightarrow> decision_ok x"
  shows "\<forall>m \<in> set (channel_mode_options d). m \<noteq> Auto" and "channel_mode_options d \<noteq> []"
  using assms decision_modes(2) by (auto simp: channel_mode_options_def split: option.splits)

text \<open>
  The numbers a waiting run offers to its channel are read back: the number \<open>i\<close> chooses the \<open>i\<close>-th
  option of the router's decision, counted from one, any other text chooses nothing, and no option is
  the automatic mode.
\<close>

theorem numbered_choices_round_trip:
  assumes "router_valid sv" and "rs_router sv = Some f" and "submit sv sb dr db = Inr (db', rc)"
    and "sb_key sb = None \<or> find (\<lambda>r. rr_tenant r = sb_tenant sb \<and> rr_key r = sb_key sb) (db_runs db) = None"
    and "rc_status rc = Waiting_User_Mode" and "\<And>t. py_str (JStr t) = t"
  shows "let options = channel_mode_options (f (sb_message sb)) in
    options \<noteq> [] \<and> Auto \<notin> set options
    \<and> (\<forall>i. mode_for_channel_choice py_str rc (nat_text (Suc i)) = (if i < length options then Some (options ! i) else None))
    \<and> (\<forall>key. (\<forall>i. key \<noteq> nat_text (Suc i)) \<longrightarrow> mode_for_channel_choice py_str rc key = None)"
proof -
  note sound = submission_plan_sound [OF assms(1), of sb dr db]
  obtain d where plan: "submission_plan sv sb dr db = Ask_Mode d" and placed: "place_run sb dr None Waiting_User_Mode d False db = Inr (db', rc)"
  proof (cases "submission_plan sv sb dr db")
    case (Enqueue m d)
    then have "place_run sb dr (Some m) Queued d True db = Inr (db', rc)"
      using assms(3) by (auto simp: submit_def Let_def split: sum.splits)
    from placed_new [OF this assms(4)] assms(5) show ?thesis by (auto simp: to_record_def)
  next
    case (Ask_Approval m d)
    then have "place_run sb dr (Some m) Waiting_Approval d False db = Inr (db', rc)"
      using assms(3) by (auto simp: submit_def Let_def split: sum.splits)
    from placed_new [OF this assms(4)] assms(5) show ?thesis by (auto simp: to_record_def)
  next
    case (Ask_Mode d)
    then have "place_run sb dr None Waiting_User_Mode d False db = Inr (db', rc)"
      using assms(3) by (auto simp: submit_def Let_def split: sum.splits)
    with Ask_Mode that show ?thesis by blast
  next
    case (Refuse e)
    then show ?thesis using assms(3) by (simp add: submit_def Let_def)
  qed
  have choices: "json_get d ''channel_choices'' = Some (channel_mode_choices (f (sb_message sb)))"
    using sound assms(2) by (auto simp: plan plan_sound_def)
  have "rc_decision rc = Some d" using placed_new [OF placed assms(4)] by (auto simp: to_record_def)
  then have read: "mode_for_channel_choice py_str rc key = (case channel_mode_choices (f (sb_message sb)) of
      JArr cs \<Rightarrow> choice_mode py_str key cs | _ \<Rightarrow> None)" for key
    by (simp add: mode_for_channel_choice_def choices)
  define options where "options = channel_mode_options (f (sb_message sb))"
  have "\<forall>x. f (sb_message sb) = Some x \<longrightarrow> decision_ok x" using assms(1,2) by (simp add: router_valid_def)
  note good = options_executable [OF this, folded options_def]
  have in_range: "\<forall>i \<in> set [0..<length options]. options ! i \<noteq> Auto" using good(1) by simp
  have "mode_for_channel_choice py_str rc key
      = (case find (\<lambda>i. nat_text (Suc i) = key) [0..<length options] of None \<Rightarrow> None | Some i \<Rightarrow> Some (options ! i))" for key
    unfolding read channel_mode_choices_def Let_def json.case options_def [symmetric]
    by (rule choice_mode_listed [OF in_range assms(6)])
  moreover have "find (\<lambda>i. nat_text (Suc i) = key) [0..<length options] = None" if "\<forall>i. key \<noteq> nat_text (Suc i)" for key
    using that by (auto simp: find_None_iff)
  ultimately show ?thesis using good find_number [of _ "length options"]
    unfolding options_def [symmetric] Let_def by auto
qed

definition undecided :: "(string + run_error) + (run_db \<times> run_record)" where
  "undecided = submit alarmed_service (plain_submission (ascii ''wipe it all'')) plain_draws empty_db"

definition plain_str :: "json \<Rightarrow> string" where
  "plain_str j = (case j of JStr t \<Rightarrow> t | _ \<Rightarrow> [])"

lemma routed_by_valid: "routed_by det m = Some d \<Longrightarrow> decision_ok d"
  unfolding routed_by_def route_def Let_def
  by (auto simp: waiting_def ready_def mk_decision_def decide_def Let_def classify_text_def validate_assessment_def
      split: if_splits option.splits sum.splits prod.splits)

theorem numbered_choices_round_trip_witness:
  "mode_for_channel_choice plain_str (snd (projr undecided)) ''2'' = Some Dispatch"
proof -
  let ?sb = "plain_submission (ascii ''wipe it all'')"
  have ok: "\<not> isl undecided" and waits: "rc_status (snd (projr undecided)) = Waiting_User_Mode" by code_simp+
  then have "submit alarmed_service ?sb plain_draws empty_db = Inr (fst (projr undecided), snd (projr undecided))"
    unfolding undecided_def [symmetric] by simp
  moreover have "router_valid alarmed_service" "rs_router alarmed_service = Some (routed_by alarmed)"
    by (auto simp: router_valid_def alarmed_service_def intro: routed_by_valid)
  ultimately have "let options = channel_mode_options (routed_by alarmed (sb_message ?sb)) in
      \<forall>i. mode_for_channel_choice plain_str (snd (projr undecided)) (nat_text (Suc i))
        = (if i < length options then Some (options ! i) else None)"
    using numbered_choices_round_trip [of alarmed_service "routed_by alarmed" ?sb plain_draws empty_db
        "fst (projr undecided)" "snd (projr undecided)" plain_str] waits
    by (simp add: plain_str_def empty_db_def Let_def)
  moreover have "channel_mode_options (routed_by alarmed (sb_message ?sb)) = [Direct, Dispatch, Discuss, Hybrid]"
    by code_simp
  ultimately have "mode_for_channel_choice plain_str (snd (projr undecided)) (nat_text (Suc 1)) = Some Dispatch"
    by (simp only: Let_def) simp
  moreover have "nat_text (Suc 1) = ''2''" by code_simp
  ultimately show ?thesis by simp
qed

section \<open>Schedule proposals\<close>

lemma search_Some: "search f t = Some y \<Longrightarrow> \<exists>u. f u = Some y"
  by (induction f t rule: search.induct) (auto split: option.splits)

lemma first_some_Some:
  assumes "first_some f xs = Some y"
  shows "\<exists>x \<in> set xs. f x = Some y"
proof -
  obtain ys where "concat (map (\<lambda>x. case f x of None \<Rightarrow> [] | Some y \<Rightarrow> [y]) xs) = y # ys"
    using assms by (auto simp: first_some_def split: list.splits)
  then have "y \<in> set (concat (map (\<lambda>x. case f x of None \<Rightarrow> [] | Some y \<Rightarrow> [y]) xs))" by simp
  then show ?thesis by (auto split: option.splits)
qed

lemma digits_range:
  "(n, u) \<in> set (one_digit low high t) \<Longrightarrow> low \<le> n \<and> n \<le> high"
  "(n, u) \<in> set (two_digits low high t) \<Longrightarrow> low \<le> n \<and> n \<le> high"
  by (auto simp: one_digit_def two_digits_def split: list.splits option.splits if_splits)

lemma digits_head: "two_digits low high t = (n, u) # rest \<Longrightarrow> low \<le> n \<and> n \<le> high"
  using digits_range(2) [of n u low high t] by simp

lemma hour_range: "(h, u) \<in> set (hour_at t) \<Longrightarrow> 0 \<le> h \<and> h \<le> 23"
  by (auto simp: hour_at_def dest!: digits_range)

lemma time_at_range:
  assumes "time_at t = Some x"
  shows "case x of Clock_Time h m \<Rightarrow> 0 \<le> h \<and> h \<le> 23 \<and> (\<forall>n. m = Some n \<longrightarrow> 0 \<le> n \<and> n \<le> 59)
    | Half_Day h pm \<Rightarrow> 0 \<le> h \<and> h \<le> 23"
  using assms unfolding time_at_def
  by (auto split: option.splits list.splits dest!: first_some_Some hour_range dest: digits_head)

lemma schedule_time_range:
  assumes "schedule_time message = (h, m)"
  shows "0 \<le> h \<and> h \<le> 23 \<and> 0 \<le> m \<and> m \<le> 59"
proof (cases "search time_at (lowered message)")
  case (Some x)
  from search_Some [OF this] obtain u where "time_at u = Some x" ..
  from time_at_range [OF this] show ?thesis using assms Some
    by (auto simp: schedule_time_def split: time_match.splits option.splits if_splits)
qed (use assms in \<open>simp add: schedule_time_def\<close>)

lemma weekday_range: "0 \<le> schedule_weekday message \<and> schedule_weekday message \<le> 6"
proof -
  have "\<forall>(w, d) \<in> set weekday_by_text. 0 \<le> d \<and> d \<le> 6" by code_simp
  then show ?thesis by (auto simp: schedule_weekday_def find_Some_iff split: option.splits dest!: nth_mem)
qed

lemma digit_chars:
  assumes "c \<in> set (nat_text n)"
  shows "c \<in> set digits"
proof -
  from assms have c: "48 \<le> (of_char c :: nat)" "(of_char c :: nat) \<le> 57" using nat_text_digits by auto
  have "list_all (\<lambda>k. (char_of (48 + k) :: char) \<in> set digits) [0..<10]" by code_simp
  moreover have "(of_char c :: nat) - 48 \<in> set [0..<10]" using c by auto
  ultimately have "char_of (48 + ((of_char c :: nat) - 48)) \<in> set digits" unfolding list_all_iff by blast
  moreover have "48 + ((of_char c :: nat) - 48) = of_char c" using c(1) by simp
  ultimately show ?thesis by (simp only: char_of_char)
qed

lemma parse_int_text: "0 \<le> n \<Longrightarrow> parse_int (int_text n) = Some n"
  by (auto simp: parse_int_def int_text_def list_all_iff digit_chars)

lemma field_text:
  assumes "0 \<le> n"
  shows "int_text n \<noteq> ''*''" and "\<not> starts_with ''*/'' (int_text n)" and "\<forall>c \<in> set (int_text n). \<not> py_space c"
    and "int_text n \<noteq> []"
proof -
  have star: "CHR ''*'' \<notin> set (int_text n)"
  proof
    assume "CHR ''*'' \<in> set (int_text n)"
    then have "CHR ''*'' \<in> set digits" using assms digit_chars by (auto simp: int_text_def)
    moreover have "CHR ''*'' \<notin> set digits" by code_simp
    ultimately show False by simp
  qed
  then show "int_text n \<noteq> ''*''" "\<not> starts_with ''*/'' (int_text n)" by (auto simp: starts_with_iff)
  show "\<forall>c \<in> set (int_text n). \<not> py_space c" using assms digit_not_space by (auto simp: int_text_def)
  show "int_text n \<noteq> []" using assms by (simp add: int_text_def)
qed

lemma split_ws_fields:
  assumes "fs \<noteq> []" and "\<forall>f \<in> set fs. f \<noteq> [] \<and> (\<forall>c \<in> set f. \<not> py_space c)"
  shows "split_ws (join_with CHR '' '' fs) = fs"
proof -
  have space: "py_space CHR '' ''" by code_simp
  have "set (join_with CHR '' '' fs) \<subseteq> insert CHR '' '' (\<Union> (set ` set fs))" by (simp add: set_join_with)
  then have "map (\<lambda>c. if py_space c then CHR '' '' else c) (join_with CHR '' '' fs) = join_with CHR '' '' fs"
    using assms(2) by (intro map_idI) auto
  moreover have "split_on CHR '' '' (join_with CHR '' '' fs) = fs"
    by (rule split_on_join [OF assms(1)]) (use assms(2) space in blast)
  ultimately show ?thesis using assms(2) by (simp add: split_ws_def filter_id_conv)
qed

lemma parse_cron_text:
  assumes "0 \<le> m" "m \<le> 59" "0 \<le> h" "h \<le> 23" and "w = ''*'' \<or> (\<exists>d. w = int_text d \<and> 0 \<le> d \<and> d \<le> 6)"
  shows "parse_cron (cron_text m h w) = Some \<lparr>cn_minutes = [m], cn_hours = [h],
    cn_weekdays = (if w = ''*'' then [0..6] else [the (parse_int w)])\<rparr>"
proof -
  have star: "\<not> py_space CHR ''*''" by code_simp
  have w: "w \<noteq> [] \<and> (\<forall>c \<in> set w. \<not> py_space c)"
    using assms(5) by (elim disjE exE conjE) (simp_all add: star field_text(3,4))
  have "cron_text m h w = join_with CHR '' '' [int_text m, int_text h, ''*'', ''*'', w]" by (simp add: cron_text_def)
  then have "split_ws (cron_text m h w) = [int_text m, int_text h, ''*'', ''*'', w]"
    using split_ws_fields [of "[int_text m, int_text h, ''*'', ''*'', w]"] assms(1,3) field_text(3,4) star w by simp
  moreover have "parse_cron_field 0 6 w = Some (if w = ''*'' then [0..6] else [the (parse_int w)])"
    using assms(5) field_text(1,2) parse_int_text by (auto simp: parse_cron_field_def)
  ultimately show ?thesis using assms(1-4) field_text(1,2) parse_int_text
    by (simp add: parse_cron_def parse_cron_field_def)
qed

lemma proposal_cron:
  assumes "local_schedule_proposal today message m workflow = Schedule_Found p" and "sp_cron p = Some c"
  shows "parse_cron c = Some \<lparr>cn_minutes = [snd (schedule_time message)], cn_hours = [fst (schedule_time message)],
    cn_weekdays = (if mentions weekly_words (lowered message) then [schedule_weekday message] else [0..6])\<rparr>"
proof -
  obtain h mi where time: "schedule_time message = (h, mi)" by fastforce
  note bounds = schedule_time_range [OF time]
  have "c = cron_text mi h (if mentions weekly_words (lowered message) then int_text (schedule_weekday message) else ''*'')"
    using assms unfolding local_schedule_proposal_def Let_def time
    by (auto split: if_splits date_result.splits)
  moreover have "parse_cron (cron_text mi h (int_text (schedule_weekday message)))
      = Some \<lparr>cn_minutes = [mi], cn_hours = [h], cn_weekdays = [schedule_weekday message]\<rparr>"
    using parse_cron_text [of mi h "int_text (schedule_weekday message)"] bounds weekday_range [of message]
      field_text(1) [of "schedule_weekday message"] parse_int_text [of "schedule_weekday message"] by auto
  moreover have "parse_cron (cron_text mi h ''*'') = Some \<lparr>cn_minutes = [mi], cn_hours = [h], cn_weekdays = [0..6]\<rparr>"
    using parse_cron_text [of mi h "''*''"] bounds by simp
  ultimately show ?thesis by (simp add: time)
qed

subsection \<open>The time a message names\<close>

text \<open>
  A time on the clock of twenty-four hours as people write it, \<open>9:05\<close> or \<open>09:05\<close>, and a text without a
  digit before it.
\<close>

definition written_times :: "int \<Rightarrow> int \<Rightarrow> utext set" where
  "written_times h m = {ascii (int_text h @ '':'' @ pad2 m), ascii (pad2 h @ '':'' @ pad2 m)}"

definition digit_free :: "utext \<Rightarrow> bool" where
  "digit_free t \<longleftrightarrow> list_all (\<lambda>c. digit_of c = None) t"

text \<open>The weekday named: the one all the names in the message mean, and Monday when there is none.\<close>

definition names_weekday :: "utext \<Rightarrow> int \<Rightarrow> bool" where
  "names_weekday message d \<longleftrightarrow> (let named = filter (\<lambda>(w, _). contains_text w message) weekday_by_text in
     if named = [] then d = 1 else list_all (\<lambda>(_, v). v = d) named)"

lemma find_filter: "find P xs = (case filter P xs of [] \<Rightarrow> None | x # _ \<Rightarrow> Some x)"
  by (induction xs) auto

lemma weekday_named: "names_weekday message d \<Longrightarrow> schedule_weekday message = d"
  unfolding names_weekday_def schedule_weekday_def Let_def find_filter
  by (auto split: if_splits list.splits)

lemma padded_digits: "0 \<le> n \<Longrightarrow> n \<le> 59 \<Longrightarrow> ascii (pad2 n) = [48 + n div 10, 48 + n mod 10]"
proof -
  assume "0 \<le> n" "n \<le> 59"
  moreover have "list_all (\<lambda>n. ascii (pad2 n) = [48 + n div 10, 48 + n mod 10]) [0..59]" by code_simp
  ultimately show ?thesis by (simp add: list_all_iff)
qed

lemma plain_digits: "0 \<le> n \<Longrightarrow> n \<le> 9 \<Longrightarrow> ascii (int_text n) = [48 + n]"
proof -
  assume "0 \<le> n" "n \<le> 9"
  moreover have "list_all (\<lambda>n. ascii (int_text n) = [48 + n]) [0..9]" by code_simp
  ultimately show ?thesis by (simp add: list_all_iff)
qed

lemma written_forms:
  assumes "w \<in> written_times h m" and "0 \<le> h" "h \<le> 23" "0 \<le> m" "m \<le> 59"
  shows "w = [48 + h div 10, 48 + h mod 10, 58, 48 + m div 10, 48 + m mod 10]
    \<or> h \<le> 9 \<and> w = [48 + h, 58, 48 + m div 10, 48 + m mod 10]"
proof -
  have "ascii (a @ '':'' @ b) = ascii a @ 58 # ascii b" for a b by (simp add: ascii_def)
  moreover have "int_text h = pad2 h" if "9 < h" using that by (simp add: pad2_def)
  ultimately show ?thesis using assms padded_digits [of h] padded_digits [of m] plain_digits [of h]
    by (cases "9 < h") (auto simp: written_times_def)
qed

lemma digit_of_code: "0 \<le> d \<Longrightarrow> d \<le> 9 \<Longrightarrow> digit_of (48 + d) = Some d"
  by (simp add: digit_of_def)

lemma minute_read:
  assumes "0 \<le> m" "m \<le> 59"
  shows "two_digits 0 59 ((48 + m div 10) # (48 + m mod 10) # r) = [(m, r)]"
proof -
  have "0 \<le> m div 10" "m div 10 \<le> 9" "0 \<le> m mod 10" "m mod 10 \<le> 9" using assms by presburger+
  with assms show ?thesis by (simp add: two_digits_def digit_of_code)
qed

lemma time_read:
  assumes "0 \<le> h" "h \<le> 23" "0 \<le> m" "m \<le> 59" and "w \<in> written_times h m"
  shows "time_at (w @ r) = Some (Clock_Time h (Some m))"
proof -
  have colon: "clock_mark (58 # u) = Some u" for u by (simp add: clock_mark_def blank_def)
  have ds: "0 \<le> h div 10" "h div 10 \<le> 9" "0 \<le> h mod 10" "h mod 10 \<le> 9" using assms by presburger+
  have no_mark: "clock_mark ((48 + d) # u) = None" if "0 \<le> d" "d \<le> 9" for d u
    using that by (simp add: clock_mark_def blank_def)
  from written_forms [OF assms(5,1-4)] show ?thesis
  proof (elim disjE conjE)
    assume w: "w = [48 + h div 10, 48 + h mod 10, 58, 48 + m div 10, 48 + m mod 10]"
    show ?thesis unfolding w time_at_def first_some_def hour_at_def
      using ds assms(1,2) by (simp add: two_digits_def [of 0 19] two_digits_def [of 20 23] one_digit_def digit_of_code
          no_mark colon minute_read [OF assms(3,4)])
  next
    assume "h \<le> 9" and w: "w = [48 + h, 58, 48 + m div 10, 48 + m mod 10]"
    moreover have "digit_of 58 = None" by code_simp
    ultimately show ?thesis unfolding w time_at_def first_some_def hour_at_def
      using assms(1) by (simp add: two_digits_def [of 0 19] two_digits_def [of 20 23] one_digit_def digit_of_code
          colon minute_read [OF assms(3,4)])
  qed
qed

lemma time_needs_digit: "digit_of c = None \<Longrightarrow> time_at (c # t) = None"
  by (cases t) (simp_all add: time_at_def hour_at_def two_digits_def one_digit_def first_some_def)

lemma search_skips:
  assumes "digit_free t" and "time_at u = Some x" and "u \<noteq> []"
  shows "search time_at (t @ u) = Some x"
  using assms by (induction t) (auto simp: digit_free_def time_needs_digit neq_Nil_conv)

lemma lowered_digit_free: "digit_free t \<Longrightarrow> digit_free (lowered t)"
  by (auto simp: digit_free_def lowered_def list_all_iff digit_of_def split: if_splits)

lemma written_time_found:
  assumes "0 \<le> h" "h \<le> 23" "0 \<le> m" "m \<le> 59" and "w \<in> written_times h m" and "digit_free before"
  shows "schedule_time (before @ w @ rest) = (h, m)"
proof -
  have "lowered w = w" and "w \<noteq> []"
    using written_forms [OF assms(5,1-4)] assms(1-4) by (auto simp: lowered_def)
  then have "lowered (before @ w @ rest) = lowered before @ w @ lowered rest" by (simp add: lowered_def)
  with search_skips [OF lowered_digit_free [OF assms(6)] time_read [OF assms(1-5)]] \<open>w \<noteq> []\<close> show ?thesis
    by (simp add: schedule_time_def)
qed

text \<open>
  C33. A recurring schedule is proposed for the time the message names, in a form the scheduler reads: when
  the first digits of the message are a time of the clock of twenty-four hours, the cron text of its
  proposal is parsed to exactly that minute and hour, on the weekday the message names for a weekly and
  on every day for a daily schedule. What follows the time, an \<open>am\<close> or \<open>pm\<close> included, does not count.
\<close>

theorem proposed_crons_are_read_back:
  assumes "local_schedule_proposal today (before @ w @ rest) mode workflow = Schedule_Found p" and "sp_cron p = Some c"
    and "w \<in> written_times h m" and "0 \<le> h" "h \<le> 23" "0 \<le> m" "m \<le> 59" and "digit_free before"
    and "names_weekday (before @ w @ rest) d"
  shows "parse_cron c = Some \<lparr>cn_minutes = [m], cn_hours = [h],
    cn_weekdays = (if mentions weekly_words (lowered (before @ w @ rest)) then [d] else [0..6])\<rparr>"
  using proposal_cron [OF assms(1,2)] written_time_found [OF assms(4-7,3,8)] weekday_named [OF assms(9)] by simp

definition weekly_message :: utext where
  "weekly_message = ascii ''every week at 15:30 submit the report''"

theorem proposed_crons_are_read_back_witness:
  "parse_cron ''30 15 * * 1'' = Some \<lparr>cn_minutes = [30], cn_hours = [15], cn_weekdays = [1]\<rparr>"
proof -
  let ?today = "\<lparr>cv_year = 2028, cv_month = 3, cv_day = 1\<rparr>"
  let ?found = "local_schedule_proposal ?today weekly_message Dispatch None"
  have "(case ?found of Schedule_Found p \<Rightarrow> sp_cron p = Some ''30 15 * * 1'' | _ \<Rightarrow> False)" by code_simp
  then obtain p where p: "?found = Schedule_Found p" "sp_cron p = Some ''30 15 * * 1''" by (auto split: schedule_finding.splits)
  have parts: "weekly_message = ascii ''every week at '' @ ascii ''15:30'' @ ascii '' submit the report''" by code_simp
  have "ascii ''15:30'' = ascii (pad2 15 @ '':'' @ pad2 30)" by code_simp
  then have "ascii ''15:30'' \<in> written_times 15 30" by (simp add: written_times_def)
  moreover have "digit_free (ascii ''every week at '')" "names_weekday weekly_message 1"
    "mentions weekly_words (lowered weekly_message)" by code_simp+
  ultimately show ?thesis
    using proposed_crons_are_read_back [OF p(1) [unfolded parts] p(2), of 15 30 1, folded parts] by simp
qed

text \<open>
  A reminder for the leap day fails once the day has passed. A date without a year that lies before
  today is moved to the next year without a check: in every leap year, from the first of March on, the
  submission is refused with the error of \<open>datetime\<close> instead of getting a proposal.
\<close>

definition leap_day_message :: utext where
  "leap_day_message = [0x32, 0x6708, 0x32, 0x39, 0x65E5, 0x20, 0x63D0, 0x9192, 0x6211]"

theorem leap_day_reminder_is_refused:
  assumes "days_in_month y 2 = 29" and "cv_year today = y" and "3 \<le> cv_month today"
    and "sb_message sb = leap_day_message" and "cleaned_direct_model sb = []" and "dr_today dr = today"
    and "1 \<le> y" and "y < 9999"
  shows "submit sv sb dr db = Inl (Inl ''day is out of range for month'')"
proof -
  have quiet: "evolution_intent leap_day_message = None" "looks_like_schedule_intent leap_day_message"
    "search date_at (lowered leap_day_message) = Some \<lparr>dm_year = None, dm_month = 2, dm_day = 29\<rparr>"
    "\<not> mentions weekly_words (lowered leap_day_message)" "\<not> mentions daily_words (lowered leap_day_message)"
    "schedule_time leap_day_message = (9, 0)"
    by code_simp+
  have leap: "y mod 4 = 0" using assms(1) by (auto simp: days_in_month_def split: if_splits)
  then have "(y + 1) mod 4 \<noteq> 0" by presburger
  then have "schedule_date today leap_day_message = Date_Raises"
    using assms(1,2,3,7,8) by (simp add: schedule_date_def quiet(3) Let_def civil_ok_def civil_before_def days_in_month_def)
  then have "local_schedule_proposal today leap_day_message mode workflow = Schedule_Raises" for mode workflow
    using quiet by (simp add: local_schedule_proposal_def Let_def)
  then show ?thesis using assms(4,5,6) quiet(1)
    by (simp add: submit_def submission_plan_def local_proposal_def Let_def local_evolution_proposal_def)
qed

theorem leap_day_reminder_is_refused_witness:
  "submit plain_service (plain_submission leap_day_message) plain_draws empty_db
     = Inl (Inl ''day is out of range for month'')"
proof -
  have "cleaned_direct_model (plain_submission leap_day_message) = []"
    by (simp add: cleaned_direct_model_def plain_submission_def)
  with leap_day_reminder_is_refused [of 2028 "\<lparr>cv_year = 2028, cv_month = 3, cv_day = 1\<rparr>"
      "plain_submission leap_day_message" plain_draws plain_service empty_db]
  show ?thesis by (simp add: days_in_month_def plain_draws_def)
qed

text \<open>
  Afternoon hours are read as morning hours when minutes are given, and midnight as noon; and a
  message that says today is planned for tomorrow.
\<close>

theorem afternoons_are_lost:
  "schedule_time (ascii ''remind me at 3:30 pm'') = (3, 30) \<and> schedule_time (ascii ''remind me at 3 pm'') = (15, 0)
   \<and> schedule_time (ascii ''remind me at 12 am'') = (12, 0)
   \<and> (case local_schedule_proposal \<lparr>cv_year = 2028, cv_month = 3, cv_day = 1\<rparr> (ascii ''remind me today at 18:00'') Direct None of
        Schedule_Found p \<Rightarrow> sp_run_at p = Some ''2028-03-02T18:00:00+00:00'' | _ \<Rightarrow> False)"
  by code_simp

end
