(* ===== verification/Channel_Messages.thy ===== *)
theory Channel_Messages
  imports Run_Submission
begin

text \<open>
  What reaches the hub through a channel: the normalized messages of \<open>channels/base.py\<close> with their
  validators, and the selectors, modes and aliases of \<open>channels/directives.py\<close> a message may open
  with. Message texts are code points, external identifiers strings; \<open>casefold\<close> is lower case on the
  letters of ASCII.
\<close>

section \<open>Messages\<close>

datatype channel = Custom_Webhook | Dingtalk | Feishu | Qq | Slack | Telegram | Web_Channel
  | Wechat_Customer_Service | Wechat_Official | Wecom_App | Wecom_Bot

fun channel_text :: "channel \<Rightarrow> string" where
  "channel_text Custom_Webhook = ''custom_webhook''"
| "channel_text Dingtalk = ''dingtalk''"
| "channel_text Feishu = ''feishu''"
| "channel_text Qq = ''qq''"
| "channel_text Slack = ''slack''"
| "channel_text Telegram = ''telegram''"
| "channel_text Web_Channel = ''web''"
| "channel_text Wechat_Customer_Service = ''wechat_customer_service''"
| "channel_text Wechat_Official = ''wechat_official''"
| "channel_text Wecom_App = ''wecom_app''"
| "channel_text Wecom_Bot = ''wecom_bot''"

datatype conversation_type = Private_Conversation | Group_Conversation

fun conversation_type_text :: "conversation_type \<Rightarrow> string" where
  "conversation_type_text Private_Conversation = ''private''"
| "conversation_type_text Group_Conversation = ''group''"

datatype attachment_kind = Image_Attachment | File_Attachment

fun attachment_kind_text :: "attachment_kind \<Rightarrow> string" where
  "attachment_kind_text Image_Attachment = ''image''"
| "attachment_kind_text File_Attachment = ''file''"

datatype outbound_kind = Progress | Clarification | Approval_Request | Final_Answer | Error_Notice
  | File_Response | Image_Response

record inbound_attachment =
  ia_kind :: attachment_kind
  ia_key :: string
  ia_filename :: "utext option"
  ia_mime :: "utext option"

record inbound_message =
  im_channel :: channel
  im_tenant :: string
  im_sender :: string
  im_conversation :: string
  im_message :: string
  im_event :: string
  im_type :: conversation_type
  im_text :: utext
  im_mentions :: bool
  im_attachments :: "inbound_attachment list"
  im_received :: "instant option"

record outbound_message =
  om_kind :: outbound_kind
  om_channel :: channel
  om_tenant :: string
  om_conversation :: string
  om_text :: utext
  om_run :: "string option"
  om_attachment :: "string option"
  om_attachment_kind :: "attachment_kind option"

definition external_chars :: string where
  "external_chars = lower_alnum @ upper_alpha @ ''_.:@-''"

definition safe_external_id :: "string \<Rightarrow> bool" where
  "safe_external_id v \<longleftrightarrow> 1 \<le> length v \<and> length v \<le> 256 \<and> list_all (char_in external_chars) v"

definition safe_text :: "utext \<Rightarrow> nat \<Rightarrow> bool \<Rightarrow> bool" where
  "safe_text v max_bytes allow_blank \<longleftrightarrow> (allow_blank \<or> trim v \<noteq> []) \<and> length (utf8 v) \<le> max_bytes"

text \<open>A MIME type: two words of \<open>[-\w.+]\<close> around one slash.\<close>

definition mime_char :: "(int \<Rightarrow> bool) \<Rightarrow> int \<Rightarrow> bool" where
  "mime_char letters c \<longleftrightarrow> (if c < 128 then id_char c \<or> (65 \<le> c \<and> c \<le> 90) \<or> c \<in> {95, 45, 46, 43} else letters c)"

definition safe_mime :: "(int \<Rightarrow> bool) \<Rightarrow> utext \<Rightarrow> bool" where
  "safe_mime letters v = (case split_on 47 v of
      [a, b] \<Rightarrow> a \<noteq> [] \<and> b \<noteq> [] \<and> list_all (mime_char letters) a \<and> list_all (mime_char letters) b
    | _ \<Rightarrow> False)"

definition attachment_ok :: "(int \<Rightarrow> bool) \<Rightarrow> inbound_attachment \<Rightarrow> bool" where
  "attachment_ok letters a \<longleftrightarrow> safe_external_id (ia_key a)
     \<and> (case ia_filename a of None \<Rightarrow> True | Some f \<Rightarrow> length f \<le> 512 \<and> safe_text f 512 False)
     \<and> (case ia_mime a of None \<Rightarrow> True | Some t \<Rightarrow> safe_mime letters t)"

definition inbound_ok :: "(int \<Rightarrow> bool) \<Rightarrow> inbound_message \<Rightarrow> bool" where
  "inbound_ok letters m \<longleftrightarrow>
     list_all safe_external_id [im_tenant m, im_sender m, im_conversation m, im_message m, im_event m]
     \<and> safe_text (im_text m) 65536 False \<and> list_all (attachment_ok letters) (im_attachments m)
     \<and> \<not> Option.is_none (im_received m)"

definition outbound_ok :: "outbound_message \<Rightarrow> bool" where
  "outbound_ok m \<longleftrightarrow> safe_external_id (om_tenant m) \<and> safe_external_id (om_conversation m)
     \<and> safe_text (om_text m) 65536 True
     \<and> (case om_attachment m of None \<Rightarrow> True | Some k \<Rightarrow> safe_external_id k)"

definition should_accept :: "inbound_message \<Rightarrow> bool" where
  "should_accept m \<longleftrightarrow> im_type m = Private_Conversation \<or> im_mentions m"

section \<open>Words of a message\<close>

fun chop :: "utext \<Rightarrow> utext list" where
  "chop [] = [[]]"
| "chop (c # t) = (if blank c then [] # chop t else (case chop t of [] \<Rightarrow> [[c]] | w # ws \<Rightarrow> (c # w) # ws))"

definition words_of :: "utext \<Rightarrow> utext list" where
  "words_of t = filter (\<lambda>w. w \<noteq> []) (chop t)"

definition first_kept :: "'a list \<Rightarrow> 'a list" where
  "first_kept xs = rev (remdups (rev xs))"

definition ascii_part :: "utext \<Rightarrow> string" where
  "ascii_part t = map char_of t"

section \<open>Selectors\<close>

datatype selector = Mcp_Server string | Plugin string | Skill string

definition name_char :: "int \<Rightarrow> bool" where
  "name_char c \<longleftrightarrow> id_char c \<or> (65 \<le> c \<and> c \<le> 90)"

definition directive_name :: "utext \<Rightarrow> bool" where
  "directive_name v \<longleftrightarrow> v \<noteq> [] \<and> length v \<le> 128 \<and> name_char (hd v)
     \<and> list_all (\<lambda>c. name_char c \<or> c \<in> {95, 46, 45}) (tl v)"

definition named :: "(string \<Rightarrow> 'a) \<Rightarrow> utext \<Rightarrow> 'a option" where
  "named f v = (if directive_name v then Some (f (ascii_part v)) else None)"

definition parse_resource_token :: "utext \<Rightarrow> selector option" where
  "parse_resource_token token =
     (if starts_with (ascii ''/#'') token then named Mcp_Server (drop 2 token)
      else if starts_with (ascii ''#'') token then named Mcp_Server (drop 1 token)
      else if starts_with (ascii ''@'') token then named Plugin (drop 1 token)
      else if starts_with (ascii ''&'') token then named Skill (drop 1 token)
      else None)"

fun leading_selectors :: "utext list \<Rightarrow> selector list" where
  "leading_selectors [] = []"
| "leading_selectors (w # ws) =
     (case parse_resource_token w of None \<Rightarrow> [] | Some s \<Rightarrow> s # leading_selectors ws)"

record resource_hints =
  rh_plugins :: "string list"
  rh_mcp :: "string list"
  rh_skills :: "string list"

fun mcp_of :: "selector \<Rightarrow> string option" where
  "mcp_of (Mcp_Server v) = Some v" | "mcp_of _ = None"

fun plugin_of :: "selector \<Rightarrow> string option" where
  "plugin_of (Plugin v) = Some v" | "plugin_of _ = None"

fun skill_of :: "selector \<Rightarrow> string option" where
  "skill_of (Skill v) = Some v" | "skill_of _ = None"

definition hints_of :: "selector list \<Rightarrow> resource_hints" where
  "hints_of ss = \<lparr>rh_plugins = first_kept (List.map_filter plugin_of ss),
     rh_mcp = first_kept (List.map_filter mcp_of ss), rh_skills = first_kept (List.map_filter skill_of ss)\<rparr>"

definition parse_channel_resource_hints :: "utext \<Rightarrow> resource_hints" where
  "parse_channel_resource_hints t = hints_of (leading_selectors (words_of (trim t)))"

section \<open>Directives\<close>

definition legacy_modes :: "(utext \<times> task_mode) list" where
  "legacy_modes = [(ascii ''/auto'', Auto), (ascii ''/direct'', Direct), (ascii ''/dispatch'', Dispatch),
     (ascii ''/discuss'', Discuss), (ascii ''/hybrid'', Hybrid)]"

definition language_modes :: "(utext \<times> task_mode) list" where
  "language_modes = [(ascii ''//auto'', Auto), (ascii ''//automatic'', Auto), ([0x2F, 0x2F, 0x81EA, 0x52A8],
    Auto), (ascii ''//direct'', Direct),
     (ascii ''//directly'', Direct), ([0x2F, 0x2F, 0x76F4, 0x8FDE], Direct), ([0x2F, 0x2F, 0x76F4, 0x63A5],
       Direct),
     (ascii ''//dispatch'', Dispatch), (ascii ''//route'', Dispatch), ([0x2F, 0x2F, 0x6D3E, 0x5355], Dispatch),
     ([0x2F, 0x2F, 0x5206, 0x6D3E], Dispatch), (ascii ''//discuss'', Discuss), (ascii ''//discussion'',
       Discuss),
     ([0x2F, 0x2F, 0x8BA8, 0x8BBA], Discuss), ([0x2F, 0x2F, 0x8FA9, 0x8BBA], Discuss), (ascii ''//hybrid'',
       Hybrid),
     (ascii ''//mix'', Hybrid), (ascii ''//mixed'', Hybrid), ([0x2F, 0x2F, 0x6DF7, 0x5408], Hybrid)]"

definition vibe_directives :: "utext list" where
  "vibe_directives = [ascii ''//vi'', ascii ''//vibe'', ascii ''//vibecoding'', ascii ''//vibe-coding'', ascii ''//code'', ascii ''//coding'',
     [0x2F, 0x2F, 0x4EE3, 0x7801], [0x2F, 0x2F, 0x7F16, 0x7A0B], [0x2F, 0x2F, 0x4EE3, 0x7801, 0x534F, 0x4F5C]]"

definition help_directives :: "utext list" where
  "help_directives = [ascii ''help'', [0x5E2E, 0x52A9], [0x83DC, 0x5355], [0x6307, 0x4EE4], ascii ''//help'',
     [0x2F, 0x2F, 0x5E2E, 0x52A9], [0x2F, 0x2F, 0x83DC, 0x5355], [0x2F, 0x2F, 0x6307, 0x4EE4]]"

datatype directive = Mode_Directive utext | Vibe_Directive | Selector selector

definition parse_token :: "utext \<Rightarrow> directive option" where
  "parse_token token =
     (if token \<in> fst ` set legacy_modes \<or> lowered token \<in> fst ` set language_modes then Some (Mode_Directive token)
      else if lowered token \<in> set vibe_directives then Some Vibe_Directive
      else map_option Selector (parse_resource_token token))"

definition looks_like_channel_directive :: "utext \<Rightarrow> bool" where
  "looks_like_channel_directive token \<longleftrightarrow> starts_with (ascii ''//'') token \<or> starts_with (ascii ''/#'') token
     \<or> starts_with (ascii ''#'') token \<or> starts_with (ascii ''@'') token \<or> starts_with (ascii ''&'') token"

definition mode_from_directive :: "utext \<Rightarrow> task_mode option" where
  "mode_from_directive token =
     (case map_of legacy_modes token of Some m \<Rightarrow> Some m | None \<Rightarrow> map_of language_modes (lowered token))"

record channel_directives =
  cd_mode :: "task_mode option"
  cd_text :: utext
  cd_hints :: resource_hints
  cd_vibe :: bool
  cd_invalid :: "string option"

text \<open>
  The loop over the words: the mode so far, the selectors and the words consumed; it ends at the body
  (\<open>Body\<close>), at a word that looks like a directive and is none, or at a second mode.
\<close>

datatype scan_end = Body | Invalid_Directive | Conflicting_Modes

fun scan_directives ::
  "task_mode option \<Rightarrow> selector list \<Rightarrow> utext list \<Rightarrow> utext list \<Rightarrow> task_mode option \<times> selector list \<times> utext list \<times> utext list \<times> scan_end" where
  "scan_directives m ss used [] = (m, ss, used, [], Body)"
| "scan_directives m ss used (w # ws) =
     (case parse_token w of
        None \<Rightarrow> (m, ss, used, w # ws, if looks_like_channel_directive w then Invalid_Directive else Body)
      | Some (Mode_Directive token) \<Rightarrow>
          if m \<noteq> None \<and> m \<noteq> mode_from_directive token then (m, ss, used @ [w], ws, Conflicting_Modes)
          else scan_directives (mode_from_directive token) ss (used @ [w]) ws
      | Some Vibe_Directive \<Rightarrow> scan_directives m ss (used @ [w]) ws
      | Some (Selector s) \<Rightarrow> scan_directives m (ss @ [s]) (used @ [w]) ws)"

text \<open>An alias is replaced in the first word only.\<close>

definition apply_channel_command_aliases :: "(utext \<times> utext) list \<Rightarrow> utext \<Rightarrow> utext" where
  "apply_channel_command_aliases aliases t =
     (if aliases = [] \<or> trim t = [] then t
      else let s = trim t; first = takeWhile (\<lambda>c. \<not> blank c) s;
               rest = dropWhile blank (dropWhile (\<lambda>c. \<not> blank c) s) in
        case map_of (rev (map (\<lambda>(a, v). (lowered a, v)) aliases)) (lowered first) of
          None \<Rightarrow> t
        | Some r \<Rightarrow> if rest = [] then r else r @ [32] @ rest)"

definition no_hints :: resource_hints where
  "no_hints = \<lparr>rh_plugins = [], rh_mcp = [], rh_skills = []\<rparr>"

definition parse_channel_directives :: "(utext \<times> utext) list \<Rightarrow> utext \<Rightarrow> channel_directives" where
  "parse_channel_directives aliases raw =
     (let t = apply_channel_command_aliases aliases raw in
      if trim t = [] then \<lparr>cd_mode = None, cd_text = [], cd_hints = no_hints, cd_vibe = False,
        cd_invalid = Some ''empty_message''\<rparr>
      else case scan_directives None [] [] (words_of (trim t)) of (m, ss, used, rest, e) \<Rightarrow>
        (case e of
           Invalid_Directive \<Rightarrow> \<lparr>cd_mode = None, cd_text = join_with 32 rest, cd_hints = hints_of ss,
             cd_vibe = False, cd_invalid = Some ''invalid_directive''\<rparr>
         | Conflicting_Modes \<Rightarrow> \<lparr>cd_mode = None, cd_text = join_with 32 rest, cd_hints = hints_of ss,
             cd_vibe = False, cd_invalid = Some ''conflicting_modes''\<rparr>
         | Body \<Rightarrow>
             (let body = (if used = [] then t else join_with 32 rest);
                  vibe = list_ex (\<lambda>w. lowered w \<in> set vibe_directives) used in
              if body = [] then \<lparr>cd_mode = m, cd_text = [], cd_hints = hints_of ss, cd_vibe = vibe,
                cd_invalid = Some ''missing_task_text''\<rparr>
              else \<lparr>cd_mode = m, cd_text = body, cd_hints = hints_of ss, cd_vibe = vibe, cd_invalid = None\<rparr>)))"

section \<open>Aliases and help\<close>

definition alias_shorthand :: "(utext \<times> utext) list" where
  "alias_shorthand = [(ascii ''auto'', ascii ''//auto''), ([0x81EA, 0x52A8], [0x2F, 0x2F, 0x81EA, 0x52A8]),
    (ascii ''direct'', ascii ''//direct''),
     ([0x76F4, 0x8FDE], [0x2F, 0x2F, 0x76F4, 0x8FDE]), ([0x76F4, 0x63A5], [0x2F, 0x2F, 0x76F4, 0x63A5]),
       (ascii ''dispatch'', ascii ''//dispatch''),
     ([0x6D3E, 0x5355], [0x2F, 0x2F, 0x6D3E, 0x5355]), ([0x5206, 0x6D3E], [0x2F, 0x2F, 0x5206, 0x6D3E]),
       (ascii ''discuss'', ascii ''//discuss''),
     ([0x8BA8, 0x8BBA], [0x2F, 0x2F, 0x8BA8, 0x8BBA]), (ascii ''hybrid'', ascii ''//hybrid''), ([0x6DF7,
       0x5408], [0x2F, 0x2F, 0x6DF7, 0x5408]),
     (ascii ''vibe'', ascii ''//vi''), (ascii ''vi'', ascii ''//vi''), ([0x4EE3, 0x7801], ascii ''//vi''),
     (ascii ''help'', ascii ''//help''), ([0x5E2E, 0x52A9], [0x2F, 0x2F, 0x5E2E, 0x52A9]), ([0x83DC, 0x5355],
       [0x2F, 0x2F, 0x5E2E, 0x52A9]),
     ([0x6307, 0x4EE4], [0x2F, 0x2F, 0x5E2E, 0x52A9])]"

definition normalize_alias_target :: "utext \<Rightarrow> utext option" where
  "normalize_alias_target target =
     (let s = trim target; t = (case map_of alias_shorthand (lowered s) of Some v \<Rightarrow> v | None \<Rightarrow> s) in
      if lowered t \<in> set help_directives then Some t
      else if parse_token t = None then None else Some t)"

fun split_any :: "int list \<Rightarrow> utext \<Rightarrow> utext list" where
  "split_any seps [] = [[]]"
| "split_any seps (c # t) =
     (if c \<in> set seps then [] # split_any seps t
      else (case split_any seps t of [] \<Rightarrow> [[c]] | w # ws \<Rightarrow> (c # w) # ws))"

definition parse_alias :: "utext \<Rightarrow> (utext \<times> utext) option" where
  "parse_alias chunk =
     (let item = trim chunk; sep = (if 61 \<in> set item then Some 61 else if 58 \<in> set item then Some 58 else None) in
      case sep of None \<Rightarrow> None
      | Some s \<Rightarrow>
          let alias = trim (takeWhile (\<lambda>c. c \<noteq> s) item); target = trim (tl (dropWhile (\<lambda>c. c \<noteq> s) item)) in
          if alias = [] \<or> list_ex blank alias then None
          else map_option (Pair alias) (normalize_alias_target target))"

definition parse_command_aliases :: "utext option \<Rightarrow> (utext \<times> utext) list" where
  "parse_command_aliases v = (case v of None \<Rightarrow> []
    | Some t \<Rightarrow> fold (\<lambda>chunk d. case parse_alias chunk of None \<Rightarrow> d | Some (a, x) \<Rightarrow> AList.update a x d)
        (split_any [10, 44, 59, 0xFF0C, 0xFF1B] t) [])"

definition is_channel_help_request :: "(utext \<times> utext) list \<Rightarrow> utext \<Rightarrow> bool" where
  "is_channel_help_request aliases t \<longleftrightarrow>
     lowered (trim (apply_channel_command_aliases aliases t)) \<in> set help_directives"

definition joined :: "utext \<Rightarrow> utext list \<Rightarrow> utext" where
  "joined sep ws = (case ws of [] \<Rightarrow> [] | w # vs \<Rightarrow> w @ concat (map (\<lambda>v. sep @ v) vs))"

definition help_lines :: "utext list" where
  "help_lines =
     [([0x98DE, 0x4E66, 0x5165, 0x53E3, 0x63D0, 0x793A, 0xFF1A, 0x6D88, 0x606F, 0x4F1A, 0x5148, 0x4EA4,
       0x7ED9, 0x4E3B] @ ascii '' Agent '' @ [0x5224, 0x65AD, 0x6A21, 0x5F0F, 0x3001, 0x8BA1, 0x5212, 0x3001]
       @ ascii ''OpenClaw '' @ [0x6216] @ ascii '' Vibe Coding'' @ [0x3002]),
      ([0x8D44, 0x6E90, 0x9009, 0x62E9, 0x5668, 0xFF1A, 0x53EA, 0x5728, 0x6D88, 0x606F, 0x5F00, 0x5934,
        0x8FDE, 0x7EED, 0x5199] @ ascii '' @plugin'' @ [0x3001] @ ascii ''&skill'' @ [0x3001] @ ascii
        ''#mcp'' @ [0xFF1B, 0x6B63, 0x6587, 0x5F00, 0x59CB, 0x540E, 0x51FA, 0x73B0, 0x7684, 0x20, 0x40,
        0x3001, 0x26, 0x3001, 0x23, 0x20, 0x4E0D, 0x4F1A, 0x88AB, 0x5F53, 0x6210, 0x8C03, 0x7528, 0x3002]),
      ([0x793A, 0x4F8B, 0xFF1A] @ ascii ''@github &research #filesystem '' @ [0x68B3, 0x7406, 0x8FD9, 0x4E2A,
        0x4ED3, 0x5E93, 0x7684, 0x6539, 0x9020, 0x8BA1, 0x5212, 0x3002]),
      [0x5E2E, 0x52A9, 0xFF1A, 0x53D1, 0x9001, 0x20, 0x5E2E, 0x52A9, 0x3001, 0x83DC, 0x5355, 0x20, 0x6216,
        0x20, 0x6307, 0x4EE4, 0xFF0C, 0x4F1A, 0x8FD4, 0x56DE, 0x8FD9, 0x4EFD, 0x83DC, 0x5355, 0x4E14, 0x4E0D,
        0x4F1A, 0x521B, 0x5EFA, 0x4EFB, 0x52A1, 0x3002]]"

definition command_help_text :: "(utext \<times> utext) list \<Rightarrow> utext" where
  "command_help_text aliases =
     (let items = map (\<lambda>(a, v). a @ [61] @ v) (sort aliases) in
      joined [10] (help_lines @
        (if items = [] then [([0x5165, 0x53E3, 0x522B, 0x540D, 0xFF1A, 0x53EF, 0x5728, 0x901A, 0x9053,
          0x914D, 0x7F6E, 0x91CC, 0x7EF4, 0x62A4, 0x77ED, 0x522B, 0x540D, 0xFF0C, 0x5B9E, 0x9645, 0x4EFB,
          0x52A1, 0x4ECD, 0x7531, 0x4E3B] @ ascii '' Agent '' @ [0x5224, 0x65AD, 0x5165, 0x53E3, 0x3002])]
         else ([0x5F53, 0x524D, 0x81EA, 0x5B9A, 0x4E49, 0x5165, 0x53E3, 0x522B, 0x540D, 0xFF1A] @ joined
           [0xFF0C] (take 12 items)) #
           (if length items > 12
            then [[0x8FD8, 0x6709, 0x20] @ ascii (nat_text (length items - 12)) @ [0x20, 0x6761, 0x522B,
              0x540D, 0x672A, 0x5C55, 0x793A, 0xFF0C, 0x53EF, 0x5728, 0x901A, 0x9053, 0x914D, 0x7F6E, 0x4E2D,
              0x67E5, 0x770B, 0x3002]]
            else []))))"

fun mode_label :: "task_mode option \<Rightarrow> utext" where
  "mode_label (Some Direct) = ([0x76F4, 0x63A5, 0x56DE, 0x7B54, 0xFF08] @ ascii ''direct'' @ [0xFF09])"
| "mode_label (Some Dispatch) = ([0x6D3E, 0x5355, 0x6A21, 0x5F0F, 0xFF08] @ ascii ''dispatch'' @ [0xFF09])"
| "mode_label (Some Discuss) = ([0x8BA8, 0x8BBA, 0x6A21, 0x5F0F, 0xFF08] @ ascii ''discuss'' @ [0xFF09])"
| "mode_label (Some Hybrid) = ([0x6DF7, 0x5408, 0x6A21, 0x5F0F, 0xFF08] @ ascii ''hybrid'' @ [0xFF09])"
| "mode_label _ = [0x81EA, 0x52A8, 0x5224, 0x65AD]"

definition reason_text :: "string \<Rightarrow> utext" where
  "reason_text reason =
     (if reason = ''conflicting_modes''
      then ([0x68C0, 0x6D4B, 0x5230, 0x591A, 0x4E2A, 0x8FD0, 0x884C, 0x6A21, 0x5F0F, 0xFF0C, 0x8BF7, 0x53EA,
        0x9009, 0x62E9, 0x4E00, 0x4E2A, 0xFF0C, 0x4F8B, 0x5982] @ ascii '' /dispatch '' @ [0x6216] @ ascii
        '' /discuss'' @ [0x3002])
      else if reason = ''missing_task_text''
      then ([0x7F3A, 0x5C11, 0x4EFB, 0x52A1, 0x6B63, 0x6587, 0xFF0C, 0x8BF7, 0x5728, 0x6A21, 0x5F0F, 0x3001,
        0x63D2, 0x4EF6, 0x3001] @ ascii ''MCP '' @ [0x6216] @ ascii '' Skill '' @ [0x6307, 0x4EE4, 0x540E,
        0x5199, 0x6E05, 0x695A, 0x8981, 0x505A, 0x4EC0, 0x4E48, 0x3002])
      else if reason = ''empty_message'' then [0x6D88, 0x606F, 0x5185, 0x5BB9, 0x4E3A, 0x7A7A, 0x3002]
      else if reason = ''invalid_directive''
      then ([0x8D44, 0x6E90, 0x9009, 0x62E9, 0x5668, 0x683C, 0x5F0F, 0x4E0D, 0x6B63, 0x786E, 0x3002, 0x8BF7,
        0x5728, 0x6D88, 0x606F, 0x5F00, 0x5934, 0x4F7F, 0x7528] @ ascii '' #name '' @ [0x6307, 0x5B9A] @
        ascii '' MCP'' @ [0x3001] @ ascii ''&name '' @ [0x6307, 0x5B9A] @ ascii '' Skill'' @ [0x3001] @ ascii
        ''@name '' @ [0x6307, 0x5B9A, 0x63D2, 0x4EF6, 0xFF1B, 0x540D, 0x79F0, 0x53EF, 0x4EE5, 0x5305, 0x542B,
        0x5B57, 0x6BCD, 0x3001, 0x6570, 0x5B57, 0x3001, 0x70B9, 0x3001, 0x4E0B, 0x5212, 0x7EBF, 0x548C,
        0x77ED, 0x6A2A, 0x7EBF, 0x3002])
      else ascii reason)"

definition directive_summary :: "channel_directives \<Rightarrow> (utext \<times> utext) list \<Rightarrow> utext" where
  "directive_summary d aliases = (case cd_invalid d of
      Some reason \<Rightarrow> [0x5165, 0x53E3, 0x63D0, 0x793A, 0x6709, 0x8BEF, 0xFF1A] @ reason_text reason
    | None \<Rightarrow>
        (let part = (\<lambda>label vs. if vs = [] then [] else [ascii label @ joined (ascii '', '') (map ascii vs)]) in
         joined [10] ([([0x5DF2, 0x6536, 0x5230, 0xFF0C, 0x4E3B] @ ascii '' Agent '' @ [0x5C06, 0x5148,
           0x5224, 0x65AD, 0x5165, 0x53E3, 0xFF1B, 0x68C0, 0x6D4B, 0x5230, 0x6A21, 0x5F0F, 0x63D0, 0x793A,
           0x3D]) @ mode_label (cd_mode d)]
           @ part ''Skills: '' (rh_skills (cd_hints d)) @ part ''MCP: '' (rh_mcp (cd_hints d))
           @ part ''Plugins: '' (rh_plugins (cd_hints d)) @ (if cd_vibe d then [ascii ''Vibe Coding: enabled''] else [])
           @ [([0x8FD9, 0x4E9B, 0x4FE1, 0x606F, 0x4EC5, 0x4F5C, 0x4E3A, 0x5165, 0x53E3, 0x63D0, 0x793A,
             0xFF1B, 0x6700, 0x7EC8, 0x4ECD, 0x7531, 0x4E3B] @ ascii '' Agent '' @ [0x7ED3, 0x5408, 0x4E0A,
             0x4E0B, 0x6587, 0x5224, 0x65AD, 0x3002]), command_help_text aliases])))"

end
