(* ===== verification/Channel_Submitter.thy ===== *)
theory Channel_Submitter
  imports Channel_Messages Account_Service
begin

text \<open>
  From a channel message to a run: \<open>RunServiceInboundSubmitter\<close> of \<open>channels/submitter.py\<close>, the
  resolution of a sender of \<open>channels/identity.py\<close>, and how the runtime reads the requested skills
  back (\<open>runtime/defaults.py\<close>, \<open>runtime/role_planner.py\<close>). The name based identifiers (\<open>uuid5\<close>) and
  SHA-256 are functions of the hub's configuration.
\<close>

record channel_hub =
  ch_runs :: run_service
  ch_tenant :: uuid
  ch_identities :: bool
  ch_uuid5 :: "string \<Rightarrow> uuid"
  ch_sha256 :: "string \<Rightarrow> string"
  ch_str :: "json \<Rightarrow> string"

section \<open>Who sent it\<close>

definition resolve_actor_id :: "uuid \<Rightarrow> channel \<Rightarrow> string \<Rightarrow> account_db \<Rightarrow> uuid option" where
  "resolve_actor_id tenant ch sender db =
     (if ch \<noteq> Feishu then None
      else map_option ur_id (find (\<lambda>r. ur_tenant r = tenant \<and> ur_open_id r = Some sender \<and> \<not> ur_disabled r) (ac_users db)))"

definition channel_conversation_id :: "channel_hub \<Rightarrow> inbound_message \<Rightarrow> string" where
  "channel_conversation_id ch m =
     ''ch-'' @ channel_text (im_channel m) @ ''-'' @ uuid_hex (ch_uuid5 ch
       (''agent-hub:channel-conversation:'' @ channel_text (im_channel m) @ '':'' @ im_tenant m @ '':'' @ im_conversation m))"

definition channel_actor_id :: "channel_hub \<Rightarrow> inbound_message \<Rightarrow> uuid" where
  "channel_actor_id ch m = ch_uuid5 ch
     (''agent-hub:channel:'' @ channel_text (im_channel m) @ '':'' @ im_tenant m @ '':'' @ im_sender m)"

section \<open>What it says\<close>

definition digit_point :: "int \<Rightarrow> bool" where
  "digit_point c \<longleftrightarrow> 48 \<le> c \<and> c \<le> 57"

definition small_number :: "utext \<Rightarrow> bool" where
  "small_number t \<longleftrightarrow> t \<noteq> [] \<and> length t \<le> 3 \<and> list_all digit_point t \<and> hd t \<noteq> 48"

definition drop_one_of :: "utext list \<Rightarrow> utext \<Rightarrow> utext" where
  "drop_one_of ws t = (case find (\<lambda>w. starts_with w t) ws of None \<Rightarrow> t | Some w \<Rightarrow> drop (length w) t)"

definition numeric_choice_key :: "utext \<Rightarrow> string option" where
  "numeric_choice_key t =
     (let s = trim t in
      if s = [] then None
      else if small_number s then Some (ascii_part s)
      else let a = dropWhile blank (drop_one_of [[0x9009, 0x62E9], [0x9009]] s);
               b = dropWhile blank (drop_one_of [[0x7B2C]] a);
               n = takeWhile digit_point b;
               c = drop_one_of [[0x9879], [0x4E2A], [0x53F7]] (dropWhile blank (dropWhile digit_point b));
               d = drop_one_of [ascii ''.'', [0x3002], ascii '')'', [0x3001], [0xFF0C], ascii '',''] c in
        if small_number n \<and> d = [] then Some (ascii_part n) else None)"

definition agent_hub_attachment_ids :: "inbound_message \<Rightarrow> string list" where
  "agent_hub_attachment_ids m =
     first_kept (filter (\<lambda>k. starts_with ''att_'' k \<and> length k = 36 \<and> list_all (char_in ''0123456789abcdef'') (drop 4 k))
       (map ia_key (im_attachments m)))"

definition attachment_line :: "inbound_attachment \<Rightarrow> utext" where
  "attachment_line a =
     ascii (''- kind='' @ attachment_kind_text (ia_kind a) @ ''; external_key='' @ ia_key a @ ''; filename='')
       @ (case ia_filename a of Some (c # f) \<Rightarrow> c # f | _ \<Rightarrow> ascii ''unknown'') @ ascii ''; mime=''
       @ (case ia_mime a of Some (c # f) \<Rightarrow> c # f | _ \<Rightarrow> ascii ''unknown'')"

definition message_with_attachment_manifest :: "utext \<Rightarrow> inbound_message \<Rightarrow> utext" where
  "message_with_attachment_manifest task m =
     (if im_attachments m = [] then task
      else task @ [10] @ joined [10] ([] # ascii ''Channel attachments:'' # map attachment_line (im_attachments m)))"

definition comma_joined :: "string list \<Rightarrow> string" where
  "comma_joined vs = join_with CHR '','' vs"

definition channel_context :: "inbound_message \<Rightarrow> resource_hints \<Rightarrow> string \<Rightarrow> (string \<times> string) list" where
  "channel_context m h resolution =
     [(''source_channel'', channel_text (im_channel m)), (''channel_tenant_external_id'', im_tenant m),
      (''channel_sender_external_id'', im_sender m), (''channel_conversation_external_id'', im_conversation m),
      (''channel_message_id'', im_message m), (''channel_event_id'', im_event m),
      (''channel_conversation_type'', conversation_type_text (im_type m)),
      (''channel_entry_policy'', ''main_agent_decides''), (''channel_identity_resolution'', resolution)]
     @ (if rh_skills h = [] then [] else [(''requested_skills'', comma_joined (rh_skills h))])
     @ (if rh_mcp h = [] then [] else [(''requested_mcp_servers'', comma_joined (rh_mcp h))])
     @ (if rh_plugins h = [] then [] else [(''requested_plugins'', comma_joined (rh_plugins h))])"

section \<open>Submitting\<close>

datatype channel_error = Directive_Error string | Submission_Error "string + run_error"

definition message_actor :: "channel_hub \<Rightarrow> account_db \<Rightarrow> inbound_message \<Rightarrow> uuid \<times> string" where
  "message_actor ch accounts m =
     (case (if ch_identities ch then resolve_actor_id (ch_tenant ch) (im_channel m) (im_sender m) accounts else None) of
        Some u \<Rightarrow> (u, ''bound_user'')
      | None \<Rightarrow> (channel_actor_id ch m, ''derived_channel_actor''))"

definition message_submission :: "channel_hub \<Rightarrow> account_db \<Rightarrow> inbound_message \<Rightarrow> string \<Rightarrow> submission" where
  "message_submission ch accounts m key =
     (let task = trim (im_text m); (actor, resolution) = message_actor ch accounts m in
      \<lparr>sb_tenant = ch_tenant ch, sb_actor = actor, sb_message = message_with_attachment_manifest task m, sb_mode = Auto,
       sb_agents = [], sb_workflow = None, sb_adjust = False,
       sb_conversation = Some (channel_conversation_id ch m), sb_reference = None,
       sb_attachments = agent_hub_attachment_ids m, sb_model = None, sb_vibe = False, sb_skip_evolution = False,
       sb_context = Some (channel_context m (parse_channel_resource_hints task) resolution), sb_key = Some key\<rparr>)"

definition submit_new_task ::
  "channel_hub \<Rightarrow> account_db \<Rightarrow> inbound_message \<Rightarrow> string \<Rightarrow> draws \<Rightarrow> run_db \<Rightarrow> channel_error + (run_db \<times> uuid)" where
  "submit_new_task ch accounts m key dr db =
     (case submit (ch_runs ch) (message_submission ch accounts m key) dr db of
        Inl e \<Rightarrow> Inl (Submission_Error e)
      | Inr (db', rc) \<Rightarrow> Inr (db', rc_id rc))"

definition channel_submit ::
  "channel_hub \<Rightarrow> account_db \<Rightarrow> inbound_message \<Rightarrow> string \<Rightarrow> draws \<Rightarrow> run_db \<Rightarrow> channel_error + (run_db \<times> uuid)" where
  "channel_submit ch accounts m key dr db =
     (let task = trim (im_text m); fresh = submit_new_task ch accounts m key dr db in
      if task = [] then Inl (Directive_Error ''empty_message'')
      else case numeric_choice_key task of
        None \<Rightarrow> fresh
      | Some k \<Rightarrow>
          (case choose_latest_choice_for_conversation (ch_runs ch) (ch_str ch) (ch_tenant ch)
              (fst (message_actor ch accounts m)) (channel_conversation_id ch m) k (Some ''channel_numeric_choice'')
              (dr_outbox dr) (dr_now dr) db of
             Inl e \<Rightarrow> Inl (Submission_Error (Inr e))
           | Inr (Some (db', rc)) \<Rightarrow> Inr (db', rc_id rc)
           | Inr None \<Rightarrow> fresh))"

section \<open>Reading the requested skills back\<close>

text \<open>\<open>_requested_skills\<close> on a stored decision, and the check \<open>RolePlanningRequest\<close> makes of the names.\<close>

definition requested_skills :: "(string \<times> json) list \<Rightarrow> string list" where
  "requested_skills d = (case json_get d ''requested_skills'' of
      Some (JStr v) \<Rightarrow> filter (\<lambda>s. s \<noteq> []) (map py_strip (split_on CHR '','' v))
    | Some (JArr js) \<Rightarrow> List.map_filter (\<lambda>j. case j of JStr (c # s) \<Rightarrow> Some (c # s) | _ \<Rightarrow> None) js
    | _ \<Rightarrow> [])"

definition planner_identifier :: "string \<Rightarrow> bool" where
  "planner_identifier v \<longleftrightarrow> ident_match lower_alnum (lower_alnum @ ''_-'') 127 v"

definition normalize_identifier_tuple :: "string list \<Rightarrow> (string list) option" where
  "normalize_identifier_tuple vs =
     (if list_all planner_identifier vs \<and> distinct vs then Some vs else None)"

end
