(* ===== verification/Channel_Delivery.thy ===== *)
theory Channel_Delivery
  imports Channel_Submitter
begin

text \<open>
  Deliveries of channel messages: the table of reservations of \<open>channels/dedup.py\<close> with its unique
  keys, and \<open>ChannelGateway.handle\<close> of \<open>channels/gateway.py\<close> as it runs for many deliveries at once.
  Each \<open>await\<close> on the database or the submitter is one step of one delivery; between two steps other
  deliveries, the run service and the administration may move. A step can also raise, before or after
  its transaction is committed, and a delivery can be cancelled between any two steps.
\<close>

section \<open>Reservations\<close>

datatype dedup_status = Reserved | Submitted | Handled

record dedup_row =
  dd_id :: uuid
  dd_channel :: channel
  dd_tenant :: string
  dd_event :: string
  dd_message :: string
  dd_run :: "uuid option"
  dd_status :: dedup_status
  dd_key :: string
  dd_created :: instant
  dd_completed :: "instant option"

record dedup_reservation =
  rv_id :: uuid
  rv_new :: bool
  rv_run :: "uuid option"
  rv_key :: string

definition idempotency_key :: "channel_hub \<Rightarrow> inbound_message \<Rightarrow> string" where
  "idempotency_key ch m = ''channel:'' @ ch_sha256 ch
     (channel_text (im_channel m) @ [CHR 0x00] @ im_tenant m @ [CHR 0x00] @ im_event m)"

definition dedup_matches :: "inbound_message \<Rightarrow> dedup_row \<Rightarrow> bool" where
  "dedup_matches m r \<longleftrightarrow> dd_channel r = im_channel m \<and> dd_tenant r = im_tenant m
     \<and> (dd_event r = im_event m \<or> dd_message r = im_message m)"

definition find_existing :: "inbound_message \<Rightarrow> dedup_row list \<Rightarrow> dedup_row option" where
  "find_existing m rows =
     (case sort_key (\<lambda>r. (dd_created r, dd_id r)) (filter (dedup_matches m) rows) of [] \<Rightarrow> None | r # _ \<Rightarrow> Some r)"

definition event_key :: "dedup_row \<Rightarrow> channel \<times> string \<times> string" where
  "event_key r = (dd_channel r, dd_tenant r, dd_event r)"

definition message_key :: "dedup_row \<Rightarrow> channel \<times> string \<times> string" where
  "message_key r = (dd_channel r, dd_tenant r, dd_message r)"

text \<open>\<open>None\<close> is the \<open>IntegrityError\<close> of the unique keys.\<close>

definition insert_dedup :: "dedup_row \<Rightarrow> dedup_row list \<Rightarrow> dedup_row list option" where
  "insert_dedup r rows =
     (if list_ex (\<lambda>x. dd_id r = dd_id x \<or> event_key r = event_key x \<or> message_key r = message_key x) rows
      then None else Some (rows @ [r]))"

definition reserved_row :: "channel_hub \<Rightarrow> inbound_message \<Rightarrow> uuid \<Rightarrow> instant \<Rightarrow> dedup_row" where
  "reserved_row ch m rid now = \<lparr>dd_id = rid, dd_channel = im_channel m, dd_tenant = im_tenant m,
     dd_event = im_event m, dd_message = im_message m, dd_run = None, dd_status = Reserved,
     dd_key = idempotency_key ch m, dd_created = now, dd_completed = None\<rparr>"

definition reservation_from_existing :: "dedup_row \<Rightarrow> dedup_reservation" where
  "reservation_from_existing r = \<lparr>rv_id = dd_id r, rv_new = False, rv_run = dd_run r, rv_key = dd_key r\<rparr>"

text \<open>\<open>_reserve_once\<close> when nothing comes between its two statements.\<close>

definition reserve_once ::
  "channel_hub \<Rightarrow> inbound_message \<Rightarrow> uuid \<Rightarrow> instant \<Rightarrow> dedup_row list \<Rightarrow> (dedup_row list \<times> dedup_reservation) option" where
  "reserve_once ch m rid now rows =
     (case find_existing m rows of
        Some r \<Rightarrow> Some (rows, reservation_from_existing r)
      | None \<Rightarrow> map_option (\<lambda>rows'. (rows', \<lparr>rv_id = rid, rv_new = True, rv_run = None, rv_key = idempotency_key ch m\<rparr>))
          (insert_dedup (reserved_row ch m rid now) rows))"

definition update_dedup :: "uuid \<Rightarrow> (dedup_row \<Rightarrow> dedup_row) \<Rightarrow> dedup_row list \<Rightarrow> dedup_row list option" where
  "update_dedup rid f rows =
     (if list_ex (\<lambda>r. dd_id r = rid) rows then Some (map (\<lambda>r. if dd_id r = rid then f r else r) rows) else None)"

definition mark_submitted :: "uuid \<Rightarrow> uuid \<Rightarrow> dedup_row list \<Rightarrow> dedup_row list option" where
  "mark_submitted rid run = update_dedup rid (\<lambda>r. r\<lparr>dd_run := Some run, dd_status := Submitted\<rparr>)"

definition mark_completed :: "uuid \<Rightarrow> instant \<Rightarrow> dedup_row list \<Rightarrow> dedup_row list option" where
  "mark_completed rid now = update_dedup rid (\<lambda>r. r\<lparr>dd_status := Handled, dd_completed := Some now\<rparr>)"

definition release_reservation :: "uuid \<Rightarrow> dedup_row list \<Rightarrow> dedup_row list" where
  "release_reservation rid rows = filter (\<lambda>r. \<not> (dd_id r = rid \<and> dd_status r = Reserved \<and> dd_run r = None)) rows"

definition run_of_reservation :: "uuid \<Rightarrow> dedup_row list \<Rightarrow> uuid option" where
  "run_of_reservation rid rows = (case find (\<lambda>r. dd_id r = rid) rows of None \<Rightarrow> None | Some r \<Rightarrow> dd_run r)"

text \<open>What the polls see, with the time of each; the deadline is tested after a poll that finds nothing.\<close>

fun wait_for_run_id :: "uuid \<Rightarrow> rat \<Rightarrow> (rat \<times> dedup_row list) list \<Rightarrow> uuid option" where
  "wait_for_run_id rid deadline [] = None"
| "wait_for_run_id rid deadline ((t, rows) # polls) =
     (case run_of_reservation rid rows of
        Some r \<Rightarrow> Some r
      | None \<Rightarrow> if deadline \<le> t then None else wait_for_run_id rid deadline polls)"

definition completed_before :: "instant \<Rightarrow> dedup_row \<Rightarrow> bool" where
  "completed_before cutoff r \<longleftrightarrow> dd_status r = Handled
     \<and> (case dd_completed r of None \<Rightarrow> False | Some t \<Rightarrow> t < cutoff)"

definition cleanup_completed_older_than :: "instant \<Rightarrow> dedup_row list \<Rightarrow> dedup_row list \<times> nat" where
  "cleanup_completed_older_than cutoff rows =
     (filter (\<lambda>r. \<not> completed_before cutoff r) rows, length (filter (completed_before cutoff) rows))"

section \<open>One delivery\<close>

record gateway_result =
  gr_accepted :: bool
  gr_duplicate :: bool
  gr_run :: "uuid option"
  gr_reason :: "string option"

datatype answer = Returned gateway_result | Raised

definition not_addressed :: answer where
  "not_addressed = Returned \<lparr>gr_accepted = False, gr_duplicate = False, gr_run = None,
     gr_reason = Some ''group_message_without_bot_mention''\<rparr>"

definition pending_timeout :: answer where
  "pending_timeout = Returned \<lparr>gr_accepted = True, gr_duplicate = True, gr_run = None,
     gr_reason = Some ''duplicate_pending_timeout''\<rparr>"

definition duplicate_of :: "uuid \<Rightarrow> answer" where
  "duplicate_of run = Returned \<lparr>gr_accepted = True, gr_duplicate = True, gr_run = Some run, gr_reason = None\<rparr>"

definition accepted_as :: "uuid \<Rightarrow> answer" where
  "accepted_as run = Returned \<lparr>gr_accepted = True, gr_duplicate = False, gr_run = Some run, gr_reason = None\<rparr>"

definition refused_for :: "string \<Rightarrow> answer" where
  "refused_for reason = Returned \<lparr>gr_accepted = False, gr_duplicate = False, gr_run = None, gr_reason = Some reason\<rparr>"

text \<open>
  Where a delivery stands. \<open>Looking n\<close> and \<open>Inserting n t\<close> are the two statements of the attempt to
  reserve with \<open>n\<close> attempts left, the transaction begun at \<open>t\<close>; \<open>Vanished\<close> is a cancelled task.
\<close>

datatype stage = Looking nat | Inserting nat instant | Reloading | Submitting uuid string | Marking uuid uuid
  | Releasing uuid answer | Awaiting uuid | Answered answer | Vanished

record hub_state =
  hb_used :: "uuid list"
  hb_rows :: "dedup_row list"
  hb_runs :: run_db
  hb_accounts :: account_db

definition first_stage :: "inbound_message \<Rightarrow> stage" where
  "first_stage m = (if should_accept m then Looking 2 else Answered not_addressed)"

definition after_found :: "dedup_row \<Rightarrow> stage" where
  "after_found r = (case rv_run (reservation_from_existing r) of
      Some run \<Rightarrow> Answered (duplicate_of run)
    | None \<Rightarrow> Awaiting (rv_id (reservation_from_existing r)))"

inductive delivery_step ::
  "channel_hub \<Rightarrow> inbound_message \<Rightarrow> hub_state \<Rightarrow> stage \<Rightarrow> hub_state \<Rightarrow> stage \<Rightarrow> bool"
  for ch m where
  look_found: "find_existing m (hb_rows s) = Some r \<Longrightarrow> delivery_step ch m s (Looking n) s (after_found r)"
| look_none: "find_existing m (hb_rows s) = None \<Longrightarrow> delivery_step ch m s (Looking n) s (Inserting n now)"
| insert_ok: "insert_dedup (reserved_row ch m rid t) (hb_rows s) = Some rows \<Longrightarrow> rid \<notin> set (hb_used s) \<Longrightarrow>
    delivery_step ch m s (Inserting n t) (s\<lparr>hb_used := rid # hb_used s, hb_rows := rows\<rparr>)
      (Submitting rid (idempotency_key ch m))"
| insert_lost: "insert_dedup (reserved_row ch m rid t) (hb_rows s) = Some rows \<Longrightarrow> rid \<notin> set (hb_used s) \<Longrightarrow>
    delivery_step ch m s (Inserting n t) (s\<lparr>hb_used := rid # hb_used s, hb_rows := rows\<rparr>) (Answered Raised)"
| insert_conflict: "insert_dedup (reserved_row ch m rid t) (hb_rows s) = None \<Longrightarrow> rid \<notin> set (hb_used s) \<Longrightarrow>
    delivery_step ch m s (Inserting n t) s (if n \<le> 1 then Reloading else Looking (n - 1))"
| reload_found: "find_existing m (hb_rows s) = Some r \<Longrightarrow> delivery_step ch m s Reloading s (after_found r)"
| reload_none: "find_existing m (hb_rows s) = None \<Longrightarrow> delivery_step ch m s Reloading s (Answered Raised)"
| submit_ok: "channel_submit ch (hb_accounts s) m k dr (hb_runs s) = Inr (db, run) \<Longrightarrow>
    delivery_step ch m s (Submitting rid k) (s\<lparr>hb_runs := db\<rparr>) (Marking rid run)"
| submit_lost: "channel_submit ch (hb_accounts s) m k dr (hb_runs s) = Inr (db, run) \<Longrightarrow>
    delivery_step ch m s (Submitting rid k) (s\<lparr>hb_runs := db\<rparr>) (Releasing rid Raised)"
| submit_refused: "channel_submit ch (hb_accounts s) m k dr (hb_runs s) = Inl (Directive_Error e) \<Longrightarrow>
    delivery_step ch m s (Submitting rid k) s (Releasing rid (refused_for e))"
| submit_error: "channel_submit ch (hb_accounts s) m k dr (hb_runs s) = Inl (Submission_Error e) \<Longrightarrow>
    delivery_step ch m s (Submitting rid k) s (Releasing rid Raised)"
| submit_failed: "delivery_step ch m s (Submitting rid k) s (Releasing rid Raised)"
| mark_ok: "mark_submitted rid run (hb_rows s) = Some rows \<Longrightarrow>
    delivery_step ch m s (Marking rid run) (s\<lparr>hb_rows := rows\<rparr>) (Answered (accepted_as run))"
| mark_lost: "mark_submitted rid run (hb_rows s) = Some rows \<Longrightarrow>
    delivery_step ch m s (Marking rid run) (s\<lparr>hb_rows := rows\<rparr>) (Releasing rid Raised)"
| mark_failed: "delivery_step ch m s (Marking rid run) s (Releasing rid Raised)"
| release_ok: "delivery_step ch m s (Releasing rid a) (s\<lparr>hb_rows := release_reservation rid (hb_rows s)\<rparr>) (Answered a)"
| release_failed: "delivery_step ch m s (Releasing rid a) s (Answered a)"
| poll_hit: "run_of_reservation rid (hb_rows s) = Some run \<Longrightarrow>
    delivery_step ch m s (Awaiting rid) s (Answered (duplicate_of run))"
| poll_timeout: "run_of_reservation rid (hb_rows s) = None \<Longrightarrow>
    delivery_step ch m s (Awaiting rid) s (Answered pending_timeout)"
| database_error: "st \<in> {Looking n, Inserting n t, Reloading, Awaiting rid} \<Longrightarrow>
    delivery_step ch m s st s (Answered Raised)"
| cancelled: "(\<forall>a. st \<noteq> Answered a) \<Longrightarrow> delivery_step ch m s st s Vanished"

inductive_cases delivery_stepE: "delivery_step ch m s st s' st'"
inductive_cases submitting_stepE: "delivery_step ch m s (Submitting rid k) s' st'"

section \<open>Many deliveries\<close>

record channel_system =
  cy_state :: hub_state
  cy_deliveries :: "(inbound_message \<times> stage) list"

inductive channel_step ::
  "(pyfloat \<Rightarrow> string) \<Rightarrow> (string \<Rightarrow> (string \<times> json) list) \<Rightarrow> channel_hub \<Rightarrow> channel_system \<Rightarrow> channel_system \<Rightarrow> bool"
  for ft diag ch where
  arrive: "channel_step ft diag ch y (y\<lparr>cy_deliveries := cy_deliveries y @ [(m, first_stage m)]\<rparr>)"
| deliver: "i < length (cy_deliveries y) \<Longrightarrow> cy_deliveries y ! i = (m, st) \<Longrightarrow>
    delivery_step ch m (cy_state y) st s st' \<Longrightarrow>
    channel_step ft diag ch y (y\<lparr>cy_state := s, cy_deliveries := (cy_deliveries y)[i := (m, st')]\<rparr>)"
| run_moves: "store_step ft diag (hb_runs (cy_state y)) db \<Longrightarrow>
    channel_step ft diag ch y (y\<lparr>cy_state := (cy_state y)\<lparr>hb_runs := db\<rparr>\<rparr>)"
| account_moves: "channel_step ft diag ch y (y\<lparr>cy_state := (cy_state y)\<lparr>hb_accounts := accounts\<rparr>\<rparr>)"

inductive_cases channel_stepE: "channel_step ft diag ch y y'"

inductive channel_reachable ::
  "(pyfloat \<Rightarrow> string) \<Rightarrow> (string \<Rightarrow> (string \<times> json) list) \<Rightarrow> channel_hub \<Rightarrow> channel_system \<Rightarrow> channel_system \<Rightarrow> bool"
  for ft diag ch y where
  here: "channel_reachable ft diag ch y y"
| further: "channel_reachable ft diag ch y y' \<Longrightarrow> channel_step ft diag ch y' y'' \<Longrightarrow> channel_reachable ft diag ch y y''"

definition empty_system :: channel_system where
  "empty_system = \<lparr>cy_state = \<lparr>hb_used = [], hb_rows = [], hb_runs = empty_db,
     hb_accounts = \<lparr>ac_users = [], ac_codes = []\<rparr>\<rparr>, cy_deliveries = []\<rparr>"

end
