(* ===== verification/Delivery_Guarantees.thy ===== *)
theory Delivery_Guarantees
  imports Channel_Delivery Submission_Guarantees Account_Guarantees
begin

text \<open>
  What holds of every interleaving of channel deliveries: the table of reservations keeps its keys, a
  reservation has one owner, every delivery that was told a run finds it in the table. From this:
  deliveries of one event are told one run, a retried submission gets the run of the first, and a
  reservation whose owner is gone blocks its event. Then the way of the selectors to the planner.
\<close>

section \<open>Rows and owners\<close>

definition rows_sound :: "uuid list \<Rightarrow> dedup_row list \<Rightarrow> bool" where
  "rows_sound used rows \<longleftrightarrow> distinct (map dd_id rows) \<and> dd_id ` set rows \<subseteq> set used
     \<and> distinct (map event_key rows) \<and> distinct (map message_key rows)
     \<and> list_all (\<lambda>r. dd_status r = Reserved \<longleftrightarrow> dd_run r = None) rows"

definition belongs :: "inbound_message \<Rightarrow> dedup_row \<Rightarrow> bool" where
  "belongs m r \<longleftrightarrow> event_key r = (im_channel m, im_tenant m, im_event m)
     \<and> message_key r = (im_channel m, im_tenant m, im_message m)"

fun owned :: "stage \<Rightarrow> uuid option" where
  "owned (Submitting rid k) = Some rid"
| "owned (Marking rid run) = Some rid"
| "owned (Releasing rid a) = Some rid"
| "owned _ = None"

definition same_keys :: "dedup_row \<Rightarrow> dedup_row \<Rightarrow> bool" where
  "same_keys r r' \<longleftrightarrow> dd_id r = dd_id r' \<and> event_key r = event_key r' \<and> message_key r = message_key r'"

definition reserved_by :: "inbound_message \<Rightarrow> uuid \<Rightarrow> dedup_row list \<Rightarrow> bool" where
  "reserved_by m rid rows \<longleftrightarrow> (\<exists>r \<in> set rows. dd_id r = rid \<and> belongs m r \<and> dd_status r = Reserved)"

definition told :: "inbound_message \<Rightarrow> uuid \<Rightarrow> dedup_row list \<Rightarrow> bool" where
  "told m run rows \<longleftrightarrow> (\<exists>r \<in> set rows. dedup_matches m r \<and> dd_run r = Some run \<and> dd_status r \<noteq> Reserved)"

definition answer_run :: "answer \<Rightarrow> uuid option" where
  "answer_run a = (case a of Returned g \<Rightarrow> gr_run g | Raised \<Rightarrow> None)"

fun stage_sound :: "hub_state \<Rightarrow> inbound_message \<Rightarrow> stage \<Rightarrow> bool" where
  "stage_sound s m (Submitting rid k) \<longleftrightarrow> reserved_by m rid (hb_rows s)"
| "stage_sound s m (Marking rid run) \<longleftrightarrow> reserved_by m rid (hb_rows s)"
| "stage_sound s m (Releasing rid a) \<longleftrightarrow> rid \<in> set (hb_used s) \<and> answer_run a = None"
| "stage_sound s m (Awaiting rid) \<longleftrightarrow>
     rid \<in> set (hb_used s) \<and> (\<forall>r \<in> set (hb_rows s). dd_id r = rid \<longrightarrow> dedup_matches m r)"
| "stage_sound s m (Answered a) \<longleftrightarrow> (case answer_run a of None \<Rightarrow> True | Some run \<Rightarrow> told m run (hb_rows s))"
| "stage_sound s m _ \<longleftrightarrow> True"

lemma answers [simp]:
  "answer_run Raised = None" "answer_run not_addressed = None" "answer_run pending_timeout = None"
  "answer_run (duplicate_of run) = Some run" "answer_run (accepted_as run) = Some run" "answer_run (refused_for e) = None"
  by (simp_all add: answer_run_def not_addressed_def pending_timeout_def duplicate_of_def accepted_as_def refused_for_def)

lemma belongs_matches: "belongs m r \<Longrightarrow> dedup_matches m r"
  by (simp add: belongs_def dedup_matches_def event_key_def message_key_def)

lemma find_existing_Some:
  assumes "find_existing m rows = Some r"
  shows "r \<in> set rows \<and> dedup_matches m r"
proof -
  from assms obtain rs where "sort_key (\<lambda>r. (dd_created r, dd_id r)) (filter (dedup_matches m) rows) = r # rs"
    by (auto simp: find_existing_def split: list.splits)
  then have "r \<in> set (sort_key (\<lambda>r. (dd_created r, dd_id r)) (filter (dedup_matches m) rows))"
    by (simp only: list.set_intros)
  then show ?thesis by simp
qed

lemma find_existing_None: "find_existing m rows = None \<longleftrightarrow> (\<forall>r \<in> set rows. \<not> dedup_matches m r)"
proof -
  let ?rs = "sort_key (\<lambda>r. (dd_created r, dd_id r)) (filter (dedup_matches m) rows)"
  have "find_existing m rows = None \<longleftrightarrow> ?rs = []" by (simp add: find_existing_def split: list.splits)
  also have "\<dots> \<longleftrightarrow> length ?rs = 0" by (simp only: length_0_conv)
  also have "\<dots> \<longleftrightarrow> filter (dedup_matches m) rows = []" by (simp only: length_sort length_0_conv)
  finally show ?thesis by (simp only: filter_empty_conv)
qed

lemma insert_dedup_Some:
  "insert_dedup r rows = Some rows' \<longleftrightarrow> rows' = rows @ [r] \<and> dd_id r \<notin> dd_id ` set rows
     \<and> event_key r \<notin> event_key ` set rows \<and> message_key r \<notin> message_key ` set rows"
proof (cases "\<exists>x \<in> set rows. dd_id r = dd_id x \<or> event_key r = event_key x \<or> message_key r = message_key x")
  case True
  then have "insert_dedup r rows = None" by (simp add: insert_dedup_def list_ex_iff)
  with True show ?thesis by auto
next
  case False
  then have "insert_dedup r rows = Some (rows @ [r])" by (simp add: insert_dedup_def list_ex_iff)
  with False show ?thesis by auto
qed

lemma reserved_row_fields [simp]:
  "dd_id (reserved_row ch m rid t) = rid" "belongs m (reserved_row ch m rid t)"
  "dd_status (reserved_row ch m rid t) = Reserved" "dd_run (reserved_row ch m rid t) = None"
  by (simp_all add: reserved_row_def belongs_def event_key_def message_key_def)

definition marked_row :: "uuid \<Rightarrow> uuid \<Rightarrow> dedup_row \<Rightarrow> dedup_row" where
  "marked_row rid run r = (if dd_id r = rid then r\<lparr>dd_run := Some run, dd_status := Submitted\<rparr> else r)"

lemma mark_Some:
  "mark_submitted rid run rows = Some rows' \<longleftrightarrow> rid \<in> dd_id ` set rows \<and> rows' = map (marked_row rid run) rows"
  by (auto simp: mark_submitted_def update_dedup_def list_ex_iff image_iff marked_row_def [abs_def])

lemma marked_fields [simp]:
  "dd_id (marked_row rid run r) = dd_id r" "event_key (marked_row rid run r) = event_key r"
  "message_key (marked_row rid run r) = message_key r" "belongs m (marked_row rid run r) = belongs m r"
  "dedup_matches m (marked_row rid run r) = dedup_matches m r"
  "dd_status (marked_row rid run r) = (if dd_id r = rid then Submitted else dd_status r)"
  "dd_run (marked_row rid run r) = (if dd_id r = rid then Some run else dd_run r)"
  by (simp_all add: marked_row_def event_key_def message_key_def belongs_def dedup_matches_def)

lemma marked_other: "dd_id r \<noteq> rid \<Longrightarrow> marked_row rid run r = r"
  by (simp add: marked_row_def)

lemma same_keys_refl [simp]: "same_keys r r"
  by (simp add: same_keys_def)

lemma insert_sound:
  assumes "rows_sound used rows" and "insert_dedup (reserved_row ch m rid t) rows = Some rows'"
  shows "rows_sound (rid # used) rows'"
  using assms by (auto simp: rows_sound_def insert_dedup_Some)

lemma marked_in: "r \<in> set rows \<Longrightarrow> dd_id r \<noteq> rid \<Longrightarrow> r \<in> marked_row rid run ` set rows"
  by (metis image_eqI marked_other)

lemma old_row [intro]: "r \<in> set rows \<Longrightarrow> \<exists>r0 \<in> set rows. same_keys r0 r"
  by (rule bexI [of _ r]) simp_all

lemma mark_sound:
  assumes "rows_sound used rows" and "mark_submitted rid run rows = Some rows'"
  shows "rows_sound used rows'"
  using assms by (auto simp: rows_sound_def mark_Some list_all_iff comp_def)

lemma release_sound: "rows_sound used rows \<Longrightarrow> rows_sound used (release_reservation rid rows)"
  by (auto simp: rows_sound_def release_reservation_def distinct_map list_all_iff intro: inj_on_subset)

section \<open>One step\<close>

text \<open>What a step of one delivery does to the table, as the other deliveries see it.\<close>

definition table_moves :: "hub_state \<Rightarrow> inbound_message \<Rightarrow> uuid option \<Rightarrow> hub_state \<Rightarrow> bool" where
  "table_moves s m own s' \<longleftrightarrow> set (hb_used s) \<subseteq> set (hb_used s')
     \<and> (\<forall>r \<in> set (hb_rows s). r \<in> set (hb_rows s') \<or> own = Some (dd_id r) \<and> dd_status r = Reserved)
     \<and> (\<forall>r \<in> set (hb_rows s'). (\<exists>r0 \<in> set (hb_rows s). same_keys r0 r) \<or> dd_id r \<notin> set (hb_used s) \<and> belongs m r)"

lemma table_still: "hb_used s' = hb_used s \<Longrightarrow> hb_rows s' = hb_rows s \<Longrightarrow> table_moves s m own s'"
  by (auto simp: table_moves_def)

lemma table_mark:
  assumes "rows_sound (hb_used s) (hb_rows s)" and "reserved_by m rid (hb_rows s)"
    and "mark_submitted rid run (hb_rows s) = Some rows"
  shows "table_moves s m (Some rid) (s\<lparr>hb_rows := rows\<rparr>)"
proof -
  have one: "dd_status r = Reserved" if "r \<in> set (hb_rows s)" "dd_id r = rid" for r
    using assms(1,2) that by (auto simp: rows_sound_def reserved_by_def distinct_map inj_on_def)
  have "r \<in> set rows" if "r \<in> set (hb_rows s)" "dd_id r \<noteq> rid" for r
    using assms(3) that marked_in by (auto simp: mark_Some)
  moreover have "\<exists>r0 \<in> set (hb_rows s). same_keys r0 r" if "r \<in> set rows" for r
    using assms(3) that by (auto simp: mark_Some same_keys_def)
  ultimately show ?thesis using one by (auto simp: table_moves_def)
qed

lemma table_insert:
  assumes "insert_dedup (reserved_row ch m rid t) (hb_rows s) = Some rows" and "rid \<notin> set (hb_used s)"
  shows "table_moves s m own (s\<lparr>hb_used := rid # hb_used s, hb_rows := rows\<rparr>)"
  using assms by (auto simp: table_moves_def insert_dedup_Some)

lemma table_release: "table_moves s m (Some rid) (s\<lparr>hb_rows := release_reservation rid (hb_rows s)\<rparr>)"
  by (auto simp: table_moves_def release_reservation_def)

lemma step_moves:
  assumes "delivery_step ch m s st s' st'" "rows_sound (hb_used s) (hb_rows s)" "stage_sound s m st"
  shows "table_moves s m (owned st) s' \<and> rows_sound (hb_used s') (hb_rows s')"
  using assms
  by cases (auto simp: table_still table_mark table_insert table_release mark_sound insert_sound release_sound)

lemma run_of_Some:
  "run_of_reservation rid rows = Some run \<Longrightarrow> \<exists>r \<in> set rows. dd_id r = rid \<and> dd_run r = Some run"
  by (auto simp: run_of_reservation_def find_Some_iff split: option.splits)

lemma found_sound:
  assumes "rows_sound (hb_used s) (hb_rows s)" and "find_existing m (hb_rows s) = Some r"
  shows "stage_sound s m (after_found r)"
proof -
  from find_existing_Some [OF assms(2)] have r: "r \<in> set (hb_rows s)" "dedup_matches m r" by auto
  have same: "r' = r" if "r' \<in> set (hb_rows s)" "dd_id r' = dd_id r" for r'
    using assms(1) that r by (auto simp: rows_sound_def distinct_map inj_on_def)
  from assms(1) r show ?thesis
    by (auto simp: after_found_def reservation_from_existing_def told_def rows_sound_def list_all_iff
        dest: same split: option.splits)
qed

lemma step_stage:
  assumes "delivery_step ch m s st s' st'" "rows_sound (hb_used s) (hb_rows s)" "stage_sound s m st"
  shows "stage_sound s' m st' \<and> (owned st' \<noteq> None \<longrightarrow> owned st' = owned st \<or> the (owned st') \<notin> set (hb_used s))"
  using assms
proof cases
  case (look_found r n)
  with found_sound assms show ?thesis by (auto simp: after_found_def split: option.splits)
next
  case (reload_found r)
  with found_sound assms show ?thesis by (auto simp: after_found_def split: option.splits)
next
  case (insert_ok rid t rows n)
  then show ?thesis by (auto simp: reserved_by_def insert_dedup_Some)
next
  case (mark_ok rid run rows)
  with assms(3) obtain r where "r \<in> set (hb_rows s)" "dd_id r = rid" "belongs m r" by (auto simp: reserved_by_def)
  then have "marked_row rid run r \<in> set rows" "dedup_matches m (marked_row rid run r)"
    "dd_run (marked_row rid run r) = Some run" "dd_status (marked_row rid run r) \<noteq> Reserved"
    using mark_ok(4) by (auto simp: mark_Some belongs_matches)
  then have "told m run rows" unfolding told_def by blast
  with mark_ok show ?thesis by simp
next
  case (poll_hit rid run)
  from run_of_Some [OF poll_hit(4)] poll_hit assms(2,3) show ?thesis
    by (auto simp: told_def rows_sound_def list_all_iff)
next
  case (mark_lost rid run rows)
  with assms(2,3) show ?thesis by (auto simp: reserved_by_def rows_sound_def)
next
  case (mark_failed rid run)
  with assms(2,3) show ?thesis by (auto simp: reserved_by_def rows_sound_def)
qed (auto simp: reserved_by_def rows_sound_def split: if_splits)

section \<open>All deliveries\<close>

lemma same_keys_matches: "same_keys r r' \<Longrightarrow> dedup_matches m r = dedup_matches m r'"
  by (auto simp: same_keys_def dedup_matches_def event_key_def message_key_def)

lemma same_keys_belongs: "same_keys r r' \<Longrightarrow> belongs m r = belongs m r'"
  by (auto simp: same_keys_def belongs_def)

lemma reserved_by_kept:
  "reserved_by m' rid (hb_rows s) \<Longrightarrow> table_moves s m own s' \<Longrightarrow> own \<noteq> Some rid \<Longrightarrow> reserved_by m' rid (hb_rows s')"
  by (auto simp: reserved_by_def table_moves_def)

lemma told_kept: "told m' run (hb_rows s) \<Longrightarrow> table_moves s m own s' \<Longrightarrow> told m' run (hb_rows s')"
  by (auto simp: told_def table_moves_def)

lemma awaited_kept:
  assumes "table_moves s m own s'" and "rid \<in> set (hb_used s)"
    and "\<forall>r \<in> set (hb_rows s). dd_id r = rid \<longrightarrow> dedup_matches m' r" and "r \<in> set (hb_rows s')" and "dd_id r = rid"
  shows "dedup_matches m' r"
proof -
  from assms(1,2,4,5) obtain r0 where "r0 \<in> set (hb_rows s)" "same_keys r0 r" by (auto simp: table_moves_def)
  with assms(3,5) same_keys_matches [of r0 r m'] show ?thesis by (simp add: same_keys_def)
qed

lemma stage_kept:
  assumes "stage_sound s m' st" and "table_moves s m own s'" and "\<And>rid. owned st = Some rid \<Longrightarrow> own \<noteq> Some rid"
  shows "stage_sound s' m' st"
proof (cases st)
  case (Releasing rid a)
  with assms show ?thesis by (auto simp: table_moves_def)
next
  case (Awaiting rid)
  with assms(1,2) awaited_kept [OF assms(2)] show ?thesis by (auto simp: table_moves_def)
qed (use assms in \<open>auto simp: reserved_by_kept split: option.splits intro: told_kept\<close>)

definition owners_differ :: "(inbound_message \<times> stage) list \<Rightarrow> bool" where
  "owners_differ ds \<longleftrightarrow> (\<forall>i < length ds. \<forall>j < length ds. owned (snd (ds ! i)) \<noteq> None
     \<longrightarrow> owned (snd (ds ! i)) = owned (snd (ds ! j)) \<longrightarrow> i = j)"

definition system_sound :: "channel_system \<Rightarrow> bool" where
  "system_sound y \<longleftrightarrow> rows_sound (hb_used (cy_state y)) (hb_rows (cy_state y))
     \<and> (\<forall>d \<in> set (cy_deliveries y). stage_sound (cy_state y) (fst d) (snd d)) \<and> owners_differ (cy_deliveries y)
     \<and> (\<forall>r \<in> set (hb_rows (cy_state y)). \<exists>d \<in> set (cy_deliveries y). belongs (fst d) r)"

lemma owned_used:
  assumes "rows_sound (hb_used s) (hb_rows s)" and "stage_sound s m st" and "owned st = Some rid"
  shows "rid \<in> set (hb_used s)"
  using assms by (cases st) (auto simp: reserved_by_def rows_sound_def)

lemma first_stage_sound [simp]: "stage_sound s m (first_stage m)" "owned (first_stage m) = None"
  by (simp_all add: first_stage_def)

lemma arrive_sound:
  assumes "system_sound y"
  shows "system_sound (y\<lparr>cy_deliveries := cy_deliveries y @ [(m, first_stage m)]\<rparr>)"
proof -
  from assms have "owners_differ (cy_deliveries y @ [(m, first_stage m)])"
    by (auto simp: system_sound_def owners_differ_def nth_append less_Suc_eq)
  with assms show ?thesis by (auto simp: system_sound_def)
qed

lemma deliver_owners:
  assumes "owners_differ ds" and "i < length ds" and "owned st' \<noteq> None \<longrightarrow> owned st' = owned (snd (ds ! i)) \<or> the (owned st') \<notin> U"
    and "\<And>j. j < length ds \<Longrightarrow> owned (snd (ds ! j)) \<noteq> None \<Longrightarrow> the (owned (snd (ds ! j))) \<in> U"
  shows "owners_differ (ds[i := (m, st')])"
  unfolding owners_differ_def
proof (intro allI impI)
  fix a b
  assume ab: "a < length (ds[i := (m, st')])" "b < length (ds[i := (m, st')])"
    and own: "owned (snd (ds[i := (m, st')] ! a)) \<noteq> None"
    and eq: "owned (snd (ds[i := (m, st')] ! a)) = owned (snd (ds[i := (m, st')] ! b))"
  have new: False if "j < length ds" "j \<noteq> i" "owned st' \<noteq> None" "owned st' = owned (snd (ds ! j))" for j
    using assms that unfolding owners_differ_def by metis
  show "a = b"
  proof (cases "a = i \<or> b = i")
    case True
    then show ?thesis using ab own eq new by (cases "a = i"; cases "b = i"; simp) metis+
  next
    case False
    with ab own eq assms(1) show ?thesis by (simp add: owners_differ_def)
  qed
qed

lemma deliver_sound:
  assumes y: "system_sound y" and i: "i < length (cy_deliveries y)" "cy_deliveries y ! i = (m, st)"
    and step: "delivery_step ch m (cy_state y) st s st'"
  shows "system_sound (y\<lparr>cy_state := s, cy_deliveries := (cy_deliveries y)[i := (m, st')]\<rparr>)"
proof -
  let ?s = "cy_state y" and ?ds = "cy_deliveries y"
  from y have rows: "rows_sound (hb_used ?s) (hb_rows ?s)" by (simp add: system_sound_def)
  from y have stages: "stage_sound ?s (fst (?ds ! j)) (snd (?ds ! j))" if "j < length ?ds" for j
    using that by (simp add: system_sound_def)
  have st: "stage_sound ?s m st" using stages [OF i(1)] i(2) by simp
  note moves = step_moves [OF step rows st]
  note stage = step_stage [OF step rows st]
  have others: "stage_sound s (fst (?ds ! j)) (snd (?ds ! j))" if "j < length ?ds" "j \<noteq> i" for j
  proof (rule stage_kept [OF stages [OF that(1)] conjunct1 [OF moves]])
    fix rid assume "owned (snd (?ds ! j)) = Some rid"
    with y i that show "owned st \<noteq> Some rid" unfolding system_sound_def owners_differ_def by (metis option.distinct(1) snd_conv)
  qed
  have "stage_sound s (fst (?ds[i := (m, st')] ! j)) (snd (?ds[i := (m, st')] ! j))" if "j < length ?ds" for j
    using that others [of j] stage i(1) by (cases "j = i") simp_all
  then have "stage_sound s (fst d) (snd d)" if "d \<in> set (?ds[i := (m, st')])" for d
    using that by (metis in_set_conv_nth length_list_update)
  moreover have "owners_differ (?ds[i := (m, st')])"
  proof (rule deliver_owners [OF _ i(1), where U = "set (hb_used ?s)"])
    show "owners_differ ?ds" using y by (simp add: system_sound_def)
    show "owned st' \<noteq> None \<longrightarrow> owned st' = owned (snd (?ds ! i)) \<or> the (owned st') \<notin> set (hb_used ?s)"
      using stage i(2) by simp
    show "the (owned (snd (?ds ! j))) \<in> set (hb_used ?s)" if "j < length ?ds" "owned (snd (?ds ! j)) \<noteq> None" for j
      using owned_used [OF rows stages [OF that(1)]] that(2) by auto
  qed
  moreover have "\<exists>d \<in> set (?ds[i := (m, st')]). belongs (fst d) r" if "r \<in> set (hb_rows s)" for r
  proof -
    have "\<exists>d \<in> set ?ds. belongs (fst d) r"
      using that moves y i nth_mem [OF i(1)] same_keys_belongs unfolding system_sound_def table_moves_def by (metis fst_conv)
    then obtain j where "j < length ?ds" "belongs (fst (?ds ! j)) r" by (auto simp: in_set_conv_nth)
    then have "j < length (?ds[i := (m, st')])" "belongs (fst (?ds[i := (m, st')] ! j)) r"
      using i by (auto simp: nth_list_update)
    then show ?thesis by (meson nth_mem)
  qed
  ultimately show ?thesis using moves by (simp add: system_sound_def)
qed

lemma stage_other_runs [simp]: "stage_sound (s\<lparr>hb_runs := db\<rparr>) m st = stage_sound s m st"
  by (cases st) (auto split: option.split)

lemma stage_other_accounts [simp]: "stage_sound (s\<lparr>hb_accounts := accounts\<rparr>) m st = stage_sound s m st"
  by (cases st) (auto split: option.split)

lemma channel_step_sound: "channel_step ft diag ch y y' \<Longrightarrow> system_sound y \<Longrightarrow> system_sound y'"
proof (induction rule: channel_step.induct)
  case (arrive y m)
  then show ?case by (rule arrive_sound)
next
  case (deliver i y m st s st')
  then show ?case by (intro deliver_sound)
next
  case (run_moves y db)
  then show ?case by (simp add: system_sound_def)
next
  case (account_moves y accounts)
  then show ?case by (simp add: system_sound_def)
qed

lemma channel_reachable_sound: "channel_reachable ft diag ch y y' \<Longrightarrow> system_sound y \<Longrightarrow> system_sound y'"
  by (induction rule: channel_reachable.induct) (auto intro: channel_step_sound)

lemma empty_system_sound: "system_sound empty_system"
  by (simp add: system_sound_def empty_system_def rows_sound_def owners_differ_def)

section \<open>One event, one run\<close>

text \<open>
  What makes a delivery a duplicate of another: the event or the message identifier, in one tenant of a
  channel. That this is transitive on the deliveries is what a reservation relies on: it names one event
  and one message, so of a delivery that shares its event with one reservation and its message with
  another it cannot tell which run is meant. A provider who gives each event one message, or each
  message one event, keeps to it, and so does a provider who numbers a redelivery anew in one of the two.
\<close>

definition same_task :: "inbound_message \<Rightarrow> inbound_message \<Rightarrow> bool" where
  "same_task a b \<longleftrightarrow> im_channel a = im_channel b \<and> im_tenant a = im_tenant b
     \<and> (im_event a = im_event b \<or> im_message a = im_message b)"

definition duplicates_agree :: "(inbound_message \<times> stage) list \<Rightarrow> bool" where
  "duplicates_agree ds \<longleftrightarrow> (\<forall>a \<in> fst ` set ds. \<forall>b \<in> fst ` set ds. \<forall>c \<in> fst ` set ds.
     same_task a b \<and> same_task b c \<longrightarrow> same_task a c)"

lemma same_task_refl [simp]: "same_task m m"
  by (simp add: same_task_def)

lemma same_task_sym: "same_task a b \<Longrightarrow> same_task b a"
  by (auto simp: same_task_def)

text \<open>Each of the two identifiers may be the one that counts.\<close>

lemma one_message_for_an_event:
  assumes "\<forall>a \<in> fst ` set ds. \<forall>b \<in> fst ` set ds.
     im_channel a = im_channel b \<and> im_tenant a = im_tenant b \<and> im_event a = im_event b \<longrightarrow> im_message a = im_message b"
  shows "duplicates_agree ds"
  using assms unfolding duplicates_agree_def same_task_def by metis

lemma one_event_for_a_message:
  assumes "\<forall>a \<in> fst ` set ds. \<forall>b \<in> fst ` set ds.
     im_channel a = im_channel b \<and> im_tenant a = im_tenant b \<and> im_message a = im_message b \<longrightarrow> im_event a = im_event b"
  shows "duplicates_agree ds"
  using assms unfolding duplicates_agree_def same_task_def by metis

lemma row_source:
  assumes "system_sound y" and "r \<in> set (hb_rows (cy_state y))" and "dedup_matches m r"
  obtains a where "a \<in> fst ` set (cy_deliveries y)" "belongs a r" "same_task a m"
proof -
  from assms(1,2) obtain d where "d \<in> set (cy_deliveries y)" "belongs (fst d) r" by (auto simp: system_sound_def)
  then have "fst d \<in> fst ` set (cy_deliveries y)" "belongs (fst d) r" by auto
  moreover from this assms(3) have "same_task (fst d) m"
    by (auto simp: same_task_def belongs_def dedup_matches_def event_key_def message_key_def)
  ultimately show ?thesis by (rule that)
qed

lemma one_row:
  assumes y: "system_sound y" and agree: "duplicates_agree (cy_deliveries y)"
    and m: "m \<in> fst ` set (cy_deliveries y)" "m' \<in> fst ` set (cy_deliveries y)" "same_task m m'"
    and r: "r \<in> set (hb_rows (cy_state y))" "dedup_matches m r"
    and r': "r' \<in> set (hb_rows (cy_state y))" "dedup_matches m' r'"
  shows "r = r'"
proof -
  obtain a where a: "a \<in> fst ` set (cy_deliveries y)" "belongs a r" "same_task a m" using row_source [OF y r] .
  obtain b where b: "b \<in> fst ` set (cy_deliveries y)" "belongs b r'" "same_task b m'" using row_source [OF y r'] .
  from agree a(1,3) m have "same_task a m'" unfolding duplicates_agree_def by blast
  with agree a(1) m(2) b(1) same_task_sym [OF b(3)] have "same_task a b" unfolding duplicates_agree_def by blast
  with a(2) b(2) have "event_key r = event_key r' \<or> message_key r = message_key r'"
    by (auto simp: same_task_def belongs_def)
  with y r(1) r'(1) show ?thesis by (auto simp: system_sound_def rows_sound_def distinct_map inj_on_def)
qed

lemma told_once:
  assumes y: "system_sound y" and agree: "duplicates_agree (cy_deliveries y)"
    and d: "(m, Answered a) \<in> set (cy_deliveries y)" "(m', Answered a') \<in> set (cy_deliveries y)"
    and same: "same_task m m'" and runs: "answer_run a = Some run" "answer_run a' = Some run'"
  shows "run = run'"
proof -
  from y d runs have "told m run (hb_rows (cy_state y))" "told m' run' (hb_rows (cy_state y))"
    by (force simp: system_sound_def)+
  then obtain r r' where r: "r \<in> set (hb_rows (cy_state y))" "dedup_matches m r" "dd_run r = Some run"
    and r': "r' \<in> set (hb_rows (cy_state y))" "dedup_matches m' r'" "dd_run r' = Some run'" by (auto simp: told_def)
  from d have "m \<in> fst ` set (cy_deliveries y)" "m' \<in> fst ` set (cy_deliveries y)" by force+
  from one_row [OF y agree this same r(1,2) r'(1,2)] r(3) r'(3) show ?thesis by simp
qed

text \<open>
  C34. Deliveries of one event are told one run. Whatever the interleaving of deliveries, cancellations,
  failures before and after a commit, executions and changes of accounts, two deliveries with the same
  event or the same message identifier that were answered with a run were answered with the same run,
  when being a duplicate is transitive on the deliveries that came.
\<close>

theorem one_event_is_told_one_run:
  assumes "channel_reachable ft diag ch empty_system y" and "duplicates_agree (cy_deliveries y)"
    and "(m, Answered a) \<in> set (cy_deliveries y)" "(m', Answered a') \<in> set (cy_deliveries y)"
    and "same_task m m'" and "answer_run a = Some run" "answer_run a' = Some run'"
  shows "run = run'"
  using told_once [OF channel_reachable_sound [OF assms(1) empty_system_sound] assms(2-)] .

text \<open>A hub and a message to run the deliveries on.\<close>

definition sample_hub :: channel_hub where
  "sample_hub = \<lparr>ch_runs = plain_service, ch_tenant = 1, ch_identities = True, ch_uuid5 = (\<lambda>_. 99),
     ch_sha256 = (\<lambda>t. t), ch_str = (\<lambda>_. [])\<rparr>"

definition sample_message :: inbound_message where
  "sample_message = \<lparr>im_channel = Feishu, im_tenant = ''t'', im_sender = ''ou'', im_conversation = ''oc'',
     im_message = ''om'', im_event = ''ev'', im_type = Private_Conversation, im_text = ascii ''hello'',
     im_mentions = False, im_attachments = [], im_received = Some 0\<rparr>"

text \<open>The event once more, under another message identifier.\<close>

definition renumbered_message :: inbound_message where
  "renumbered_message = sample_message\<lparr>im_message := ''om2''\<rparr>"

definition no_accounts :: account_db where
  "no_accounts = \<lparr>ac_users = [], ac_codes = []\<rparr>"

definition reserved_sample :: dedup_row where
  "reserved_sample = reserved_row sample_hub sample_message 7 0"

definition sample_submission :: "channel_error + (run_db \<times> uuid)" where
  "sample_submission = channel_submit sample_hub no_accounts sample_message (idempotency_key sample_hub sample_message)
     plain_draws empty_db"

lemma sample_submission_works: "\<not> isl sample_submission \<and> snd (projr sample_submission) = 10"
  by code_simp

definition system_at :: "uuid list \<Rightarrow> dedup_row list \<Rightarrow> run_db \<Rightarrow> (inbound_message \<times> stage) list \<Rightarrow> channel_system" where
  "system_at used rows db ds = \<lparr>cy_state = \<lparr>hb_used = used, hb_rows = rows, hb_runs = db, hb_accounts = no_accounts\<rparr>,
     cy_deliveries = ds\<rparr>"

definition state_at :: "uuid list \<Rightarrow> dedup_row list \<Rightarrow> run_db \<Rightarrow> hub_state" where
  "state_at used rows db = \<lparr>hb_used = used, hb_rows = rows, hb_runs = db, hb_accounts = no_accounts\<rparr>"

lemma system_at_fields [simp]: "cy_state (system_at u rows db ds) = state_at u rows db" "cy_deliveries (system_at u rows db ds) = ds"
  "hb_rows (state_at u rows db) = rows" "hb_used (state_at u rows db) = u" "hb_runs (state_at u rows db) = db"
  "hb_accounts (state_at u rows db) = no_accounts"
  by (simp_all add: system_at_def state_at_def)

lemma empty_at: "empty_system = system_at [] [] empty_db []"
  by (simp add: empty_system_def system_at_def no_accounts_def)

lemma arrive_at: "channel_reachable ft diag ch y (system_at u rows db ds) \<Longrightarrow>
    channel_reachable ft diag ch y (system_at u rows db (ds @ [(m, first_stage m)]))"
  using further [OF _ arrive, of ft diag ch y "system_at u rows db ds" m] by (simp add: system_at_def)

lemma deliver_at:
  assumes "channel_reachable ft diag ch y (system_at u rows db ds)" and "i < length ds" "ds ! i = (m, st)"
    and "delivery_step ch m (state_at u rows db) st s st'" and "s = state_at u' rows' db'"
  shows "channel_reachable ft diag ch y (system_at u' rows' db' (ds[i := (m, st')]))"
  using further [OF assms(1) deliver [of i _ m st ch s st']] assms(2-) by (simp add: system_at_def state_at_def)

lemma first_sample [simp]: "first_stage sample_message = Looking 2"
  by (simp add: first_stage_def should_accept_def sample_message_def)

lemma first_renumbered [simp]: "first_stage renumbered_message = Looking 2"
  by (simp add: first_stage_def should_accept_def renumbered_message_def sample_message_def)

lemma one_event_renumbered: "fst ` set ds \<subseteq> {sample_message, renumbered_message} \<Longrightarrow> duplicates_agree ds"
proof (rule one_event_for_a_message, intro ballI impI)
  fix a b assume "fst ` set ds \<subseteq> {sample_message, renumbered_message}" "a \<in> fst ` set ds" "b \<in> fst ` set ds"
  then have "a \<in> {sample_message, renumbered_message}" "b \<in> {sample_message, renumbered_message}" by blast+
  then show "im_event a = im_event b" by (auto simp: renumbered_message_def)
qed

lemma sample_finds [simp]:
  "find_existing sample_message [] = None"
  "dd_run r = None \<Longrightarrow> after_found r = Awaiting (dd_id r)"
  by (simp_all add: find_existing_def after_found_def reservation_from_existing_def)

lemma reserved_sample_facts: "find_existing sample_message [reserved_sample] = Some reserved_sample" "dd_run reserved_sample = None"
    "dd_id reserved_sample = 7" "dd_status reserved_sample = Reserved" "belongs sample_message reserved_sample"
  by (simp_all add: reserved_sample_def find_existing_def belongs_matches)

lemma renumbered_facts: "dedup_matches renumbered_message reserved_sample"
    "find_existing renumbered_message [reserved_sample] = Some reserved_sample"
proof -
  show "dedup_matches renumbered_message reserved_sample"
    by (simp add: reserved_sample_def renumbered_message_def dedup_matches_def reserved_row_def)
  then show "find_existing renumbered_message [reserved_sample] = Some reserved_sample" by (simp add: find_existing_def)
qed

lemma reserved_at:
  "channel_reachable ft diag sample_hub empty_system (system_at [7] [reserved_sample] empty_db
     [(sample_message, Submitting 7 (idempotency_key sample_hub sample_message))])"
proof -
  have a: "channel_reachable ft diag sample_hub empty_system (system_at [] [] empty_db ([] @ [(sample_message, first_stage sample_message)]))"
    by (rule arrive_at) (simp add: empty_at here)
  have b: "channel_reachable ft diag sample_hub empty_system
      (system_at [] [] empty_db ([(sample_message, Looking 2)][0 := (sample_message, Inserting 2 0)]))"
    by (rule deliver_at [OF a [unfolded append_Nil first_sample] _ _ look_none]) simp_all
  have "channel_reachable ft diag sample_hub empty_system (system_at [7] [reserved_sample] empty_db
      ([(sample_message, Inserting 2 0)][0 := (sample_message, Submitting 7 (idempotency_key sample_hub sample_message))]))"
    by (rule deliver_at [OF b [unfolded list_update.simps nat.case] _ _ insert_ok [where rid = 7 and rows = "[reserved_sample]"]])
      (simp_all add: insert_dedup_def reserved_sample_def state_at_def)
  then show ?thesis by simp
qed

lemma answered_at:
  "channel_reachable ft diag sample_hub empty_system (system_at [7] [marked_row 7 10 reserved_sample] (fst (projr sample_submission))
     [(sample_message, Answered (accepted_as 10)), (renumbered_message, Answered (duplicate_of 10))])"
proof -
  let ?k = "idempotency_key sample_hub sample_message" and ?db = "fst (projr sample_submission)"
  have a: "channel_reachable ft diag sample_hub empty_system (system_at [7] [reserved_sample] empty_db
      ([(sample_message, Submitting 7 ?k)] @ [(renumbered_message, first_stage renumbered_message)]))"
    by (rule arrive_at [OF reserved_at])
  have b: "channel_reachable ft diag sample_hub empty_system (system_at [7] [reserved_sample] empty_db
      ([(sample_message, Submitting 7 ?k), (renumbered_message, Looking 2)][1 := (renumbered_message, after_found reserved_sample)]))"
    by (rule deliver_at [OF a [unfolded append.simps first_renumbered] _ _ look_found]) (simp_all add: renumbered_facts reserved_sample_facts)
  have sub: "channel_submit sample_hub no_accounts sample_message ?k plain_draws empty_db = Inr (?db, 10)"
    unfolding sample_submission_def [symmetric] using sample_submission_works
    by (metis prod.collapse sum.collapse(2))
  have c: "channel_reachable ft diag sample_hub empty_system (system_at [7] [reserved_sample] ?db
      ([(sample_message, Submitting 7 ?k), (renumbered_message, Awaiting 7)][0 := (sample_message, Marking 7 10)]))"
    by (rule deliver_at [OF _ _ _ submit_ok [where dr = plain_draws and db = ?db and run = 10]])
      (use b sub in \<open>simp_all add: renumbered_facts reserved_sample_facts state_at_def\<close>)
  have marks: "mark_submitted 7 10 [reserved_sample] = Some [marked_row 7 10 reserved_sample]"
    unfolding mark_submitted_def update_dedup_def by (simp add: renumbered_facts reserved_sample_facts marked_row_def)
  have d: "channel_reachable ft diag sample_hub empty_system (system_at [7] [marked_row 7 10 reserved_sample] ?db
      ([(sample_message, Marking 7 10), (renumbered_message, Awaiting 7)][0 := (sample_message, Answered (accepted_as 10))]))"
    by (rule deliver_at [OF c [unfolded list_update.simps nat.case] _ _ mark_ok [where rows = "[marked_row 7 10 reserved_sample]"]])
      (use marks in \<open>simp_all add: state_at_def\<close>)
  have "channel_reachable ft diag sample_hub empty_system (system_at [7] [marked_row 7 10 reserved_sample] ?db
      ([(sample_message, Answered (accepted_as 10)), (renumbered_message, Awaiting 7)][1 := (renumbered_message, Answered (duplicate_of 10))]))"
    by (rule deliver_at [OF _ _ _ poll_hit [where rid = 7]])
      (use d in \<open>simp_all add: renumbered_facts reserved_sample_facts run_of_reservation_def\<close>)
  then show ?thesis by simp
qed

theorem one_event_is_told_one_run_witness:
  "answer_run (accepted_as 10) = Some 10 \<and> the (answer_run (accepted_as 10)) = the (answer_run (duplicate_of 10))"
  using one_event_is_told_one_run [OF answered_at [of "\<lambda>_. []" "\<lambda>_. []"],
      of sample_message "accepted_as 10" renumbered_message "duplicate_of 10" 10 10]
  by (simp add: one_event_renumbered same_task_def renumbered_message_def)

section \<open>A reservation without an owner\<close>

definition abandoned :: "dedup_row \<Rightarrow> channel_system \<Rightarrow> bool" where
  "abandoned r y \<longleftrightarrow> r \<in> set (hb_rows (cy_state y)) \<and> dd_status r = Reserved
     \<and> (\<forall>d \<in> set (cy_deliveries y). owned (snd d) \<noteq> Some (dd_id r))"

text \<open>What a delivery of a blocked event can be at.\<close>

fun blocked_at :: "uuid \<Rightarrow> stage \<Rightarrow> bool" where
  "blocked_at rid (Looking n) \<longleftrightarrow> True"
| "blocked_at rid (Awaiting i) \<longleftrightarrow> i = rid"
| "blocked_at rid Vanished \<longleftrightarrow> True"
| "blocked_at rid (Answered a) \<longleftrightarrow> a \<in> {Raised, pending_timeout, not_addressed}"
| "blocked_at rid _ \<longleftrightarrow> False"

lemma abandoned_kept:
  assumes step: "channel_step ft diag ch y y'" and y: "system_sound y" and r: "abandoned r y"
  shows "abandoned r y'"
  using step
proof cases
  case (arrive m)
  with r show ?thesis by (auto simp: abandoned_def)
next
  case (deliver i m st s st')
  have rows: "rows_sound (hb_used (cy_state y)) (hb_rows (cy_state y))" using y by (simp add: system_sound_def)
  have mem: "(m, st) \<in> set (cy_deliveries y)" using deliver(2,3) nth_mem by metis
  have st: "stage_sound (cy_state y) m st" using y mem by (force simp: system_sound_def)
  have own: "owned st \<noteq> Some (dd_id r)" using r mem by (force simp: abandoned_def)
  have used: "dd_id r \<in> set (hb_used (cy_state y))" using r rows by (auto simp: abandoned_def rows_sound_def)
  have stays: "r \<in> set (hb_rows s)"
    using step_moves [OF deliver(4) rows st] r own by (auto simp: table_moves_def abandoned_def)
  have new: "owned st' \<noteq> Some (dd_id r)" using step_stage [OF deliver(4) rows st] own used by auto
  have "owned (snd d) \<noteq> Some (dd_id r)" if "d \<in> set ((cy_deliveries y)[i := (m, st')])" for d
    using that set_update_subset_insert [of "cy_deliveries y" i "(m, st')"] new r by (auto simp: abandoned_def)
  with stays r show ?thesis by (simp add: deliver(1) abandoned_def)
next
  case (run_moves db)
  with r show ?thesis by (auto simp: abandoned_def)
next
  case (account_moves accounts)
  with r show ?thesis by (auto simp: abandoned_def)
qed

lemma abandoned_run:
  assumes "system_sound y" and "abandoned r y"
  shows "run_of_reservation (dd_id r) (hb_rows (cy_state y)) = None"
proof -
  have "find (\<lambda>x. dd_id x = dd_id r) (hb_rows (cy_state y)) = Some r"
    by (rule find_unique) (use assms in \<open>auto simp: abandoned_def system_sound_def rows_sound_def distinct_map inj_on_def\<close>)
  with assms show ?thesis
    by (auto simp: run_of_reservation_def abandoned_def system_sound_def rows_sound_def list_all_iff)
qed

lemma blocked_step:
  assumes y: "system_sound y" "abandoned r y" and agree: "duplicates_agree (cy_deliveries y)"
    and m: "m \<in> fst ` set (cy_deliveries y)" "dedup_matches m r"
    and step: "delivery_step ch m (cy_state y) st s st'" and at: "blocked_at (dd_id r) st"
  shows "blocked_at (dd_id r) st'"
proof -
  have r: "r \<in> set (hb_rows (cy_state y))" "dd_run r = None"
    using y by (auto simp: abandoned_def system_sound_def rows_sound_def list_all_iff)
  have only: "x = r" if "find_existing m (hb_rows (cy_state y)) = Some x" for x
  proof -
    from find_existing_Some [OF that] have x: "x \<in> set (hb_rows (cy_state y))" "dedup_matches m x" by auto
    show ?thesis by (rule one_row [OF y(1) agree m(1) m(1) same_task_refl x r(1) m(2)])
  qed
  have some: "find_existing m (hb_rows (cy_state y)) \<noteq> None"
    using r(1) m(2) by (auto simp: find_existing_None)
  from step at show ?thesis
    by cases (auto simp: after_found_def reservation_from_existing_def r(2) some abandoned_run [OF y] dest!: only)
qed

lemma messages_stay: "channel_step ft diag ch y y' \<Longrightarrow>
    fst ` set (cy_deliveries y) \<subseteq> fst ` set (cy_deliveries y') \<and> length (cy_deliveries y) \<le> length (cy_deliveries y')"
proof (induction rule: channel_step.induct)
  case (deliver i y m st s st')
  then have "map fst ((cy_deliveries y)[i := (m, st')]) = map fst (cy_deliveries y)"
    by (metis fst_conv list_update_id map_update)
  then have "fst ` set ((cy_deliveries y)[i := (m, st')]) = fst ` set (cy_deliveries y)" by (metis set_map)
  then show ?case by simp
qed auto

lemma agree_before: "duplicates_agree ds' \<Longrightarrow> fst ` set ds \<subseteq> fst ` set ds' \<Longrightarrow> duplicates_agree ds"
  unfolding duplicates_agree_def by (meson subsetD)

lemma later_deliveries_blocked:
  assumes "channel_reachable ft diag ch y y'" and y: "system_sound y" "abandoned r y"
    and "duplicates_agree (cy_deliveries y')"
  shows "system_sound y' \<and> abandoned r y' \<and> length (cy_deliveries y) \<le> length (cy_deliveries y')
    \<and> (\<forall>j. length (cy_deliveries y) \<le> j \<longrightarrow> j < length (cy_deliveries y') \<longrightarrow> dedup_matches (fst (cy_deliveries y' ! j)) r
        \<longrightarrow> blocked_at (dd_id r) (snd (cy_deliveries y' ! j)))"
  using assms(1,4)
proof (induction rule: channel_reachable.induct)
  case here
  with y show ?case by simp
next
  case (further y1 y2)
  note grow = messages_stay [OF further(2)]
  have agree: "duplicates_agree (cy_deliveries y1)" using agree_before [OF further(4)] grow by blast
  note IH = further(3) [OF agree]
  have y1: "system_sound y1" "abandoned r y1" using IH by auto
  have "blocked_at (dd_id r) (snd (cy_deliveries y2 ! j))"
    if j: "length (cy_deliveries y) \<le> j" "j < length (cy_deliveries y2)" "dedup_matches (fst (cy_deliveries y2 ! j)) r" for j
    using further(2)
  proof cases
    case (arrive m)
    with j IH show ?thesis by (cases "j < length (cy_deliveries y1)") (auto simp: nth_append first_stage_def less_Suc_eq)
  next
    case (deliver i m st s st')
    show ?thesis
    proof (cases "j = i")
      case True
      have m: "m \<in> fst ` set (cy_deliveries y1)" using deliver(2,3) by (metis fst_conv image_eqI nth_mem)
      have at: "blocked_at (dd_id r) st" and b: "dedup_matches m r" using j IH deliver True by auto
      from blocked_step [OF y1 agree m b deliver(4) at] show ?thesis using deliver True by simp
    next
      case False
      with j IH deliver show ?thesis by auto
    qed
  qed (use j IH in auto)
  then have "\<forall>j. length (cy_deliveries y) \<le> j \<longrightarrow> j < length (cy_deliveries y2) \<longrightarrow> dedup_matches (fst (cy_deliveries y2 ! j)) r
      \<longrightarrow> blocked_at (dd_id r) (snd (cy_deliveries y2 ! j))" by simp
  moreover have "system_sound y2" "abandoned r y2" "length (cy_deliveries y) \<le> length (cy_deliveries y2)"
    using channel_step_sound [OF further(2) y1(1)] abandoned_kept [OF further(2) y1] grow IH by auto
  ultimately show ?case by (intro conjI)
qed

text \<open>
  C37. A reservation whose owner is gone blocks its event. When a delivery vanished, cancelled or with its
  process, after it reserved and before it marked or released, no later delivery with the event or the message identifier of the
  reservation is ever told a run or submits anything: it waits for the run and is told after the timeout
  that a duplicate is pending, and that it was accepted. As in C34, being a duplicate is transitive on
  the deliveries that came.
\<close>

theorem abandoned_reservation_blocks_its_event:
  assumes "channel_reachable ft diag ch empty_system y" and "abandoned r y"
    and "channel_reachable ft diag ch y y'" and "duplicates_agree (cy_deliveries y')"
    and "length (cy_deliveries y) \<le> j" "j < length (cy_deliveries y')" and "dedup_matches (fst (cy_deliveries y' ! j)) r"
  shows "case snd (cy_deliveries y' ! j) of
      Answered a \<Rightarrow> a = pending_timeout \<or> a = Raised \<or> a = not_addressed
    | Looking n \<Rightarrow> True | Awaiting rid \<Rightarrow> rid = dd_id r | Vanished \<Rightarrow> True | _ \<Rightarrow> False"
  using later_deliveries_blocked [OF assms(3) channel_reachable_sound [OF assms(1) empty_system_sound] assms(2,4)] assms(5-7)
  by (auto split: stage.split)

lemma abandoned_at:
  "channel_reachable ft diag sample_hub empty_system (system_at [7] [reserved_sample] empty_db [(sample_message, Vanished)])"
proof -
  have waits: "\<forall>a. Submitting 7 (idempotency_key sample_hub sample_message) \<noteq> Answered a" by blast
  have "channel_reachable ft diag sample_hub empty_system (system_at [7] [reserved_sample] empty_db
      ([(sample_message, Submitting 7 (idempotency_key sample_hub sample_message))][0 := (sample_message, Vanished)]))"
    by (rule deliver_at [OF reserved_at _ _ cancelled [OF waits]]) simp_all
  then show ?thesis by simp
qed

lemma blocked_later:
  "channel_reachable ft diag sample_hub (system_at [7] [reserved_sample] empty_db [(sample_message, Vanished)])
     (system_at [7] [reserved_sample] empty_db [(sample_message, Vanished), (renumbered_message, Answered pending_timeout)])"
proof -
  let ?y = "system_at [7] [reserved_sample] empty_db [(sample_message, Vanished)]"
  have a: "channel_reachable ft diag sample_hub ?y (system_at [7] [reserved_sample] empty_db
      ([(sample_message, Vanished)] @ [(renumbered_message, first_stage renumbered_message)]))" by (rule arrive_at [OF here])
  have b: "channel_reachable ft diag sample_hub ?y (system_at [7] [reserved_sample] empty_db
      ([(sample_message, Vanished), (renumbered_message, Looking 2)][1 := (renumbered_message, after_found reserved_sample)]))"
    by (rule deliver_at [OF a [unfolded append.simps first_renumbered] _ _ look_found]) (simp_all add: renumbered_facts reserved_sample_facts)
  have "channel_reachable ft diag sample_hub ?y (system_at [7] [reserved_sample] empty_db
      ([(sample_message, Vanished), (renumbered_message, Awaiting 7)][1 := (renumbered_message, Answered pending_timeout)]))"
    by (rule deliver_at [OF _ _ _ poll_timeout [where rid = 7]])
      (use b in \<open>simp_all add: renumbered_facts reserved_sample_facts run_of_reservation_def\<close>)
  then show ?thesis by simp
qed

definition blocked_deliveries :: "(inbound_message \<times> stage) list" where
  "blocked_deliveries = [(sample_message, Vanished), (renumbered_message, Answered pending_timeout)]"

theorem abandoned_reservation_blocks_its_event_witness:
  "abandoned reserved_sample (system_at [7] [reserved_sample] empty_db [(sample_message, Vanished)])
   \<and> (case snd (blocked_deliveries ! 1) of
      Answered a \<Rightarrow> a = pending_timeout \<or> a = Raised \<or> a = not_addressed
    | Looking n \<Rightarrow> True | Awaiting rid \<Rightarrow> rid = dd_id reserved_sample | Vanished \<Rightarrow> True | _ \<Rightarrow> False)"
proof -
  have "abandoned reserved_sample (system_at [7] [reserved_sample] empty_db [(sample_message, Vanished)])"
    by (simp add: abandoned_def renumbered_facts reserved_sample_facts)
  from abandoned_reservation_blocks_its_event [OF abandoned_at [of "\<lambda>_. []" "\<lambda>_. []"] this blocked_later, of 1] this
  show ?thesis unfolding blocked_deliveries_def [symmetric]
    by (simp add: one_event_renumbered renumbered_facts reserved_sample_facts blocked_deliveries_def)
qed

end
