(* ===== verification/Channel_Guarantees.thy ===== *)
theory Channel_Guarantees
  imports Delivery_Guarantees
begin

text \<open>
  From the channel to the runtime: a submission repeated under its key gets the run of the first, by an
  interface of keyed submissions interpreted on the submitter; a bound account is the actor of its
  messages; and the skills a message selects are the ones the planner reads, or refuses.
\<close>

section \<open>Submitting under a key\<close>

text \<open>
  What a client may rely on when it submits under a key: the key holds what was created, submitting again
  returns that and changes nothing, and the moves of the world that spare it keep it so.
\<close>

locale keyed_submission =
  fixes submit_to :: "'x \<Rightarrow> 'w \<Rightarrow> 'e + ('w \<times> 'r)"
    and holds :: "'r \<Rightarrow> 'w \<Rightarrow> bool"
    and spares :: "'r \<Rightarrow> 'w \<Rightarrow> 'w \<Rightarrow> bool"
    and refuses :: "'x \<Rightarrow> 'w \<Rightarrow> 'e option"
    and ok :: "'w \<Rightarrow> bool"
  assumes submitted: "ok w \<Longrightarrow> submit_to x w = Inr (w', r) \<Longrightarrow> holds r w' \<and> ok w'"
    and held: "ok w \<Longrightarrow> holds r w \<Longrightarrow>
      submit_to x w = (case refuses x w of Some e \<Rightarrow> Inl e | None \<Rightarrow> Inr (w, r))"
    and spared: "ok w \<Longrightarrow> holds r w \<Longrightarrow> spares r w w' \<Longrightarrow> holds r w' \<and> ok w'"
begin

lemma retry:
  assumes "ok w" and "submit_to x w = Inr (w1, r)" and "(spares r)\<^sup>*\<^sup>* w1 w2"
  shows "submit_to x' w2 = (case refuses x' w2 of Some e \<Rightarrow> Inl e | None \<Rightarrow> Inr (w2, r))"
proof -
  from assms(3) have "holds r w2 \<and> ok w2"
    by (induction rule: rtranclp_induct) (use submitted [OF assms(1,2)] spared in auto)
  then show ?thesis by (simp add: held)
qed

end

definition run_under_key :: "uuid \<Rightarrow> string \<Rightarrow> uuid \<Rightarrow> run_db \<Rightarrow> bool" where
  "run_under_key tenant k run db \<longleftrightarrow> (\<exists>row \<in> set (db_runs db). rr_id row = run \<and> rr_tenant row = tenant \<and> rr_key row = Some k)"

definition spares_run ::
  "(pyfloat \<Rightarrow> string) \<Rightarrow> (string \<Rightarrow> (string \<times> json) list) \<Rightarrow> uuid \<Rightarrow> run_db \<Rightarrow> run_db \<Rightarrow> bool" where
  "spares_run ft diag run db db' \<longleftrightarrow> (\<exists>op. db' = exec_op ft diag op db \<and> (\<nexists>t. op = Op_Delete t run))"

lemma keyed_run_found:
  assumes "db_ok db" and "row \<in> set (db_runs db)" "rr_tenant row = t" "rr_key row = Some k"
  shows "find (\<lambda>r. rr_tenant r = t \<and> rr_key r = Some k) (db_runs db) = Some row"
proof (rule find_unique)
  fix y assume y: "y \<in> set (db_runs db)" "rr_tenant y = t \<and> rr_key y = Some k"
  have "distinct (map (\<lambda>r. (rr_tenant r, rr_key r)) (keyed (db_runs db)))"
    using assms(1) by (simp add: db_ok_def runs_ok_def)
  moreover have "y \<in> set (keyed (db_runs db))" "row \<in> set (keyed (db_runs db))"
    using y assms by (auto simp: keyed_def)
  ultimately show "y = row" using y assms by (auto simp: distinct_map inj_on_def)
qed (use assms in auto)

lemma exec_op_ok: "db_ok db \<Longrightarrow> db_ok (exec_op ft diag op db)"
  by (rule reachable_db_ok [OF reach_step [OF reach_refl step]])

lemma run_under_key_spared:
  assumes "db_ok db" and "run_under_key t k run db" and "spares_run ft diag run db db'"
  shows "run_under_key t k run db' \<and> db_ok db'"
proof -
  from assms(2) obtain row where row: "row \<in> set (db_runs db)" "rr_id row = run" "rr_tenant row = t" "rr_key row = Some k"
    by (auto simp: run_under_key_def)
  from assms(3) obtain op where op: "db' = exec_op ft diag op db" "\<nexists>t. op = Op_Delete t run" by (auto simp: spares_run_def)
  have ok: "db_ok db'" using exec_op_ok [OF assms(1)] op(1) by simp
  have "get_for_update run db = Inr row" using row by (simp add: get_for_update_mem [OF assms(1)])
  from exec_op_run [OF assms(1) this op(2), of ft diag] obtain row' where
    "get_for_update run db' = Inr row'" "evolves row row'" by (auto simp: run_after_def op(1))
  then have "row' \<in> set (db_runs db')" "rr_id row' = run" "rr_tenant row' = t" "rr_key row' = Some k"
    using row by (auto simp: get_for_update_mem [OF ok] evolves_def same_identity_def)
  then show ?thesis using ok by (auto simp: run_under_key_def)
qed

lemma create_holds:
  assumes "db_ok db" and "create_run t a q m s (Some k) d enq i oid now db = Inr (db', rc)"
  shows "run_under_key t k (rc_id rc) db' \<and> db_ok db'"
proof
  from created_found [OF assms(2)] obtain row where
    row: "find (\<lambda>x. rr_tenant x = t \<and> rr_key x = Some k) (db_runs db') = Some row" "rc = to_record row" by blast
  then have "row \<in> set (db_runs db') \<and> rr_tenant row = t \<and> rr_key row = Some k" by (auto simp: find_Some_iff)
  then show "run_under_key t k (rc_id rc) db'" using row(2) by (auto simp: run_under_key_def to_record_def)
  show "db_ok db'"
    using exec_op_ok [OF assms(1), of "\<lambda>_. []" "\<lambda>_. []" "Op_Create t a q m s (Some k) d enq i oid now"] assms(2)
    by (simp add: committed_def)
qed

lemma create_held:
  assumes "db_ok db" and "run_under_key t k run db"
  shows "\<exists>rc. create_run t a q m s (Some k) d enq i oid now db = Inr (db, rc) \<and> rc_id rc = run"
proof -
  from assms(2) obtain row where row: "row \<in> set (db_runs db)" "rr_id row = run" "rr_tenant row = t" "rr_key row = Some k"
    by (auto simp: run_under_key_def)
  from keyed_run_found [OF assms(1) row(1,3,4)] show ?thesis
    using row(2) by (auto simp: create_run_def Let_def to_record_def)
qed

lemma message_submission_fields [simp]:
  "sb_key (message_submission ch accounts m k) = Some k" "sb_tenant (message_submission ch accounts m k) = ch_tenant ch"
  "sb_model (message_submission ch accounts m k) = None"
  by (simp_all add: message_submission_def Let_def split: prod.split)

definition refused_message ::
  "channel_hub \<Rightarrow> string \<Rightarrow> account_db \<times> inbound_message \<times> draws \<Rightarrow> run_db \<Rightarrow> channel_error option" where
  "refused_message ch k x db = (case x of (accounts, m, dr) \<Rightarrow>
     (case submission_plan (ch_runs ch) (message_submission ch accounts m k) dr db of
        Refuse e \<Rightarrow> Some (Submission_Error (Inl e)) | _ \<Rightarrow> None))"

definition submit_message ::
  "channel_hub \<Rightarrow> string \<Rightarrow> account_db \<times> inbound_message \<times> draws \<Rightarrow> run_db \<Rightarrow> channel_error + (run_db \<times> uuid)" where
  "submit_message ch k x = (case x of (accounts, m, dr) \<Rightarrow> submit_new_task ch accounts m k dr)"

lemma submit_message_stored:
  assumes "db_ok db" and "submit_message ch k x db = Inr (db', run)"
  shows "run_under_key (ch_tenant ch) k run db' \<and> db_ok db'"
proof -
  obtain accounts m dr where x: "x = (accounts, m, dr)" by (cases x)
  let ?sb = "message_submission ch accounts m k"
  from assms(2) obtain rc where rc: "submit (ch_runs ch) ?sb dr db = Inr (db', rc)" "rc_id rc = run"
    by (auto simp: submit_message_def x submit_new_task_def split: sum.splits)
  from submit_cases [OF rc(1)] obtain md st d q where "place_run ?sb dr md st d q db = Inr (db', rc)" by blast
  from create_holds [OF assms(1) this [unfolded place_run_def message_submission_fields]] rc(2) show ?thesis by simp
qed

lemma submit_message_held:
  assumes "db_ok db" and "run_under_key (ch_tenant ch) k run db"
  shows "submit_message ch k x db = (case refused_message ch k x db of Some e \<Rightarrow> Inl e | None \<Rightarrow> Inr (db, run))"
proof -
  obtain accounts m dr where x: "x = (accounts, m, dr)" by (cases x)
  let ?sb = "message_submission ch accounts m k"
  have placed: "\<exists>rc. place_run ?sb dr md st d q db = Inr (db, rc) \<and> rc_id rc = run" for md st d q
    unfolding place_run_def message_submission_fields by (rule create_held [OF assms])
  show ?thesis
  proof (cases "submission_plan (ch_runs ch) ?sb dr db")
    case (Enqueue md d)
    with placed [of "Some md" Queued d True] show ?thesis
      by (auto simp: submit_message_def refused_message_def x submit_new_task_def submit_def Let_def)
  next
    case (Ask_Approval md d)
    with placed [of "Some md" Waiting_Approval d False] show ?thesis
      by (auto simp: submit_message_def refused_message_def x submit_new_task_def submit_def Let_def)
  next
    case (Ask_Mode d)
    with placed [of None Waiting_User_Mode d False] show ?thesis
      by (auto simp: submit_message_def refused_message_def x submit_new_task_def submit_def Let_def)
  next
    case (Refuse e)
    then show ?thesis by (simp add: submit_message_def refused_message_def x submit_new_task_def submit_def Let_def)
  qed
qed

interpretation messages: keyed_submission "submit_message ch k" "run_under_key (ch_tenant ch) k" "spares_run ft diag"
    "refused_message ch k" db_ok for ch k ft diag
  by unfold_locales (fact submit_message_stored submit_message_held run_under_key_spared)+

lemma spared_by_all:
  "\<forall>t. Op_Delete t run \<notin> set ops \<Longrightarrow> (spares_run ft diag run)\<^sup>*\<^sup>* db (fold (exec_op ft diag) ops db)"
proof (induction ops arbitrary: db)
  case (Cons op ops)
  have "spares_run ft diag run db (exec_op ft diag op db)" using Cons.prems by (auto simp: spares_run_def)
  with Cons.IH [of "exec_op ft diag op db"] Cons.prems show ?case by (auto intro: converse_rtranclp_into_rtranclp)
qed simp

text \<open>
  C35. A message submitted again under its key gets the run of the first submission. Whatever was done to
  the runs in between, short of deleting that run, whoever the sender is now and whatever is drawn, the
  submitter changes nothing and names the first run, or refuses the message before anything is stored.
  The messages are no numbered choices: a choice is not made under the key.
\<close>

theorem retried_message_gets_its_run:
  assumes "db_ok db" and "channel_submit ch accounts m k dr db = Inr (db1, run)"
    and "numeric_choice_key (trim (im_text m)) = None"
    and "\<forall>t. Op_Delete t run \<notin> set ops" and "db2 = fold (exec_op ft diag) ops db1"
    and "trim (im_text m') \<noteq> []" and "numeric_choice_key (trim (im_text m')) = None"
  shows "channel_submit ch accounts' m' k dr' db2 =
    (case submission_plan (ch_runs ch) (message_submission ch accounts' m' k) dr' db2 of
       Refuse e \<Rightarrow> Inl (Submission_Error (Inl e)) | _ \<Rightarrow> Inr (db2, run))"
proof -
  have "submit_new_task ch accounts m k dr db = Inr (db1, run)"
    using assms(2,3) by (simp add: channel_submit_def Let_def split: if_splits)
  then have "submit_message ch k (accounts, m, dr) db = Inr (db1, run)" by (simp add: submit_message_def)
  from messages.retry [OF assms(1) this spared_by_all [OF assms(4), of ft diag], where x' = "(accounts', m', dr')"]
  have "submit_new_task ch accounts' m' k dr' db2 =
    (case submission_plan (ch_runs ch) (message_submission ch accounts' m' k) dr' db2 of
       Refuse e \<Rightarrow> Inl (Submission_Error (Inl e)) | _ \<Rightarrow> Inr (db2, run))"
    unfolding assms(5) [symmetric]
    by (auto simp: submit_message_def refused_message_def split: plan.splits option.splits)
  with assms(6,7) show ?thesis by (simp add: channel_submit_def Let_def)
qed

lemma sample_task: "submit_new_task sample_hub no_accounts sample_message (idempotency_key sample_hub sample_message)
    plain_draws empty_db = Inr (fst (projr sample_submission), 10)"
proof -
  have "numeric_choice_key (trim (im_text sample_message)) = None" by code_simp
  moreover have "trim (im_text sample_message) \<noteq> []" by code_simp
  ultimately have "submit_new_task sample_hub no_accounts sample_message (idempotency_key sample_hub sample_message)
      plain_draws empty_db = sample_submission" by (simp add: sample_submission_def channel_submit_def Let_def)
  with sample_submission_works show ?thesis by (metis prod.collapse sum.collapse(2))
qed

theorem retried_message_gets_its_run_witness:
  "channel_submit sample_hub no_accounts sample_message (idempotency_key sample_hub sample_message) plain_draws
     (exec_op (\<lambda>_. []) (\<lambda>_. []) (Op_Claim 10 False) (fst (projr sample_submission)))
   = Inr (exec_op (\<lambda>_. []) (\<lambda>_. []) (Op_Claim 10 False) (fst (projr sample_submission)), 10)"
proof -
  let ?db2 = "exec_op (\<lambda>_. []) (\<lambda>_. []) (Op_Claim 10 False) (fst (projr sample_submission))"
  have task: "numeric_choice_key (trim (im_text sample_message)) = None" "trim (im_text sample_message) \<noteq> []" by code_simp+
  then have first: "channel_submit sample_hub no_accounts sample_message (idempotency_key sample_hub sample_message) plain_draws
      empty_db = Inr (fst (projr sample_submission), 10)"
    using sample_task by (simp add: channel_submit_def Let_def)
  have plan: "case submission_plan (ch_runs sample_hub) (message_submission sample_hub no_accounts sample_message
      (idempotency_key sample_hub sample_message)) plain_draws ?db2 of Refuse e \<Rightarrow> False | _ \<Rightarrow> True"
    by code_simp
  have "?db2 = fold (exec_op (\<lambda>_. []) (\<lambda>_. [])) [Op_Claim 10 False] (fst (projr sample_submission))" by simp
  from retried_message_gets_its_run [OF db_ok_empty first task(1) _ this task(2,1), of no_accounts plain_draws] plan
  show ?thesis by (auto split: plan.splits)
qed

section \<open>The skills a message selects\<close>

text \<open>What the payload of a plan keeps of the selection under the key of the requested skills.\<close>

definition carries :: "(string \<times> json) list \<Rightarrow> plan \<Rightarrow> bool" where
  "carries sel p \<longleftrightarrow> (case p of Refuse e \<Rightarrow> True
    | Enqueue m d \<Rightarrow> map_of d ''requested_skills'' = map_of sel ''requested_skills''
    | Ask_Approval m d \<Rightarrow> map_of d ''requested_skills'' = map_of sel ''requested_skills''
    | Ask_Mode d \<Rightarrow> map_of d ''requested_skills'' = map_of sel ''requested_skills'')"

lemma merge_under:
  "distinct (map fst sel) \<Longrightarrow> map_of xs k = None \<Longrightarrow> map_of (dict_merge xs sel) k = map_of sel k"
  by (simp add: dict_get_merge split: option.split)

lemma merge_over:
  "distinct (map fst ys) \<Longrightarrow> map_of ys k = None \<Longrightarrow> map_of (dict_merge d ys) k = map_of d k"
  by (simp add: dict_get_merge)

lemma approval_carries:
  "field \<in> {''temporary_agent_proposal'', ''evolution_proposal'', ''schedule_proposal'', ''openclaw_proposal''} \<Longrightarrow>
   map_of (approval_payload reason kind field proposal dr sel) ''requested_skills'' = map_of sel ''requested_skills''"
  unfolding approval_payload_def by (rule merge_over) auto

lemma enqueue_carries:
  "map_of d ''requested_skills'' = map_of sel ''requested_skills'' \<Longrightarrow> carries sel (enqueue_or_ask sv sb dr m d)"
  by (simp add: enqueue_or_ask_def carries_def create_temporary_agent_approval_def approval_carries split: option.split)

lemma proposal_carries: "local_proposal sv sb dr sel = Some p \<Longrightarrow> carries sel p"
  by (auto simp: local_proposal_def Let_def carries_def create_evolution_approval_def create_schedule_approval_def
      create_openclaw_approval_def approval_carries split: option.splits schedule_finding.splits)

lemma dump_free: "map_of (decision_dump dec x) ''requested_skills'' = None"
  by (simp add: decision_dump_def)

lemma hermes_free: "map_of (hermes_part advice) ''requested_skills'' = None" "distinct (map fst (hermes_part advice))"
  by (simp_all add: hermes_part_def split: option.split)

lemma mode_payload_carries:
  "distinct (map fst sel) \<Longrightarrow> map_of (mode_payload r m src sel) ''requested_skills'' = map_of sel ''requested_skills''"
  unfolding mode_payload_def by (rule merge_under) simp_all

lemma without_router_carries:
  "distinct (map fst sel) \<Longrightarrow> auto_without_router sv sb dr sel db = Some p \<Longrightarrow> carries sel p"
  by (auto simp: auto_without_router_def carries_def mode_payload_carries split: option.splits)

lemma local_resolution_carries:
  "distinct (map fst sel) \<Longrightarrow> map_of extra ''requested_skills'' = None \<Longrightarrow>
   map_of (local_resolution m u extra sel) ''requested_skills'' = map_of sel ''requested_skills''"
  unfolding local_resolution_def by (rule merge_under) simp_all

lemma ask_mode_carries: "distinct (map fst sel) \<Longrightarrow> carries sel (ask_mode_plan dr dec d advice sel)"
  unfolding ask_mode_plan_def Let_def carries_def plan.case by (rule merge_under) (simp_all add: hermes_free)

lemma advised_carries:
  assumes sel: "distinct (map fst sel)"
  shows "carries sel (auto_advised sv sb dr sel d)"
proof -
  have adv: "map_of (dict_merge [(''reason'', JStr r), (''hermes'', h)] sel) ''requested_skills'' = map_of sel ''requested_skills''"
    for r h by (rule merge_under [OF sel]) simp
  have auto: "map_of (dict_merge (dict_merge [(''reason'', a), (''auto_resolution_reason'', b),
      (''auto_resolution_selected_mode'', c), (''auto_resolution_selected_confidence'', e),
      (''auto_resolution_source_modes'', f), (''decision'', g)] sel) (hermes_part advice)) ''requested_skills''
      = map_of sel ''requested_skills''" for a b c e f g advice
    unfolding merge_over [OF hermes_free(2,1)] by (rule merge_under [OF sel]) simp
  show ?thesis
    unfolding auto_advised_def Let_def
    by (auto simp: adv auto ask_mode_carries [OF sel] local_resolution_carries [OF sel] hermes_free
        carries_def [of _ "Enqueue _ _"] intro!: enqueue_carries)
qed

lemma routed_carries:
  assumes sel: "distinct (map fst sel)"
  shows "carries sel (auto_routed sv sb dr sel)"
proof -
  have ready: "carries sel (ready_plan sv sb dr sel x m)" for x m
    unfolding ready_plan_def Let_def
    by (intro enqueue_carries merge_under [OF sel]) (simp add: merge_over dump_free)
  show ?thesis unfolding auto_routed_def Let_def
    by (auto simp: advised_carries [OF sel] ready local_resolution_carries [OF sel] intro!: enqueue_carries
        split: option.split route_status.split)
qed

lemma plan_branches_carry: "carries sel (enqueue_or_ask sv sb dr m sel)"
  by (rule enqueue_carries) simp

lemma plan_carries: "carries (operator_selection sb dr) (submission_plan sv sb dr db)"
  unfolding submission_plan_def Let_def
  by (auto simp: carries_def [of _ "Refuse _"] plan_branches_carry
      without_router_carries [OF selection_distinct] routed_carries [OF selection_distinct] proposal_carries split: option.split)

text \<open>The names a selector can have, as strings.\<close>

definition name_points :: "int list" where
  "name_points = [48..57] @ [65..90] @ [97..122] @ [95, 46, 45]"

lemma name_point: "name_char c \<or> c \<in> {95, 46, 45} \<Longrightarrow> c \<in> set name_points"
  unfolding name_points_def set_append set_upto name_char_def id_char_def by auto

lemma name_points_read:
  "list_all (\<lambda>c. char_of c \<noteq> CHR '','' \<and> \<not> py_space (char_of c)
     \<and> (char_of c \<in> set (lower_alnum @ ''_-'') \<longleftrightarrow> \<not> (char_of c = CHR ''.'' \<or> char_of c \<in> set upper_alpha))
     \<and> (name_char c \<longrightarrow> char_of c \<noteq> CHR ''.'' \<and> (char_of c \<in> set lower_alnum \<longleftrightarrow> char_of c \<notin> set upper_alpha))) name_points"
  by code_simp

lemma directive_points: "directive_name t \<Longrightarrow> c \<in> set t \<Longrightarrow> c \<in> set name_points"
  by (cases t) (auto simp: directive_name_def list_all_iff intro!: name_point)

definition plannable :: "string \<Rightarrow> bool" where
  "plannable v \<longleftrightarrow> list_all (\<lambda>c. c \<noteq> CHR ''.'' \<and> c \<notin> set upper_alpha) v"

lemma py_strip_none:
  assumes "\<forall>c \<in> set t. \<not> py_space c"
  shows "py_strip t = t"
proof -
  have keep: "dropWhile py_space u = u" if "\<forall>c \<in> set u. \<not> py_space c" for u using that by (cases u) auto
  show ?thesis unfolding py_strip_def using keep [of t] keep [of "rev t"] assms by simp
qed

lemma directive_string:
  assumes "directive_name t"
  shows "ascii_part t \<noteq> []" "CHR '','' \<notin> set (ascii_part t)" "py_strip (ascii_part t) = ascii_part t"
    "planner_identifier (ascii_part t) \<longleftrightarrow> plannable (ascii_part t)"
proof -
  have pts: "\<forall>c \<in> set t. c \<in> set name_points" using directive_points [OF assms] by blast
  then have read: "\<forall>c \<in> set t. char_of c \<noteq> CHR '','' \<and> \<not> py_space (char_of c)
      \<and> (char_of c \<in> set (lower_alnum @ ''_-'') \<longleftrightarrow> \<not> (char_of c = CHR ''.'' \<or> char_of c \<in> set upper_alpha))
      \<and> (name_char c \<longrightarrow> char_of c \<noteq> CHR ''.'' \<and> (char_of c \<in> set lower_alnum \<longleftrightarrow> char_of c \<notin> set upper_alpha))"
    using name_points_read by (simp only: list_all_iff) blast
  show "ascii_part t \<noteq> []" using assms by (simp add: directive_name_def ascii_part_def)
  show "CHR '','' \<notin> set (ascii_part t)" using read by (auto simp: ascii_part_def)
  have "\<forall>c \<in> set (ascii_part t). \<not> py_space c" using read by (auto simp: ascii_part_def)
  then show "py_strip (ascii_part t) = ascii_part t" by (rule py_strip_none)
  obtain h u where t: "t = h # u" using assms by (cases t) (auto simp: directive_name_def)
  show "planner_identifier (ascii_part t) \<longleftrightarrow> plannable (ascii_part t)"
    using assms read
    by (auto simp: t planner_identifier_def ident_match_def plannable_def ascii_part_def directive_name_def list_all_iff)
qed

definition selectable :: "string \<Rightarrow> bool" where
  "selectable v \<longleftrightarrow> (\<exists>u. directive_name u \<and> v = ascii_part u)"

lemma selectable_facts:
  "selectable v \<Longrightarrow> v \<noteq> []" "selectable v \<Longrightarrow> CHR '','' \<notin> set v" "selectable v \<Longrightarrow> py_strip v = v"
  "selectable v \<Longrightarrow> planner_identifier v \<longleftrightarrow> plannable v"
  by (auto simp: selectable_def directive_string)

lemma first_kept_set [simp]: "set (first_kept xs) = set xs" "distinct (first_kept xs)"
  by (simp_all add: first_kept_def)

lemma token_skill: "parse_resource_token w = Some (Skill v) \<Longrightarrow> selectable v"
  by (auto simp: parse_resource_token_def named_def selectable_def split: if_splits)

lemma leading_skill: "Skill v \<in> set (leading_selectors ws) \<Longrightarrow> selectable v"
  by (induction ws) (auto split: option.splits intro: token_skill [OF sym])

lemma selected_named:
  assumes "v \<in> set (rh_skills (parse_channel_resource_hints t))"
  shows "selectable v"
proof -
  from assms obtain s where s: "s \<in> set (leading_selectors (words_of (trim t)))" "skill_of s = Some v"
    by (auto simp: parse_channel_resource_hints_def hints_of_def map_filter_def)
  from s(2) have "s = Skill v" by (cases s) simp_all
  with s(1) show ?thesis by (intro leading_skill) simp
qed

lemma comma_joined_nonempty: "vs \<noteq> [] \<Longrightarrow> \<forall>v \<in> set vs. v \<noteq> [] \<Longrightarrow> comma_joined vs \<noteq> []"
  unfolding comma_joined_def by (cases vs; cases "tl vs") auto

lemma safe_context_keys: "fst ` set (safe_channel_context ctx) \<subseteq> fst ` set ctx"
  by (force simp: safe_channel_context_def)

lemma safe_context_Cons: "safe_channel_context ((k, v) # ctx) =
    (if k \<in> set allowed_context_keys \<and> v \<noteq> [] then [(k, JStr (take 512 v))] else []) @ safe_channel_context ctx"
  by (simp add: safe_channel_context_def)

lemma safe_context_distinct: "distinct (map fst ctx) \<Longrightarrow> distinct (map fst (safe_channel_context ctx))"
proof (induction ctx)
  case (Cons kv ctx)
  obtain k v where kv: "kv = (k, v)" by (cases kv)
  have "k \<notin> fst ` set (safe_channel_context ctx)" using Cons.prems safe_context_keys [of ctx] by (auto simp: kv)
  moreover have "safe_channel_context (kv # ctx) = (k, JStr (take 512 v)) # safe_channel_context ctx
      \<or> safe_channel_context (kv # ctx) = safe_channel_context ctx" by (simp add: kv safe_context_Cons)
  ultimately show ?case using Cons by (elim disjE) simp_all
qed (simp add: safe_channel_context_def)

lemma safe_context_get:
  assumes "k \<in> set allowed_context_keys" and "distinct (map fst ctx)"
  shows "map_of (safe_channel_context ctx) k =
    (case map_of ctx k of None \<Rightarrow> None | Some v \<Rightarrow> if v = [] then None else Some (JStr (take 512 v)))"
  using assms(2)
proof (induction ctx)
  case (Cons kv ctx)
  obtain k' v where kv: "kv = (k', v)" by (cases kv)
  have free: "map_of (safe_channel_context ctx) k' = None"
    using Cons.prems safe_context_keys [of ctx] by (auto simp: kv map_of_eq_None_iff)
  show ?case
  proof (cases "k' = k")
    case True
    with free assms(1) show ?thesis by (simp add: kv safe_context_Cons)
  next
    case False
    with Cons show ?thesis by (simp add: kv safe_context_Cons)
  qed
qed (simp add: safe_channel_context_def)

lemma context_get:
  "map_of (channel_context m h res) ''requested_skills'' = (if rh_skills h = [] then None else Some (comma_joined (rh_skills h)))"
  "distinct (map fst (channel_context m h res))"
  by (simp_all add: channel_context_def)

lemma context_skills:
  assumes "\<forall>v \<in> set (rh_skills h). v \<noteq> []"
  shows "map_of (safe_channel_context (channel_context m h res)) ''requested_skills'' =
    (if rh_skills h = [] then None else Some (JStr (take 512 (comma_joined (rh_skills h)))))"
proof -
  have "''requested_skills'' \<in> set allowed_context_keys" by code_simp
  from safe_context_get [OF this context_get(2)] comma_joined_nonempty [OF _ assms] show ?thesis
    by (simp add: context_get(1))
qed

lemmas context_distinct = safe_context_distinct [OF context_get(2)]

lemma selection_skills:
  assumes "\<forall>v \<in> set (rh_skills (parse_channel_resource_hints (trim (im_text m)))). v \<noteq> []"
    and "rh_skills (parse_channel_resource_hints (trim (im_text m))) = skills"
  shows "map_of (operator_selection (message_submission ch accounts m k) dr) ''requested_skills'' =
    (if skills = [] then None else Some (JStr (take 512 (comma_joined skills))))"
proof -
  have base: "map_of (base_selection sb dr) ''requested_skills'' = None" for sb
    by (simp add: base_selection_def)
  obtain actor res where a: "message_actor ch accounts m = (actor, res)" by fastforce
  have "operator_selection (message_submission ch accounts m k) dr = dict_merge (base_selection (message_submission ch accounts m k) dr)
      (safe_channel_context (channel_context m (parse_channel_resource_hints (trim (im_text m))) res))"
    by (simp add: operator_selection_def message_submission_def Let_def a)
  then show ?thesis using merge_under [OF context_distinct base] context_skills [OF assms(1), of m res] assms(2) by simp
qed

lemma read_back:
  assumes "\<forall>v \<in> set skills. selectable v" and "length (comma_joined skills) \<le> 512"
    and "json_get d ''requested_skills'' = (if skills = [] then None else Some (JStr (take 512 (comma_joined skills))))"
  shows "requested_skills d = skills"
proof (cases "skills = []")
  case True
  with assms(3) show ?thesis by (simp add: requested_skills_def)
next
  case False
  have names: "\<forall>v \<in> set skills. v \<noteq> [] \<and> CHR '','' \<notin> set v \<and> py_strip v = v"
    using assms(1) selectable_facts by simp
  have "split_on CHR '','' (comma_joined skills) = skills"
    unfolding comma_joined_def by (rule split_on_join [OF False]) (simp add: names)
  moreover have "map py_strip skills = skills" using names by (simp add: map_idI)
  moreover have "filter (\<lambda>s. s \<noteq> []) skills = skills" using names by (simp add: filter_id_conv)
  ultimately show ?thesis using assms(2,3) False by (simp add: requested_skills_def)
qed

lemma placed_payload:
  assumes "submit sv sb dr db = Inr (db', rc)"
    and "sb_key sb = None \<or> find (\<lambda>r. rr_tenant r = sb_tenant sb \<and> rr_key r = sb_key sb) (db_runs db) = None"
  shows "\<exists>row. db_runs db' = db_runs db @ [row] \<and> rc = to_record row
    \<and> json_get (decision_of row) ''requested_skills'' = json_get (operator_selection sb dr) ''requested_skills''"
proof -
  have plan: "carries (operator_selection sb dr) (submission_plan sv sb dr db)" by (rule plan_carries)
  show ?thesis
  proof (cases "submission_plan sv sb dr db")
    case (Enqueue md d)
    with assms(1) have "place_run sb dr (Some md) Queued d True db = Inr (db', rc)"
      by (auto simp: submit_def Let_def split: sum.splits)
    from placed_new [OF this assms(2)] plan show ?thesis by (auto simp: Enqueue carries_def json_get_def decision_of_def)
  next
    case (Ask_Approval md d)
    with assms(1) have "place_run sb dr (Some md) Waiting_Approval d False db = Inr (db', rc)"
      by (auto simp: submit_def Let_def split: sum.splits)
    from placed_new [OF this assms(2)] plan show ?thesis by (auto simp: Ask_Approval carries_def json_get_def decision_of_def)
  next
    case (Ask_Mode d)
    with assms(1) have "place_run sb dr None Waiting_User_Mode d False db = Inr (db', rc)"
      by (auto simp: submit_def Let_def split: sum.splits)
    from placed_new [OF this assms(2)] plan show ?thesis by (auto simp: Ask_Mode carries_def json_get_def decision_of_def)
  next
    case (Refuse e)
    with assms(1) show ?thesis by (simp add: submit_def Let_def)
  qed
qed

text \<open>
  C36. The skills a message selects are the skills the runtime reads, and not always ones it takes. The
  run created for a message that opens with selectors carries, through the comma separated text of its
  decision, exactly the skills named there, in order and without repetition, when they fit the 512
  characters kept and the key is fresh; and the planner refuses the whole list when one name has a
  capital letter or a dot, both of which the selectors allow.
\<close>

theorem selected_skills_reach_the_planner:
  assumes "submit_new_task ch accounts m k dr db = Inr (db', run)"
    and "find (\<lambda>r. rr_tenant r = ch_tenant ch \<and> rr_key r = Some k) (db_runs db) = None"
    and "skills = rh_skills (parse_channel_resource_hints (trim (im_text m)))" and "length (comma_joined skills) \<le> 512"
  shows "\<exists>row. db_runs db' = db_runs db @ [row] \<and> rr_id row = run \<and> requested_skills (decision_of row) = skills
    \<and> normalize_identifier_tuple (requested_skills (decision_of row)) = (if list_all plannable skills then Some skills else None)"
proof -
  let ?sb = "message_submission ch accounts m k"
  have named: "\<forall>v \<in> set skills. selectable v" using selected_named assms(3) by simp
  have nonempty: "\<forall>v \<in> set skills. v \<noteq> []" using named selectable_facts(1) by simp
  from assms(1) obtain rc where rc: "submit (ch_runs ch) ?sb dr db = Inr (db', rc)" "rc_id rc = run"
    by (auto simp: submit_new_task_def split: sum.splits)
  obtain row where row: "db_runs db' = db_runs db @ [row]" "rc = to_record row"
    "json_get (decision_of row) ''requested_skills'' = json_get (operator_selection ?sb dr) ''requested_skills''"
    using placed_payload [OF rc(1)] assms(2) by auto
  have "requested_skills (decision_of row) = skills"
    by (rule read_back [OF named assms(4)])
      (use row(3) selection_skills [of m, folded assms(3), OF nonempty refl] in \<open>simp add: json_get_def\<close>)
  moreover have "distinct skills" by (simp add: assms(3) parse_channel_resource_hints_def hints_of_def)
  moreover have "list_all planner_identifier skills \<longleftrightarrow> list_all plannable skills"
    using named selectable_facts(4) by (simp add: list_all_iff)
  moreover have "rr_id row = run" using row(2) rc(2) by (simp add: to_record_def)
  ultimately show ?thesis using row(1) by (intro exI [of _ row]) (simp add: normalize_identifier_tuple_def)
qed

definition selecting_message :: inbound_message where
  "selecting_message = sample_message\<lparr>im_text := ascii ''&hr &Dr.X go''\<rparr>"

definition selecting_submission :: "channel_error + (run_db \<times> uuid)" where
  "selecting_submission = submit_new_task sample_hub no_accounts selecting_message ''k'' plain_draws empty_db"

theorem selected_skills_reach_the_planner_witness:
  "\<exists>row. db_runs (fst (projr selecting_submission)) = [row] \<and> requested_skills (decision_of row) = [''hr'', ''Dr.X'']
     \<and> normalize_identifier_tuple (requested_skills (decision_of row)) = None"
proof -
  have works: "\<not> isl selecting_submission" by code_simp
  then have sub: "submit_new_task sample_hub no_accounts selecting_message ''k'' plain_draws empty_db
      = Inr (fst (projr selecting_submission), snd (projr selecting_submission))"
    unfolding selecting_submission_def [symmetric] by (metis prod.collapse sum.collapse(2))
  have skills: "[''hr'', ''Dr.X''] = rh_skills (parse_channel_resource_hints (trim (im_text selecting_message)))"
    by code_simp
  from selected_skills_reach_the_planner [OF sub _ skills] show ?thesis
    by (auto simp: empty_db_def comma_joined_def plannable_def upper_alpha_def)
qed

text \<open>
  What is kept of a longer selection can end in a name nobody wrote: of four names of 128 letters the
  last is read back with 125.
\<close>

theorem long_selections_are_cut:
  "requested_skills [(''requested_skills'', JStr (take 512 (comma_joined (map (replicate 128) ''abcd''))))]
     = map (replicate 128) ''abc'' @ [replicate 125 CHR ''d'']"
  by code_simp

section \<open>Who a bound sender is\<close>

text \<open>Binding an identity to an account makes that account the actor of its messages, unless it is disabled.\<close>

theorem bound_sender_is_the_actor:
  assumes "bind_feishu_open_id actor uid open_id db = (db', Inr mu)"
  shows "resolve_actor_id (pr_tenant actor) Feishu open_id db' = (if mu_disabled mu then None else Some uid)"
proof -
  from assms obtain row where free: "\<forall>r \<in> set (ac_users db). ur_tenant r = pr_tenant actor \<and> ur_open_id r = Some open_id \<longrightarrow> ur_id r = uid"
    and row: "select_user actor uid db = Some row" and stored: "store_user (row\<lparr>ur_open_id := Some open_id\<rparr>) db = (db', Inr mu)"
    by (auto simp: bind_feishu_open_id_def list_ex_iff split: if_splits option.splits)
  from row have r: "row \<in> set (ac_users db)" "ur_id row = uid" "ur_tenant row = pr_tenant actor"
    by (auto simp: select_user_def find_Some_iff)
  let ?new = "row\<lparr>ur_open_id := Some open_id\<rparr>"
  from stored have users: "ac_users db' = map (\<lambda>x. if ur_id x = uid then ?new else x) (ac_users db)"
    and mu: "mu_disabled mu = ur_disabled row"
    by (auto simp: store_user_def write_user_def r managed_user_from_row_def split: if_splits option.splits)
  have mine: "x = ?new" if "x \<in> set (ac_users db')" "ur_tenant x = pr_tenant actor \<and> ur_open_id x = Some open_id" for x
    using that free by (auto simp: users split: if_splits)
  have mem: "?new \<in> set (ac_users db')" using r by (force simp: users)
  show ?thesis
  proof (cases "ur_disabled row")
    case True
    then have "ur_disabled x" if "x \<in> set (ac_users db')" "ur_tenant x = pr_tenant actor \<and> ur_open_id x = Some open_id" for x
      using mine [OF that] by simp
    then have "find (\<lambda>x. ur_tenant x = pr_tenant actor \<and> ur_open_id x = Some open_id \<and> \<not> ur_disabled x) (ac_users db') = None"
      unfolding find_None_iff by blast
    with True show ?thesis by (simp add: resolve_actor_id_def mu)
  next
    case False
    have "find (\<lambda>x. ur_tenant x = pr_tenant actor \<and> ur_open_id x = Some open_id \<and> \<not> ur_disabled x) (ac_users db') = Some ?new"
    proof (rule find_unique [OF mem])
      show "ur_tenant ?new = pr_tenant actor \<and> ur_open_id ?new = Some open_id \<and> \<not> ur_disabled ?new" using False r by simp
      show "y = ?new" if "y \<in> set (ac_users db')"
        "ur_tenant y = pr_tenant actor \<and> ur_open_id y = Some open_id \<and> \<not> ur_disabled y" for y
        using mine that by blast
    qed
    with False r show ?thesis by (simp add: resolve_actor_id_def mu)
  qed
qed

end
