(* ===== verification/Config_Schema.thy ===== *)
theory Config_Schema
  imports Model_Gateway Task_Texts
begin

text \<open>
  The platform configuration of \<open>config/schema.py\<close> with its validators, and how \<open>runtime/defaults.py\<close>
  turns it into deployments and fallbacks. A document is what pydantic makes of its JSON: a field with
  a default is an option, \<open>None\<close> where the document does not set it. Decimals are their values.
\<close>

section \<open>Documents\<close>

record deployment_definition =
  dn_provider :: string
  dn_model :: string
  dn_api_base :: "string option option"
  dn_secret :: string
  dn_scope :: string
  dn_concurrency :: "int option"
  dn_utilization :: "pyfloat option"
  dn_reserved :: "int option"
  dn_rpm :: "int option option"
  dn_tpm :: "int option option"
  dn_price_in :: "decimal option option"
  dn_price_out :: "decimal option option"
  dn_capabilities :: "model_capability list option"

record logical_model_definition =
  ln_deployments :: "deployment_definition list"
  ln_fallback :: "string option option"

record agent_definition =
  an_id :: string
  an_role :: utext
  an_prompt :: utext
  an_model :: string
  an_skills :: "string list option"

record platform_config =
  pc_models :: "(string \<times> logical_model_definition) list"
  pc_agents :: "agent_definition list"

text \<open>The attributes of a definition, with the defaults of the fields.\<close>

definition field_or :: "'a \<Rightarrow> 'a option \<Rightarrow> 'a" where
  "field_or d v = (case v of None \<Rightarrow> d | Some x \<Rightarrow> x)"

definition concurrency_of :: "deployment_definition \<Rightarrow> int" where
  "concurrency_of d = field_or 1 (dn_concurrency d)"

definition utilization_of :: "deployment_definition \<Rightarrow> pyfloat" where
  "utilization_of d = field_or (to_double (8 / 10)) (dn_utilization d)"

definition reserved_of :: "deployment_definition \<Rightarrow> int" where
  "reserved_of d = field_or 0 (dn_reserved d)"

definition capabilities_of :: "deployment_definition \<Rightarrow> model_capability list" where
  "capabilities_of d = field_or [Cap_Text] (dn_capabilities d)"

definition fallback_of :: "logical_model_definition \<Rightarrow> string option" where
  "fallback_of m = field_or None (ln_fallback m)"

definition skills_of :: "agent_definition \<Rightarrow> string list" where
  "skills_of a = field_or [] (an_skills a)"

section \<open>Validation\<close>

definition if_given :: "('a \<Rightarrow> bool) \<Rightarrow> 'a option option \<Rightarrow> bool" where
  "if_given P v = (case field_or None v of None \<Rightarrow> True | Some x \<Rightarrow> P x)"

definition definition_ok :: "deployment_definition \<Rightarrow> bool" where
  "definition_ok d \<longleftrightarrow> unpadded 512 (dn_provider d) \<and> unpadded 512 (dn_model d)
     \<and> if_given (unpadded 2048) (dn_api_base d) \<and> unpadded 512 (dn_secret d) \<and> unpadded 128 (dn_scope d)
     \<and> 1 \<le> concurrency_of d \<and> concurrency_of d \<le> 1000
     \<and> 1 / 2 \<le> utilization_of d \<and> utilization_of d \<le> to_double (9 / 10)
     \<and> 0 \<le> reserved_of d \<and> reserved_of d < concurrency_of d
     \<and> if_given (\<lambda>r. 0 < r) (dn_rpm d) \<and> if_given (\<lambda>r. 0 < r) (dn_tpm d)
     \<and> (field_or None (dn_price_in d) = None \<longleftrightarrow> field_or None (dn_price_out d) = None)
     \<and> if_given price_ok (dn_price_in d) \<and> if_given price_ok (dn_price_out d)
     \<and> 1 \<le> card (set (capabilities_of d)) \<and> card (set (capabilities_of d)) \<le> 8"

definition logical_model_ok :: "logical_model_definition \<Rightarrow> bool" where
  "logical_model_ok m \<longleftrightarrow> 1 \<le> length (ln_deployments m) \<and> length (ln_deployments m) \<le> 128
     \<and> list_all definition_ok (ln_deployments m) \<and> if_given (unpadded 128) (ln_fallback m)"

definition unpadded_text :: "nat \<Rightarrow> utext \<Rightarrow> bool" where
  "unpadded_text max_length t \<longleftrightarrow> t \<noteq> [] \<and> t = trim t \<and> length t \<le> max_length"

definition agent_ok :: "agent_definition \<Rightarrow> bool" where
  "agent_ok a \<longleftrightarrow> Model_Types.safe_model_id (an_id a) \<and> unpadded_text 256 (an_role a) \<and> unpadded_text 100000 (an_prompt a)
     \<and> unpadded 128 (an_model a) \<and> length (skills_of a) \<le> 128 \<and> distinct (skills_of a)
     \<and> list_all Model_Types.safe_model_id (skills_of a)"

definition supports_text :: "logical_model_definition \<Rightarrow> bool" where
  "supports_text m \<longleftrightarrow> list_ex (\<lambda>d. Cap_Text \<in> set (capabilities_of d)) (ln_deployments m)"

definition fallback_ok :: "platform_config \<Rightarrow> string \<times> logical_model_definition \<Rightarrow> bool" where
  "fallback_ok c nm = (case fallback_of (snd nm) of None \<Rightarrow> True
     | Some f \<Rightarrow> f \<noteq> fst nm \<and> f \<in> fst ` set (pc_models c))"

definition platform_ok :: "platform_config \<Rightarrow> bool" where
  "platform_ok c \<longleftrightarrow> dict_ok (pc_models c) \<and> length (pc_models c) \<le> 256 \<and> length (pc_agents c) \<le> 1024
     \<and> list_all (\<lambda>(n, m). Model_Types.safe_model_id n \<and> logical_model_ok m) (pc_models c) \<and> list_all agent_ok (pc_agents c)
     \<and> distinct (map an_id (pc_agents c))
     \<and> list_all (\<lambda>a. case map_of (pc_models c) (an_model a) of None \<Rightarrow> False | Some m \<Rightarrow> supports_text m) (pc_agents c)
     \<and> list_all (fallback_ok c) (pc_models c)"

section \<open>Dumping\<close>

text \<open>\<open>model_dump\<close> of a valid document keeps the fields that are set, or writes every field out.\<close>

definition fill_definition :: "deployment_definition \<Rightarrow> deployment_definition" where
  "fill_definition d = d\<lparr>dn_api_base := Some (field_or None (dn_api_base d)), dn_concurrency := Some (concurrency_of d),
     dn_utilization := Some (utilization_of d), dn_reserved := Some (reserved_of d), dn_rpm := Some (field_or None (dn_rpm d)),
     dn_tpm := Some (field_or None (dn_tpm d)), dn_price_in := Some (field_or None (dn_price_in d)),
     dn_price_out := Some (field_or None (dn_price_out d)), dn_capabilities := Some (capabilities_of d)\<rparr>"

definition fill_model :: "logical_model_definition \<Rightarrow> logical_model_definition" where
  "fill_model m = m\<lparr>ln_deployments := map fill_definition (ln_deployments m), ln_fallback := Some (fallback_of m)\<rparr>"

definition fill_agent :: "agent_definition \<Rightarrow> agent_definition" where
  "fill_agent a = a\<lparr>an_skills := Some (skills_of a)\<rparr>"

definition fill_config :: "platform_config \<Rightarrow> platform_config" where
  "fill_config c = \<lparr>pc_models = map (\<lambda>(n, m). (n, fill_model m)) (pc_models c), pc_agents = map fill_agent (pc_agents c)\<rparr>"

text \<open>\<open>None\<close> as a document is one pydantic cannot read.\<close>

definition validated_document :: "platform_config option \<Rightarrow> bool \<Rightarrow> platform_config option" where
  "validated_document doc include_defaults = (case doc of None \<Rightarrow> None
     | Some c \<Rightarrow> if platform_ok c then Some (if include_defaults then fill_config c else c) else None)"

section \<open>From a configuration to the model layer\<close>

definition to_deployment :: "string \<Rightarrow> string \<Rightarrow> deployment_definition \<Rightarrow> deployment" where
  "to_deployment deployment_id logical_model d =
     \<lparr>dp_id = deployment_id, dp_logical = logical_model, dp_provider = dn_provider d @ ''/'' @ dn_model d,
      dp_request = Some (dn_model d),
      dp_api_base = (case field_or None (dn_api_base d) of None \<Rightarrow> ''http://litellm:4000/v1'' | Some b \<Rightarrow> b),
      dp_secret = dn_secret d, dp_scope = dn_scope d, dp_concurrency = concurrency_of d,
      dp_utilization = utilization_of d, dp_reserved = reserved_of d, dp_rpm = field_or None (dn_rpm d),
      dp_tpm = field_or None (dn_tpm d), dp_weight = 100, dp_price_in = field_or None (dn_price_in d),
      dp_price_out = field_or None (dn_price_out d), dp_capabilities = capabilities_of d\<rparr>"

definition numbered_deployments :: "string \<times> logical_model_definition \<Rightarrow> deployment list" where
  "numbered_deployments nm = map (\<lambda>i. to_deployment (fst nm @ ''_'' @ nat_text (Suc i)) (fst nm) (ln_deployments (snd nm) ! i))
     [0..<length (ln_deployments (snd nm))]"

text \<open>\<open>None\<close> is the exception of the first \<open>Deployment\<close> that is refused.\<close>

definition config_deployments :: "(string \<Rightarrow> bool) \<Rightarrow> platform_config \<Rightarrow> deployment list option" where
  "config_deployments bracket_ok c =
     (let ds = concat (map numbered_deployments (sort_key fst (pc_models c))) in
      if list_all (deployment_ok bracket_ok) ds then Some ds else None)"

definition config_fallbacks :: "platform_config \<Rightarrow> fallbacks" where
  "config_fallbacks c = List.map_filter (\<lambda>(n, m). map_option (Pair n) (fallback_of m)) (pc_models c)"

text \<open>
  \<open>None\<close> stands for the exception of \<open>min\<close> over no models; its callers answer for a configuration without
  models before they ask.
\<close>

definition direct_logical_model :: "platform_config \<Rightarrow> string option \<Rightarrow> string option" where
  "direct_logical_model c requested =
     (let names = map fst (pc_models c) in
      case requested of Some (x # xs) \<Rightarrow> Some (x # xs)
      | _ \<Rightarrow> if ''main'' \<in> set names then Some ''main'' else if ''direct'' \<in> set names then Some ''direct''
             else (case sort names of [] \<Rightarrow> None | n # _ \<Rightarrow> Some n))"

text \<open>
  The model layer a run is given: its registry, or \<open>None\<close> where there is none, because building it raises
  or because the configuration names no model and the run gets \<open>UnavailableRuntime\<close>.
\<close>

definition configured_models :: "(string \<Rightarrow> bool) \<Rightarrow> platform_config \<Rightarrow> model_registry option" where
  "configured_models bracket_ok c =
     (if pc_models c = [] then None
      else case config_deployments bracket_ok c of None \<Rightarrow> None
      | Some ds \<Rightarrow> (case mk_registry ds of None \<Rightarrow> None
         | Some reg \<Rightarrow> if validate_fallbacks reg (config_fallbacks c) = None then Some reg else None))"

section \<open>What a valid configuration lacks\<close>

text \<open>What the model layer asks of a deployment beyond the schema.\<close>

definition deployable :: "(string \<Rightarrow> bool) \<Rightarrow> string \<Rightarrow> nat \<Rightarrow> deployment_definition \<Rightarrow> bool" where
  "deployable bracket_ok name i d \<longleftrightarrow> length name + 1 + length (nat_text (Suc i)) \<le> 128
     \<and> length (dn_provider d) + 1 + length (dn_model d) \<le> 512 \<and> Model_Types.safe_model_id (cut_at ''/'' (dn_provider d))
     \<and> Model_Types.safe_model_id (dn_scope d) \<and> if_given (api_base_ok bracket_ok) (dn_api_base d)"

end
