(* ===== verification/Config_Revisions.thy ===== *)
theory Config_Revisions
  imports Config_Schema
begin

text \<open>
  The revisions of the platform configuration: the table of \<open>db/models.py\<close> with its unique keys, the
  repository of \<open>config/repository.py\<close> and the service of \<open>config/service.py\<close>. The advisory lock makes
  the transactions of one tenant sequential, so each is one step; the notifier runs after the commit
  and is a function that may raise.
\<close>

section \<open>The table\<close>

datatype config_status = Draft_Revision | Published_Revision | Superseded_Revision

record config_revision =
  cv_id :: uuid
  cv_tenant :: uuid
  cv_number :: int
  cv_status :: config_status
  cv_document :: "platform_config option"
  cv_author :: "uuid option"
  cv_at :: instant

datatype config_error = Configuration_Invalid | Configuration_Not_Found | Configuration_Status string
  | Configuration_Conflict | Pagination_Invalid

text \<open>The signed 64 bits of the advisory lock.\<close>

definition advisory_lock_key :: "uuid \<Rightarrow> int" where
  "advisory_lock_key tenant =
     (let upper = drop_bit 64 tenant; lower = take_bit 64 tenant; unsigned = uint (xor upper lower) in
      if 2 ^ 63 \<le> unsigned then unsigned - 2 ^ 64 else unsigned)"

definition next_version :: "uuid \<Rightarrow> config_revision list \<Rightarrow> int" where
  "next_version tenant rows =
     (case map cv_number (filter (\<lambda>r. cv_tenant r = tenant) rows) of [] \<Rightarrow> 1 | v # vs \<Rightarrow> fold max vs v + 1)"

definition clashes :: "config_revision \<Rightarrow> config_revision \<Rightarrow> bool" where
  "clashes r x \<longleftrightarrow> cv_id x = cv_id r \<or> cv_tenant x = cv_tenant r \<and> (cv_number x = cv_number r
     \<or> cv_status x = Published_Revision \<and> cv_status r = Published_Revision)"

definition insert_revision :: "config_revision \<Rightarrow> config_revision list \<Rightarrow> config_revision list option" where
  "insert_revision r rows = (if list_ex (clashes r) rows then None else Some (rows @ [r]))"

definition revision_by_version :: "uuid \<Rightarrow> int \<Rightarrow> config_revision list \<Rightarrow> config_revision option" where
  "revision_by_version tenant version = find (\<lambda>r. cv_tenant r = tenant \<and> cv_number r = version)"

definition revision_by_id :: "uuid \<Rightarrow> uuid \<Rightarrow> config_revision list \<Rightarrow> config_revision option" where
  "revision_by_id tenant rid = find (\<lambda>r. cv_tenant r = tenant \<and> cv_id r = rid)"

definition current_revision :: "uuid \<Rightarrow> config_revision list \<Rightarrow> config_revision option" where
  "current_revision tenant = find (\<lambda>r. cv_tenant r = tenant \<and> cv_status r = Published_Revision)"

definition set_status :: "uuid \<Rightarrow> config_status \<Rightarrow> config_revision list \<Rightarrow> config_revision list" where
  "set_status rid s rows = map (\<lambda>r. if cv_id r = rid then r\<lparr>cv_status := s\<rparr> else r) rows"

text \<open>The current revision becomes superseded before another is published.\<close>

definition supersede_current :: "uuid \<Rightarrow> config_revision list \<Rightarrow> config_revision list" where
  "supersede_current tenant rows =
     (case current_revision tenant rows of None \<Rightarrow> rows | Some c \<Rightarrow> set_status (cv_id c) Superseded_Revision rows)"

section \<open>The service\<close>

datatype config_action = Publish_Action | Rollback_Action

record published_event =
  pe_tenant :: uuid
  pe_version :: int
  pe_actor :: uuid
  pe_action :: config_action

text \<open>What a call ends with: a revision, an error, or the error of the notifier after the commit.\<close>

datatype config_answer = Revision config_revision | Refused config_error | Post_Commit published_event

definition notified :: "(published_event \<Rightarrow> bool) \<Rightarrow> published_event \<Rightarrow> config_revision \<Rightarrow> config_answer" where
  "notified notify e r = (if notify e then Revision r else Post_Commit e)"

definition create_draft ::
  "uuid \<Rightarrow> uuid \<Rightarrow> platform_config option \<Rightarrow> uuid \<Rightarrow> instant \<Rightarrow> config_revision list \<Rightarrow> config_revision list \<times> config_answer" where
  "create_draft tenant actor doc rid now rows =
     (case validated_document doc False of
        None \<Rightarrow> (rows, Refused Configuration_Invalid)
      | Some valid \<Rightarrow>
          let r = \<lparr>cv_id = rid, cv_tenant = tenant, cv_number = next_version tenant rows, cv_status = Draft_Revision,
                cv_document = Some valid, cv_author = Some actor, cv_at = now\<rparr> in
          case insert_revision r rows of None \<Rightarrow> (rows, Refused Configuration_Conflict) | Some rows' \<Rightarrow> (rows', Revision r))"

definition publish_found ::
  "(published_event \<Rightarrow> bool) \<Rightarrow> uuid \<Rightarrow> uuid \<Rightarrow> config_revision option \<Rightarrow> config_revision list
     \<Rightarrow> config_revision list \<times> config_answer" where
  "publish_found notify tenant actor found rows =
     (case found of
        None \<Rightarrow> (rows, Refused Configuration_Not_Found)
      | Some target \<Rightarrow>
          if cv_status target \<noteq> Draft_Revision then (rows, Refused (Configuration_Status ''only draft revisions can be published''))
          else if validated_document (cv_document target) False = None then (rows, Refused Configuration_Invalid)
          else if (case current_revision tenant rows of None \<Rightarrow> False | Some c \<Rightarrow> cv_number target \<le> cv_number c)
          then (rows, Refused (Configuration_Status ''older than the current published version''))
          else let r = target\<lparr>cv_status := Published_Revision\<rparr> in
            (set_status (cv_id target) Published_Revision (supersede_current tenant rows),
             notified notify \<lparr>pe_tenant = tenant, pe_version = cv_number r, pe_actor = actor, pe_action = Publish_Action\<rparr> r))"

definition publish ::
  "(published_event \<Rightarrow> bool) \<Rightarrow> uuid \<Rightarrow> int \<Rightarrow> uuid \<Rightarrow> config_revision list \<Rightarrow> config_revision list \<times> config_answer" where
  "publish notify tenant version actor rows = publish_found notify tenant actor (revision_by_version tenant version rows) rows"

definition publish_revision ::
  "(published_event \<Rightarrow> bool) \<Rightarrow> uuid \<Rightarrow> uuid \<Rightarrow> uuid \<Rightarrow> config_revision list \<Rightarrow> config_revision list \<times> config_answer" where
  "publish_revision notify tenant rid actor rows = publish_found notify tenant actor (revision_by_id tenant rid rows) rows"

definition rollback ::
  "(published_event \<Rightarrow> bool) \<Rightarrow> uuid \<Rightarrow> int \<Rightarrow> uuid \<Rightarrow> uuid \<Rightarrow> instant \<Rightarrow> config_revision list
     \<Rightarrow> config_revision list \<times> config_answer" where
  "rollback notify tenant version actor rid now rows =
     (case revision_by_version tenant version rows of
        None \<Rightarrow> (rows, Refused Configuration_Not_Found)
      | Some source \<Rightarrow>
          if cv_status source \<notin> {Published_Revision, Superseded_Revision}
          then (rows, Refused (Configuration_Status ''rollback source must be a published or superseded revision''))
          else (case validated_document (cv_document source) True of
             None \<Rightarrow> (rows, Refused Configuration_Invalid)
           | Some valid \<Rightarrow>
               let rows1 = supersede_current tenant rows;
                   r = \<lparr>cv_id = rid, cv_tenant = tenant, cv_number = next_version tenant rows1, cv_status = Published_Revision,
                     cv_document = Some valid, cv_author = Some actor, cv_at = now\<rparr> in
               case insert_revision r rows1 of
                 None \<Rightarrow> (rows, Refused Configuration_Conflict)
               | Some rows2 \<Rightarrow> (rows2, notified notify
                   \<lparr>pe_tenant = tenant, pe_version = cv_number r, pe_actor = actor, pe_action = Rollback_Action\<rparr> r)))"

definition get_config_version :: "uuid \<Rightarrow> int \<Rightarrow> config_revision list \<Rightarrow> config_answer" where
  "get_config_version tenant version rows =
     (case revision_by_version tenant version rows of None \<Rightarrow> Refused Configuration_Not_Found | Some r \<Rightarrow> Revision r)"

definition list_config_versions ::
  "uuid \<Rightarrow> int \<Rightarrow> int \<Rightarrow> config_revision list \<Rightarrow> config_error + config_revision list" where
  "list_config_versions tenant limit offset rows =
     (if \<not> (1 \<le> limit \<and> limit \<le> 100) \<or> \<not> (0 \<le> offset \<and> offset \<le> 1000000) then Inl Pagination_Invalid
      else Inr (take (nat limit) (drop (nat offset) (sort_key cv_number (filter (\<lambda>r. cv_tenant r = tenant) rows)))))"

section \<open>Histories\<close>

datatype config_op =
  Create_Draft uuid uuid "platform_config option" uuid instant
| Publish uuid int uuid
| Publish_By_Id uuid uuid uuid
| Rollback uuid int uuid uuid instant

fun exec_config :: "(published_event \<Rightarrow> bool) \<Rightarrow> config_op \<Rightarrow> config_revision list \<Rightarrow> config_revision list" where
  "exec_config notify (Create_Draft tenant actor doc rid now) rows = fst (create_draft tenant actor doc rid now rows)"
| "exec_config notify (Publish tenant version actor) rows = fst (publish notify tenant version actor rows)"
| "exec_config notify (Publish_By_Id tenant rid actor) rows = fst (publish_revision notify tenant rid actor rows)"
| "exec_config notify (Rollback tenant version actor rid now) rows = fst (rollback notify tenant version actor rid now rows)"

end
