(* ===== verification/Config_Guarantees.thy ===== *)
theory Config_Guarantees
  imports Config_Revisions
begin

text \<open>
  What holds of the configuration of a tenant: every history of drafts, publications and rollbacks keeps
  the revisions sound, the current version only grows, a rollback puts the deployments of its source
  in force again; and which valid configurations the model layer can run.
\<close>

section \<open>Filling in the defaults\<close>

lemma field_or_simps [simp]: "field_or d (Some x) = x" "field_or d None = d" "field_or d (Some (field_or d v)) = field_or d v"
  by (simp_all add: field_or_def)

lemma filled_fields [simp]:
  "concurrency_of (fill_definition d) = concurrency_of d" "utilization_of (fill_definition d) = utilization_of d"
  "reserved_of (fill_definition d) = reserved_of d" "capabilities_of (fill_definition d) = capabilities_of d"
  "fallback_of (fill_model m) = fallback_of m" "skills_of (fill_agent a) = skills_of a"
  "an_id (fill_agent a) = an_id a" "an_model (fill_agent a) = an_model a"
  by (simp_all add: fill_definition_def concurrency_of_def utilization_of_def reserved_of_def capabilities_of_def
      fill_model_def fallback_of_def fill_agent_def skills_of_def)

lemma if_given_filled [simp]: "if_given P (Some (field_or None v)) = if_given P v"
  by (simp add: if_given_def)

lemma fill_definition_ok [simp]: "definition_ok (fill_definition d) = definition_ok d"
  unfolding definition_ok_def filled_fields by (simp add: fill_definition_def)

lemma fill_model_ok [simp]: "logical_model_ok (fill_model m) = logical_model_ok m"
proof -
  have "if_given P (Some (fallback_of m)) = if_given P (ln_fallback m)" for P by (simp add: fallback_of_def)
  then show ?thesis by (simp add: logical_model_ok_def fill_model_def list_all_iff)
qed

lemma fill_supports [simp]: "supports_text (fill_model m) = supports_text m"
  by (simp add: supports_text_def fill_model_def list_ex_iff)

lemma fill_agent_ok [simp]: "agent_ok (fill_agent a) = agent_ok a"
  unfolding agent_ok_def filled_fields by (simp add: fill_agent_def)

lemma fill_models_fst [simp]: "map fst (pc_models (fill_config c)) = map fst (pc_models c)"
  by (simp add: fill_config_def comp_def case_prod_unfold)

lemma map_of_second: "map_of (map (\<lambda>(n, m). (n, f m)) xs) k = map_option f (map_of xs k)"
  by (induction xs) auto

lemma fill_models_get: "map_of (pc_models (fill_config c)) k = map_option fill_model (map_of (pc_models c) k)"
  by (simp add: fill_config_def map_of_second)

lemma fill_models_names: "fst ` set (pc_models (fill_config c)) = fst ` set (pc_models c)"
  using fill_models_fst [of c] by (metis set_map)

lemma fill_platform_ok: "platform_ok c \<Longrightarrow> platform_ok (fill_config c)"
proof -
  assume c: "platform_ok c"
  have agents: "map an_id (pc_agents (fill_config c)) = map an_id (pc_agents c)"
    by (simp add: fill_config_def comp_def)
  have "list_all (\<lambda>a. case map_of (pc_models (fill_config c)) (an_model a) of None \<Rightarrow> False | Some m \<Rightarrow> supports_text m)
      (pc_agents (fill_config c))"
    using c unfolding fill_models_get platform_ok_def
    by (simp add: fill_config_def list_all_iff split: option.splits)
  moreover have "list_all (fallback_ok (fill_config c)) (pc_models (fill_config c))"
    using c unfolding platform_ok_def fallback_ok_def fill_models_names
    by (auto simp: fill_config_def list_all_iff split: option.splits)
  ultimately show ?thesis
    using c unfolding platform_ok_def agents dict_ok_def fill_models_fst
    by (auto simp: fill_config_def list_all_iff case_prod_unfold)
qed

lemma validated_ok: "validated_document doc b = Some c \<Longrightarrow> platform_ok c"
  using fill_platform_ok by (auto simp: validated_document_def split: option.splits if_splits)

section \<open>The effect of a filled configuration\<close>

lemma to_deployment_filled [simp]: "to_deployment i n (fill_definition d) = to_deployment i n d"
  unfolding to_deployment_def filled_fields by (simp add: fill_definition_def)

lemma numbered_filled [simp]: "numbered_deployments (n, fill_model m) = numbered_deployments (n, m)"
  by (auto simp: numbered_deployments_def fill_model_def)

lemma insort_second: "insort_key fst (n, f m) (map (\<lambda>(n, m). (n, f m)) ys) = map (\<lambda>(n, m). (n, f m)) (insort_key fst (n, m) ys)"
  by (induction ys) auto

lemma sort_key_map_fst: "sort_key fst (map (\<lambda>(n, m). (n, f m)) xs) = map (\<lambda>(n, m). (n, f m)) (sort_key fst xs)"
proof (induction xs)
  case (Cons nm xs)
  obtain n m where "nm = (n, m)" by (cases nm)
  with Cons insort_second [of n f m "sort_key fst xs"] show ?case by simp
qed simp

lemma config_deployments_filled: "config_deployments b (fill_config c) = config_deployments b c"
proof -
  have "concat (map numbered_deployments (sort_key fst (pc_models (fill_config c))))
      = concat (map numbered_deployments (sort_key fst (pc_models c)))"
    unfolding fill_config_def platform_config.simps sort_key_map_fst
    by (simp add: comp_def case_prod_unfold)
  then show ?thesis by (simp add: config_deployments_def)
qed

lemma config_fallbacks_filled: "config_fallbacks (fill_config c) = config_fallbacks c"
  unfolding config_fallbacks_def fill_config_def by (simp add: map_filter_def comp_def case_prod_unfold filter_map)

section \<open>Histories\<close>

definition history_sound :: "config_revision list \<Rightarrow> bool" where
  "history_sound rows \<longleftrightarrow> distinct (map cv_id rows) \<and> distinct (map (\<lambda>r. (cv_tenant r, cv_number r)) rows)
     \<and> (\<forall>r \<in> set rows. 1 \<le> cv_number r \<and> (\<exists>c. cv_document r = Some c \<and> platform_ok c))
     \<and> (\<forall>r \<in> set rows. \<forall>x \<in> set rows. cv_tenant r = cv_tenant x \<longrightarrow> cv_status r = Published_Revision
          \<longrightarrow> cv_status x = Published_Revision \<longrightarrow> r = x)
     \<and> (\<forall>r \<in> set rows. cv_status r = Superseded_Revision
          \<longrightarrow> (\<exists>x \<in> set rows. cv_tenant x = cv_tenant r \<and> cv_status x = Published_Revision \<and> cv_number r < cv_number x))"

lemma find_mem: "find P xs = Some x \<Longrightarrow> x \<in> set xs \<and> P x"
  by (auto simp: find_Some_iff)

lemma current_mem:
  assumes "history_sound rows"
  shows "current_revision t rows = Some r \<longleftrightarrow> r \<in> set rows \<and> cv_tenant r = t \<and> cv_status r = Published_Revision"
proof
  assume r: "r \<in> set rows \<and> cv_tenant r = t \<and> cv_status r = Published_Revision"
  then obtain x where x: "current_revision t rows = Some x"
    by (cases "current_revision t rows") (auto simp: current_revision_def find_None_iff)
  then have "x \<in> set rows \<and> cv_tenant x = t \<and> cv_status x = Published_Revision"
    unfolding current_revision_def by (rule find_mem)
  with r assms have "x = r" by (auto simp: history_sound_def)
  with x show "current_revision t rows = Some r" by simp
qed (auto simp: current_revision_def dest: find_mem)

lemma fold_max_ge: "x \<in> set vs \<or> x \<le> v \<Longrightarrow> x \<le> fold max vs (v :: int)"
proof (induction vs arbitrary: v)
  case (Cons w vs)
  then have "x \<in> set vs \<or> x \<le> max w v" by auto
  then show ?case using Cons.IH [of "max w v"] by simp
qed simp

lemma next_version_greater: "r \<in> set rows \<Longrightarrow> cv_tenant r = t \<Longrightarrow> cv_number r < next_version t rows"
proof -
  assume r: "r \<in> set rows" "cv_tenant r = t"
  define vs where "vs = map cv_number (filter (\<lambda>r. cv_tenant r = t) rows)"
  have "cv_number r \<in> set vs" using r by (auto simp: vs_def)
  then obtain v us where "vs = v # us" "cv_number r \<in> set us \<or> cv_number r \<le> v" by (cases vs) auto
  with fold_max_ge [of "cv_number r" us v] show ?thesis by (simp add: next_version_def vs_def [symmetric])
qed

lemma next_version_positive: "(\<And>r. r \<in> set rows \<Longrightarrow> 1 \<le> cv_number r) \<Longrightarrow> 1 \<le> next_version t rows"
proof -
  assume pos: "\<And>r. r \<in> set rows \<Longrightarrow> 1 \<le> cv_number r"
  show ?thesis
  proof (cases "filter (\<lambda>r. cv_tenant r = t) rows")
    case Nil
    then show ?thesis by (simp add: next_version_def)
  next
    case (Cons r rs)
    then have "r \<in> set (filter (\<lambda>r. cv_tenant r = t) rows)" by simp
    then have "r \<in> set rows \<and> cv_tenant r = t" by simp
    with pos next_version_greater [of r rows t] show ?thesis by force
  qed
qed

definition restatus :: "uuid \<Rightarrow> config_status \<Rightarrow> config_revision \<Rightarrow> config_revision" where
  "restatus rid s r = (if cv_id r = rid then r\<lparr>cv_status := s\<rparr> else r)"

lemma restatus_fields [simp]:
  "cv_id (restatus rid s r) = cv_id r" "cv_tenant (restatus rid s r) = cv_tenant r" "cv_number (restatus rid s r) = cv_number r"
  "cv_document (restatus rid s r) = cv_document r" "cv_status (restatus rid s r) = (if cv_id r = rid then s else cv_status r)"
  by (simp_all add: restatus_def)

lemma set_status_map: "set_status rid s rows = map (restatus rid s) rows"
  by (simp add: set_status_def restatus_def)

text \<open>All but the clause on superseded revisions, which holds again once a revision is published.\<close>

definition nearly_sound :: "uuid \<Rightarrow> config_revision list \<Rightarrow> bool" where
  "nearly_sound t rows \<longleftrightarrow> distinct (map cv_id rows) \<and> distinct (map (\<lambda>r. (cv_tenant r, cv_number r)) rows)
     \<and> (\<forall>r \<in> set rows. 1 \<le> cv_number r \<and> (\<exists>c. cv_document r = Some c \<and> platform_ok c))
     \<and> (\<forall>r \<in> set rows. \<forall>x \<in> set rows. cv_tenant r = cv_tenant x \<longrightarrow> cv_status r = Published_Revision
          \<longrightarrow> cv_status x = Published_Revision \<longrightarrow> r = x)
     \<and> (\<forall>r \<in> set rows. cv_status r = Superseded_Revision \<longrightarrow> cv_tenant r \<noteq> t
          \<longrightarrow> (\<exists>x \<in> set rows. cv_tenant x = cv_tenant r \<and> cv_status x = Published_Revision \<and> cv_number r < cv_number x))
     \<and> (\<forall>r \<in> set rows. cv_tenant r = t \<longrightarrow> cv_status r \<noteq> Published_Revision)"

lemma id_unique: "distinct (map cv_id rows) \<Longrightarrow> r \<in> set rows \<Longrightarrow> x \<in> set rows \<Longrightarrow> cv_id r = cv_id x \<Longrightarrow> r = x"
  by (auto simp: distinct_map inj_on_def)

lemma restatus_keys:
  "map cv_id (set_status rid s rows) = map cv_id rows"
  "map (\<lambda>r. (cv_tenant r, cv_number r)) (set_status rid s rows) = map (\<lambda>r. (cv_tenant r, cv_number r)) rows"
  by (simp_all add: set_status_map comp_def)

lemma supersede_nearly:
  assumes "history_sound rows"
  shows "nearly_sound t (supersede_current t rows)"
proof (cases "current_revision t rows")
  case None
  then have "\<forall>r \<in> set rows. cv_tenant r = t \<longrightarrow> cv_status r \<noteq> Published_Revision"
    by (auto simp: current_revision_def find_None_iff)
  with assms None show ?thesis by (simp add: history_sound_def nearly_sound_def supersede_current_def)
next
  case (Some c)
  then have c: "c \<in> set rows" "cv_tenant c = t" "cv_status c = Published_Revision"
    using current_mem [OF assms] by auto
  have ids: "distinct (map cv_id rows)" using assms by (simp add: history_sound_def)
  have same: "r = c" if "r \<in> set rows" "cv_tenant r = t" "cv_status r = Published_Revision" for r
    using assms that c by (auto simp: history_sound_def)
  have other: "cv_id x \<noteq> cv_id c" if "x \<in> set rows" "cv_tenant x \<noteq> t" for x using id_unique [OF ids that(1) c(1)] that c by auto
  have cover: "\<exists>x \<in> restatus (cv_id c) Superseded_Revision ` set rows. cv_tenant x = cv_tenant r \<and> cv_status x = Published_Revision
      \<and> cv_number r < cv_number x" if r: "r \<in> set rows" "cv_status r = Superseded_Revision" "cv_tenant r \<noteq> t" for r
  proof -
    from assms r obtain x where "x \<in> set rows" "cv_tenant x = cv_tenant r" "cv_status x = Published_Revision" "cv_number r < cv_number x"
      by (auto simp: history_sound_def)
    moreover with other r have "cv_id x \<noteq> cv_id c" by auto
    ultimately show ?thesis by (intro bexI [of _ "restatus (cv_id c) Superseded_Revision x"]) auto
  qed
  let ?rows = "restatus (cv_id c) Superseded_Revision ` set rows"
  have documents: "\<forall>r \<in> ?rows. 1 \<le> cv_number r \<and> (\<exists>c. cv_document r = Some c \<and> platform_ok c)"
    using assms by (auto simp: history_sound_def)
  have single: "\<forall>r \<in> ?rows. \<forall>x \<in> ?rows. cv_tenant r = cv_tenant x \<longrightarrow> cv_status r = Published_Revision
      \<longrightarrow> cv_status x = Published_Revision \<longrightarrow> r = x"
    using assms by (auto simp: history_sound_def split: if_splits)
  have covered: "\<forall>r \<in> ?rows. cv_status r = Superseded_Revision \<longrightarrow> cv_tenant r \<noteq> t \<longrightarrow>
      (\<exists>x \<in> ?rows. cv_tenant x = cv_tenant r \<and> cv_status x = Published_Revision \<and> cv_number r < cv_number x)"
  proof (intro ballI impI)
    fix y assume "y \<in> ?rows" and y: "cv_status y = Superseded_Revision" "cv_tenant y \<noteq> t"
    then obtain r where r: "r \<in> set rows" "y = restatus (cv_id c) Superseded_Revision r" by auto
    with y other [of r] have "cv_status r = Superseded_Revision" "cv_tenant r \<noteq> t" by auto
    with cover [OF r(1)] r(2) show "\<exists>x \<in> ?rows. cv_tenant x = cv_tenant y \<and> cv_status x = Published_Revision
        \<and> cv_number y < cv_number x" by simp
  qed
  have none: "\<forall>r \<in> ?rows. cv_tenant r = t \<longrightarrow> cv_status r \<noteq> Published_Revision"
    using same by (auto split: if_splits)
  have rows: "set (supersede_current t rows) = ?rows" by (simp add: supersede_current_def Some set_status_map)
  have keys: "distinct (map cv_id (supersede_current t rows))"
    "distinct (map (\<lambda>r. (cv_tenant r, cv_number r)) (supersede_current t rows))"
    using assms by (simp_all add: supersede_current_def Some restatus_keys history_sound_def)
  show ?thesis unfolding nearly_sound_def rows using keys documents single covered none by blast
qed

lemma nearly_sound_raised:
  assumes n: "nearly_sound t rows" and r: "r \<in> set rows" "cv_tenant r = t"
    and above: "\<And>x. x \<in> set rows \<Longrightarrow> cv_tenant x = t \<Longrightarrow> cv_status x = Superseded_Revision \<Longrightarrow> cv_number x < cv_number r"
  shows "history_sound (set_status (cv_id r) Published_Revision rows)"
proof -
  let ?f = "restatus (cv_id r) Published_Revision"
  let ?rows = "?f ` set rows"
  have ids: "distinct (map cv_id rows)" using n by (simp add: nearly_sound_def)
  have unpublished: "cv_status x \<noteq> Published_Revision" if "x \<in> set rows" "cv_tenant x = t" for x
    using n that by (simp add: nearly_sound_def)
  have is_r: "x = r" if "x \<in> set rows" "cv_id x = cv_id r" for x using id_unique [OF ids that(1) r(1) that(2)] .
  have documents: "\<forall>x \<in> ?rows. 1 \<le> cv_number x \<and> (\<exists>c. cv_document x = Some c \<and> platform_ok c)"
    using n by (auto simp: nearly_sound_def)
  have single: "\<forall>x \<in> ?rows. \<forall>y \<in> ?rows. cv_tenant x = cv_tenant y \<longrightarrow> cv_status x = Published_Revision
      \<longrightarrow> cv_status y = Published_Revision \<longrightarrow> x = y"
  proof (intro ballI impI)
    fix x' y' assume "x' \<in> ?rows" "y' \<in> ?rows" and same: "cv_tenant x' = cv_tenant y'"
      "cv_status x' = Published_Revision" "cv_status y' = Published_Revision"
    then obtain x y where x: "x \<in> set rows" "x' = ?f x" and y: "y \<in> set rows" "y' = ?f y" by auto
    show "x' = y'"
    proof (cases "cv_tenant x = t")
      case True
      with x y same unpublished [of x] unpublished [of y] have "cv_id x = cv_id r" "cv_id y = cv_id r"
        by (auto split: if_splits)
      with x y is_r [of x] is_r [of y] show ?thesis by simp
    next
      case False
      with x y same is_r [of x] is_r [of y] r have "cv_id x \<noteq> cv_id r" "cv_id y \<noteq> cv_id r" by auto
      with x y same n show ?thesis by (auto simp: nearly_sound_def restatus_def)
    qed
  qed
  have covered: "\<forall>x \<in> ?rows. cv_status x = Superseded_Revision \<longrightarrow>
      (\<exists>y \<in> ?rows. cv_tenant y = cv_tenant x \<and> cv_status y = Published_Revision \<and> cv_number x < cv_number y)"
  proof (intro ballI impI)
    fix x' assume "x' \<in> ?rows" and s: "cv_status x' = Superseded_Revision"
    then obtain x where x: "x \<in> set rows" "x' = ?f x" by auto
    with s have sx: "cv_status x = Superseded_Revision" "cv_id x \<noteq> cv_id r" by (auto split: if_splits)
    show "\<exists>y \<in> ?rows. cv_tenant y = cv_tenant x' \<and> cv_status y = Published_Revision \<and> cv_number x' < cv_number y"
    proof (cases "cv_tenant x = t")
      case True
      with above [OF x(1)] sx x r show ?thesis by (intro bexI [of _ "?f r"]) auto
    next
      case False
      with n x sx obtain y where y: "y \<in> set rows" "cv_tenant y = cv_tenant x" "cv_status y = Published_Revision"
        "cv_number x < cv_number y" by (auto simp: nearly_sound_def)
      with False is_r [of y] r have "cv_id y \<noteq> cv_id r" by auto
      with y x show ?thesis by (intro bexI [of _ "?f y"]) auto
    qed
  qed
  have rows: "set (set_status (cv_id r) Published_Revision rows) = ?rows" by (simp add: set_status_map)
  have keys: "distinct (map cv_id (set_status (cv_id r) Published_Revision rows))"
    "distinct (map (\<lambda>r. (cv_tenant r, cv_number r)) (set_status (cv_id r) Published_Revision rows))"
    using n by (simp_all add: restatus_keys nearly_sound_def)
  show ?thesis unfolding history_sound_def rows using keys documents single covered by blast
qed

lemma inserted_row:
  assumes "insert_revision r rows = Some rows'"
  shows "rows' = rows @ [r]" "\<And>x. x \<in> set rows \<Longrightarrow> \<not> clashes r x"
  using assms by (auto simp: insert_revision_def list_ex_iff split: if_splits)

lemma nearly_sound_extended:
  assumes n: "nearly_sound t rows" and i: "insert_revision r rows = Some rows'"
    and r: "cv_tenant r = t" "cv_status r = Published_Revision" "1 \<le> cv_number r" "cv_document r = Some c" "platform_ok c"
    and above: "\<And>x. x \<in> set rows \<Longrightarrow> cv_tenant x = t \<Longrightarrow> cv_number x < cv_number r"
  shows "history_sound rows'"
proof -
  have rows: "rows' = rows @ [r]" and fresh: "\<And>x. x \<in> set rows \<Longrightarrow> cv_id x \<noteq> cv_id r" 
    using inserted_row [OF i] by (auto simp: clashes_def)
  have new: "(cv_tenant r, cv_number r) \<notin> (\<lambda>r. (cv_tenant r, cv_number r)) ` set rows"
    using above r(1) by fastforce
  have keys: "distinct (map cv_id rows')" "distinct (map (\<lambda>r. (cv_tenant r, cv_number r)) rows')"
    using n rows fresh by (force simp: nearly_sound_def, use n rows new in \<open>simp add: nearly_sound_def\<close>)
  have documents: "\<forall>x \<in> set rows'. 1 \<le> cv_number x \<and> (\<exists>c. cv_document x = Some c \<and> platform_ok c)"
    using n r rows by (auto simp: nearly_sound_def)
  have single: "\<forall>x \<in> set rows'. \<forall>y \<in> set rows'. cv_tenant x = cv_tenant y \<longrightarrow> cv_status x = Published_Revision
      \<longrightarrow> cv_status y = Published_Revision \<longrightarrow> x = y"
    using n r rows by (auto simp: nearly_sound_def)
  have covered: "\<forall>x \<in> set rows'. cv_status x = Superseded_Revision \<longrightarrow>
      (\<exists>y \<in> set rows'. cv_tenant y = cv_tenant x \<and> cv_status y = Published_Revision \<and> cv_number x < cv_number y)"
  proof (intro ballI impI)
    fix x assume x: "x \<in> set rows'" "cv_status x = Superseded_Revision"
    with rows r have m: "x \<in> set rows" by auto
    show "\<exists>y \<in> set rows'. cv_tenant y = cv_tenant x \<and> cv_status y = Published_Revision \<and> cv_number x < cv_number y"
    proof (cases "cv_tenant x = t")
      case True
      with above [OF m] r rows show ?thesis by (intro bexI [of _ r]) auto
    next
      case False
      with n m x show ?thesis unfolding nearly_sound_def rows by auto
    qed
  qed
  show ?thesis unfolding history_sound_def using keys documents single covered by blast
qed

section \<open>The operations\<close>

lemma draft_row_sound:
  assumes s: "history_sound rows" and i: "insert_revision r rows = Some rows'"
    and r: "cv_number r = next_version (cv_tenant r) rows" "cv_status r = Draft_Revision" "cv_document r = Some c" "platform_ok c"
  shows "history_sound rows'"
proof -
  have p: "1 \<le> cv_number r" unfolding r(1) using s by (intro next_version_positive) (auto simp: history_sound_def)
  have rows: "rows' = rows @ [r]" and fresh: "\<And>x. x \<in> set rows \<Longrightarrow> cv_id x \<noteq> cv_id r"
    using inserted_row [OF i] by (auto simp: clashes_def)
  have new: "(cv_tenant r, cv_number r) \<notin> (\<lambda>r. (cv_tenant r, cv_number r)) ` set rows"
    using inserted_row(2) [OF i] by (force simp: clashes_def)
  have keys: "distinct (map cv_id rows')" "distinct (map (\<lambda>r. (cv_tenant r, cv_number r)) rows')"
    using s rows fresh by (force simp: history_sound_def, use s rows new in \<open>simp add: history_sound_def\<close>)
  show ?thesis unfolding history_sound_def using keys s p r rows by (auto simp: history_sound_def)
qed

lemma draft_sound:
  "history_sound rows \<Longrightarrow> history_sound (fst (create_draft t actor doc rid now rows))"
  by (auto simp: create_draft_def Let_def split: option.splits dest!: validated_ok elim!: draft_row_sound)

lemma superseded_rows:
  assumes s: "history_sound rows" and x: "x \<in> set (supersede_current t rows)"
  obtains y where "y \<in> set rows" "cv_id x = cv_id y" "cv_tenant x = cv_tenant y" "cv_number x = cv_number y"
    "cv_status x = cv_status y \<or> cv_status x = Superseded_Revision \<and> current_revision t rows = Some y"
proof (cases "current_revision t rows")
  case None
  with x that [of x] show ?thesis by (simp add: supersede_current_def)
next
  case (Some c)
  then have c: "c \<in> set rows" using current_mem [OF s] by auto
  from x Some obtain y where y: "y \<in> set rows" "x = restatus (cv_id c) Superseded_Revision y"
    by (auto simp: supersede_current_def set_status_map)
  have "y = c" if "cv_id y = cv_id c" using id_unique [OF _ y(1) c that] s by (simp add: history_sound_def)
  with Some y that [of y] show ?thesis by (cases "cv_id y = cv_id c") auto
qed

lemma supersede_keeps_draft:
  assumes s: "history_sound rows" and r: "r \<in> set rows" "cv_status r = Draft_Revision"
  shows "r \<in> set (supersede_current t rows)"
proof (cases "current_revision t rows")
  case (Some c)
  then have c: "c \<in> set rows" "cv_status c = Published_Revision" using current_mem [OF s] by auto
  have "cv_id r \<noteq> cv_id c" using id_unique [OF _ r(1) c(1)] s r c by (auto simp: history_sound_def)
  then have "restatus (cv_id c) Superseded_Revision r = r" by (simp add: restatus_def)
  with r Some show ?thesis by (force simp: supersede_current_def set_status_map)
qed (use r in \<open>simp add: supersede_current_def\<close>)

lemma superseded_below_current:
  assumes s: "history_sound rows" and x: "x \<in> set rows" "cv_tenant x = t" "cv_status x \<noteq> Draft_Revision"
  obtains c where "current_revision t rows = Some c" "cv_number x \<le> cv_number c"
proof (cases "cv_status x")
  case Superseded_Revision
  with s x obtain c where "c \<in> set rows" "cv_tenant c = t" "cv_status c = Published_Revision" "cv_number x < cv_number c"
    by (auto simp: history_sound_def)
  then show ?thesis using that [of c] current_mem [OF s] by auto
qed (use x that current_mem [OF s] in auto)

lemma publish_found_sound:
  assumes s: "history_sound rows" and found: "\<And>r. found = Some r \<Longrightarrow> r \<in> set rows \<and> cv_tenant r = t"
  shows "history_sound (fst (publish_found notify t actor found rows))"
proof (cases "\<exists>r. found = Some r \<and> cv_status r = Draft_Revision
    \<and> (case current_revision t rows of None \<Rightarrow> True | Some c \<Rightarrow> cv_number c < cv_number r)")
  case True
  then obtain r where r: "found = Some r" "cv_status r = Draft_Revision" "r \<in> set rows" "cv_tenant r = t"
    and newer: "\<And>c. current_revision t rows = Some c \<Longrightarrow> cv_number c < cv_number r" using found by (auto split: option.splits)
  have m: "r \<in> set (supersede_current t rows)" using supersede_keeps_draft [OF s] r by simp
  have above: "cv_number x < cv_number r"
    if x: "x \<in> set (supersede_current t rows)" "cv_tenant x = t" "cv_status x = Superseded_Revision" for x
  proof -
    obtain y where y: "y \<in> set rows" "cv_tenant x = cv_tenant y" "cv_number x = cv_number y"
      "cv_status x = cv_status y \<or> cv_status x = Superseded_Revision \<and> current_revision t rows = Some y"
      using superseded_rows [OF s x(1)] by metis
    have "cv_status y \<noteq> Draft_Revision" using y x current_mem [OF s] by auto
    with superseded_below_current [OF s y(1)] y x obtain c where "current_revision t rows = Some c" "cv_number y \<le> cv_number c"
      by metis
    with newer y show ?thesis by fastforce
  qed
  have "history_sound (set_status (cv_id r) Published_Revision (supersede_current t rows))"
    using nearly_sound_raised [OF supersede_nearly [OF s] m r(4) above] .
  with s r show ?thesis unfolding publish_found_def by (simp add: Let_def split: option.splits)
next
  case False
  then have "fst (publish_found notify t actor found rows) = rows"
    by (auto simp: publish_found_def Let_def split: option.splits)
  with s show ?thesis by simp
qed

lemma revision_by_version_mem: "revision_by_version t v rows = Some r \<Longrightarrow> r \<in> set rows \<and> cv_tenant r = t \<and> cv_number r = v"
  unfolding revision_by_version_def by (drule find_mem) simp

lemma revision_by_id_mem: "revision_by_id t i rows = Some r \<Longrightarrow> r \<in> set rows \<and> cv_tenant r = t \<and> cv_id r = i"
  unfolding revision_by_id_def by (drule find_mem) simp

lemma rolled_back_row_sound:
  assumes s: "history_sound rows" and i: "insert_revision r (supersede_current t rows) = Some rows'"
    and r: "cv_tenant r = t" "cv_number r = next_version t (supersede_current t rows)" "cv_status r = Published_Revision"
      "cv_document r = Some c" "platform_ok c"
  shows "history_sound rows'"
proof (rule nearly_sound_extended [OF supersede_nearly [OF s] i r(1) r(3) _ r(4,5)])
  have "1 \<le> cv_number x" if "x \<in> set (supersede_current t rows)" for x
    using supersede_nearly [OF s, of t] that by (auto simp: nearly_sound_def)
  then show "1 \<le> cv_number r" unfolding r(2) by (rule next_version_positive)
qed (auto simp: r(2) intro: next_version_greater)

lemma rollback_sound:
  assumes s: "history_sound rows"
  shows "history_sound (fst (rollback notify t version actor rid now rows))"
  using s by (auto simp: rollback_def Let_def split: option.splits dest!: validated_ok elim!: rolled_back_row_sound)

lemma exec_config_sound: "history_sound rows \<Longrightarrow> history_sound (exec_config notify op rows)"
  by (cases op) (auto simp: draft_sound rollback_sound publish_def publish_revision_def
      intro!: publish_found_sound dest: revision_by_version_mem revision_by_id_mem)

section \<open>The version in force\<close>

definition current_number :: "uuid \<Rightarrow> config_revision list \<Rightarrow> int" where
  "current_number t rows = (case current_revision t rows of None \<Rightarrow> 0 | Some r \<Rightarrow> cv_number r)"

text \<open>A revision that left the draft status never returns to it and is never removed.\<close>

definition keeps_issued :: "config_revision list \<Rightarrow> config_revision list \<Rightarrow> bool" where
  "keeps_issued rows rows' \<longleftrightarrow> (\<forall>x \<in> set rows. cv_status x \<noteq> Draft_Revision \<longrightarrow> (\<exists>y \<in> set rows'.
     cv_id y = cv_id x \<and> cv_tenant y = cv_tenant x \<and> cv_number y = cv_number x \<and> cv_document y = cv_document x
     \<and> cv_status y \<noteq> Draft_Revision))"

lemma keeps_issued_refl [simp]: "keeps_issued rows rows"
  by (auto simp: keeps_issued_def)

lemma keeps_issued_trans:
  assumes a: "keeps_issued a b" and b: "keeps_issued b c"
  shows "keeps_issued a c"
  unfolding keeps_issued_def
proof (intro ballI impI)
  fix x assume "x \<in> set a" "cv_status x \<noteq> Draft_Revision"
  with a obtain y where y: "y \<in> set b" "cv_status y \<noteq> Draft_Revision" "cv_id y = cv_id x" "cv_tenant y = cv_tenant x"
    "cv_number y = cv_number x" "cv_document y = cv_document x" unfolding keeps_issued_def by blast
  with b obtain z where "z \<in> set c" "cv_status z \<noteq> Draft_Revision" "cv_id z = cv_id y" "cv_tenant z = cv_tenant y"
    "cv_number z = cv_number y" "cv_document z = cv_document y" unfolding keeps_issued_def by blast
  with y show "\<exists>y \<in> set c. cv_id y = cv_id x \<and> cv_tenant y = cv_tenant x \<and> cv_number y = cv_number x
      \<and> cv_document y = cv_document x \<and> cv_status y \<noteq> Draft_Revision" by auto
qed

lemma set_status_keeps: "s \<noteq> Draft_Revision \<Longrightarrow> keeps_issued rows (set_status i s rows)"
  by (auto simp: keeps_issued_def set_status_map)

lemma supersede_keeps: "keeps_issued rows (supersede_current t rows)"
  by (simp add: supersede_current_def set_status_keeps split: option.split)

lemma insert_keeps: "insert_revision r rows = Some rows' \<Longrightarrow> keeps_issued rows rows'"
  by (auto simp: insert_revision_def keeps_issued_def split: if_splits)

lemma publish_found_keeps: "keeps_issued rows (fst (publish_found notify t actor found rows))"
proof -
  have "keeps_issued rows (set_status i Published_Revision (supersede_current t rows))" for i
    by (rule keeps_issued_trans [OF supersede_keeps set_status_keeps]) simp
  then show ?thesis by (simp add: publish_found_def Let_def split: option.split)
qed

lemma exec_config_keeps: "keeps_issued rows (exec_config notify op rows)"
proof (cases op)
  case Create_Draft
  then show ?thesis by (auto simp: create_draft_def Let_def split: option.splits intro: insert_keeps)
next
  case Rollback
  then show ?thesis
    by (auto simp: rollback_def Let_def split: option.splits intro: keeps_issued_trans [OF supersede_keeps insert_keeps])
qed (simp_all add: publish_def publish_revision_def publish_found_keeps)

lemma history_steps:
  "history_sound rows \<Longrightarrow> history_sound (fold (exec_config notify) ops rows) \<and> keeps_issued rows (fold (exec_config notify) ops rows)"
proof (induction ops arbitrary: rows)
  case (Cons op ops)
  from Cons.IH [OF exec_config_sound [OF Cons.prems]] keeps_issued_trans [OF exec_config_keeps [of rows notify op]]
  show ?case by simp
qed simp

lemma reachable_sound: "history_sound (fold (exec_config notify) ops [])"
  using history_steps [of "[]" notify ops] by (simp add: history_sound_def)

lemma current_never_falls:
  assumes "history_sound rows" "history_sound rows'" "keeps_issued rows rows'"
  shows "current_number t rows \<le> current_number t rows'"
proof (cases "current_revision t rows")
  case None
  moreover have "0 \<le> current_number t rows'"
    using current_mem [OF assms(2)] assms(2)
    by (auto simp: current_number_def history_sound_def split: option.splits)
  ultimately show ?thesis by (simp add: current_number_def)
next
  case (Some c)
  then have "c \<in> set rows" "cv_tenant c = t" "cv_status c \<noteq> Draft_Revision" using current_mem [OF assms(1)] by auto
  with assms(3) obtain y where y: "y \<in> set rows'" "cv_tenant y = t" "cv_number y = cv_number c" "cv_status y \<noteq> Draft_Revision"
    unfolding keeps_issued_def by force
  obtain d where "current_revision t rows' = Some d" "cv_number y \<le> cv_number d"
    using superseded_below_current [OF assms(2) y(1,2,4)] .
  with Some y show ?thesis by (simp add: current_number_def)
qed

text \<open>
  C38. Whatever drafts, publications and rollbacks are run in whatever order, by any tenants and with any
  notifier, the table stays sound: identities and version numbers are unique, every stored document is a
  valid configuration, a tenant has at most one published revision and it is newer than all the superseded
  ones; the version in force never falls, and a revision that was ever in force keeps its document.
\<close>

theorem configuration_history_is_sound:
  "history_sound (fold (exec_config notify) ops [])
   \<and> (let rows = fold (exec_config notify) ops []; rows' = fold (exec_config notify) (ops @ ops') [] in
      current_number t rows \<le> current_number t rows' \<and> keeps_issued rows rows')"
proof -
  have first: "history_sound (fold (exec_config notify) ops [])" by (rule reachable_sound)
  from history_steps [OF first, of notify ops'] current_never_falls [OF first] first
  show ?thesis by (simp add: Let_def)
qed

section \<open>Rolling back\<close>

lemma superseded_others:
  assumes s: "history_sound rows" and x: "x \<in> set rows" "cv_tenant x \<noteq> t"
  shows "x \<in> set (supersede_current t rows)"
proof (cases "current_revision t rows")
  case (Some c)
  then have c: "c \<in> set rows" "cv_tenant c = t" using current_mem [OF s] by auto
  have "cv_id x \<noteq> cv_id c" using id_unique [OF _ x(1) c(1)] s x c by (auto simp: history_sound_def)
  then have "restatus (cv_id c) Superseded_Revision x = x" by (simp add: restatus_def)
  with x Some show ?thesis by (force simp: supersede_current_def set_status_map)
qed (use x in \<open>simp add: supersede_current_def\<close>)

lemma insert_after_supersede:
  assumes s: "history_sound rows" and fresh: "rid \<notin> cv_id ` set rows"
    and r: "cv_id r = rid" "cv_tenant r = t" "cv_number r = next_version t (supersede_current t rows)"
  shows "insert_revision r (supersede_current t rows) = Some (supersede_current t rows @ [r])"
proof -
  have "\<not> clashes r x" if x: "x \<in> set (supersede_current t rows)" for x
  proof -
    have "cv_id x \<in> cv_id ` set rows" using superseded_rows [OF s x] by (metis image_eqI)
    moreover have "cv_tenant x = t \<Longrightarrow> cv_number x < cv_number r" using next_version_greater [OF x] r by simp
    moreover have "cv_tenant x = t \<Longrightarrow> cv_status x \<noteq> Published_Revision"
      using supersede_nearly [OF s, of t] x by (simp add: nearly_sound_def)
    ultimately show ?thesis using fresh r by (auto simp: clashes_def)
  qed
  then show ?thesis by (auto simp: insert_revision_def list_ex_iff)
qed

lemma above_all:
  assumes s: "history_sound rows" and x: "x \<in> set rows" "cv_tenant x = t"
  shows "cv_number x < next_version t (supersede_current t rows)"
proof -
  have "(t, cv_number x) \<in> set (map (\<lambda>r. (cv_tenant r, cv_number r)) (supersede_current t rows))"
    using x by (auto simp: supersede_current_def restatus_keys simp del: set_map split: option.split) (auto simp: rev_image_eqI)
  then show ?thesis by (auto dest: next_version_greater)
qed

text \<open>
  C39. Rolling back to a revision that was in force succeeds, and puts a new revision in force: its number
  exceeds every earlier one of the tenant, and the deployments, the fallbacks and the model of the direct
  mode it describes are those of the source, though it writes the defaults out. The revisions of other
  tenants are untouched. A notifier that fails does not undo it: the error it ends with names the version.
\<close>

theorem rollback_restores_the_source:
  assumes s: "history_sound rows" and source: "revision_by_version t v rows = Some source" "cv_status source \<noteq> Draft_Revision"
    and fresh: "rid \<notin> cv_id ` set rows"
  shows "case rollback notify t v actor rid now rows of (rows', answer) \<Rightarrow>
    \<exists>r c c'. current_revision t rows' = Some r \<and> cv_document source = Some c \<and> cv_document r = Some c'
      \<and> config_deployments bracket_ok c' = config_deployments bracket_ok c \<and> config_fallbacks c' = config_fallbacks c
      \<and> direct_logical_model c' requested = direct_logical_model c requested
      \<and> (\<forall>x \<in> set rows. if cv_tenant x = t then cv_number x < cv_number r else x \<in> set rows')
      \<and> (let e = \<lparr>pe_tenant = t, pe_version = cv_number r, pe_actor = actor, pe_action = Rollback_Action\<rparr> in
         answer = (if notify e then Revision r else Post_Commit e))"
proof -
  have m: "source \<in> set rows" using revision_by_version_mem [OF source(1)] by simp
  then obtain c where c: "cv_document source = Some c" "platform_ok c" using s by (auto simp: history_sound_def)
  let ?r = "\<lparr>cv_id = rid, cv_tenant = t, cv_number = next_version t (supersede_current t rows), cv_status = Published_Revision,
     cv_document = Some (fill_config c), cv_author = Some actor, cv_at = now\<rparr>"
  have status: "\<not> cv_status source \<notin> {Published_Revision, Superseded_Revision}" using source(2) by (cases "cv_status source") auto
  have ins: "insert_revision ?r (supersede_current t rows) = Some (supersede_current t rows @ [?r])"
    by (rule insert_after_supersede [OF s fresh]) simp_all
  have run: "rollback notify t v actor rid now rows = (supersede_current t rows @ [?r], notified notify
      \<lparr>pe_tenant = t, pe_version = cv_number ?r, pe_actor = actor, pe_action = Rollback_Action\<rparr> ?r)"
    unfolding rollback_def source(1) option.case if_not_P [OF status] Let_def
    by (simp add: validated_document_def c ins)
  have "history_sound (supersede_current t rows @ [?r])" by (rule rolled_back_row_sound [OF s ins, where c = "fill_config c"]) (use c fill_platform_ok in simp_all)
  then have "current_revision t (supersede_current t rows @ [?r]) = Some ?r" by (subst current_mem) auto
  moreover have "direct_logical_model (fill_config c) requested = direct_logical_model c requested"
    unfolding direct_logical_model_def fill_models_fst ..
  ultimately show ?thesis
    unfolding run using c superseded_others [OF s] above_all [OF s]
    by (auto simp: config_deployments_filled config_fallbacks_filled notified_def Let_def)
qed

definition sample_definition :: deployment_definition where
  "sample_definition = \<lparr>dn_provider = ''openai'', dn_model = ''gpt'', dn_api_base = None, dn_secret = ''key'', dn_scope = ''pool'',
     dn_concurrency = Some 4, dn_utilization = None, dn_reserved = None, dn_rpm = None, dn_tpm = None, dn_price_in = None,
     dn_price_out = None, dn_capabilities = None\<rparr>"

definition sample_config :: "string \<Rightarrow> string option option \<Rightarrow> platform_config" where
  "sample_config spare fallback = \<lparr>pc_models = [(''main'', \<lparr>ln_deployments = [sample_definition], ln_fallback = Some (Some spare)\<rparr>),
       (spare, \<lparr>ln_deployments = [sample_definition], ln_fallback = fallback\<rparr>)],
     pc_agents = [\<lparr>an_id = ''writer'', an_role = ascii ''Writer'', an_prompt = ascii ''Write.'', an_model = ''main'', an_skills = None\<rparr>]\<rparr>"

definition sample_history :: "config_revision list" where
  "sample_history = fold (exec_config (\<lambda>_. True))
     [Create_Draft 1 7 (Some (sample_config ''spare'' None)) 100 0, Create_Draft 1 7 (Some (sample_config ''other'' None)) 101 1,
      Publish 1 1 7, Publish_By_Id 1 101 7] []"

theorem rollback_restores_the_source_witness:
  "\<exists>r. current_revision 1 (fst (rollback (\<lambda>_. False) 1 1 7 102 2 sample_history)) = Some r \<and> 2 < cv_number r"
proof -
  have s: "history_sound sample_history"
    unfolding sample_history_def by (rule reachable_sound)
  have v: "map_option cv_status (revision_by_version 1 1 sample_history) = Some Superseded_Revision" by code_simp
  then obtain source where source: "revision_by_version 1 1 sample_history = Some source" "cv_status source \<noteq> Draft_Revision" by auto
  have fresh: "102 \<notin> cv_id ` set sample_history" by code_simp
  have last: "\<exists>x \<in> set sample_history. cv_tenant x = 1 \<and> cv_number x = 2" by code_simp
  show ?thesis
    using rollback_restores_the_source [OF s source fresh, where notify = "\<lambda>_. False" and actor = 7 and now = 2
        and bracket_ok = "\<lambda>_. False" and requested = None] last
    by (cases "rollback (\<lambda>_. False) 1 1 7 102 2 sample_history") auto
qed

section \<open>Running a valid configuration\<close>

lemma split_at_last:
  assumes "c \<notin> set b" "c \<notin> set d"
  shows "a @ c # b = a' @ c # d \<longleftrightarrow> a = a' \<and> b = d"
proof
  assume "a @ c # b = a' @ c # d"
  then have "rev b @ c # rev a = rev d @ c # rev a'" by (metis append.assoc append_Cons append_Nil rev.simps(2) rev_append)
  moreover have "takeWhile (\<lambda>x. x \<noteq> c) (rev y @ c # z) = rev y" if "c \<notin> set y" for y z
    using that by (subst takeWhile_append2) auto
  ultimately have "rev b = rev d" using assms by metis
  with \<open>a @ c # b = a' @ c # d\<close> show "a = a' \<and> b = d" by simp
qed simp

lemma underscore_no_digit: "CHR ''_'' \<notin> set (nat_text n)"
proof
  assume "CHR ''_'' \<in> set (nat_text n)"
  from nat_text_digits [OF this] show False by simp
qed

lemma deployment_id_inject: "n @ ''_'' @ nat_text i = n' @ ''_'' @ nat_text j \<longleftrightarrow> n = n' \<and> i = j"
  using split_at_last [OF underscore_no_digit underscore_no_digit, of n i n' j] by simp

definition indexed :: "platform_config \<Rightarrow> (string \<times> nat \<times> deployment_definition) set" where
  "indexed c = {(n, i, d). \<exists>m. (n, m) \<in> set (pc_models c) \<and> i < length (ln_deployments m) \<and> d = ln_deployments m ! i}"

definition listed :: "platform_config \<Rightarrow> deployment list" where
  "listed c = concat (map numbered_deployments (sort_key fst (pc_models c)))"

lemma set_listed: "set (listed c) = (\<lambda>(n, i, d). to_deployment (n @ ''_'' @ nat_text (Suc i)) n d) ` indexed c" (is "?l = ?r")
proof
  show "?l \<subseteq> ?r"
  proof
    fix x assume "x \<in> ?l"
    then obtain n m i where "(n, m) \<in> set (pc_models c)" "i < length (ln_deployments m)"
      "x = to_deployment (n @ ''_'' @ nat_text (Suc i)) n (ln_deployments m ! i)"
      by (auto simp: listed_def numbered_deployments_def)
    then show "x \<in> ?r" by (intro image_eqI [of _ _ "(n, i, ln_deployments m ! i)"]) (auto simp: indexed_def)
  qed
  show "?r \<subseteq> ?l"
  proof
    fix x assume "x \<in> ?r"
    then obtain n m i where x: "(n, m) \<in> set (pc_models c)" "i < length (ln_deployments m)"
      "x = to_deployment (n @ ''_'' @ nat_text (Suc i)) n (ln_deployments m ! i)"
      by (auto simp: indexed_def)
    then have "x \<in> set (numbered_deployments (n, m))" by (simp add: numbered_deployments_def)
    with x show "x \<in> ?l" by (auto simp: listed_def)
  qed
qed

lemma distinct_map_sort: "distinct (map f (sort_key k xs)) \<longleftrightarrow> distinct (map f xs)"
  by (simp add: distinct_map)

lemma ids_of_numbered: "map dp_id (numbered_deployments (n, m)) = map (\<lambda>i. n @ ''_'' @ nat_text (Suc i)) [0..<length (ln_deployments m)]"
  by (simp add: numbered_deployments_def to_deployment_def)

lemma distinct_ids:
  "distinct (map fst ms) \<Longrightarrow> distinct (map dp_id (concat (map numbered_deployments ms)))"
proof (induction ms)
  case (Cons nm ms)
  obtain n m where nm: "nm = (n, m)" by (cases nm)
  have "distinct (map dp_id (numbered_deployments nm))"
    unfolding nm ids_of_numbered by (simp add: distinct_map inj_on_def)
  moreover have "dp_id ` set (numbered_deployments nm) \<inter> dp_id ` set (concat (map numbered_deployments ms)) = {}"
  proof -
    have "n @ ''_'' @ nat_text i \<noteq> n' @ ''_'' @ nat_text j" if "n' \<in> fst ` set ms" for n' i j
      using that Cons.prems nm deployment_id_inject [of n i n' j] by auto
    then show ?thesis by (fastforce simp: nm numbered_deployments_def to_deployment_def)
  qed
  ultimately show ?case using Cons by simp
qed simp

lemma listed_registry:
  assumes "dict_ok (pc_models c)"
  obtains reg where "mk_registry (listed c) = Some reg" "mr_models reg = grouped (sort_key dp_id (listed c))"
proof -
  have "distinct (map fst (sort_key fst (pc_models c)))" using assms by (simp add: dict_ok_def distinct_map_sort)
  from distinct_ids [OF this] have "distinct (map dp_id (sort_key dp_id (listed c)))"
    by (simp only: listed_def distinct_map_sort)
  then show ?thesis using that by (simp add: mk_registry_def Let_def)
qed

section \<open>What the model layer asks for\<close>

lemma strip_ends:
  assumes "v \<noteq> []"
  shows "v = py_strip v \<longleftrightarrow> \<not> py_space (hd v) \<and> \<not> py_space (last v)"
proof (cases "py_space (hd v)")
  case True
  then obtain x xs where "v = x # xs" "py_space x" using assms by (cases v) auto
  then have "length (py_strip v) \<le> length xs"
    unfolding py_strip_def by (metis dropWhile.simps(2) length_dropWhile_le length_rev order_trans)
  with \<open>v = x # xs\<close> True show ?thesis by auto
next
  case False
  then have front: "dropWhile py_space v = v" using assms by (cases v) auto
  have v: "rev v = last v # rev (butlast v)" using assms by (metis append_butlast_last_id rev.simps(2) rev_swap singleton_rev_conv rev_append append_Cons append_Nil)
  show ?thesis
  proof (cases "py_space (last v)")
    case True
    then have "length (py_strip v) \<le> length (rev (butlast v))"
      unfolding py_strip_def front v using length_dropWhile_le [of py_space "rev (butlast v)"] True by simp
    also have "\<dots> < length v" using assms by (simp add: length_butlast)
    finally show ?thesis using True by auto
  next
    case False
    then have "py_strip v = rev (rev v)" unfolding py_strip_def front v by simp
    with False \<open>\<not> py_space (hd v)\<close> show ?thesis by simp
  qed
qed

lemma unpadded_joined:
  assumes "unpadded 512 a" "unpadded 512 b"
  shows "unpadded 512 (a @ ''/'' @ b) \<longleftrightarrow> length a + 1 + length b \<le> 512"
proof -
  from assms have ends: "a \<noteq> []" "b \<noteq> []" "\<not> py_space (hd a)" "\<not> py_space (last b)"
    by (auto simp: unpadded_def strip_ends)
  then have "a @ ''/'' @ b = py_strip (a @ ''/'' @ b)" by (subst strip_ends) simp_all
  with ends show ?thesis by (simp add: unpadded_def)
qed

lemma provider_prefix: "cut_at ''/'' (a @ ''/'' @ b) = cut_at ''/'' a"
  by (induction a) (simp_all add: cut_at_def)

lemma digit_lower: "c \<in> set (nat_text n) \<Longrightarrow> c \<in> set lower_alnum"
proof -
  assume "c \<in> set (nat_text n)"
  from nat_text_digits [OF this] have "c \<in> char_of ` {48..57::nat}"
    by (intro image_eqI [of _ _ "of_char c"]) auto
  also have "\<dots> \<subseteq> set lower_alnum" by code_simp
  finally show ?thesis .
qed

lemma joined_id_safe:
  assumes "Model_Types.safe_model_id n"
  shows "Model_Types.safe_model_id (n @ ''_'' @ nat_text i) \<longleftrightarrow> length n + 1 + length (nat_text i) \<le> 128"
proof -
  obtain x rest where n: "n = x # rest" using assms by (cases n) (auto simp: Model_Types.safe_model_id_def ident_match_def)
  with assms show ?thesis
    using digit_lower [of _ i] by (auto simp: Model_Types.safe_model_id_def ident_match_def list_all_iff)
qed

lemma to_deployment_ok:
  assumes "definition_ok d" "Model_Types.safe_model_id n"
  shows "deployment_ok b (to_deployment (n @ ''_'' @ nat_text (Suc i)) n d) \<longleftrightarrow> deployable b n i d"
proof -
  have base: "api_base_ok b (case field_or None (dn_api_base d) of None \<Rightarrow> ''http://litellm:4000/v1'' | Some u \<Rightarrow> u)
      \<longleftrightarrow> if_given (api_base_ok b) (dn_api_base d)"
    by (cases "field_or None (dn_api_base d)") (simp_all add: if_given_def, code_simp)
  have caps: "capabilities_of d \<noteq> []" using assms(1) by (auto simp: definition_ok_def)
  show ?thesis
    using assms unpadded_joined [of "dn_provider d" "dn_model d"] base caps
    unfolding deployment_ok_def to_deployment_def deployment.simps provider_prefix joined_id_safe [OF assms(2)] deployable_def
    by (auto simp: definition_ok_def if_given_def)
qed

section \<open>Fallbacks\<close>

lemma set_config_fallbacks: "(n, f) \<in> set (config_fallbacks c) \<longleftrightarrow> (\<exists>m. (n, m) \<in> set (pc_models c) \<and> fallback_of m = Some f)"
  by (force simp: config_fallbacks_def map_filter_def)

lemma distinct_map_filter_fst:
  "distinct (map fst xs) \<Longrightarrow> distinct (map fst (List.map_filter (\<lambda>(n, m). map_option (Pair n) (g m)) xs))"
proof (induction xs)
  case (Cons x xs)
  have "fst ` set (List.map_filter (\<lambda>(n, m). map_option (Pair n) (g m)) xs) \<subseteq> fst ` set xs"
    by (force simp: map_filter_def)
  with Cons show ?case by (cases x) (auto simp: map_filter_simps split: option.splits)
qed (simp add: map_filter_simps)

lemma dict_config_fallbacks: "dict_ok (pc_models c) \<Longrightarrow> distinct (map fst (config_fallbacks c))"
  by (simp add: config_fallbacks_def dict_ok_def distinct_map_filter_fst)

lemma pairs_fine: "fallback_pairs reg fb = None \<longleftrightarrow> (\<forall>(s, t) \<in> set fb. Model_Types.safe_model_id s \<and> Model_Types.safe_model_id t
    \<and> s \<in> fst ` set (mr_models reg) \<and> t \<in> fst ` set (mr_models reg) \<and> s \<noteq> t)"
  by (induction reg fb rule: fallback_pairs.induct) auto

lemma cyclic_walk:
  "cyclic_from fb seen m \<Longrightarrow> (\<And>s. s \<in> set seen \<Longrightarrow> (s, m) \<in> (set fb)\<^sup>+) \<Longrightarrow> \<not> acyclic (set fb)"
proof (induction fb seen m rule: cyclic_from.induct)
  case (1 fb seen m)
  from "1.prems"(1) obtain f where f: "map_of fb m = Some f" by (subst (asm) cyclic_from.simps) (auto split: option.splits)
  then have e: "(m, f) \<in> set fb" by (rule map_of_SomeD)
  show ?case
  proof (cases "m \<in> set seen")
    case True
    then show ?thesis using "1.prems"(2) by (auto simp: acyclic_def)
  next
    case False
    with "1.prems"(1) f have "cyclic_from fb (m # seen) f" by (subst (asm) cyclic_from.simps) simp
    moreover have "(s, f) \<in> (set fb)\<^sup>+" if "s \<in> set (m # seen)" for s
      using that "1.prems"(2) [of s] e by (auto intro: trancl.trancl_into_trancl)
    ultimately show ?thesis by (rule "1.IH" [OF f False])
  qed
qed

lemma loop_found:
  "(m, m) \<in> (set fb)\<^sup>+ \<Longrightarrow> distinct (map fst fb) \<Longrightarrow> cyclic_from fb seen m"
proof (induction fb seen m rule: cyclic_from.induct)
  case (1 fb seen m)
  from "1.prems"(1) obtain f where f: "(m, f) \<in> set fb" "(f, m) \<in> (set fb)\<^sup>*" by (metis tranclD)
  then have g: "map_of fb m = Some f" using "1.prems"(2) by simp
  have "(f, f) \<in> (set fb)\<^sup>+" using f by (metis rtrancl_into_trancl1)
  with "1.IH" [OF g] "1.prems"(2) g show ?case by (subst cyclic_from.simps) simp
qed

lemma validate_acyclic:
  assumes "distinct (map fst fb)"
  shows "list_ex (cyclic_from fb [] \<circ> fst) fb \<longleftrightarrow> \<not> acyclic (set fb)"
proof
  assume "\<not> acyclic (set fb)"
  then obtain m where m: "(m, m) \<in> (set fb)\<^sup>+" by (auto simp: acyclic_def)
  then obtain f where "(m, f) \<in> set fb" by (metis tranclD)
  with loop_found [OF m assms, of "[]"] show "list_ex (cyclic_from fb [] \<circ> fst) fb" by (force simp: list_ex_iff)
qed (auto simp: list_ex_iff dest: cyclic_walk)

section \<open>The registry of a configuration\<close>

lemma models_of_grouped: "fst ` set (grouped (sort_key k ds)) = dp_logical ` set ds"
  by (force simp: grouped_def Let_def)

lemma grouped_get: "n \<in> dp_logical ` set ds \<Longrightarrow> map_of (grouped ds) n = Some (filter (\<lambda>d. dp_logical d = n) ds)"
  by (simp add: grouped_def Let_def map_of_map_restrict)

lemma listed_logical:
  assumes "platform_ok c"
  shows "dp_logical ` set (listed c) = fst ` set (pc_models c)"
proof -
  have "\<exists>i d. (n, i, d) \<in> indexed c" if "(n, m) \<in> set (pc_models c)" for n m
  proof -
    have "0 < length (ln_deployments m)" using assms that by (auto simp: platform_ok_def list_all_iff logical_model_ok_def)
    with that show ?thesis by (force simp: indexed_def)
  qed
  then have "fst ` set (pc_models c) \<subseteq> fst ` indexed c" by force
  moreover have "dp_logical ` set (listed c) = fst ` indexed c"
    unfolding set_listed image_image by (rule image_cong) (auto simp: to_deployment_def)
  moreover have "fst ` indexed c \<subseteq> fst ` set (pc_models c)" by (force simp: indexed_def)
  ultimately show ?thesis by simp
qed

lemma agents_have_text:
  assumes c: "platform_ok c" and a: "a \<in> set (pc_agents c)" and reg: "mr_models reg = grouped (sort_key dp_id (listed c))"
  shows "candidates reg (an_model a) [Cap_Text] \<noteq> None"
proof -
  obtain m where m: "map_of (pc_models c) (an_model a) = Some m" "supports_text m"
    using c a by (fastforce simp: platform_ok_def list_all_iff split: option.splits)
  then obtain i where i: "i < length (ln_deployments m)" "Cap_Text \<in> set (capabilities_of (ln_deployments m ! i))"
    unfolding supports_text_def list_ex_iff by (metis in_set_conv_nth)
  have "(an_model a, i, ln_deployments m ! i) \<in> indexed c" using m i by (auto simp: indexed_def dest: map_of_SomeD)
  then have "to_deployment (an_model a @ ''_'' @ nat_text (Suc i)) (an_model a) (ln_deployments m ! i) \<in> set (listed c)"
    unfolding set_listed by force
  moreover define d where "d = to_deployment (an_model a @ ''_'' @ nat_text (Suc i)) (an_model a) (ln_deployments m ! i)"
  ultimately have d: "d \<in> set (listed c)" "dp_logical d = an_model a" "Cap_Text \<in> set (dp_capabilities d)"
    using i by (simp_all add: to_deployment_def)
  then have "map_of (mr_models reg) (an_model a) = Some (filter (\<lambda>d. dp_logical d = an_model a) (sort_key dp_id (listed c)))"
    unfolding reg by (intro grouped_get) (force intro: rev_image_eqI)
  with d show ?thesis by (auto simp: candidates_def Let_def filter_empty_conv)
qed

text \<open>
  C40. A configuration the schema accepts gives a model registry exactly when it names a model, every
  deployment also satisfies what the model layer asks for and the fallbacks have no cycle, none of which
  the schema checks. The
  registry then has all the logical models and a text deployment for the model of each agent.
\<close>

theorem valid_configuration_runs_when:
  assumes c: "platform_ok c"
  shows "((\<exists>reg. configured_models bracket_ok c = Some reg)
      \<longleftrightarrow> pc_models c \<noteq> [] \<and> (\<forall>(n, i, d) \<in> indexed c. deployable bracket_ok n i d)
        \<and> acyclic (set (config_fallbacks c)))
    \<and> (\<forall>reg. configured_models bracket_ok c = Some reg \<longrightarrow> fst ` set (mr_models reg) = fst ` set (pc_models c)
      \<and> (\<forall>a \<in> set (pc_agents c). candidates reg (an_model a) [Cap_Text] \<noteq> None))"
proof -
  have dict: "dict_ok (pc_models c)" and safe: "\<And>n m. (n, m) \<in> set (pc_models c) \<Longrightarrow> Model_Types.safe_model_id n \<and> logical_model_ok m"
    and fallback: "\<And>nm. nm \<in> set (pc_models c) \<Longrightarrow> fallback_ok c nm"
    using c by (auto simp: platform_ok_def list_all_iff)
  obtain reg where reg: "mk_registry (listed c) = Some reg" "mr_models reg = grouped (sort_key dp_id (listed c))"
    using listed_registry [OF dict] .
  have names: "fst ` set (mr_models reg) = fst ` set (pc_models c)"
    using listed_logical [OF c] by (simp add: reg(2) models_of_grouped)
  have "fallback_pairs reg (config_fallbacks c) = None"
    unfolding pairs_fine names
  proof (clarify)
    fix n f assume "(n, f) \<in> set (config_fallbacks c)"
    then obtain m where m: "(n, m) \<in> set (pc_models c)" "fallback_of m = Some f" by (auto simp: set_config_fallbacks)
    with fallback [OF m(1)] have "f \<noteq> n" "f \<in> fst ` set (pc_models c)" by (simp_all add: fallback_ok_def)
    with safe m show "Model_Types.safe_model_id n \<and> Model_Types.safe_model_id f \<and> n \<in> fst ` set (pc_models c)
        \<and> f \<in> fst ` set (pc_models c) \<and> n \<noteq> f" by force
  qed
  then have chains: "validate_fallbacks reg (config_fallbacks c) = None \<longleftrightarrow> acyclic (set (config_fallbacks c))"
    using validate_acyclic [OF dict_config_fallbacks [OF dict]] by (simp add: validate_fallbacks_def)
  have "definition_ok d \<and> Model_Types.safe_model_id n" if "(n, i, d) \<in> indexed c" for n i d
    using that safe by (force simp: indexed_def logical_model_ok_def list_all_iff)
  then have "list_all (deployment_ok bracket_ok) (listed c) \<longleftrightarrow> (\<forall>(n, i, d) \<in> indexed c. deployable bracket_ok n i d)"
    unfolding list_all_iff set_listed using to_deployment_ok by (fastforce simp: image_iff)
  then have "configured_models bracket_ok c = (if pc_models c \<noteq> [] \<and> (\<forall>(n, i, d) \<in> indexed c. deployable bracket_ok n i d)
      \<and> acyclic (set (config_fallbacks c)) then Some reg else None)"
    by (simp add: configured_models_def config_deployments_def listed_def [symmetric] Let_def reg chains)
  with names agents_have_text [OF c _ reg(2)] show ?thesis by auto
qed

theorem valid_configuration_runs_when_witness:
  "configured_models (\<lambda>_. False) (sample_config ''spare'' (Some (Some ''main''))) = None
   \<and> configured_models (\<lambda>_. False) (sample_config ''spare'' None) \<noteq> None"
proof -
  have valid: "platform_ok (sample_config ''spare'' (Some (Some ''main'')))" "platform_ok (sample_config ''spare'' None)"
    by code_simp+
  have loop: "set (config_fallbacks (sample_config ''spare'' (Some (Some ''main'')))) = {(''main'', ''spare''), (''spare'', ''main'')}"
    by code_simp
  have "(''main'', ''main'') \<in> (set (config_fallbacks (sample_config ''spare'' (Some (Some ''main'')))))\<^sup>+"
    unfolding loop by (rule trancl_into_trancl [of _ "''spare''"]) auto
  then have "\<not> acyclic (set (config_fallbacks (sample_config ''spare'' (Some (Some ''main'')))))" by (auto simp: acyclic_def)
  moreover have "configured_models (\<lambda>_. False) (sample_config ''spare'' None) \<noteq> None" by code_simp
  ultimately show ?thesis
    using valid_configuration_runs_when [OF valid(1), of "\<lambda>_. False"] valid_configuration_runs_when [OF valid(2), of "\<lambda>_. False"]
    by auto
qed

end
