(* ===== verification/Spec2Isabelle.thy ===== *)
theory Spec2Isabelle
  imports Run_State Capability_Policy Run_Guarantees Approval_Service Mode_Confirmation Dispatch_Graph
    Schedule_Guarantees Capacity_Guarantees Gateway_Guarantees Account_Guarantees Submission_Guarantees Channel_Guarantees Config_Guarantees
begin

text \<open>
  CubeAgent (package \<open>agent_hub\<close>, under \<open>src/src/agent_hub\<close>) takes tasks of users, from an HTTP interface or
  from chat channels, decides in which mode an agent runtime should work on each, stores the task as a run,
  lets a worker execute it with models and tools under policies, and keeps what happened in PostgreSQL,
  with Redis for the shared capacity of the models. This development models the parts whose state and rules
  decide whether that is correct, and proves what each promises.

  \<^bold>\<open>How the parts interact.\<close> A message comes in through \<open>channels\<close> (deduplicated, tied to an account, scanned
  for selectors) or through the API and is handed to \<open>RunService.submit\<close>. Submission looks for proposals the
  message makes itself (schedules, skills, computer operations), asks the mode router of \<open>routing\<close> otherwise,
  and creates one run with an outbox entry, or a run that waits for the user with a decision token. The
  outbox is published to workers; a worker claims the run and \<open>execute\<close> stores one event of the runtime's
  stream per transaction. Runtimes call models through the gateway of \<open>models\<close>, which leases capacity from
  the pool, and capabilities through the gateway of \<open>capabilities\<close>, which may suspend the run until its user
  approves. The scheduler submits tasks at their times; \<open>config\<close> says which models there are; \<open>auth\<close> says who
  may do what.

  \<^bold>\<open>Theories, in the order of the code.\<close>

  Shared: \<open>Hub_Prelude\<close> (identifiers, instants, results with an error case, dictionaries in insertion order,
  operations of \<open>str\<close>), \<open>Json_Value\<close> (JSON values, decimal and UUID texts, \<open>json.dumps\<close>), \<open>Task_Texts\<close> (texts of
  any code point, UTF-8).

  Contracts and runs:
  \<^item> \<open>Run_State\<close>: \<open>domain/runs.py\<close>, the statuses and their table of transitions.
  \<^item> \<open>Runtime_Contracts\<close>, \<open>Run_Events\<close>: \<open>runtime/contracts.py\<close>, frozen JSON (C1), artifacts, checkpoints and the
    validator of events, equal to a table (C2).
  \<^item> \<open>Run_Store\<close>: \<open>runs/repository.py\<close> over \<open>db/models.py\<close>; a record of tables, each method a transaction.
    \<open>Run_Invariant\<close>: the invariant \<open>db_ok\<close> and the locale \<open>row_method\<close> for the eight methods that lock a row,
    check it and write it back, interpreted on each of them.
  \<^item> \<open>Run_Observer\<close>: \<open>runs/observer.py\<close>, the monitor of a stream and the storing of its notices.
  \<^item> \<open>Run_Execution\<close>: the control methods, publication and the transactions of \<open>execute\<close> of \<open>runs/service.py\<close>;
    the operations of the store as one step relation with its reachable states.
  \<^item> \<open>Run_Guarantees\<close>: what holds of every history of those operations: soundness (C3), one run under one
    transaction (C4), tenants (C5), mode choices (C6), the outbox (C7), what clients see (C8), and where
    \<open>execute\<close> escapes the rules (C9).
  \<^item> \<open>Run_Proposals\<close>, \<open>Run_Submission\<close>, \<open>Submission_Guarantees\<close>: submission in \<open>runs/service.py\<close>; where a run is
    placed (C31), idempotency (C32), the time of proposed schedules (C33).

  Capabilities: \<open>Capability_Policy\<close> (\<open>capabilities/types.py\<close>, \<open>policy.py\<close>) and \<open>Approval_Service\<close>
  (\<open>capabilities/approvals.py\<close>, \<open>gateway.py\<close>). The service knows the run store through the locale
  \<open>approval_repository\<close> only, interpreted on the modelled store as \<open>run_approvals\<close>; C10 and C11.

  Routing: \<open>Decision_Tokens\<close> (\<open>routing/types.py\<close>; the locale \<open>one_time_tokens\<close>, interpreted on the store in memory;
  C12), \<open>Mode_Router\<close> (\<open>routing/rules.py\<close>, \<open>service.py\<close>; C13), \<open>Mode_Confirmation\<close> (a choice made by the user).

  Plans: \<open>Dispatch_Plan\<close>, \<open>Dispatch_Graph\<close> (\<open>runtime/crew/plan.py\<close>; layers C14, the plan check C15).

  Scheduler: \<open>Schedule_Types\<close> (\<open>scheduler/types.py\<close>, cron search C16), \<open>Scheduler\<close> (\<open>scheduler/service.py\<close>),
  \<open>Schedule_Guarantees\<close> (locales \<open>calendar\<close> and \<open>scheduling\<close> for any rule of next fires, interpreted on the cron
  rules as \<open>cron_schedules\<close>; a tick, C17).

  Models: \<open>Capacity_Scripts\<close> (the Lua scripts of \<open>models/redis\<close> on the keys of a quota scope),
  \<open>Capacity_Admission\<close> (leases C18, rates C19), \<open>Capacity_Registry\<close> (the policies as a refinement of a map, C20),
  \<open>Capacity_Pool\<close>, \<open>Capacity_Operations\<close>, \<open>Capacity_Guarantees\<close> (\<open>models/capacity.py\<close>; leases of an acquire C21, limits
  of the catalog C22), \<open>Model_Types\<close> (\<open>models/types.py\<close>, \<open>registry.py\<close>), \<open>Model_Gateway\<close>, \<open>Gateway_Guarantees\<close>
  (\<open>models/gateway.py\<close>; the locale \<open>capacity_controller\<close>, interpreted on the pool as \<open>pool_leases\<close>; leases C23, the
  order of attempts C24, cancellation C25).

  Accounts: \<open>Access_Control\<close> (\<open>auth/models.py\<close>, \<open>passwords.py\<close>), \<open>Access_Tokens\<close> (\<open>auth/tokens.py\<close>; C30),
  \<open>Account_Service\<close>, \<open>Account_Guarantees\<close> (\<open>auth/service.py\<close>, \<open>user_admin.py\<close>; C26 to C29).

  Channels: \<open>Channel_Messages\<close> (\<open>channels/base.py\<close>, \<open>directives.py\<close>), \<open>Channel_Submitter\<close> (\<open>channels/submitter.py\<close>,
  \<open>identity.py\<close>), \<open>Channel_Delivery\<close> (\<open>channels/gateway.py\<close>, \<open>dedup.py\<close>: deliveries as interleaved steps with failures
  before and after every commit), \<open>Delivery_Guarantees\<close> (C34, C37), \<open>Channel_Guarantees\<close> (the locale
  \<open>keyed_submission\<close>, interpreted on the submitter as \<open>messages\<close>; C35, C36).

  Configuration: \<open>Config_Schema\<close> (\<open>config/schema.py\<close> and the deployments of \<open>runtime/defaults.py\<close>), \<open>Config_Revisions\<close>
  (\<open>config/repository.py\<close>, \<open>service.py\<close>), \<open>Config_Guarantees\<close> (C38 to C40).

  \<^bold>\<open>Conventions.\<close> A method is a function from its arguments and the state to an error or the new state and its
  result; an exception is an error value, and a transaction that raises leaves the state as it was. What is
  drawn or read outside (\<open>uuid4\<close>, the clock, answers of Redis, of models, classifiers, resolvers and
  transports, cancellations) is an argument or a field of a record of functions, so a theorem over all of
  them covers every behaviour; concurrent callers are histories or interleavings of whole transactions.
  Every definition computes; each witness evaluates the code's model on a concrete input.

  \<^bold>\<open>Fuel and bounds.\<close> \<open>acquire\<close> of the pool takes a number of rounds and returns \<open>None\<close> when they do not
  suffice, which stands for waiting on; C21 and C23 speak of calls that end. \<open>tick\<close> takes a number of rounds, and
  C17 proves that one more than the schedules due are enough; the loop over missed fires has 100, and a
  calendar whose fires lie after their reference needs none. The cron search tries 527040 minutes, a leap
  year, as the code does. A heartbeat renews as often as its transport says. \<open>to_double\<close> counts at most 2000
  binary digits of a numerator or denominator, which those of a double do not exceed. A
  reservation of a channel event is attempted twice, as in the code.

  \<^bold>\<open>Where the model is not the program.\<close>
  \<^item> Strings of contracts and identifiers are code points below 256; messages and phrases are lists of code
    points, stored as UTF-8, with the case of ASCII letters only. Digits in a time or a date are ASCII digits.
  \<^item> Floats are exact rationals in the router, in the token buckets (doubles in Lua) and in waiting times;
    only the utilisation of a deployment is rounded like a double. Decimals are exact. An integer of more than
    4300 digits, which CPython refuses to print, has a text.
  \<^item> SHA-256, Argon2, the JWT library, \<open>uuid5\<close>, time zones beyond fixed offsets, the LiteLLM transport and the
    classification of failure reasons are arguments; a hypothesis on one states its documented behaviour (C30:
    what the JWT encoder wrote, its decoder reads back).
  \<^item> Nested models are not validated a second time: their constructors' results pass unchanged. Timestamps of
    tokens are rounded down, which differs from the code before 1970 only.
  \<^item> A lease counts as granted when an answer says so and as given back when the release is sent: an answer
    that is lost and the outcome of a release are outside (\<open>settle\<close>).
  \<^item> Account operations, \<open>submit\<close> and the transactions of a configuration (made sequential by an advisory lock)
    are atomic; one clock serves accounts and tokens; a draw for a new reservation is fresh.

  \<^bold>\<open>Not modelled\<close>: routers and forms of the API, application assembly, vendor channels, the prompting loops of the
  runtimes (their events are arbitrary here), tools, sandboxes, files and media, memory and knowledge stores, the
  cognitive layer, Hermes, observability, and the encryption of secrets. They are translations between
  interfaces, heuristics on texts, or calls into libraries and the operating system.
\<close>

text \<open>
  A run status is terminal (completed, failed or cancelled) exactly when the table allows
  no transition out of it, and every other status can be cancelled at once.
\<close>

theorem status_table_terminal:
  "(terminal s \<longleftrightarrow> (\<forall>t. \<exists>e. transition s t = Inl e))
   \<and> (transition s Cancelled = Inr Cancelled \<longleftrightarrow> \<not> terminal s)"
  by (cases s) (auto simp: transition_def)

end
